(* ===== verification/Prelude.thy ===== *)
theory Prelude
  imports Main "HOL-Library.Word"
begin

text \<open>
  What every component shares: fallible computations as sums (Rust's \<open>Result\<close> and its
  question-mark operator), the 64-bit checked and saturating arithmetic of the standard library,
  and the string operations the server uses. A Rust string is modelled as its list of characters.
  The case-folding, trimming and digit operations below are those of the standard library on
  ASCII text, which is what protocol tokens, language tags, versions and hashes are made of.
\<close>

named_theorems outcome_simps \<open>inversion of fallible computations\<close>
named_theorems text_simps \<open>evaluation of string operations\<close>
named_theorems json_simps \<open>access to JSON objects\<close>

subsection \<open>Fallible computations\<close>

fun and_then :: "'e + 'a \<Rightarrow> ('a \<Rightarrow> 'e + 'b) \<Rightarrow> 'e + 'b" where
  "and_then (Inl e) f = Inl e"
| "and_then (Inr x) f = f x"

fun map_err :: "('e \<Rightarrow> 'f) \<Rightarrow> 'e + 'a \<Rightarrow> 'f + 'a" where
  "map_err f (Inl e) = Inl (f e)"
| "map_err f (Inr x) = Inr x"

fun ok_or :: "'e \<Rightarrow> 'a option \<Rightarrow> 'e + 'a" where
  "ok_or e None = Inl e"
| "ok_or e (Some x) = Inr x"

fun to_option :: "'e + 'a \<Rightarrow> 'a option" where
  "to_option (Inl e) = None"
| "to_option (Inr x) = Some x"

fun or_else :: "'a option \<Rightarrow> 'a option \<Rightarrow> 'a option" where
  "or_else None y = y"
| "or_else (Some x) y = Some x"

fun unwrap_or :: "'a \<Rightarrow> 'a option \<Rightarrow> 'a" where
  "unwrap_or d None = d"
| "unwrap_or d (Some x) = x"

fun if_given :: "('a \<Rightarrow> bool) \<Rightarrow> 'a option \<Rightarrow> bool" where
  "if_given P None = True"
| "if_given P (Some x) = P x"

lemma and_then_Inr [outcome_simps]: "and_then m f = Inr y \<longleftrightarrow> (\<exists>x. m = Inr x \<and> f x = Inr y)"
  by (cases m) auto

lemma and_then_Inl [outcome_simps]:
  "and_then m f = Inl e \<longleftrightarrow> m = Inl e \<or> (\<exists>x. m = Inr x \<and> f x = Inl e)"
  by (cases m) auto

lemma ok_or_Inr [outcome_simps]: "ok_or e m = Inr x \<longleftrightarrow> m = Some x"
  by (cases m) auto

lemma ok_or_Inl [outcome_simps]: "ok_or e m = Inl d \<longleftrightarrow> m = None \<and> d = e"
  by (cases m) auto

lemma map_err_Inr [outcome_simps]: "map_err f m = Inr x \<longleftrightarrow> m = Inr x"
  by (cases m) auto

lemma map_err_Inl [outcome_simps]: "map_err f m = Inl d \<longleftrightarrow> (\<exists>e. m = Inl e \<and> d = f e)"
  by (cases m) auto

lemma or_else_Some [outcome_simps]: "or_else a b = Some x \<longleftrightarrow> a = Some x \<or> (a = None \<and> b = Some x)"
  by (cases a) auto

lemma or_else_None [outcome_simps]: "or_else a b = None \<longleftrightarrow> a = None \<and> b = None"
  by (cases a) auto

subsection \<open>64-bit arithmetic\<close>

type_synonym byte = "8 word"

definition u64_max :: nat where "u64_max = 2 ^ 64 - 1"

definition saturating_sub :: "nat \<Rightarrow> nat \<Rightarrow> nat" where
  "saturating_sub a b = a - b"

definition saturating_add :: "nat \<Rightarrow> nat \<Rightarrow> nat" where
  "saturating_add a b = min (a + b) u64_max"

definition saturating_mul :: "nat \<Rightarrow> nat \<Rightarrow> nat" where
  "saturating_mul a b = min (a * b) u64_max"

definition checked_add :: "nat \<Rightarrow> nat \<Rightarrow> nat option" where
  "checked_add a b = (if a + b \<le> u64_max then Some (a + b) else None)"

definition checked_mul :: "nat \<Rightarrow> nat \<Rightarrow> nat option" where
  "checked_mul a b = (if a * b \<le> u64_max then Some (a * b) else None)"

lemma checked_add_Some [outcome_simps]:
  "checked_add a b = Some c \<longleftrightarrow> a + b \<le> u64_max \<and> c = a + b"
  by (auto simp: checked_add_def)

lemma checked_mul_Some [outcome_simps]:
  "checked_mul a b = Some c \<longleftrightarrow> a * b \<le> u64_max \<and> c = a * b"
  by (auto simp: checked_mul_def)

subsection \<open>Text\<close>

definition is_ws :: "char \<Rightarrow> bool" where
  "is_ws c \<longleftrightarrow> c = CHR '' '' \<or> c = CHR 0x09 \<or> c = CHR 0x0A \<or> c = CHR 0x0B \<or> c = CHR 0x0C \<or> c = CHR 0x0D"

definition trim_start :: "string \<Rightarrow> string" where "trim_start s = dropWhile is_ws s"
definition trim_end :: "string \<Rightarrow> string" where "trim_end s = rev (dropWhile is_ws (rev s))"
definition trim :: "string \<Rightarrow> string" where "trim s = trim_end (trim_start s)"

definition ascii_lower :: "char \<Rightarrow> char" where
  "ascii_lower c = (let n = of_char c :: nat in if 65 \<le> n \<and> n \<le> 90 then char_of (n + 32) else c)"

definition lowercase :: "string \<Rightarrow> string" where "lowercase s = map ascii_lower s"

definition eq_ignore_case :: "string \<Rightarrow> string \<Rightarrow> bool" where
  "eq_ignore_case a b \<longleftrightarrow> lowercase a = lowercase b"

definition is_digit :: "char \<Rightarrow> bool" where
  "is_digit c = (let n = of_char c :: nat in 48 \<le> n \<and> n \<le> 57)"

definition is_alpha :: "char \<Rightarrow> bool" where
  "is_alpha c = (let n = of_char c :: nat in (65 \<le> n \<and> n \<le> 90) \<or> (97 \<le> n \<and> n \<le> 122))"

definition digit_value :: "char \<Rightarrow> nat" where "digit_value c = of_char c - 48"

fun strip_prefix :: "string \<Rightarrow> string \<Rightarrow> string option" where
  "strip_prefix [] s = Some s"
| "strip_prefix (p # ps) [] = None"
| "strip_prefix (p # ps) (c # cs) = (if p = c then strip_prefix ps cs else None)"

fun contains :: "string \<Rightarrow> string \<Rightarrow> bool" where
  "contains sub [] \<longleftrightarrow> sub = []"
| "contains sub (c # cs) \<longleftrightarrow> strip_prefix sub (c # cs) \<noteq> None \<or> contains sub cs"

definition strip_suffix :: "string \<Rightarrow> string \<Rightarrow> string option" where
  "strip_suffix suffix s = map_option rev (strip_prefix (rev suffix) (rev s))"

text \<open>\<open>str::split\<close>: the pieces between separators, one empty piece for an empty string.\<close>

fun split_on :: "(char \<Rightarrow> bool) \<Rightarrow> string \<Rightarrow> string list" where
  "split_on sep [] = [[]]"
| "split_on sep (c # cs) =
     (if sep c then [] # split_on sep cs
      else case split_on sep cs of [] \<Rightarrow> [[c]] | p # ps \<Rightarrow> (c # p) # ps)"

lemma split_on_nonempty [simp]: "split_on sep s \<noteq> []"
  by (induction s) (auto split: list.splits)

definition quoted :: "string \<Rightarrow> string" where
  "quoted s = CHR 0x27 # s @ [CHR 0x27]"

definition double_quoted :: "string \<Rightarrow> string" where
  "double_quoted s = CHR 0x22 # s @ [CHR 0x22]"

fun digits_value :: "nat \<Rightarrow> string \<Rightarrow> nat" where
  "digits_value acc [] = acc"
| "digits_value acc (c # cs) = digits_value (10 * acc + digit_value c) cs"

text \<open>
  \<open>str::parse::<u64>\<close>: an optional plus sign, then at least one digit and nothing else, and a
  value that fits; the same with another bound for the narrower unsigned types.
\<close>

definition parse_unsigned :: "nat \<Rightarrow> string \<Rightarrow> nat option" where
  "parse_unsigned bound s =
     (let d = (case s of c # cs \<Rightarrow> if c = CHR ''+'' then cs else s | [] \<Rightarrow> []) in
      if d \<noteq> [] \<and> list_all is_digit d \<and> digits_value 0 d \<le> bound
      then Some (digits_value 0 d) else None)"

definition parse_u64 :: "string \<Rightarrow> nat option" where "parse_u64 s = parse_unsigned u64_max s"

definition digit_char :: "nat \<Rightarrow> char" where "digit_char n = char_of (48 + n)"

fun decimal :: "nat \<Rightarrow> string" where
  "decimal n = (if n < 10 then [digit_char n] else decimal (n div 10) @ [digit_char (n mod 10)])"

declare decimal.simps [simp del]

lemma digit_char_ok: "n < 10 \<Longrightarrow> is_digit (digit_char n) \<and> digit_value (digit_char n) = n"
  by (auto simp: is_digit_def digit_char_def digit_value_def)

lemma digits_value_append: "digits_value acc (xs @ [c]) = 10 * digits_value acc xs + digit_value c"
  by (induction xs arbitrary: acc) auto

lemma decimal_nonempty [simp]: "decimal n \<noteq> []"
  by (subst decimal.simps) simp

lemma decimal_digits: "list_all is_digit (decimal n) \<and> digits_value 0 (decimal n) = n"
proof (induction n rule: decimal.induct)
  case (1 n)
  show ?case
  proof (cases "n < 10")
    case True
    then show ?thesis by (subst (1 2) decimal.simps) (simp add: digit_char_ok)
  next
    case False
    with 1 have IH: "list_all is_digit (decimal (n div 10))" "digits_value 0 (decimal (n div 10)) = n div 10"
      by auto
    from False have "decimal n = decimal (n div 10) @ [digit_char (n mod 10)]"
      by (subst decimal.simps) simp
    with IH show ?thesis by (simp add: digits_value_append digit_char_ok)
  qed
qed

lemma plus_not_digit: "\<not> is_digit (CHR ''+'')"
  by (simp add: is_digit_def)

lemma parse_unsigned_decimal: "n \<le> bound \<Longrightarrow> parse_unsigned bound (decimal n) = Some n"
proof -
  assume "n \<le> bound"
  moreover have "list_all is_digit (decimal n)" "digits_value 0 (decimal n) = n"
    using decimal_digits by auto
  moreover obtain c cs where "decimal n = c # cs" by (cases "decimal n") auto
  moreover have "c \<noteq> CHR ''+''" using calculation plus_not_digit by auto
  ultimately show ?thesis by (simp add: parse_unsigned_def Let_def)
qed

lemma strip_prefix_Some: "strip_prefix p s = Some r \<longleftrightarrow> s = p @ r"
  by (induction p s rule: strip_prefix.induct) auto

lemma trim_Nil [text_simps]: "trim [] = []"
  by (simp add: trim_def trim_start_def trim_end_def)

lemmas text_defs = trim_def trim_start_def trim_end_def is_ws_def lowercase_def ascii_lower_def
  eq_ignore_case_def is_digit_def digit_value_def

subsection \<open>Lists\<close>

lemma find_Some_set: "List.find P xs = Some x \<Longrightarrow> x \<in> set xs \<and> P x"
  by (induction xs) (auto split: if_splits)

lemma find_None_all: "List.find P xs = None \<longleftrightarrow> (\<forall>x \<in> set xs. \<not> P x)"
  by (induction xs) auto

lemma find_skips: "List.find P (xs @ w # ys) = Some w \<Longrightarrow> w \<notin> set xs \<Longrightarrow> x \<in> set xs \<Longrightarrow> \<not> P x"
  by (induction xs) (auto split: if_splits)

lemma find_dropWhile:
  "List.find P xs = Some w \<Longrightarrow>
     \<exists>us vs. xs = us @ w # vs \<and> tl (dropWhile (\<lambda>x. \<not> P x) xs) = vs \<and> (\<forall>u \<in> set us. \<not> P u) \<and> P w"
proof (induction xs)
  case (Cons x xs)
  show ?case
  proof (cases "P x")
    case True
    with Cons.prems show ?thesis by (intro exI [of _ "[]"] exI [of _ xs]) auto
  next
    case False
    with Cons obtain us vs where "xs = us @ w # vs" "tl (dropWhile (\<lambda>x. \<not> P x) xs) = vs"
      "\<forall>u \<in> set us. \<not> P u" "P w" by auto
    with False show ?thesis by (intro exI [of _ "x # us"] exI [of _ vs]) auto
  qed
qed simp

lemma find_append_first: "List.find P (xs @ ys) = Some w \<Longrightarrow> x \<in> set xs \<Longrightarrow> P x \<Longrightarrow> w \<in> set xs"
  by (induction xs) (auto split: if_splits)

text \<open>In a concatenation of two sorted lists, what follows an element in its own list is larger.\<close>

lemma append_split_sorted:
  fixes w :: "'a::linorder"
  assumes "a @ b = us @ w # vs" "sorted_wrt (<) a" "sorted_wrt (<) b" "distinct (us @ w # vs)"
    and "x \<in> set vs" "(x \<in> set a \<and> w \<in> set a) \<or> (x \<in> set b \<and> w \<in> set b)"
  shows "w \<le> x"
proof -
  from assms(1) consider zs where "a = us @ zs" "zs @ b = w # vs" | zs where "us = a @ zs" "b = zs @ w # vs"
    by (auto simp: append_eq_append_conv2)
  then show ?thesis
  proof cases
    case 1
    show ?thesis
    proof (cases zs)
      case Nil
      with 1 assms show ?thesis by (auto simp: sorted_wrt_append)
    next
      case (Cons z zs')
      with 1 assms show ?thesis by (auto simp: sorted_wrt_append)
    qed
  next
    case 2
    with assms show ?thesis by (auto simp: sorted_wrt_append)
  qed
qed

lemma lowercase_idem [simp]: "lowercase (lowercase s) = lowercase s"
proof -
  have "ascii_lower (ascii_lower c) = ascii_lower c" for c
  proof (cases "65 \<le> (of_char c :: nat) \<and> (of_char c :: nat) \<le> 90")
    case True
    then have "of_char (char_of ((of_char c :: nat) + 32) :: char) = (of_char c :: nat) + 32" by simp
    with True show ?thesis by (simp add: ascii_lower_def Let_def)
  qed (auto simp: ascii_lower_def Let_def)
  then show ?thesis by (simp add: lowercase_def)
qed

lemma eq_ignore_case_refl [simp]: "eq_ignore_case s s"
  by (simp add: eq_ignore_case_def)

lemma eq_ignore_case_sym: "eq_ignore_case a b = eq_ignore_case b a"
  by (auto simp: eq_ignore_case_def)

end
