(* ===== verification/Json.thy ===== *)
theory Json
  imports Complex_Main Prelude
begin

text \<open>
  The JSON values the handlers read and write (\<open>serde_json::Value\<close>). An object is an association
  list; the order of its keys is not observable through the accessors. Integers keep their value;
  an \<open>f64\<close> is the rational it is computed as.
\<close>

datatype json =
    JNull
  | JBool bool
  | JInt int
  | JFloat rat
  | JStr string
  | JArr "json list"
  | JObj "(string \<times> json) list"

text \<open>\<open>Value::get\<close> with a key, and indexing, which reads null for a missing key.\<close>

fun jget :: "string \<Rightarrow> json \<Rightarrow> json option" where
  "jget k (JObj kvs) = map_of kvs k"
| "jget k _ = None"

definition jindex :: "json \<Rightarrow> string \<Rightarrow> json" where
  "jindex v k = (case jget k v of None \<Rightarrow> JNull | Some x \<Rightarrow> x)"

text \<open>Assignment through an index: insert into an object, which null becomes.\<close>

fun jput :: "string \<Rightarrow> json \<Rightarrow> (string \<times> json) list \<Rightarrow> (string \<times> json) list" where
  "jput k x [] = [(k, x)]"
| "jput k x ((k', y) # kvs) = (if k = k' then (k, x) # kvs else (k', y) # jput k x kvs)"

fun jset :: "string \<Rightarrow> json \<Rightarrow> json \<Rightarrow> json" where
  "jset k x (JObj kvs) = JObj (jput k x kvs)"
| "jset k x JNull = JObj [(k, x)]"
| "jset k x v = v"

fun as_str :: "json \<Rightarrow> string option" where
  "as_str (JStr s) = Some s"
| "as_str _ = None"

fun as_bool :: "json \<Rightarrow> bool option" where
  "as_bool (JBool b) = Some b"
| "as_bool _ = None"

fun as_u64 :: "json \<Rightarrow> nat option" where
  "as_u64 (JInt i) = (if 0 \<le> i \<and> i < 2 ^ 64 then Some (nat i) else None)"
| "as_u64 _ = None"

definition as_i64 :: "json \<Rightarrow> int option" where
  "as_i64 v = (case v of JInt i \<Rightarrow> if - (2 ^ 63) \<le> i \<and> i < 2 ^ 63 then Some i else None | _ \<Rightarrow> None)"

fun is_null :: "json \<Rightarrow> bool" where
  "is_null JNull = True"
| "is_null _ = False"

text \<open>\<open>Value::pointer\<close>, over the path split at its slashes; a number indexes an array.\<close>

definition pointer_step :: "string \<Rightarrow> json \<Rightarrow> json option" where
  "pointer_step tok v =
     (case v of
        JObj kvs \<Rightarrow> map_of kvs tok
      | JArr xs \<Rightarrow>
          (if tok \<noteq> [] \<and> list_all is_digit tok \<and> (hd tok = CHR ''0'' \<longrightarrow> length tok = 1)
              \<and> digits_value 0 tok < length xs
           then Some (xs ! digits_value 0 tok) else None)
      | _ \<Rightarrow> None)"

fun pointer :: "string list \<Rightarrow> json \<Rightarrow> json option" where
  "pointer [] v = Some v"
| "pointer (t # ts) v = (case pointer_step t v of None \<Rightarrow> None | Some w \<Rightarrow> pointer ts w)"

definition jopt :: "('a \<Rightarrow> json) \<Rightarrow> 'a option \<Rightarrow> json" where
  "jopt f x = (case x of None \<Rightarrow> JNull | Some y \<Rightarrow> f y)"

lemma map_of_jput [simp, json_simps]: "map_of (jput k x kvs) = (map_of kvs)(k \<mapsto> x)"
  by (induction k x kvs rule: jput.induct) auto

lemma jget_jset [simp, json_simps]:
  "jget k (jset k' x (JObj kvs)) = (if k = k' then Some x else map_of kvs k)"
  by simp

lemma jset_obj: "\<exists>kvs'. jset k x (JObj kvs) = JObj kvs'"
  by simp

lemma jopt_simps [simp, json_simps]: "jopt f None = JNull" "jopt f (Some y) = f y"
  by (simp_all add: jopt_def)

end
