(* ===== verification/Errors.thy ===== *)
theory Errors
  imports Json
begin

text \<open>
  \<open>src/errors.rs\<close>: the error every handler returns, its HTTP response, and the mapping of the
  engine's outcomes. The engine (\<open>transcribe_cpp\<close>) is not part of the repository; its error type
  and transcript appear here with the constructors and fields the server reads, every other
  engine error being its displayed text.
\<close>

record api_error =
  status :: nat
  code :: string
  message :: string
  details :: "json option"

definition api_error_new :: "nat \<Rightarrow> string \<Rightarrow> string \<Rightarrow> api_error" where
  "api_error_new st c m = \<lparr>status = st, code = c, message = m, details = None\<rparr>"

definition with_details :: "json \<Rightarrow> api_error \<Rightarrow> api_error" where
  "with_details d e = e\<lparr>details := Some d\<rparr>"

definition into_response :: "api_error \<Rightarrow> nat \<times> json" where
  "into_response e =
     (let err = JObj [(''code'', JStr (code e)), (''message'', JStr (message e))];
          err = (case details e of None \<Rightarrow> err | Some d \<Rightarrow> jset ''details'' d err)
      in (status e, JObj [(''error'', err)]))"

definition internal :: "string \<Rightarrow> api_error" where
  "internal m = api_error_new 500 ''internal_error'' m"

record timed_text =
  t0_ms :: int
  t1_ms :: int
  tt_text :: string

record transcript =
  tr_text :: string
  tr_language :: "string option"
  tr_segments :: "timed_text list"
  tr_words :: "timed_text list"
  tr_tokens :: "timed_text list"

definition empty_transcript :: transcript where
  "empty_transcript = \<lparr>tr_text = [], tr_language = None, tr_segments = [], tr_words = [], tr_tokens = []\<rparr>"

datatype engine_error =
    OutputTruncated "transcript option"
  | InvalidArgument string
  | Unsupported string
  | InputTooLong string
  | Aborted string
  | Busy string
  | OutOfMemory string
  | OtherError string

datatype run_outcome = Success transcript | Truncated transcript | Failed api_error

fun map_engine_error :: "engine_error \<Rightarrow> api_error" where
  "map_engine_error (InvalidArgument m) = api_error_new 422 ''engine_rejected_option'' m"
| "map_engine_error (Unsupported m) = api_error_new 422 ''engine_unsupported'' m"
| "map_engine_error (InputTooLong m) = api_error_new 413 ''audio_too_long'' m"
| "map_engine_error (Aborted m) = api_error_new 500 ''inference_failed'' m"
| "map_engine_error (Busy m) = api_error_new 503 ''engine_busy'' m"
| "map_engine_error (OutOfMemory m) = api_error_new 507 ''insufficient_memory'' m"
| "map_engine_error (OtherError m) = api_error_new 500 ''inference_failed'' m"
| "map_engine_error (OutputTruncated p) = api_error_new 500 ''inference_failed'' ''output truncated''"

fun classify_run_result :: "engine_error + transcript \<Rightarrow> run_outcome" where
  "classify_run_result (Inr t) = Success t"
| "classify_run_result (Inl (OutputTruncated p)) = Truncated (unwrap_or empty_transcript p)"
| "classify_run_result (Inl e) = Failed (map_engine_error e)"

lemma api_error_new_sel [simp]:
  "status (api_error_new st c m) = st" "code (api_error_new st c m) = c"
  "message (api_error_new st c m) = m" "details (api_error_new st c m) = None"
  by (simp_all add: api_error_new_def)

lemma with_details_sel [simp]:
  "status (with_details d e) = status e" "code (with_details d e) = code e"
  "message (with_details d e) = message e" "details (with_details d e) = Some d"
  by (simp_all add: with_details_def)

lemma internal_sel [simp]: "status (internal m) = 500" "code (internal m) = ''internal_error''"
  by (simp_all add: internal_def)

lemma map_engine_error_status: "400 \<le> status (map_engine_error e) \<and> status (map_engine_error e) < 600"
  by (cases e) simp_all

lemma unsupported_code_iff: "code (map_engine_error e) = ''engine_unsupported'' \<longleftrightarrow> (\<exists>m. e = Unsupported m)"
  by (cases e) simp_all

end
