(* ===== verification/Catalog.thy ===== *)
theory Catalog
  imports Errors
begin

text \<open>
  \<open>src/catalog.rs\<close>: the model catalog's data and the lookups that resolve a model, a quant of it,
  and a file's identity by size and hash.
\<close>

record catalog_file =
  cf_filename :: string
  cf_quant :: string
  cf_size_bytes :: nat
  cf_sha256 :: string

record model_claims =
  cl_streaming :: bool
  cl_translate :: bool
  cl_lang_detect :: bool
  cl_timestamps :: string

record catalog_model =
  cm_id :: string
  cm_revision :: string
  cm_slug :: string
  cm_name :: string
  cm_architecture :: string
  cm_family :: string
  cm_license :: string
  cm_languages :: "string list"
  cm_capabilities :: model_claims
  cm_speed_score :: "nat option"
  cm_accuracy_score :: "nat option"
  cm_files :: "catalog_file list"
  cm_default_quant :: string
  cm_recommended :: bool
  cm_recommended_rank :: "nat option"

definition catalog_model :: "catalog_model list \<Rightarrow> string \<Rightarrow> api_error + catalog_model" where
  "catalog_model catalog i =
     ok_or (api_error_new 404 ''model_not_found'' ''Unknown model ID'')
       (List.find (\<lambda>m. cm_slug m = i) catalog)"

definition resolve_quant :: "catalog_model \<Rightarrow> string option \<Rightarrow> api_error + catalog_file" where
  "resolve_quant m requested =
     (let quant = (case requested of
                     Some v \<Rightarrow> if v \<noteq> [] then v else cm_default_quant m
                   | None \<Rightarrow> cm_default_quant m)
      in ok_or (api_error_new 400 ''invalid_quant''
                  (''Unknown quant '' @ quoted quant @ '' for model '' @ cm_slug m))
           (List.find (\<lambda>f. cf_quant f = quant) (cm_files m)))"

fun catalog_match_by_hash ::
  "catalog_model list \<Rightarrow> nat \<Rightarrow> string \<Rightarrow> (catalog_model \<times> catalog_file) option" where
  "catalog_match_by_hash [] bytes sha = None"
| "catalog_match_by_hash (m # ms) bytes sha =
     (case List.find (\<lambda>f. cf_size_bytes f = bytes \<and> eq_ignore_case (cf_sha256 f) sha) (cm_files m) of
        Some f \<Rightarrow> Some (m, f)
      | None \<Rightarrow> catalog_match_by_hash ms bytes sha)"

lemma catalog_model_Inr:
  "catalog_model catalog i = Inr m \<Longrightarrow> m \<in> set catalog \<and> cm_slug m = i"
  by (auto simp: catalog_model_def outcome_simps dest: find_Some_set)

lemma resolve_quant_Inr:
  "resolve_quant m q = Inr f \<Longrightarrow>
     f \<in> set (cm_files m)
     \<and> cf_quant f = (case q of Some v \<Rightarrow> if v \<noteq> [] then v else cm_default_quant m | None \<Rightarrow> cm_default_quant m)"
  by (auto simp: resolve_quant_def Let_def outcome_simps dest!: find_Some_set)

lemma resolve_quant_Inl:
  "resolve_quant m q = Inl e \<Longrightarrow> status e = 400 \<and> code e = ''invalid_quant''"
  by (auto simp: resolve_quant_def Let_def outcome_simps)

lemma catalog_match_Some:
  "catalog_match_by_hash ms bytes sha = Some (m, f) \<Longrightarrow>
     m \<in> set ms \<and> f \<in> set (cm_files m) \<and> cf_size_bytes f = bytes \<and> eq_ignore_case (cf_sha256 f) sha"
  by (induction ms) (auto split: option.splits dest: find_Some_set)

lemma catalog_match_None:
  "catalog_match_by_hash ms bytes sha = None \<longleftrightarrow>
     (\<forall>m \<in> set ms. \<forall>f \<in> set (cm_files m). \<not> (cf_size_bytes f = bytes \<and> eq_ignore_case (cf_sha256 f) sha))"
  by (induction ms) (auto split: option.splits simp: find_None_all dest!: find_Some_set)

text \<open>
  Identity by content: the lookup finds some catalog file exactly when one has the candidate's
  size and (case-insensitively) its hash, and what it returns is such a file of such a model.
\<close>

theorem catalog_match_complete:
  "(catalog_match_by_hash ms bytes sha \<noteq> None \<longleftrightarrow>
      (\<exists>m \<in> set ms. \<exists>f \<in> set (cm_files m). cf_size_bytes f = bytes \<and> eq_ignore_case (cf_sha256 f) sha))
   \<and> (\<forall>m f. catalog_match_by_hash ms bytes sha = Some (m, f) \<longrightarrow>
        m \<in> set ms \<and> f \<in> set (cm_files m) \<and> cf_size_bytes f = bytes \<and> eq_ignore_case (cf_sha256 f) sha)"
  unfolding catalog_match_None using catalog_match_Some [of ms bytes sha] by simp

definition sample_file :: catalog_file where
  "sample_file = \<lparr>cf_filename = ''m.gguf'', cf_quant = ''Q8_0'', cf_size_bytes = 1000, cf_sha256 = ''abc123''\<rparr>"

definition sample_model :: catalog_model where
  "sample_model = \<lparr>cm_id = ''org/m'', cm_revision = ''r1'', cm_slug = ''m'', cm_name = ''M'',
     cm_architecture = ''whisper'', cm_family = ''whisper'', cm_license = ''mit'', cm_languages = [''en'', ''de''],
     cm_capabilities = \<lparr>cl_streaming = False, cl_translate = True, cl_lang_detect = True, cl_timestamps = ''segment''\<rparr>,
     cm_speed_score = None, cm_accuracy_score = None, cm_files = [sample_file], cm_default_quant = ''Q8_0'',
     cm_recommended = True, cm_recommended_rank = Some 1\<rparr>"

theorem catalog_match_complete_witness:
  "catalog_match_by_hash [sample_model] 1000 ''ABC123'' = Some (sample_model, sample_file)
   \<and> sample_file \<in> set (cm_files sample_model) \<and> eq_ignore_case (cf_sha256 sample_file) ''ABC123''"
proof -
  have "catalog_match_by_hash [sample_model] 1000 ''ABC123'' = Some (sample_model, sample_file)"
    by code_simp
  with catalog_match_complete [of "[sample_model]" 1000 "''ABC123''"] show ?thesis by blast
qed

end
