(* ===== verification/Store.thy ===== *)
theory Store
  imports Catalog "HOL-Library.AList"
begin

text \<open>
  The server's shared state and everything that changes it: the tables of \<open>state.db\<close>
  (\<open>src/store.rs\<close>), the files under the data directory and the loaded model. Every section a task
  runs under the database lock is one \<open>action\<close>, and \<open>perform\<close> is its effect; a run of the server is a
  sequence of actions of its tasks, so what holds of every action holds of every interleaving.
  A row is written in one statement; a failing statement writes nothing. JSON columns hold JSON
  values; times are the milliseconds given to the action.
\<close>

subsection \<open>Rows and files\<close>

record installed =
  in_id :: string
  in_path :: string
  in_sha256 :: string
  in_quant :: "string option"
  in_filename :: "string option"
  in_size_bytes :: "nat option"
  in_source :: string
  in_custom_name :: "string option"
  in_custom_arch :: "string option"
  in_custom_languages :: "json option"
  in_custom_claims :: "json option"
  in_mtime_ms :: "int option"
  in_needs_verification :: bool

record operation =
  o_id :: string
  o_model :: string
  o_kind :: string
  o_state :: string
  o_error :: "string option"
  o_error_code :: "string option"
  o_bytes :: nat
  o_total :: nat
  o_created :: "int option"
  o_updated :: "int option"
  o_finished :: "int option"
  o_items :: nat
  o_total_items :: nat
  o_result :: "json option"

record file_state =
  fi_bytes :: "byte list"
  fi_mtime :: "int option"

record sdata =
  d_installed :: "installed list"
  d_operations :: "operation list"
  d_settings :: "string \<Rightarrow> string option"
  d_files :: "string \<Rightarrow> file_state option"
  d_loaded :: "string option"

definition is_custom :: "installed \<Rightarrow> bool" where "is_custom r \<longleftrightarrow> in_custom_arch r \<noteq> None"

definition source_catalog_download :: string where "source_catalog_download = ''catalog_download''"
definition source_import :: string where "source_import = ''import''"
definition source_user_folder :: string where "source_user_folder = ''user_folder''"
definition source_import_user :: string where "source_import_user = ''import_user''"

definition join :: "string \<Rightarrow> string \<Rightarrow> string" where "join a b = a @ ''/'' @ b"

definition store_path :: "string \<Rightarrow> string \<Rightarrow> string" where
  "store_path dir sha = join (join dir ''models'') (sha @ ''.gguf'')"

definition stage_path :: "string \<Rightarrow> string \<Rightarrow> string" where
  "stage_path dir name = join (join dir ''staging'') (name @ ''.part'')"

definition quarantine_path :: "string \<Rightarrow> string \<Rightarrow> string" where
  "quarantine_path dir name = join (join dir ''quarantine'') (name @ ''.gguf'')"

definition file_size :: "file_state \<Rightarrow> nat" where "file_size f = length (fi_bytes f)"

definition terminal_states :: "string list" where
  "terminal_states = [''completed'', ''failed'', ''cancelled'']"

definition active :: "operation \<Rightarrow> bool" where
  "active r \<longleftrightarrow> o_state r = ''queued'' \<or> o_state r = ''running''"

subsection \<open>Queries\<close>

definition find_operation :: "string \<Rightarrow> sdata \<Rightarrow> operation option" where
  "find_operation i d = List.find (\<lambda>r. o_id r = i) (d_operations d)"

definition find_installed :: "string \<Rightarrow> sdata \<Rightarrow> installed option" where
  "find_installed i d = List.find (\<lambda>r. in_id r = i) (d_installed d)"

definition active_count :: "string \<Rightarrow> sdata \<Rightarrow> nat" where
  "active_count m d = length (filter (\<lambda>r. o_model r = m \<and> active r) (d_operations d))"

definition selected_id :: "sdata \<Rightarrow> string option" where
  "selected_id d = d_settings d ''selected_model''"

definition backend_preference :: "sdata \<Rightarrow> string" where
  "backend_preference d = unwrap_or ''auto'' (d_settings d ''preferred_backend'')"

definition user_models_dir_setting :: "sdata \<Rightarrow> string option" where
  "user_models_dir_setting d = d_settings d ''user_models_dir''"

text \<open>The statement \<open>SELECT id ... WHERE state IN ('queued','running') ORDER BY updated_at DESC LIMIT 1\<close>.\<close>

fun latest :: "operation list \<Rightarrow> operation option" where
  "latest [] = None"
| "latest (r # rs) =
     (case latest rs of
        None \<Rightarrow> Some r
      | Some q \<Rightarrow>
          (case (o_updated r, o_updated q) of
             (None, Some _) \<Rightarrow> Some q
           | (Some a, Some b) \<Rightarrow> if a < b then Some q else Some r
           | _ \<Rightarrow> Some r))"

definition active_operation_id :: "sdata \<Rightarrow> string option" where
  "active_operation_id d = map_option o_id (latest (filter active (d_operations d)))"

subsection \<open>Settings\<close>

record runtime_limits =
  rl_queue_max_waiting :: "nat option"
  rl_queue_wait_timeout_ms :: "nat option"
  rl_inference_timeout_ms :: "nat option"

definition read_setting_u64 :: "sdata \<Rightarrow> string \<Rightarrow> nat option" where
  "read_setting_u64 d k = Option.bind (d_settings d k) parse_u64"

definition read_runtime_limits :: "sdata \<Rightarrow> runtime_limits" where
  "read_runtime_limits d =
     \<lparr>rl_queue_max_waiting = read_setting_u64 d ''queue_max_waiting'',
      rl_queue_wait_timeout_ms = read_setting_u64 d ''queue_wait_timeout_ms'',
      rl_inference_timeout_ms = read_setting_u64 d ''inference_timeout_ms''\<rparr>"

definition validate_positive_limit :: "int option \<Rightarrow> string + nat option" where
  "validate_positive_limit v =
     (case v of None \<Rightarrow> Inr None
      | Some i \<Rightarrow> if i > 0 then Inr (Some (nat i)) else Inl ''must be a positive integer or null'')"

definition read_bind_settings :: "sdata \<Rightarrow> string option \<times> nat option" where
  "read_bind_settings d =
     (d_settings d ''bind_host'', Option.bind (d_settings d ''bind_port'') (parse_unsigned 65535))"

definition validate_bind_port :: "int \<Rightarrow> bool" where
  "validate_bind_port port \<longleftrightarrow> port > 0 \<and> port \<le> 65535"

text \<open>\<open>str::rsplit_once\<close> at a colon.\<close>

definition rsplit_colon :: "string \<Rightarrow> (string \<times> string) option" where
  "rsplit_colon s =
     (if CHR '':'' \<in> set s then
        let tail = rev (takeWhile (\<lambda>c. c \<noteq> CHR '':'') (rev s)) in
        Some (take (length s - length tail - 1) s, tail)
      else None)"

definition is_valid_cors_origin :: "string \<Rightarrow> bool" where
  "is_valid_cors_origin origin =
     (if origin = ''*'' then True
      else case or_else (strip_prefix ''https://'' origin) (strip_prefix ''http://'' origin) of
        None \<Rightarrow> False
      | Some rest \<Rightarrow>
          if rest = [] \<or> CHR ''/'' \<in> set rest \<or> CHR ''@'' \<in> set rest \<or> CHR '' '' \<in> set rest then False
          else (let host_part = (case rsplit_colon rest of
                      None \<Rightarrow> rest
                    | Some (host, port) \<Rightarrow>
                        if port = [] \<or> \<not> list_all is_digit port then rest else host)
                in host_part \<noteq> []))"

text \<open>
  \<open>read_cors_origins_setting\<close> parses the stored text as a JSON array of strings; the parser is the
  argument \<open>from_json\<close>.
\<close>

definition read_cors_origins_setting :: "(string \<Rightarrow> string list option) \<Rightarrow> sdata \<Rightarrow> string list option" where
  "read_cors_origins_setting from_json d = Option.bind (d_settings d ''cors_allowed_origins'') from_json"

definition cors_allowed_origins :: "(string \<Rightarrow> string list option) \<Rightarrow> sdata \<Rightarrow> string list" where
  "cors_allowed_origins from_json d = unwrap_or [] (read_cors_origins_setting from_json d)"

end
