(* ===== verification/Operations.thy ===== *)
theory Operations
  imports Store
begin

text \<open>
  The statements and transactions on the state (\<open>src/operations.rs\<close>, \<open>src/store.rs\<close> and the
  statements of \<open>src/dropin.rs\<close>, \<open>src/import.rs\<close>, \<open>src/verify.rs\<close> and \<open>src/app.rs\<close>), one function
  each, gathered in the type \<open>action\<close>; and what every action keeps: primary keys stay unique, a
  cancelled operation stays cancelled, and only a running operation can be promoted.
\<close>

subsection \<open>Statements on operations\<close>

definition update_operations :: "(operation \<Rightarrow> bool) \<Rightarrow> (operation \<Rightarrow> operation) \<Rightarrow> sdata \<Rightarrow> sdata" where
  "update_operations P f d = d\<lparr>d_operations := map (\<lambda>r. if P r then f r else r) (d_operations d)\<rparr>"

definition insert_operation :: "operation \<Rightarrow> sdata \<Rightarrow> sdata" where
  "insert_operation r d =
     (if find_operation (o_id r) d = None then d\<lparr>d_operations := d_operations d @ [r]\<rparr> else d)"

text \<open>The check for an active operation of the model and the insertion, under one lock.\<close>

definition start_checked :: "operation \<Rightarrow> sdata \<Rightarrow> sdata" where
  "start_checked r d = (if active_count (o_model r) d > 0 then d else insert_operation r d)"

definition set_state ::
    "string \<Rightarrow> string option \<Rightarrow> string option \<Rightarrow> nat \<Rightarrow> int \<Rightarrow> operation \<Rightarrow> operation" where
  "set_state st err ecode bytes now r =
     (let r' = r\<lparr>o_state := st, o_error := err, o_error_code := ecode, o_bytes := bytes, o_updated := Some now\<rparr> in
      if st \<in> set terminal_states then r'\<lparr>o_finished := Some now\<rparr> else r')"

definition update_operation_with_code ::
    "string \<Rightarrow> string \<Rightarrow> string option \<Rightarrow> string option \<Rightarrow> nat \<Rightarrow> int \<Rightarrow> sdata \<Rightarrow> sdata" where
  "update_operation_with_code i st err ecode bytes now =
     update_operations (\<lambda>r. o_id r = i \<and> o_state r \<noteq> ''cancelled'') (set_state st err ecode bytes now)"

definition set_progress_items :: "string \<Rightarrow> nat \<Rightarrow> nat \<Rightarrow> int \<Rightarrow> sdata \<Rightarrow> sdata" where
  "set_progress_items i done_items total_items now =
     update_operations (\<lambda>r. o_id r = i \<and> o_state r \<noteq> ''cancelled'')
       (\<lambda>r. r\<lparr>o_items := done_items, o_total_items := total_items, o_updated := Some now\<rparr>)"

definition set_operation_result :: "string \<Rightarrow> json \<Rightarrow> sdata \<Rightarrow> sdata" where
  "set_operation_result i v = update_operations (\<lambda>r. o_id r = i) (\<lambda>r. r\<lparr>o_result := Some v\<rparr>)"

definition cancel_active :: "string \<Rightarrow> int \<Rightarrow> sdata \<Rightarrow> sdata" where
  "cancel_active i now =
     update_operations (\<lambda>r. o_id r = i \<and> active r)
       (\<lambda>r. r\<lparr>o_state := ''cancelled'', o_error_code := Some ''cancelled'', o_updated := Some now, o_finished := Some now\<rparr>)"

text \<open>The statement of the import guard's \<open>drop\<close>.\<close>

definition interrupt_import :: "string \<Rightarrow> sdata \<Rightarrow> sdata" where
  "interrupt_import i =
     update_operations (\<lambda>r. o_id r = i \<and> active r) (\<lambda>r. r\<lparr>o_state := ''failed'', o_error := Some ''Import interrupted''\<rparr>)"

definition delete_operation :: "string \<Rightarrow> sdata \<Rightarrow> sdata" where
  "delete_operation i d = d\<lparr>d_operations := filter (\<lambda>r. o_id r \<noteq> i) (d_operations d)\<rparr>"

definition interrupt_all :: "int \<Rightarrow> sdata \<Rightarrow> sdata" where
  "interrupt_all now =
     update_operations active
       (\<lambda>r. r\<lparr>o_state := ''failed'', o_error := Some ''Interrupted by service restart'',
            o_updated := Some now, o_finished := Some now\<rparr>)"

subsection \<open>Statements on installed models, settings and files\<close>

definition update_installed :: "(installed \<Rightarrow> bool) \<Rightarrow> (installed \<Rightarrow> installed) \<Rightarrow> sdata \<Rightarrow> sdata" where
  "update_installed P f d = d\<lparr>d_installed := map (\<lambda>r. if P r then f r else r) (d_installed d)\<rparr>"

definition needs_verification :: "string \<Rightarrow> sdata \<Rightarrow> sdata" where
  "needs_verification i = update_installed (\<lambda>r. in_id r = i) (\<lambda>r. r\<lparr>in_needs_verification := True\<rparr>)"

definition mark_verified :: "string \<Rightarrow> int \<Rightarrow> sdata \<Rightarrow> sdata" where
  "mark_verified i mtime =
     update_installed (\<lambda>r. in_id r = i) (\<lambda>r. r\<lparr>in_mtime_ms := Some mtime, in_needs_verification := False\<rparr>)"

definition delete_installed :: "string \<Rightarrow> sdata \<Rightarrow> sdata" where
  "delete_installed i d = d\<lparr>d_installed := filter (\<lambda>r. in_id r \<noteq> i) (d_installed d)\<rparr>"

definition deselect :: "string \<Rightarrow> sdata \<Rightarrow> sdata" where
  "deselect i d =
     (if selected_id d = Some i then d\<lparr>d_settings := (d_settings d)(''selected_model'' := None)\<rparr> else d)"

definition put_setting :: "string \<Rightarrow> string option \<Rightarrow> sdata \<Rightarrow> sdata" where
  "put_setting k v d = d\<lparr>d_settings := (d_settings d)(k := v)\<rparr>"

definition unload_if :: "string \<Rightarrow> sdata \<Rightarrow> sdata" where
  "unload_if i d = (if d_loaded d = Some i then d\<lparr>d_loaded := None\<rparr> else d)"

definition put_data_file :: "string \<Rightarrow> file_state option \<Rightarrow> sdata \<Rightarrow> sdata" where
  "put_data_file p f d = d\<lparr>d_files := (d_files d)(p := f)\<rparr>"

text \<open>\<open>INSERT ... ON CONFLICT(id) DO UPDATE\<close>: the source becomes the drop-in folder either way.\<close>

definition upsert_user_folder_row :: "installed \<Rightarrow> sdata \<Rightarrow> sdata" where
  "upsert_user_folder_row row d =
     (let row' = row\<lparr>in_source := source_user_folder, in_needs_verification := False\<rparr> in
      if find_installed (in_id row) d = None then d\<lparr>d_installed := d_installed d @ [row']\<rparr>
      else update_installed (\<lambda>r. in_id r = in_id row) (\<lambda>_. row') d)"

text \<open>\<open>fs::rename\<close>: it replaces the target.\<close>

definition move_file :: "string \<Rightarrow> string \<Rightarrow> sdata \<Rightarrow> sdata" where
  "move_file a b d = (case d_files d a of None \<Rightarrow> d | Some f \<Rightarrow> put_data_file b (Some f) (put_data_file a None d))"

subsection \<open>Promotion\<close>

text \<open>
  \<open>promote_verified_model_with_source\<close>: one database transaction around the move of the staged
  file. \<open>promote_fault\<close> is the statement or call that fails, if one does; rows written before it are
  rolled back, the move is undone only when the commit fails, and the undoing may fail as well.
\<close>

datatype promote_fault =
    No_fault | Before_insert | Insert_fails | Mtime_fails | Rename_fails | Stamp_fails | Finish_fails
  | Commit_fails bool

record promotion =
  pr_operation :: string
  pr_model :: string
  pr_file :: catalog_file
  pr_stage :: string
  pr_bytes :: nat
  pr_source :: string
  pr_dir :: string
  pr_now :: int

definition promoted_row :: "promotion \<Rightarrow> int \<Rightarrow> installed" where
  "promoted_row p mtime =
     \<lparr>in_id = pr_model p, in_path = store_path (pr_dir p) (cf_sha256 (pr_file p)), in_sha256 = cf_sha256 (pr_file p),
      in_quant = Some (cf_quant (pr_file p)), in_filename = Some (cf_filename (pr_file p)),
      in_size_bytes = Some (cf_size_bytes (pr_file p)), in_source = pr_source p,
      in_custom_name = None, in_custom_arch = None, in_custom_languages = None, in_custom_claims = None,
      in_mtime_ms = Some mtime, in_needs_verification = False\<rparr>"

definition finish_promotion :: "promotion \<Rightarrow> int \<Rightarrow> sdata \<Rightarrow> sdata" where
  "finish_promotion p mtime d =
     update_operations (\<lambda>r. o_id r = pr_operation p)
       (\<lambda>r. r\<lparr>o_state := ''completed'', o_error := None, o_bytes := pr_bytes p,
            o_updated := Some (pr_now p), o_finished := Some (pr_now p)\<rparr>)
       (d\<lparr>d_installed := d_installed d @ [promoted_row p mtime]\<rparr>)"

definition promote :: "promotion \<Rightarrow> promote_fault \<Rightarrow> sdata \<Rightarrow> (string + unit) \<times> sdata" where
  "promote p fault d =
     (let dest = store_path (pr_dir p) (cf_sha256 (pr_file p)) in
      if fault = Before_insert then (Inl ''database error'', d)
      else case find_operation (pr_operation p) d of
        None \<Rightarrow> (Inl ''Query returned no rows'', d)
      | Some r \<Rightarrow>
          if o_state r \<noteq> ''running'' then (Inl (''Operation is '' @ o_state r @ '', not running''), d)
          else if fault = Insert_fails \<or> find_installed (pr_model p) d \<noteq> None then (Inl ''database error'', d)
          else case Option.bind (if fault = Mtime_fails then None else d_files d (pr_stage p)) fi_mtime of
            None \<Rightarrow> (Inl ''I/O error'', d)
          | Some mtime \<Rightarrow>
              if fault = Rename_fails then (Inl ''I/O error'', d)
              else let moved = move_file (pr_stage p) dest d in
                if fault = Stamp_fails \<or> fault = Finish_fails then (Inl ''database error'', moved)
                else case fault of
                  Commit_fails undone \<Rightarrow> (Inl ''database error'', if undone then move_file dest (pr_stage p) moved else moved)
                | _ \<Rightarrow> (Inr (), finish_promotion p mtime moved))"

subsection \<open>Actions\<close>

datatype action =
    Insert_operation operation
  | Start_checked operation
  | Update_operation string string "string option" "string option" nat int
  | Set_items string nat nat int
  | Set_result string json
  | Cancel_active string int
  | Interrupt_import string
  | Delete_operation string
  | Interrupt_all int
  | Promote promotion promote_fault
  | Needs_verification string
  | Mark_verified string int
  | Delete_installed string
  | Deselect string
  | Put_setting string "string option"
  | Upsert_user_folder installed
  | Unload_if string
  | Load "string option"
  | Write_file string "file_state option"
  | Move_file string string

fun perform :: "action \<Rightarrow> sdata \<Rightarrow> sdata" where
  "perform (Insert_operation r) d = insert_operation r d"
| "perform (Start_checked r) d = start_checked r d"
| "perform (Update_operation i st e c b t) d = update_operation_with_code i st e c b t d"
| "perform (Set_items i n m t) d = set_progress_items i n m t d"
| "perform (Set_result i v) d = set_operation_result i v d"
| "perform (Cancel_active i t) d = cancel_active i t d"
| "perform (Interrupt_import i) d = interrupt_import i d"
| "perform (Delete_operation i) d = delete_operation i d"
| "perform (Interrupt_all t) d = interrupt_all t d"
| "perform (Promote p x) d = snd (promote p x d)"
| "perform (Needs_verification i) d = needs_verification i d"
| "perform (Mark_verified i t) d = mark_verified i t d"
| "perform (Delete_installed i) d = delete_installed i d"
| "perform (Deselect i) d = deselect i d"
| "perform (Put_setting k v) d = put_setting k v d"
| "perform (Upsert_user_folder r) d = upsert_user_folder_row r d"
| "perform (Unload_if i) d = unload_if i d"
| "perform (Load m) d = d\<lparr>d_loaded := m\<rparr>"
| "perform (Write_file p f) d = put_data_file p f d"
| "perform (Move_file a b) d = move_file a b d"

fun performs :: "action list \<Rightarrow> sdata \<Rightarrow> sdata" where
  "performs [] d = d"
| "performs (a # as) d = performs as (perform a d)"

lemma performs_append: "performs (as @ bs) d = performs bs (performs as d)"
  by (induction as arbitrary: d) auto

subsection \<open>What every action keeps\<close>

definition tables_ok :: "sdata \<Rightarrow> bool" where
  "tables_ok d \<longleftrightarrow> distinct (map o_id (d_operations d)) \<and> distinct (map in_id (d_installed d))"

named_theorems action_defs \<open>the effect of the actions\<close>

lemmas statement_defs [action_defs] =
  update_operation_with_code_def set_progress_items_def set_operation_result_def cancel_active_def
  interrupt_import_def interrupt_all_def needs_verification_def mark_verified_def deselect_def
  put_setting_def unload_if_def put_data_file_def

lemma update_operations_fields [simp]:
  "d_installed (update_operations P f d) = d_installed d" "d_settings (update_operations P f d) = d_settings d"
  "d_files (update_operations P f d) = d_files d" "d_loaded (update_operations P f d) = d_loaded d"
  by (simp_all add: update_operations_def)

lemma update_installed_fields [simp]:
  "d_operations (update_installed P f d) = d_operations d" "d_settings (update_installed P f d) = d_settings d"
  "d_files (update_installed P f d) = d_files d" "d_loaded (update_installed P f d) = d_loaded d"
  by (simp_all add: update_installed_def)

lemma find_map_cong:
  "(\<And>x. P (g x) = P x) \<Longrightarrow> List.find P (map g xs) = map_option g (List.find P xs)"
  by (induction xs) auto

lemma find_operation_update:
  assumes "\<And>r. P r \<Longrightarrow> o_id (f r) = o_id r"
  shows "find_operation i (update_operations P f d) = map_option (\<lambda>r. if P r then f r else r) (find_operation i d)"
  unfolding find_operation_def update_operations_def using assms by (simp add: find_map_cong)

lemma find_installed_update:
  assumes "\<And>r. P r \<Longrightarrow> in_id (f r) = in_id r"
  shows "find_installed i (update_installed P f d) = map_option (\<lambda>r. if P r then f r else r) (find_installed i d)"
  unfolding find_installed_def update_installed_def using assms by (simp add: find_map_cong)

lemma find_fields [simp]:
  "find_operation i (d\<lparr>d_installed := x\<rparr>) = find_operation i d" "find_operation i (d\<lparr>d_settings := s\<rparr>) = find_operation i d"
  "find_operation i (d\<lparr>d_files := y\<rparr>) = find_operation i d" "find_operation i (d\<lparr>d_loaded := l\<rparr>) = find_operation i d"
  "find_operation i (update_installed P f d) = find_operation i d"
  "find_installed i (d\<lparr>d_operations := z\<rparr>) = find_installed i d" "find_installed i (d\<lparr>d_settings := s\<rparr>) = find_installed i d"
  "find_installed i (d\<lparr>d_files := y\<rparr>) = find_installed i d" "find_installed i (d\<lparr>d_loaded := l\<rparr>) = find_installed i d"
  "find_installed i (update_operations Q g d) = find_installed i d"
  by (simp_all add: find_operation_def find_installed_def)

lemma find_append: "List.find P (xs @ ys) = (case List.find P xs of None \<Rightarrow> List.find P ys | Some x \<Rightarrow> Some x)"
  by (induction xs) auto

lemma find_operation_Some: "find_operation i d = Some r \<Longrightarrow> r \<in> set (d_operations d) \<and> o_id r = i"
  unfolding find_operation_def by (rule find_Some_set)

lemma find_installed_Some: "find_installed i d = Some r \<Longrightarrow> r \<in> set (d_installed d) \<and> in_id r = i"
  unfolding find_installed_def by (rule find_Some_set)

lemma find_operation_None: "find_operation i d = None \<longleftrightarrow> i \<notin> o_id ` set (d_operations d)"
  unfolding find_operation_def find_None_all by auto

lemma find_installed_None: "find_installed i d = None \<longleftrightarrow> i \<notin> in_id ` set (d_installed d)"
  unfolding find_installed_def find_None_all by auto

lemma set_state_id [simp]: "o_id (set_state st e c b t r) = o_id r"
  by (simp add: set_state_def Let_def)

lemma set_state_state [simp]: "o_state (set_state st e c b t r) = st"
  by (simp add: set_state_def Let_def)

lemma move_file_fields [simp]:
  "d_operations (move_file a b d) = d_operations d" "d_installed (move_file a b d) = d_installed d"
  "d_settings (move_file a b d) = d_settings d" "d_loaded (move_file a b d) = d_loaded d"
  by (simp_all add: move_file_def put_data_file_def split: option.splits)

lemma find_move_file [simp]:
  "find_operation i (move_file a b d) = find_operation i d" "find_installed i (move_file a b d) = find_installed i d"
  by (simp_all add: find_operation_def find_installed_def)

lemma ids_update_operations:
  "(\<And>r. P r \<Longrightarrow> o_id (f r) = o_id r) \<Longrightarrow> map o_id (d_operations (update_operations P f d)) = map o_id (d_operations d)"
  by (simp add: update_operations_def)

lemma ids_update_installed:
  "(\<And>r. P r \<Longrightarrow> in_id (f r) = in_id r) \<Longrightarrow> map in_id (d_installed (update_installed P f d)) = map in_id (d_installed d)"
  by (simp add: update_installed_def)

lemma tables_ok_update_operations:
  "(\<And>r. P r \<Longrightarrow> o_id (f r) = o_id r) \<Longrightarrow> tables_ok (update_operations P f d) \<longleftrightarrow> tables_ok d"
  by (simp add: tables_ok_def ids_update_operations)

lemma tables_ok_update_installed:
  "(\<And>r. P r \<Longrightarrow> in_id (f r) = in_id r) \<Longrightarrow> tables_ok (update_installed P f d) \<longleftrightarrow> tables_ok d"
  by (simp add: tables_ok_def ids_update_installed)

lemma tables_ok_insert: "tables_ok d \<Longrightarrow> tables_ok (insert_operation r d)"
  by (auto simp: insert_operation_def tables_ok_def find_operation_None)

text \<open>The result of a promotion, and the state after a successful one.\<close>

lemma promote_Inr:
  "fst (promote p x d) = Inr () \<longleftrightarrow>
     x = No_fault \<and> (\<exists>r. find_operation (pr_operation p) d = Some r \<and> o_state r = ''running'')
     \<and> find_installed (pr_model p) d = None
     \<and> (\<exists>f. d_files d (pr_stage p) = Some f \<and> fi_mtime f \<noteq> None)"
  by (cases x) (auto simp: promote_def Let_def split: option.splits bind_splits)

lemma promote_effect:
  assumes "fst (promote p x d) = Inr ()"
  obtains f mtime where "d_files d (pr_stage p) = Some f" "fi_mtime f = Some mtime"
    "snd (promote p x d) = finish_promotion p mtime (move_file (pr_stage p) (store_path (pr_dir p) (cf_sha256 (pr_file p))) d)"
  using assms by (cases x) (auto simp: promote_def Let_def split: option.splits bind_splits if_splits)

lemma promote_Inl_tables:
  assumes "fst (promote p x d) = Inl e"
  shows "d_installed (snd (promote p x d)) = d_installed d \<and> d_operations (snd (promote p x d)) = d_operations d
     \<and> d_settings (snd (promote p x d)) = d_settings d \<and> d_loaded (snd (promote p x d)) = d_loaded d"
  using assms by (auto simp: promote_def Let_def split: option.splits bind_splits promote_fault.splits if_splits)

lemma finish_promotion_find:
  "find_operation i (finish_promotion p t d) = map_option (\<lambda>r. if o_id r = pr_operation p then
     r\<lparr>o_state := ''completed'', o_error := None, o_bytes := pr_bytes p, o_updated := Some (pr_now p), o_finished := Some (pr_now p)\<rparr>
     else r) (find_operation i d)"
  unfolding finish_promotion_def by (subst find_operation_update) auto

lemma finish_promotion_fields [simp]:
  "d_installed (finish_promotion p t d) = d_installed d @ [promoted_row p t]"
  "d_settings (finish_promotion p t d) = d_settings d" "d_files (finish_promotion p t d) = d_files d"
  "d_loaded (finish_promotion p t d) = d_loaded d"
  by (simp_all add: finish_promotion_def)

lemma tables_ok_promote: "tables_ok d \<Longrightarrow> tables_ok (snd (promote p x d))"
proof (cases "fst (promote p x d)")
  case (Inl e)
  assume "tables_ok d"
  with promote_Inl_tables [OF Inl] show ?thesis by (simp add: tables_ok_def)
next
  case (Inr u)
  then have ok: "fst (promote p x d) = Inr ()" by simp
  assume d: "tables_ok d"
  from promote_effect [OF ok] obtain t where s: "snd (promote p x d) =
      finish_promotion p t (move_file (pr_stage p) (store_path (pr_dir p) (cf_sha256 (pr_file p))) d)" by metis
  from ok have "pr_model p \<notin> in_id ` set (d_installed d)"
    unfolding promote_Inr find_installed_None by blast
  with d show ?thesis
    unfolding s finish_promotion_def by (subst tables_ok_update_operations) (auto simp: tables_ok_def promoted_row_def)
qed

lemma distinct_ids_filter: "distinct (map f xs) \<Longrightarrow> distinct (map f (filter P xs))"
  by (induction xs) auto

lemma tables_ok_other:
  "tables_ok (d\<lparr>d_settings := s\<rparr>) = tables_ok d" "tables_ok (d\<lparr>d_files := y\<rparr>) = tables_ok d"
  "tables_ok (d\<lparr>d_loaded := l\<rparr>) = tables_ok d" "tables_ok (move_file p q d) = tables_ok d"
  "tables_ok d \<Longrightarrow> tables_ok (delete_operation i d)" "tables_ok d \<Longrightarrow> tables_ok (delete_installed i d)"
  by (simp_all add: tables_ok_def delete_operation_def delete_installed_def distinct_ids_filter)

lemma tables_ok_perform: "tables_ok d \<Longrightarrow> tables_ok (perform a d)"
proof (cases a)
  case (Upsert_user_folder r)
  assume d: "tables_ok d"
  show ?thesis
  proof (cases "find_installed (in_id r) d")
    case None
    with d show ?thesis
      by (auto simp: Upsert_user_folder upsert_user_folder_row_def Let_def tables_ok_def find_installed_None)
  next
    case (Some q)
    have "tables_ok (update_installed (\<lambda>q. in_id q = in_id r)
        (\<lambda>_. r\<lparr>in_source := source_user_folder, in_needs_verification := False\<rparr>) d)"
      using d by (subst tables_ok_update_installed) auto
    with Some show ?thesis by (simp add: Upsert_user_folder upsert_user_folder_row_def Let_def)
  qed
qed (auto simp: statement_defs tables_ok_update_operations tables_ok_update_installed tables_ok_promote tables_ok_insert
    tables_ok_other start_checked_def split: option.splits)

lemma tables_ok_performs: "tables_ok d \<Longrightarrow> tables_ok (performs as d)"
  by (induction as arbitrary: d) (auto simp: tables_ok_perform)

text \<open>A cancelled row is not touched again, except by a progress result or by its deletion.\<close>

definition is_cancelled :: "string \<Rightarrow> sdata \<Rightarrow> bool" where
  "is_cancelled i d \<longleftrightarrow> (\<exists>r. find_operation i d = Some r \<and> o_state r = ''cancelled'')"

lemma upsert_fields [simp]:
  "d_operations (upsert_user_folder_row r d) = d_operations d" "d_settings (upsert_user_folder_row r d) = d_settings d"
  "d_files (upsert_user_folder_row r d) = d_files d" "d_loaded (upsert_user_folder_row r d) = d_loaded d"
  by (simp_all add: upsert_user_folder_row_def Let_def)

lemma perform_operations [simp]:
  "d_operations (perform (Needs_verification i) d) = d_operations d"
  "d_operations (perform (Mark_verified i t) d) = d_operations d"
  "d_operations (perform (Delete_installed i) d) = d_operations d"
  "d_operations (perform (Deselect i) d) = d_operations d"
  "d_operations (perform (Put_setting k v) d) = d_operations d"
  "d_operations (perform (Upsert_user_folder row) d) = d_operations d"
  "d_operations (perform (Unload_if i) d) = d_operations d"
  "d_operations (perform (Load m) d) = d_operations d"
  "d_operations (perform (Write_file f x) d) = d_operations d"
  "d_operations (perform (Move_file f g) d) = d_operations d"
  by (simp_all add: statement_defs delete_installed_def)

lemma is_cancelled_perform:
  assumes "is_cancelled i d" "a \<noteq> Delete_operation i"
  shows "is_cancelled i (perform a d)"
proof -
  from assms(1) obtain r where r: "find_operation i d = Some r" "o_state r = ''cancelled''"
    by (auto simp: is_cancelled_def)
  note id = find_operation_Some [OF r(1)]
  have upd: "is_cancelled i (update_operations P f d)" if "\<And>q. P q \<Longrightarrow> o_id (f q) = o_id q" "P r \<Longrightarrow> o_state (f r) = ''cancelled''" for P f
    using r that by (auto simp: is_cancelled_def find_operation_update)
  show ?thesis
  proof (cases a)
    case (Promote p x)
    show ?thesis
    proof (cases "fst (promote p x d)")
      case (Inl e)
      with promote_Inl_tables [OF Inl] assms(1) show ?thesis
        by (simp add: Promote is_cancelled_def find_operation_def)
    next
      case (Inr u)
      then have ok: "fst (promote p x d) = Inr ()" by simp
      with r have "pr_operation p \<noteq> i" by (auto simp: promote_Inr)
      moreover from promote_effect [OF ok] obtain t where "snd (promote p x d) =
          finish_promotion p t (move_file (pr_stage p) (store_path (pr_dir p) (cf_sha256 (pr_file p))) d)" by metis
      ultimately show ?thesis using r id by (simp add: Promote is_cancelled_def finish_promotion_find)
    qed
  next
    case (Delete_operation j)
    with assms(2) have "j \<noteq> i" by simp
    have "List.find (\<lambda>r. o_id r = i) (filter (\<lambda>r. o_id r \<noteq> j) xs) = List.find (\<lambda>r. o_id r = i) xs" for xs :: "operation list"
      using \<open>j \<noteq> i\<close> by (induction xs) auto
    with r show ?thesis by (simp add: Delete_operation is_cancelled_def find_operation_def delete_operation_def)
  next
    case (Start_checked q)
    with r show ?thesis
      by (auto simp: is_cancelled_def start_checked_def insert_operation_def find_operation_def find_append)
  next
    case (Insert_operation q)
    with r show ?thesis
      by (auto simp: is_cancelled_def insert_operation_def find_operation_def find_append)
  next
    case (Update_operation j st e c b t)
    show ?thesis unfolding Update_operation perform.simps update_operation_with_code_def by (rule upd) (use r in auto)
  next
    case (Set_items j n m t)
    show ?thesis unfolding Set_items perform.simps set_progress_items_def by (rule upd) (use r in auto)
  next
    case (Set_result j v)
    show ?thesis unfolding Set_result perform.simps set_operation_result_def by (rule upd) (use r in auto)
  next
    case (Cancel_active j t)
    show ?thesis unfolding Cancel_active perform.simps cancel_active_def by (rule upd) (use r in auto)
  next
    case (Interrupt_import j)
    show ?thesis unfolding Interrupt_import perform.simps interrupt_import_def by (rule upd) (use r in \<open>auto simp: active_def\<close>)
  next
    case (Interrupt_all t)
    show ?thesis unfolding Interrupt_all perform.simps interrupt_all_def by (rule upd) (use r in \<open>auto simp: active_def\<close>)
  qed (use assms(1) in \<open>simp_all add: is_cancelled_def find_operation_def del: perform.simps\<close>)
qed

lemma is_cancelled_performs:
  "is_cancelled i d \<Longrightarrow> Delete_operation i \<notin> set as \<Longrightarrow> is_cancelled i (performs as d)"
proof (induction as arbitrary: d)
  case (Cons a as)
  then have "is_cancelled i (perform a d)" by (intro is_cancelled_perform) auto
  with Cons show ?case by simp
qed simp


end
