(* ===== verification/Tasks.thy ===== *)
theory Tasks
  imports Operations
begin

text \<open>
  Tasks: the handlers and the background workers, as programs whose steps are the sections they run
  under the database lock and their calls to the file system and the network. Before every step the
  other tasks may have performed any actions that leave this task's operation (cancelling it apart)
  and its staging file alone; every step may fail. Both, and every answer from outside, come from the
  script, over which the theorems quantify. The lemmas compute weakest preconditions of tasks.
\<close>

datatype chunk_outcome = Chunk "byte list" | Chunk_timeout | Chunk_error string
datatype dir_listing = Dir_missing | Entries "(string \<times> bool) option list"
datatype send_outcome = Sent nat string "string option" "chunk_outcome list" | Send_timeout | Send_error string

record step_event =
  se_fault :: "string option"
  se_others :: "action list"
  se_now :: int
  se_elapsed :: nat
  se_torn :: nat
  se_promote :: promote_fault
  se_send :: send_outcome
  se_free :: nat
  se_listing :: dir_listing

record task_state =
  ts_data :: sdata
  ts_script :: "nat \<Rightarrow> step_event"
  ts_step :: nat
  ts_own :: string
  ts_stage :: string

type_synonym ('e, 'a) task = "task_state \<Rightarrow> ('e + 'a) \<times> task_state"

subsection \<open>What other tasks may do\<close>

fun operation_of :: "action \<Rightarrow> string option" where
  "operation_of (Insert_operation r) = Some (o_id r)"
| "operation_of (Start_checked r) = Some (o_id r)"
| "operation_of (Update_operation i _ _ _ _ _) = Some i"
| "operation_of (Set_items i _ _ _) = Some i"
| "operation_of (Set_result i _) = Some i"
| "operation_of (Interrupt_import i) = Some i"
| "operation_of (Delete_operation i) = Some i"
| "operation_of (Promote p _) = Some (pr_operation p)"
| "operation_of _ = None"

fun moves :: "action \<Rightarrow> string list" where
  "moves (Write_file p _) = [p]"
| "moves (Move_file a b) = [a, b]"
| "moves (Promote p _) = [pr_stage p, store_path (pr_dir p) (cf_sha256 (pr_file p))]"
| "moves _ = []"

fun restarts :: "action \<Rightarrow> bool" where
  "restarts (Interrupt_all _) = True"
| "restarts _ = False"

definition foreign :: "string \<Rightarrow> string \<Rightarrow> action \<Rightarrow> bool" where
  "foreign own stage a \<longleftrightarrow>
     operation_of a \<noteq> Some own \<and> stage \<notin> set (moves a) \<and> \<not> restarts a"

definition others :: "task_state \<Rightarrow> action list" where
  "others w = filter (foreign (ts_own w) (ts_stage w)) (se_others (ts_script w (ts_step w)))"

definition arrive :: "task_state \<Rightarrow> task_state" where
  "arrive w = w\<lparr>ts_data := performs (others w) (ts_data w), ts_step := ts_step w + 1\<rparr>"

subsection \<open>The combinators\<close>

definition t_return :: "'a \<Rightarrow> ('e, 'a) task" where "t_return x w = (Inr x, w)"
definition t_fail :: "'e \<Rightarrow> ('e, 'a) task" where "t_fail e w = (Inl e, w)"

definition t_bind :: "('e, 'a) task \<Rightarrow> ('a \<Rightarrow> ('e, 'b) task) \<Rightarrow> ('e, 'b) task" where
  "t_bind m f w = (case m w of (Inl e, w') \<Rightarrow> (Inl e, w') | (Inr x, w') \<Rightarrow> f x w')"

definition t_then :: "('e, 'a) task \<Rightarrow> ('e, 'b) task \<Rightarrow> ('e, 'b) task" where "t_then m n = t_bind m (\<lambda>_. n)"

definition t_catch :: "('e, 'a) task \<Rightarrow> ('f, 'e + 'a) task" where
  "t_catch m w = (case m w of (r, w') \<Rightarrow> (Inr r, w'))"

definition t_map_err :: "('e \<Rightarrow> 'f) \<Rightarrow> ('e, 'a) task \<Rightarrow> ('f, 'a) task" where
  "t_map_err f m w = (case m w of (r, w') \<Rightarrow> (map_err f r, w'))"

definition t_lift :: "'e + 'a \<Rightarrow> ('e, 'a) task" where "t_lift r w = (r, w)"

definition t_when :: "bool \<Rightarrow> ('e, unit) task \<Rightarrow> ('e, unit) task" where
  "t_when b m = (if b then m else t_return ())"

text \<open>A result thrown away with \<open>let _ =\<close>.\<close>

definition t_ignore :: "('e, 'a) task \<Rightarrow> ('f, unit) task" where
  "t_ignore m = t_bind (t_catch m) (\<lambda>_. t_return ())"

text \<open>
  One step: the answer is computed from the state it finds, and the actions are performed; a failing
  step may leave a trace, the actions \<open>torn\<close>.
\<close>

definition act_torn ::
    "(step_event \<Rightarrow> sdata \<Rightarrow> action list) \<Rightarrow> (step_event \<Rightarrow> sdata \<Rightarrow> string + 'a) \<Rightarrow>
     (step_event \<Rightarrow> sdata \<Rightarrow> action list) \<Rightarrow> (string, 'a) task" where
  "act_torn torn answer actions w =
     (let e = ts_script w (ts_step w); w1 = arrive w; d = ts_data w1 in
      case se_fault e of
        Some msg \<Rightarrow> (Inl msg, w1\<lparr>ts_data := performs (torn e d) d\<rparr>)
      | None \<Rightarrow> (answer e d, w1\<lparr>ts_data := performs (actions e d) d\<rparr>))"

definition act :: "(step_event \<Rightarrow> sdata \<Rightarrow> string + 'a) \<Rightarrow> (step_event \<Rightarrow> sdata \<Rightarrow> action list) \<Rightarrow> (string, 'a) task" where
  "act = act_torn (\<lambda>e d. [])"

definition query :: "(sdata \<Rightarrow> 'a) \<Rightarrow> (string, 'a) task" where
  "query f = act (\<lambda>e d. Inr (f d)) (\<lambda>e d. [])"

definition ask :: "(step_event \<Rightarrow> 'a) \<Rightarrow> ('e, 'a) task" where
  "ask f w = (Inr (f (ts_script w (ts_step w))), arrive w)"

definition statement :: "(step_event \<Rightarrow> action) \<Rightarrow> (string, unit) task" where
  "statement a = act (\<lambda>e d. Inr ()) (\<lambda>e d. [a e])"

definition update_operation_task ::
    "string \<Rightarrow> string \<Rightarrow> string option \<Rightarrow> string option \<Rightarrow> nat \<Rightarrow> (string, unit) task" where
  "update_operation_task i st err ecode bytes =
     statement (\<lambda>e. Update_operation i st err ecode bytes (se_now e))"

definition operation_state :: "string \<Rightarrow> (string, string option) task" where
  "operation_state i = query (\<lambda>d. map_option o_state (find_operation i d))"

definition installed_file :: "string \<Rightarrow> (string, installed option) task" where
  "installed_file i = query (find_installed i)"

text \<open>\<open>fs::metadata\<close>, a modification time, and reading a file to hash it.\<close>

definition file_at :: "string \<Rightarrow> (string, file_state) task" where
  "file_at p = act (\<lambda>e d. ok_or ''not found'' (d_files d p)) (\<lambda>e d. [])"

definition sha256_of :: "(byte list \<Rightarrow> string) \<Rightarrow> string \<Rightarrow> (string, string) task" where
  "sha256_of sha256 p = t_bind (file_at p) (\<lambda>f. t_return (sha256 (fi_bytes f)))"

definition mtime_of :: "string \<Rightarrow> (string, int) task" where
  "mtime_of p = t_bind (file_at p) (\<lambda>f. t_lift (ok_or ''no modification time'' (fi_mtime f)))"

definition size_of :: "string \<Rightarrow> (string, nat) task" where
  "size_of p = t_bind (file_at p) (\<lambda>f. t_return (file_size f))"

definition rename_task :: "string \<Rightarrow> string \<Rightarrow> (string, unit) task" where
  "rename_task a b = act (\<lambda>e d. if d_files d a = None then Inl ''not found'' else Inr ()) (\<lambda>e d. [Move_file a b])"

definition remove_task_file :: "string \<Rightarrow> (string, unit) task" where
  "remove_task_file p = statement (\<lambda>e. Write_file p None)"

definition promote_task :: "(int \<Rightarrow> promotion) \<Rightarrow> (string, unit) task" where
  "promote_task p = act (\<lambda>e d. fst (promote (p (se_now e)) (se_promote e) d))
     (\<lambda>e d. [Promote (p (se_now e)) (se_promote e)])"

subsection \<open>Weakest preconditions\<close>

definition twp :: "('e, 'a) task \<Rightarrow> ('a \<Rightarrow> task_state \<Rightarrow> bool) \<Rightarrow> ('e \<Rightarrow> task_state \<Rightarrow> bool) \<Rightarrow> task_state \<Rightarrow> bool" where
  "twp m Q E w = (case m w of (Inr x, w') \<Rightarrow> Q x w' | (Inl e, w') \<Rightarrow> E e w')"

named_theorems twp_simps \<open>weakest preconditions of tasks\<close>

lemma twp_bind [twp_simps]: "twp (t_bind m f) Q E = twp m (\<lambda>x. twp (f x) Q E) E"
  by (rule ext) (auto simp: twp_def t_bind_def split: prod.splits sum.splits)

lemma twp_then [twp_simps]: "twp (t_then m n) Q E = twp m (\<lambda>_. twp n Q E) E"
  by (simp add: t_then_def twp_bind)

lemma twp_basic [twp_simps]:
  "twp (t_return x) Q E = Q x" "twp (t_fail e) Q E = E e"
  "twp (t_catch m) R F = twp m (\<lambda>x. R (Inr x)) (\<lambda>e. R (Inl e))"
  "twp (t_map_err g m) Q E = twp m Q (\<lambda>e. E (g e))"
  "twp (t_ignore m) U F = twp m (\<lambda>_. U ()) (\<lambda>_. U ())"
  by (auto simp: fun_eq_iff twp_def t_return_def t_fail_def t_catch_def t_map_err_def t_ignore_def t_bind_def
      split: prod.splits sum.splits)

lemma twp_lift [twp_simps]: "twp (t_lift r) Q E = (\<lambda>w. case r of Inl e \<Rightarrow> E e w | Inr x \<Rightarrow> Q x w)"
  by (auto simp: fun_eq_iff twp_def t_lift_def split: sum.splits)

lemma twp_mono:
  assumes "twp m Q E w" "\<And>x w'. Q x w' \<Longrightarrow> Q' x w'" "\<And>e w'. E e w' \<Longrightarrow> E' e w'"
  shows "twp m Q' E' w"
  using assms by (auto simp: twp_def split: prod.splits sum.splits)

lemma twp_act_torn:
  "twp (act_torn torn answer actions) Q E w \<longleftrightarrow>
     (let d = performs (others w) (ts_data w); e = ts_script w (ts_step w) in
      case se_fault e of
        Some msg \<Rightarrow> E msg ((arrive w)\<lparr>ts_data := performs (torn e d) d\<rparr>)
      | None \<Rightarrow>
          (let w' = (arrive w)\<lparr>ts_data := performs (actions e d) d\<rparr> in
           case answer e d of Inl msg \<Rightarrow> E msg w' | Inr x \<Rightarrow> Q x w'))"
  by (auto simp: twp_def act_torn_def arrive_def Let_def split: option.splits sum.splits prod.splits)

lemma twp_ask [twp_simps]: "twp (ask f) Q E = (\<lambda>w. Q (f (ts_script w (ts_step w))) (arrive w))"
  by (simp add: fun_eq_iff twp_def ask_def)

lemma arrive_fields [simp]:
  "ts_script (arrive w) = ts_script w" "ts_own (arrive w) = ts_own w" "ts_stage (arrive w) = ts_stage w"
  "ts_data (arrive w) = performs (others w) (ts_data w)"
  by (simp_all add: arrive_def)

subsection \<open>Tasks as sequences of actions\<close>

text \<open>
  \<open>only A m\<close>: if what the other tasks do is within \<open>A\<close>, the state after \<open>m\<close> is the state before it
  after some sequence of actions in \<open>A\<close>.
\<close>

definition script_within :: "(action \<Rightarrow> bool) \<Rightarrow> task_state \<Rightarrow> bool" where
  "script_within A w \<longleftrightarrow>
     (\<forall>n. \<forall>a \<in> set (se_others (ts_script w n)). foreign (ts_own w) (ts_stage w) a \<longrightarrow> A a)"

definition only :: "(action \<Rightarrow> bool) \<Rightarrow> ('e, 'a) task \<Rightarrow> bool" where
  "only A m \<longleftrightarrow> (\<forall>w. script_within A w \<longrightarrow>
     ts_script (snd (m w)) = ts_script w \<and> ts_own (snd (m w)) = ts_own w \<and> ts_stage (snd (m w)) = ts_stage w
     \<and> (\<exists>as. (\<forall>a \<in> set as. A a) \<and> ts_data (snd (m w)) = performs as (ts_data w)))"

named_theorems only_intros \<open>tasks that perform only given actions\<close>

lemma onlyD:
  assumes "only A m" "script_within A w"
  obtains as where "\<forall>a \<in> set as. A a" "ts_data (snd (m w)) = performs as (ts_data w)"
  using assms by (auto simp: only_def)

lemma only_bind [only_intros]:
  assumes "only A m" "\<And>x. only A (f x)"
  shows "only A (t_bind m f)"
  unfolding only_def
proof (intro allI impI)
  fix w assume w: "script_within A w"
  obtain r w' where m: "m w = (r, w')" by force
  from assms(1) w m obtain as where 1: "ts_script w' = ts_script w" "ts_own w' = ts_own w" "ts_stage w' = ts_stage w"
    "\<forall>a \<in> set as. A a" "ts_data w' = performs as (ts_data w)" by (auto simp: only_def)
  show "ts_script (snd (t_bind m f w)) = ts_script w \<and> ts_own (snd (t_bind m f w)) = ts_own w
    \<and> ts_stage (snd (t_bind m f w)) = ts_stage w
    \<and> (\<exists>as. (\<forall>a \<in> set as. A a) \<and> ts_data (snd (t_bind m f w)) = performs as (ts_data w))"
  proof (cases r)
    case (Inl e)
    with m 1 show ?thesis by (auto simp: t_bind_def)
  next
    case (Inr x)
    have "script_within A w'" using w 1(1-3) by (simp add: script_within_def)
    with assms(2) [of x] obtain bs where 2: "ts_script (snd (f x w')) = ts_script w'" "ts_own (snd (f x w')) = ts_own w'"
      "ts_stage (snd (f x w')) = ts_stage w'" "\<forall>a \<in> set bs. A a" "ts_data (snd (f x w')) = performs bs (ts_data w')"
      by (auto simp: only_def)
    have "ts_data (snd (f x w')) = performs (as @ bs) (ts_data w)" using 1 2 by (simp add: performs_append)
    moreover have "\<forall>a \<in> set (as @ bs). A a" using 1 2 by auto
    ultimately show ?thesis using m Inr 1(1-3) 2(1-3)
      by (simp add: t_bind_def) (intro exI [of _ "as @ bs"], simp)
  qed
qed

lemma only_then [only_intros]: "only A m \<Longrightarrow> only A n \<Longrightarrow> only A (t_then m n)"
  unfolding t_then_def by (intro only_intros)

lemma only_basic [only_intros]: "only A (t_return x)" "only A (t_fail e)" "only A (t_lift r)"
  by (auto simp: only_def t_return_def t_fail_def t_lift_def intro: exI [of _ "[]"])

lemma only_wrap [only_intros]:
  "only A m \<Longrightarrow> only A (t_catch m)" "only A m \<Longrightarrow> only A (t_map_err g m)"
  by (auto simp: only_def t_catch_def t_map_err_def split: prod.splits) (metis snd_conv)+

lemma only_ignore [only_intros]: "only A m \<Longrightarrow> only A (t_ignore m)"
  unfolding t_ignore_def by (intro only_intros)

lemma only_cond [only_intros]:
  "(b \<Longrightarrow> only A m) \<Longrightarrow> (\<not> b \<Longrightarrow> only A n) \<Longrightarrow> only A (if b then m else n)"
  "(b \<Longrightarrow> only A u) \<Longrightarrow> only A (t_when b u)"
  by (auto simp: t_when_def only_basic)

lemma only_cases [only_intros]:
  "only A m \<Longrightarrow> (\<And>x. only A (n x)) \<Longrightarrow> only A (case z of None \<Rightarrow> m | Some x \<Rightarrow> n x)"
  "(\<And>x. only A (l x)) \<Longrightarrow> (\<And>x. only A (r x)) \<Longrightarrow> only A (case s of Inl x \<Rightarrow> l x | Inr x \<Rightarrow> r x)"
  "(\<And>x y. only A (g x y)) \<Longrightarrow> only A (case p of (x, y) \<Rightarrow> g x y)"
  by (cases z; cases s; cases p; simp)+

lemma only_arrive: "script_within A w \<Longrightarrow> \<exists>as. (\<forall>a \<in> set as. A a) \<and> ts_data (arrive w) = performs as (ts_data w)"
  by (rule exI [of _ "others w"]) (auto simp: others_def script_within_def)

lemma only_act_torn [only_intros]:
  assumes "\<And>e d a. a \<in> set (torn e d) \<Longrightarrow> A a" "\<And>e d a. a \<in> set (actions e d) \<Longrightarrow> A a"
  shows "only A (act_torn torn answer actions)"
  unfolding only_def
proof (intro allI impI)
  fix w assume w: "script_within A w"
  from only_arrive [OF w] obtain as where as: "\<forall>a \<in> set as. A a" "ts_data (arrive w) = performs as (ts_data w)" by blast
  let ?m = "act_torn torn answer actions"
  let ?e = "ts_script w (ts_step w)"
  let ?bs = "(case se_fault ?e of None \<Rightarrow> actions | Some _ \<Rightarrow> torn) ?e (ts_data (arrive w))"
  have "ts_data (snd (?m w)) = performs (as @ ?bs) (ts_data w)"
    using as by (auto simp: act_torn_def Let_def performs_append split: option.splits)
  moreover have "\<forall>a \<in> set (as @ ?bs). A a" using as assms by (auto split: option.splits)
  moreover have "ts_script (snd (?m w)) = ts_script w \<and> ts_own (snd (?m w)) = ts_own w
      \<and> ts_stage (snd (?m w)) = ts_stage w"
    by (auto simp: act_torn_def Let_def split: option.splits)
  ultimately show "ts_script (snd (?m w)) = ts_script w \<and> ts_own (snd (?m w)) = ts_own w
    \<and> ts_stage (snd (?m w)) = ts_stage w
    \<and> (\<exists>as. (\<forall>a \<in> set as. A a) \<and> ts_data (snd (?m w)) = performs as (ts_data w))" by blast
qed

lemma only_act [only_intros]:
  "(\<And>e d a. a \<in> set (actions e d) \<Longrightarrow> A a) \<Longrightarrow> only A (act answer actions)"
  unfolding act_def by (rule only_act_torn) auto

lemma only_ask [only_intros]: "only A (ask f)"
  unfolding only_def using only_arrive by (auto simp: ask_def)

lemma only_query [only_intros]: "only A (query f)"
  unfolding query_def by (intro only_intros) simp

lemma only_statement [only_intros]: "(\<And>e. A (a e)) \<Longrightarrow> only A (statement a)"
  unfolding statement_def by (intro only_intros) simp

lemma only_reads [only_intros]:
  "only A (operation_state i)" "only A (installed_file i)" "only A (file_at p)" "only A (sha256_of h p)"
  "only A (mtime_of p)" "only A (size_of p)"
  unfolding operation_state_def installed_file_def file_at_def sha256_of_def mtime_of_def size_of_def
  by (intro only_intros; simp)+

lemma only_writes [only_intros]:
  "(\<And>t. A (Update_operation i st err c b t)) \<Longrightarrow> only A (update_operation_task i st err c b)"
  "A (Move_file p q) \<Longrightarrow> only A (rename_task p q)"
  "A (Write_file p None) \<Longrightarrow> only A (remove_task_file p)"
  "(\<And>t x. A (Promote (pr t) x)) \<Longrightarrow> only A (promote_task pr)"
  unfolding update_operation_task_def rename_task_def remove_task_file_def promote_task_def
  by (intro only_intros; simp)+

end
