(* ===== verification/Auth.thy ===== *)
theory Auth
  imports Errors
begin

text \<open>
  \<open>src/auth.rs\<close>: the bearer-token check every protected route starts with. The authorization
  header is given as its text, when the request has one that is text.
\<close>

datatype access_level = User | Admin

definition bearer_token :: "string option \<Rightarrow> string option" where
  "bearer_token header = Option.bind header (strip_prefix ''Bearer '')"

definition authorize :: "string option \<Rightarrow> string \<Rightarrow> string \<Rightarrow> access_level \<Rightarrow> api_error + unit" where
  "authorize header admin_token user_token required =
     (let unauthorized = Inl (api_error_new 401 ''unauthorized''
                                ''A valid local bearer token is required'') in
      case bearer_token header of
        None \<Rightarrow> unauthorized
      | Some token \<Rightarrow>
          if token = admin_token then Inr ()
          else if token = user_token then
            (case required of
               User \<Rightarrow> Inr ()
             | Admin \<Rightarrow> Inl (api_error_new 403 ''admin_required''
                                ''This route requires the admin token''))
          else unauthorized)"

definition authorized :: "string option \<Rightarrow> string \<Rightarrow> string \<Rightarrow> api_error + unit" where
  "authorized header admin_token user_token = authorize header admin_token user_token Admin"

lemma bearer_token_Some: "bearer_token h = Some t \<longleftrightarrow> h = Some (''Bearer '' @ t)"
  by (cases h) (auto simp: bearer_token_def strip_prefix_Some)

lemma authorize_ok:
  "authorize h a u lvl = Inr () \<longleftrightarrow>
     h = Some (''Bearer '' @ a) \<or> (lvl = User \<and> h = Some (''Bearer '' @ u))"
  unfolding bearer_token_Some [symmetric]
  by (auto simp: authorize_def Let_def split: option.splits access_level.splits)

text \<open>
  Access control is exactly the two-level rule: a request passes if and only if its bearer
  token is the admin token, or it is the user token and the route needs only user access; a user
  token on an admin route answers 403, and anything else 401.
\<close>

theorem authorize_decision:
  "(authorize h a u lvl = Inr () \<longleftrightarrow>
      h = Some (''Bearer '' @ a) \<or> (lvl = User \<and> h = Some (''Bearer '' @ u)))
   \<and> ((\<exists>e. authorize h a u lvl = Inl e \<and> status e = 403) \<longleftrightarrow>
      lvl = Admin \<and> u \<noteq> a \<and> h = Some (''Bearer '' @ u))
   \<and> ((\<exists>e. authorize h a u lvl = Inl e \<and> status e = 401) \<longleftrightarrow>
      h \<noteq> Some (''Bearer '' @ a) \<and> h \<noteq> Some (''Bearer '' @ u))"
proof (intro conjI)
  show "authorize h a u lvl = Inr () \<longleftrightarrow>
      h = Some (''Bearer '' @ a) \<or> (lvl = User \<and> h = Some (''Bearer '' @ u))"
    by (rule authorize_ok)
next
  show "(\<exists>e. authorize h a u lvl = Inl e \<and> status e = 403) \<longleftrightarrow>
      lvl = Admin \<and> u \<noteq> a \<and> h = Some (''Bearer '' @ u)"
    unfolding bearer_token_Some [symmetric]
    by (auto simp: authorize_def Let_def split: option.splits access_level.splits)
next
  show "(\<exists>e. authorize h a u lvl = Inl e \<and> status e = 401) \<longleftrightarrow>
      h \<noteq> Some (''Bearer '' @ a) \<and> h \<noteq> Some (''Bearer '' @ u)"
    unfolding bearer_token_Some [symmetric]
    by (auto simp: authorize_def Let_def split: option.splits access_level.splits)
qed

end
