(* ===== verification/Operation_Routes.thy ===== *)
theory Operation_Routes
  imports Tasks Auth "HOL-Library.Code_Target_Nat"
begin

text \<open>
  The routes of \<open>src/operations.rs\<close>: the view of an operation and its cancellation. A cancellation
  that was acknowledged is final: nothing any task does afterwards changes the state or installs the
  operation's model.
\<close>

definition operation_not_found :: api_error where
  "operation_not_found = api_error_new 404 ''operation_not_found'' ''Unknown operation''"

definition operation_finished :: api_error where
  "operation_finished = api_error_new 409 ''operation_finished'' ''Operation already finished''"

definition operation_view :: "operation \<Rightarrow> json" where
  "operation_view r =
     JObj [(''id'', JStr (o_id r)), (''model_id'', JStr (o_model r)), (''kind'', JStr (o_kind r)),
           (''state'', JStr (o_state r)), (''error'', jopt JStr (o_error r)), (''error_code'', jopt JStr (o_error_code r)),
           (''progress_bytes'', JInt (int (o_bytes r))), (''total_bytes'', JInt (int (o_total r))),
           (''created_at'', jopt JInt (o_created r)), (''updated_at'', jopt JInt (o_updated r)),
           (''finished_at'', jopt JInt (o_finished r)), (''progress_items'', JInt (int (o_items r))),
           (''total_items'', JInt (int (o_total_items r))), (''result'', unwrap_or JNull (o_result r))]"

definition operation_route :: "string option \<Rightarrow> string \<Rightarrow> string \<Rightarrow> string \<Rightarrow> (api_error, json) task" where
  "operation_route header admin user i =
     t_then (t_lift (authorize header admin user User))
     (t_bind (t_map_err internal (query (find_operation i))) (\<lambda>r.
      t_lift (ok_or operation_not_found (map_option operation_view r))))"

text \<open>The number of rows the cancelling statement changes.\<close>

definition cancellable :: "string \<Rightarrow> sdata \<Rightarrow> nat" where
  "cancellable i d = length (filter (\<lambda>r. o_id r = i \<and> active r) (d_operations d))"

definition cancel_statement :: "string \<Rightarrow> (string, nat) task" where
  "cancel_statement i = act (\<lambda>e d. Inr (cancellable i d)) (\<lambda>e d. [Cancel_active i (se_now e)])"

definition cancel_operation :: "string option \<Rightarrow> string \<Rightarrow> string \<Rightarrow> string \<Rightarrow> (api_error, json) task" where
  "cancel_operation header admin user i =
     t_then (t_lift (authorized header admin user))
     (t_bind (t_map_err internal (operation_state i)) (\<lambda>st.
      case st of
        None \<Rightarrow> t_fail operation_not_found
      | Some s \<Rightarrow>
          if s = ''queued'' \<or> s = ''running'' then
            t_bind (t_map_err internal (cancel_statement i)) (\<lambda>changed.
              if changed = 0 then t_fail operation_finished
              else t_return (JObj [(''id'', JStr i), (''state'', JStr ''cancelled''), (''error_code'', JStr ''cancelled'')]))
          else t_fail operation_finished))"

lemma cancellable_cancelled:
  assumes "cancellable i d \<noteq> 0" "tables_ok d"
  shows "is_cancelled i (cancel_active i t d)"
proof -
  from assms(1) obtain r where r: "r \<in> set (d_operations d)" "o_id r = i" "active r"
    unfolding cancellable_def by (metis (mono_tags, lifting) filter_False length_0_conv)
  then have "find_operation i d \<noteq> None" by (auto simp: find_operation_None)
  then obtain q where q: "find_operation i d = Some q" by auto
  from find_operation_Some [OF q] r assms(2) have "q = r"
    by (auto simp: tables_ok_def distinct_map inj_on_def)
  with r q show ?thesis
    by (auto simp: is_cancelled_def cancel_active_def find_operation_update)
qed

lemma cancel_operation_Inr:
  assumes "fst (cancel_operation header admin user i w) = Inr body" "tables_ok (ts_data w)"
  shows "is_cancelled i (ts_data (snd (cancel_operation header admin user i w)))"
proof -
  have "twp (cancel_operation header admin user i) (\<lambda>_ w'. is_cancelled i (ts_data w')) (\<lambda>_ _. True) w"
    using assms(2)
    by (auto simp: cancel_operation_def twp_simps operation_state_def query_def cancel_statement_def act_def
        twp_act_torn Let_def tables_ok_performs intro: cancellable_cancelled split: sum.splits option.splits)
  with assms(1) show ?thesis by (auto simp: twp_def split: prod.splits sum.splits)
qed

text \<open>
  C22. An acknowledged cancellation is final: after any actions of any tasks the operation is still
  cancelled, unless its row is deleted, and no promotion under its id can install a model. (An import from
  another installation promotes under ids of its own, looking at its cancellation between files, and a refresh
  registers rows directly.)
\<close>

theorem cancelled_is_final:
  assumes "tables_ok (ts_data w)" "fst (cancel_operation header admin user i w) = Inr body"
    and "Delete_operation i \<notin> set as"
  shows "is_cancelled i (performs as (ts_data (snd (cancel_operation header admin user i w))))
    \<and> (pr_operation p = i \<longrightarrow>
         fst (promote p x (performs as (ts_data (snd (cancel_operation header admin user i w))))) \<noteq> Inr ())"
proof -
  have "is_cancelled i (performs as (ts_data (snd (cancel_operation header admin user i w))))"
    by (rule is_cancelled_performs [OF cancel_operation_Inr [OF assms(2,1)] assms(3)])
  then show ?thesis by (auto simp: is_cancelled_def promote_Inr)
qed

definition sample_operation :: operation where
  "sample_operation =
     \<lparr>o_id = ''op1'', o_model = ''m'', o_kind = ''install'', o_state = ''running'', o_error = None,
      o_error_code = None, o_bytes = 0, o_total = 3, o_created = Some 1, o_updated = Some 1, o_finished = None,
      o_items = 0, o_total_items = 0, o_result = None\<rparr>"

definition quiet :: step_event where
  "quiet = \<lparr>se_fault = None, se_others = [], se_now = 5, se_elapsed = 0, se_torn = 0, se_promote = No_fault,
            se_send = Send_timeout, se_free = 10 ^ 9, se_listing = Dir_missing\<rparr>"

definition sample_state :: task_state where
  "sample_state =
     \<lparr>ts_data = \<lparr>d_installed = [], d_operations = [sample_operation], d_settings = Map.empty,
                 d_files = Map.empty, d_loaded = None\<rparr>,
      ts_script = (\<lambda>_. quiet), ts_step = 0, ts_own = [], ts_stage = []\<rparr>"

lemmas sample_defs = sample_operation_def quiet_def sample_state_def

theorem cancelled_is_final_witness:
  "is_cancelled ''op1''
     (performs [Update_operation ''op1'' ''running'' None None 2 7, Interrupt_all 9]
       (ts_data (snd (cancel_operation (Some ''Bearer a'') ''a'' ''u'' ''op1'' sample_state))))"
proof -
  have ok: "tables_ok (ts_data sample_state)" by (simp add: tables_ok_def sample_defs)
  have run: "fst (cancel_operation (Some ''Bearer a'') ''a'' ''u'' ''op1'' sample_state) =
      Inr (JObj [(''id'', JStr ''op1''), (''state'', JStr ''cancelled''), (''error_code'', JStr ''cancelled'')])"
    by code_simp
  show ?thesis
    using cancelled_is_final [OF ok run, where as = "[Update_operation ''op1'' ''running'' None None 2 7, Interrupt_all 9]"]
    by simp
qed

end
