(* ===== verification/Floats.thy ===== *)
theory Floats
  imports Json
begin

text \<open>
  IEEE 754 single-precision values as the code uses them: a value is not-a-number, an infinity or a
  rational, comparisons with not-a-number are false, and an arithmetic result is the exact one
  rounded to the nearest value of the format (ties to even). \<open>round_binary\<close> is that rounding for a
  significand of \<open>p\<close> bits and a smallest exponent \<open>emin\<close>; values too large for the format do not
  arise in the code modelled here, whose operands lie between -1 and 1 or are milliseconds.
\<close>

datatype f32 = NaN | NegInf | PosInf | Fin rat

fun f32_le :: "f32 \<Rightarrow> f32 \<Rightarrow> bool" where
  "f32_le NaN _ = False"
| "f32_le _ NaN = False"
| "f32_le NegInf _ = True"
| "f32_le _ PosInf = True"
| "f32_le PosInf _ = False"
| "f32_le _ NegInf = False"
| "f32_le (Fin a) (Fin b) = (a \<le> b)"

fun f32_lt :: "f32 \<Rightarrow> f32 \<Rightarrow> bool" where
  "f32_lt NaN _ = False"
| "f32_lt _ NaN = False"
| "f32_lt x y = (\<not> f32_le y x)"

fun is_finite :: "f32 \<Rightarrow> bool" where
  "is_finite (Fin _) = True"
| "is_finite _ = False"

text \<open>\<open>(lo..=hi).contains(&x)\<close>.\<close>

definition f32_within :: "rat \<Rightarrow> rat \<Rightarrow> f32 \<Rightarrow> bool" where
  "f32_within lo hi x \<longleftrightarrow> f32_le (Fin lo) x \<and> f32_le x (Fin hi)"

lemma f32_within_iff: "f32_within lo hi x \<longleftrightarrow> (\<exists>r. x = Fin r \<and> lo \<le> r \<and> r \<le> hi)"
  by (cases x) (auto simp: f32_within_def)

lemma f32_lt_trichotomy: "is_finite x \<Longrightarrow> is_finite y \<Longrightarrow> f32_lt x y \<or> f32_le y x"
  by (cases x; cases y) auto

lemma f32_lt_not_le: "f32_lt x y \<Longrightarrow> \<not> f32_le y x"
  by (cases x; cases y) auto

text \<open>The least power-of-two exponent step at which a value is representable.\<close>

fun bit_length :: "nat \<Rightarrow> nat" where
  "bit_length n = (if n = 0 then 0 else Suc (bit_length (n div 2)))"

declare bit_length.simps [simp del]

definition scale2 :: "int \<Rightarrow> rat \<Rightarrow> rat" where
  "scale2 e x = (if 0 \<le> e then x * 2 ^ nat e else x / 2 ^ nat (- e))"

definition exponent_of :: "rat \<Rightarrow> int" where
  "exponent_of x =
     (let (n, d) = quotient_of \<bar>x\<bar>;
          e = int (bit_length (nat n)) - int (bit_length (nat d))
      in if scale2 e 1 \<le> \<bar>x\<bar> then e else e - 1)"

definition round_half_even :: "rat \<Rightarrow> int" where
  "round_half_even q =
     (let f = \<lfloor>q\<rfloor>; r = q - of_int f in
      if r < 1 / 2 then f else if r > 1 / 2 then f + 1 else if even f then f else f + 1)"

definition round_binary :: "nat \<Rightarrow> int \<Rightarrow> rat \<Rightarrow> rat" where
  "round_binary p emin x =
     (if x = 0 then 0
      else let u = max emin (exponent_of x - int p + 1)
           in scale2 u (of_int (round_half_even (scale2 (- u) x))))"

definition f32_round :: "rat \<Rightarrow> rat" where "f32_round = round_binary 24 (-149)"
definition f64_round :: "rat \<Rightarrow> rat" where "f64_round = round_binary 53 (-1074)"

text \<open>An integer converted to \<open>f64\<close> and divided by a constant, as the response bodies do.\<close>

definition f64_div :: "rat \<Rightarrow> rat \<Rightarrow> rat" where
  "f64_div a b = f64_round (f64_round a / f64_round b)"

lemma scale2_inverse: "scale2 u (scale2 (- u) x) = x"
  by (auto simp: scale2_def)

lemma scale2_mono: "x \<le> y \<Longrightarrow> scale2 e x \<le> scale2 e y"
  by (auto simp: scale2_def divide_right_mono mult_right_mono)

lemma round_half_even_near: "\<bar>of_int (round_half_even q) - q\<bar> \<le> 1 / 2"
proof -
  have "of_int \<lfloor>q\<rfloor> \<le> q" "q < of_int \<lfloor>q\<rfloor> + 1" by linarith+
  moreover have "of_int (\<lfloor>q\<rfloor> + 1) = of_int \<lfloor>q\<rfloor> + (1::rat)" by simp
  ultimately show ?thesis 
    unfolding round_half_even_def Let_def abs_le_iff by (split if_split)+ linarith
qed

lemma round_half_even_int: "round_half_even (of_int k) = k"
  by (simp add: round_half_even_def)

lemma round_half_even_nonneg: "0 \<le> q \<Longrightarrow> 0 \<le> round_half_even q"
  by (auto simp: round_half_even_def Let_def)

lemma scale2_nonneg: "0 \<le> x \<Longrightarrow> 0 \<le> scale2 e x"
  by (auto simp: scale2_def)

lemma round_binary_nonneg: "0 \<le> x \<Longrightarrow> 0 \<le> round_binary p emin x"
  by (simp add: round_binary_def Let_def scale2_nonneg round_half_even_nonneg)

end
