(* ===== verification/Download.thy ===== *)
theory Download
  imports Operation_Routes Floats
begin

text \<open>
  \<open>src/download.rs\<close>: the resume and retry logic of a model download, from the request for it to the
  promotion of the verified file. A response is its status (with the text it is shown as), its \<open>Content-Range\<close> header and the chunks
  of its body; the chunks, stalls and errors come from the script. The hash function is the argument
  \<open>sha256\<close>. Durations are in milliseconds.
\<close>

record download_failure =
  df_code :: string
  df_message :: string

definition failure :: "string \<Rightarrow> string \<Rightarrow> download_failure" where
  "failure c m = \<lparr>df_code = c, df_message = m\<rparr>"

abbreviation internal_failure :: "string \<Rightarrow> download_failure" where
  "internal_failure \<equiv> failure ''internal_error''"

definition candidate_urls :: "catalog_model \<Rightarrow> catalog_file \<Rightarrow> string list" where
  "candidate_urls m f =
     [''https://huggingface.co/'' @ cm_id m @ ''/resolve/'' @ cm_revision m @ ''/'' @ cf_filename f]"

definition stall_timeout_secs :: nat where "stall_timeout_secs = 60"
definition retry_backoffs :: "nat list" where "retry_backoffs = [2000, 5000, 15000]"
definition progress_flush_interval :: nat where "progress_flush_interval = 250"
definition progress_flush_bytes :: nat where "progress_flush_bytes = 4 * 1024 * 1024"
definition disk_slack_bytes :: nat where "disk_slack_bytes = 64 * 1024 * 1024"

datatype resume_decision = VerifyOnly | Range nat | RestartFromZero

definition resume_decision :: "nat \<Rightarrow> nat \<Rightarrow> resume_decision" where
  "resume_decision partial_len expected_len =
     (if expected_len > 0 \<and> partial_len = expected_len then VerifyOnly
      else if partial_len = 0 \<or> partial_len > expected_len then RestartFromZero
      else Range partial_len)"

datatype range_outcome = ResumeAccepted | IgnoredRange | Restart416 | Invalid

definition classify_range_response :: "nat \<Rightarrow> nat \<Rightarrow> nat option \<Rightarrow> range_outcome" where
  "classify_range_response offset st start =
     (if st = 200 then IgnoredRange
      else if st = 206 \<and> start = Some offset then ResumeAccepted
      else if st = 206 then Invalid
      else if st = 416 then Restart416
      else Invalid)"

definition disk_required_bytes :: "nat \<Rightarrow> nat \<Rightarrow> nat" where
  "disk_required_bytes expected_size partial_bytes =
     (let remaining = saturating_sub expected_size partial_bytes;
          with_slack = min u64_max (nat \<lceil>f64_round (f64_round (of_nat remaining) * f64_round (105 / 100))\<rceil>)
      in saturating_add with_slack disk_slack_bytes)"

definition has_enough_disk_space :: "nat \<Rightarrow> nat \<Rightarrow> nat \<Rightarrow> bool" where
  "has_enough_disk_space available expected_size partial_bytes \<longleftrightarrow>
     available \<ge> disk_required_bytes expected_size partial_bytes"

definition should_flush_progress :: "nat \<Rightarrow> nat \<Rightarrow> bool \<Rightarrow> bool" where
  "should_flush_progress elapsed bytes_since_last force \<longleftrightarrow>
     force \<or> elapsed \<ge> progress_flush_interval \<or> bytes_since_last \<ge> progress_flush_bytes"

definition content_range_start :: "string \<Rightarrow> nat option" where
  "content_range_start v =
     Option.bind (strip_prefix ''bytes'' (trim v)) (\<lambda>r.
       parse_u64 (trim (hd (split_on (\<lambda>c. c = CHR ''-'') (trim_start r)))))"

subsection \<open>Cancellation and backoff\<close>

definition cancelled :: "string \<Rightarrow> (download_failure, bool) task" where
  "cancelled op = t_bind (t_map_err internal_failure (operation_state op)) (\<lambda>st. t_return (st = Some ''cancelled''))"

definition cancelled_failure :: download_failure where
  "cancelled_failure = failure ''cancelled'' ''Cancelled by user''"

text \<open>A sleep lasts as long as asked for or longer; the answer of \<open>se_elapsed\<close> is the excess.\<close>

function interruptible_backoff :: "string \<Rightarrow> nat \<Rightarrow> (download_failure, unit) task" where
  "interruptible_backoff op remaining =
     t_bind (cancelled op) (\<lambda>c.
       if c then t_fail cancelled_failure
       else if remaining = 0 then t_return ()
       else t_bind (ask se_elapsed) (\<lambda>late. interruptible_backoff op (remaining - (min remaining 200 + late))))"
  by pat_completeness auto
termination by (relation "measure snd") auto

declare interruptible_backoff.simps [simp del]

subsection \<open>One attempt\<close>

datatype attempt_outcome = Completed | Stopped

definition append_bytes :: "int \<Rightarrow> file_state option \<Rightarrow> byte list \<Rightarrow> file_state" where
  "append_bytes now f bs = \<lparr>fi_bytes = (case f of None \<Rightarrow> [] | Some x \<Rightarrow> fi_bytes x) @ bs, fi_mtime = Some now\<rparr>"

definition open_stage :: "string \<Rightarrow> nat \<Rightarrow> (string, unit) task" where
  "open_stage stage offset = act (\<lambda>e d. Inr ())
     (\<lambda>e d. if offset = 0 then [Write_file stage (Some (append_bytes (se_now e) None []))]
            else if d_files d stage = None then [Write_file stage (Some (append_bytes (se_now e) None []))]
            else [])"

definition write_all :: "string \<Rightarrow> byte list \<Rightarrow> (string, unit) task" where
  "write_all stage chunk = act_torn
     (\<lambda>e d. [Write_file stage (Some (append_bytes (se_now e) (d_files d stage) (take (se_torn e) chunk)))])
     (\<lambda>e d. Inr ())
     (\<lambda>e d. [Write_file stage (Some (append_bytes (se_now e) (d_files d stage) chunk))])"

definition running :: "string \<Rightarrow> nat \<Rightarrow> (download_failure, unit) task" where
  "running op received = t_map_err internal_failure (update_operation_task op ''running'' None None received)"

fun receive ::
    "string \<Rightarrow> string \<Rightarrow> nat \<Rightarrow> chunk_outcome list \<Rightarrow> nat \<Rightarrow> nat \<Rightarrow> (download_failure, attempt_outcome \<times> nat) task" where
  "receive op stage bytes [] received since = t_return (Completed, received)"
| "receive op stage bytes (Chunk_timeout # rest) received since = t_fail (failure ''stalled'' (''transfer stalled: no data for '' @ decimal stall_timeout_secs @ ''s''))"
| "receive op stage bytes (Chunk_error msg # rest) received since = t_fail (failure ''source_unavailable'' msg)"
| "receive op stage bytes (Chunk chunk # rest) received since =
     t_bind (cancelled op) (\<lambda>c.
       if c then t_return (Stopped, received)
       else if received + length chunk > bytes then
         t_fail (failure ''source_unavailable'' ''Model source exceeded catalog size'')
       else t_then (t_map_err internal_failure (write_all stage chunk))
         (t_bind (ask se_elapsed) (\<lambda>elapsed.
           if should_flush_progress elapsed (since + length chunk) False then
             t_then (running op (received + length chunk)) (receive op stage bytes rest (received + length chunk) 0)
           else receive op stage bytes rest (received + length chunk) (since + length chunk))))"

definition finish_attempt :: "string \<Rightarrow> nat \<Rightarrow> attempt_outcome \<times> nat \<Rightarrow> (download_failure, attempt_outcome) task" where
  "finish_attempt op bytes r =
     (case r of
        (Stopped, _) \<Rightarrow> t_return Stopped
      | (Completed, received) \<Rightarrow>
          t_then (t_map_err internal_failure (act (\<lambda>e d. Inr ()) (\<lambda>e d. [])))
          (t_then (running op received)
          (if received \<noteq> bytes then
             t_fail (failure ''source_unavailable''
               (''Incomplete model: '' @ decimal received @ '' of '' @ decimal bytes @ '' bytes''))
           else t_return Completed)))"

text \<open>What the response means for the staged bytes: the offset to continue from.\<close>

definition accept_response :: "string \<Rightarrow> nat \<Rightarrow> nat \<Rightarrow> string \<Rightarrow> string option \<Rightarrow> (download_failure, nat) task" where
  "accept_response stage offset st shown hdr =
     (if offset > 0 then
        (case classify_range_response offset st (Option.bind hdr content_range_start) of
           ResumeAccepted \<Rightarrow> t_return offset
         | IgnoredRange \<Rightarrow> t_then (t_map_err internal_failure (remove_task_file stage)) (t_return 0)
         | Restart416 \<Rightarrow> t_then (t_map_err internal_failure (remove_task_file stage))
             (t_fail (failure ''source_unavailable'' ''Model source returned HTTP 416; discarded partial to restart''))
         | Invalid \<Rightarrow> t_fail (failure ''source_unavailable''
             (''Model source returned an invalid resume response (HTTP '' @ shown @ '')'')))
      else if \<not> (200 \<le> st \<and> st < 300) then
        t_fail (failure ''source_unavailable'' (''Model source returned HTTP '' @ shown))
      else t_return 0)"

definition start_offset :: "string \<Rightarrow> nat \<Rightarrow> (download_failure, nat option) task" where
  "start_offset stage bytes =
     t_bind (t_catch (size_of stage)) (\<lambda>len.
       let partial_len = unwrap_or 0 (to_option len) in
       case resume_decision partial_len bytes of
         VerifyOnly \<Rightarrow> t_return None
       | RestartFromZero \<Rightarrow>
           t_then (t_when (partial_len > 0) (t_map_err internal_failure (remove_task_file stage))) (t_return (Some 0))
       | Range offset \<Rightarrow> t_return (Some offset))"

definition attempt_download ::
    "string \<Rightarrow> string \<Rightarrow> string \<Rightarrow> nat \<Rightarrow> (download_failure, attempt_outcome) task" where
  "attempt_download op url stage bytes =
     t_bind (start_offset stage bytes) (\<lambda>start.
       case start of
         None \<Rightarrow> t_return Completed
       | Some offset \<Rightarrow>
           t_bind (ask se_send) (\<lambda>response.
             case response of
               Send_timeout \<Rightarrow> t_fail (failure ''stalled''
                 (''no response within '' @ decimal stall_timeout_secs @ ''s from '' @ url))
             | Send_error msg \<Rightarrow> t_fail (failure ''source_unavailable'' msg)
             | Sent st shown hdr body \<Rightarrow>
                 t_bind (accept_response stage offset st shown hdr) (\<lambda>from.
                 t_then (t_map_err internal_failure (open_stage stage from))
                 (t_bind (receive op stage bytes body from 0) (finish_attempt op bytes)))))"

subsection \<open>Retries, verification and promotion\<close>

type_synonym source_errors = "(string \<times> download_failure) list"

fun try_source ::
    "string \<Rightarrow> string \<Rightarrow> nat \<Rightarrow> string \<Rightarrow> nat list \<Rightarrow> source_errors \<Rightarrow> (download_failure, bool \<times> source_errors) task" where
  "try_source op stage bytes url [] errs = t_return (False, errs)"
| "try_source op stage bytes url (backoff # later) errs =
     t_bind (cancelled op) (\<lambda>c.
       if c then t_fail cancelled_failure
       else t_bind (t_catch (attempt_download op url stage bytes)) (\<lambda>r.
         case r of
           Inr Completed \<Rightarrow> t_return (True, errs)
         | Inr Stopped \<Rightarrow> t_fail cancelled_failure
         | Inl e \<Rightarrow>
             (let errs' = filter (\<lambda>(u, _). u \<noteq> url) errs @ [(url, e)] in
              t_then (t_when (later \<noteq> []) (interruptible_backoff op backoff))
                (try_source op stage bytes url later errs'))))"

fun try_sources ::
    "string \<Rightarrow> string \<Rightarrow> nat \<Rightarrow> string list \<Rightarrow> source_errors \<Rightarrow> (download_failure, bool \<times> source_errors) task" where
  "try_sources op stage bytes [] errs = t_return (False, errs)"
| "try_sources op stage bytes (url # urls) errs =
     t_bind (try_source op stage bytes url retry_backoffs errs) (\<lambda>(ok, errs').
       if ok then t_return (True, errs') else try_sources op stage bytes urls errs')"

fun intercalate :: "string \<Rightarrow> string list \<Rightarrow> string" where
  "intercalate sep [] = []"
| "intercalate sep [x] = x"
| "intercalate sep (x # xs) = x @ sep @ intercalate sep xs"

definition all_sources_failed :: "source_errors \<Rightarrow> download_failure" where
  "all_sources_failed errs =
     (let summary = intercalate ''; '' (map (\<lambda>(u, e). u @ '': '' @ df_message e) errs);
          distinct_codes = remdups (map (\<lambda>(_, e). df_code e) errs)
      in failure (if length distinct_codes = 1 then df_code (snd (hd errs)) else ''source_unavailable'')
           (''All sources failed - '' @ summary))"

definition quarantine :: "string \<Rightarrow> string \<Rightarrow> string \<Rightarrow> (string, unit) task" where
  "quarantine dir stage name =
     t_then (act (\<lambda>e d. Inr ()) (\<lambda>e d. [])) (rename_task stage (quarantine_path dir name))"

definition promotion_of :: "string \<Rightarrow> string \<Rightarrow> string \<Rightarrow> catalog_file \<Rightarrow> string \<Rightarrow> nat \<Rightarrow> string \<Rightarrow> int \<Rightarrow> promotion" where
  "promotion_of dir op m f stage bytes source now =
     \<lparr>pr_operation = op, pr_model = m, pr_file = f, pr_stage = stage, pr_bytes = bytes, pr_source = source,
      pr_dir = dir, pr_now = now\<rparr>"

definition verify_and_promote ::
    "(byte list \<Rightarrow> string) \<Rightarrow> string \<Rightarrow> string \<Rightarrow> string \<Rightarrow> catalog_file \<Rightarrow> string \<Rightarrow> (download_failure, unit) task" where
  "verify_and_promote sha256 dir op slug f stage =
     t_bind (t_map_err internal_failure (sha256_of sha256 stage)) (\<lambda>actual.
       if \<not> eq_ignore_case actual (cf_sha256 f) then
         t_then (t_map_err internal_failure (quarantine dir stage (op @ ''-hash-mismatch'')))
           (t_fail (failure ''hash_mismatch'' ''Catalog SHA-256 mismatch''))
       else t_map_err internal_failure
         (promote_task (promotion_of dir op slug f stage (cf_size_bytes f) source_catalog_download)))"

definition download_with_sources ::
    "(byte list \<Rightarrow> string) \<Rightarrow> string \<Rightarrow> string list \<Rightarrow> catalog_model \<Rightarrow> catalog_file \<Rightarrow> string \<Rightarrow> string \<Rightarrow>
     (download_failure, unit) task" where
  "download_with_sources sha256 dir urls m f op stage =
     t_bind (try_sources op stage (cf_size_bytes f) urls []) (\<lambda>(ok, errs).
       if \<not> ok then t_fail (all_sources_failed errs)
       else verify_and_promote sha256 dir op (cm_slug m) f stage)"

definition free_space_bytes :: "(string, nat) task" where
  "free_space_bytes = act (\<lambda>e d. Inr (se_free e)) (\<lambda>e d. [])"

definition download_model ::
    "(byte list \<Rightarrow> string) \<Rightarrow> string \<Rightarrow> catalog_model \<Rightarrow> catalog_file \<Rightarrow> string \<Rightarrow> (download_failure, unit) task" where
  "download_model sha256 dir m f op =
     t_bind (cancelled op) (\<lambda>c.
       if c then t_fail cancelled_failure
       else t_then (running op 0)
         (let stage = stage_path dir (cf_sha256 f) in
          t_bind (t_catch (size_of stage)) (\<lambda>len.
            let needed = disk_required_bytes (cf_size_bytes f) (unwrap_or 0 (to_option len)) in
            t_bind (t_map_err internal_failure free_space_bytes) (\<lambda>available.
              if available < needed then
                t_fail (failure ''insufficient_disk_space''
                  (''Need '' @ decimal needed @ '' bytes free, only '' @ decimal available @ '' available''))
              else download_with_sources sha256 dir (candidate_urls m f) m f op stage))))"

text \<open>The background task of an installation: a failure is recorded unless the operation was cancelled.\<close>

definition install_worker ::
    "(byte list \<Rightarrow> string) \<Rightarrow> string \<Rightarrow> catalog_model \<Rightarrow> catalog_file \<Rightarrow> string \<Rightarrow> (string, unit) task" where
  "install_worker sha256 dir m f op =
     t_bind (t_catch (download_model sha256 dir m f op)) (\<lambda>r.
       case r of
         Inr _ \<Rightarrow> t_return ()
       | Inl e \<Rightarrow>
           t_bind (t_catch (operation_state op)) (\<lambda>st.
             if Option.bind (to_option st) (\<lambda>x. x) \<noteq> Some ''cancelled'' then
               t_ignore (update_operation_task op ''failed'' (Some (df_message e)) (Some (df_code e)) 0)
             else t_return ()))"

text \<open>
  The route: \<open>body\<close> is the request's JSON, when it has one, and \<open>op\<close> the new operation's id. The
  answer is the operation to poll; the worker runs in the background.
\<close>

definition already_installed :: api_error where
  "already_installed = api_error_new 409 ''already_installed'' ''Model is already installed''"

definition operation_conflict :: api_error where
  "operation_conflict = api_error_new 409 ''operation_conflict'' ''An operation for this model is already active''"

definition queued_operation :: "string \<Rightarrow> string \<Rightarrow> string \<Rightarrow> string \<Rightarrow> nat \<Rightarrow> int \<Rightarrow> operation" where
  "queued_operation op m kind st bytes now =
     \<lparr>o_id = op, o_model = m, o_kind = kind, o_state = st, o_error = None, o_error_code = None, o_bytes = 0,
      o_total = bytes, o_created = Some now, o_updated = Some now, o_finished = None, o_items = 0, o_total_items = 0,
      o_result = None\<rparr>"

definition start_operation :: "(int \<Rightarrow> operation) \<Rightarrow> (api_error, unit) task" where
  "start_operation r =
     t_bind (t_map_err internal (act
       (\<lambda>e d. if active_count (o_model (r (se_now e))) d > 0 then Inr (Some operation_conflict)
              else if find_operation (o_id (r (se_now e))) d \<noteq> None then Inl ''UNIQUE constraint failed'' else Inr None)
       (\<lambda>e d. [Start_checked (r (se_now e))])))
     (\<lambda>err. case err of Some x \<Rightarrow> t_fail x | None \<Rightarrow> t_return ())"

definition requested_quant :: "(string + json) option \<Rightarrow> api_error + string option" where
  "requested_quant body =
     (case body of
        None \<Rightarrow> Inr None
      | Some (Inl msg) \<Rightarrow> Inl (api_error_new 400 ''invalid_body'' msg)
      | Some (Inr v) \<Rightarrow> Inr (Option.bind (jget ''quant'' v) as_str))"

definition install_model ::
    "catalog_model list \<Rightarrow> string option \<Rightarrow> string \<Rightarrow> string \<Rightarrow> string \<Rightarrow> (string + json) option \<Rightarrow> string \<Rightarrow>
     (api_error, (catalog_model \<times> catalog_file) \<times> json) task" where
  "install_model catalog header admin user i body op =
     t_then (t_lift (authorized header admin user))
     (t_bind (t_lift (requested_quant body)) (\<lambda>quant.
      t_bind (t_lift (catalog_model catalog i)) (\<lambda>m.
      t_bind (t_map_err internal (installed_file i)) (\<lambda>present.
      if present \<noteq> None then t_fail already_installed
      else t_bind (t_lift (resolve_quant m quant)) (\<lambda>f.
        t_then (start_operation (queued_operation op i ''install'' ''queued'' (cf_size_bytes f)))
          (t_return ((m, f), JObj [(''operation_id'', JStr op), (''state'', JStr ''queued'')])))))))"

end
