(* ===== verification/Download_Safety.thy ===== *)
theory Download_Safety
  imports Download
begin

text \<open>
  What a download guarantees whatever the network, the file system, the database and the other tasks
  do: an operation completes only with the catalog's file in the store, of the catalog's size and hash
  and registered as verified; staged bytes never exceed the catalog size. The proofs follow the steps
  with weakest preconditions; steps that leave the staged file alone are passed by a frame.
\<close>

subsection \<open>Frames\<close>

definition frame :: "(action \<Rightarrow> bool) \<Rightarrow> task_state \<Rightarrow> task_state \<Rightarrow> bool" where
  "frame A w w' \<longleftrightarrow> ts_script w' = ts_script w \<and> ts_own w' = ts_own w \<and> ts_stage w' = ts_stage w
     \<and> (\<exists>as. (\<forall>a \<in> set as. A a) \<and> ts_data w' = performs as (ts_data w))"

lemma twp_only:
  assumes "only A m" "script_within A w" "\<And>x w'. frame A w w' \<Longrightarrow> Q x w'" "\<And>e w'. frame A w w' \<Longrightarrow> E e w'"
  shows "twp m Q E w"
proof -
  have "frame A w (snd (m w))" using assms(1,2) by (auto simp: only_def frame_def)
  with assms(3,4) show ?thesis by (auto simp: twp_def split: prod.splits sum.splits)
qed

text \<open>
  Actions that leave the task's staged file alone and do not complete its operation, and with those on
  the staged file what a task does before its promotion.
\<close>

definition off_stage :: "string \<Rightarrow> string \<Rightarrow> action \<Rightarrow> bool" where
  "off_stage own stage a \<longleftrightarrow>
     foreign own stage a \<or> (\<exists>st e c b t. a = Update_operation own st e c b t \<and> st \<noteq> ''completed'')
     \<or> (\<exists>r. a = Start_checked r \<and> o_state r \<noteq> ''completed'') \<or> a = Interrupt_import own"

definition before_promotion :: "string \<Rightarrow> string \<Rightarrow> action \<Rightarrow> bool" where
  "before_promotion own stage a \<longleftrightarrow>
     off_stage own stage a \<or> (\<exists>f. a = Write_file stage f) \<or> (\<exists>q. a = Move_file stage q)"

lemma script_within_off_stage [simp]:
  "ts_own w = own \<Longrightarrow> ts_stage w = stage \<Longrightarrow> script_within (off_stage own stage) w"
  "ts_own w = own \<Longrightarrow> ts_stage w = stage \<Longrightarrow> script_within (before_promotion own stage) w"
  by (auto simp: script_within_def off_stage_def before_promotion_def)

lemma move_file_elsewhere: "p \<noteq> a \<Longrightarrow> p \<noteq> b \<Longrightarrow> d_files (move_file a b d) p = d_files d p"
  by (auto simp: move_file_def put_data_file_def split: option.splits)

lemma promote_files:
  "p \<noteq> pr_stage q \<Longrightarrow> p \<noteq> store_path (pr_dir q) (cf_sha256 (pr_file q)) \<Longrightarrow>
     d_files (snd (promote q x d)) p = d_files d p"
  by (auto simp: promote_def Let_def move_file_elsewhere split: option.splits bind_splits promote_fault.splits if_splits)

lemma perform_files: "p \<notin> set (moves a) \<Longrightarrow> d_files (perform a d) p = d_files d p"
  by (cases a) (auto simp: statement_defs move_file_elsewhere promote_files start_checked_def insert_operation_def
      delete_operation_def delete_installed_def upsert_user_folder_row_def Let_def)

lemma off_stage_file: "off_stage own stage a \<Longrightarrow> d_files (perform a d) stage = d_files d stage"
  by (rule perform_files) (auto simp: off_stage_def foreign_def)

lemma performs_invariant:
  assumes "\<And>a d. A a \<Longrightarrow> P d \<Longrightarrow> P (perform a d)" "\<forall>a \<in> set as. A a" "P d"
  shows "P (performs as d)"
  using assms(2,3)
proof (induction as arbitrary: d)
  case (Cons a as)
  then have "P (perform a d)" using assms(1) by simp
  with Cons show ?case by simp
qed simp

lemma frame_invariant:
  assumes "frame A w w'" "\<And>a d. A a \<Longrightarrow> P d \<Longrightarrow> P (perform a d)" "P (ts_data w)"
  shows "P (ts_data w')"
  using assms performs_invariant [of A P] by (auto simp: frame_def)

lemma frame_stage:
  "frame (off_stage own stage) w w' \<Longrightarrow> d_files (ts_data w') stage = d_files (ts_data w) stage"
  using frame_invariant [of "off_stage own stage" w w' "\<lambda>d. d_files d stage = d_files (ts_data w) stage"]
  by (simp add: off_stage_file)

lemma others_stage:
  "ts_stage w = stage \<Longrightarrow> d_files (performs (others w) d) stage = d_files d stage"
  using performs_invariant [of "off_stage (ts_own w) stage" "\<lambda>d'. d_files d' stage = d_files d stage" "others w" d]
  by (auto simp: off_stage_file others_def off_stage_def)

subsection \<open>An operation that has not completed\<close>

definition not_completed :: "string \<Rightarrow> sdata \<Rightarrow> bool" where
  "not_completed op d \<longleftrightarrow> (\<forall>r. find_operation op d = Some r \<longrightarrow> o_state r \<noteq> ''completed'')"

lemma not_completed_update:
  assumes "not_completed op d" "\<And>q. P q \<Longrightarrow> o_id (f q) = o_id q"
    "\<And>q. P q \<Longrightarrow> o_id q = op \<Longrightarrow> o_state q \<noteq> ''completed'' \<Longrightarrow> o_state (f q) \<noteq> ''completed''"
  shows "not_completed op (update_operations P f d)"
proof -
  have "find_operation op (update_operations P f d) = map_option (\<lambda>r. if P r then f r else r) (find_operation op d)"
    by (rule find_operation_update) (rule assms(2))
  with assms(1,3) find_operation_Some show ?thesis by (fastforce simp: not_completed_def)
qed

lemma not_completed_insert: "not_completed op d \<Longrightarrow> o_id r \<noteq> op \<or> o_state r \<noteq> ''completed'' \<Longrightarrow> not_completed op (insert_operation r d)"
  by (auto simp: not_completed_def insert_operation_def find_operation_def find_append split: option.splits)

lemma not_completed_same: "d_operations d' = d_operations d \<Longrightarrow> not_completed op d' \<longleftrightarrow> not_completed op d"
  by (simp add: not_completed_def find_operation_def)

lemma not_completed_promote:
  assumes "not_completed op d" "pr_operation p \<noteq> op \<or> fst (promote p x d) \<noteq> Inr ()"
  shows "not_completed op (snd (promote p x d))"
proof (cases "fst (promote p x d)")
  case (Inl e)
  with promote_Inl_tables [OF Inl] assms(1) show ?thesis by (simp add: not_completed_def find_operation_def)
next
  case (Inr u)
  then have ok: "fst (promote p x d) = Inr ()" by simp
  with assms(2) have "pr_operation p \<noteq> op" by simp
  moreover from promote_effect [OF ok] obtain t where "snd (promote p x d) =
      finish_promotion p t (move_file (pr_stage p) (store_path (pr_dir p) (cf_sha256 (pr_file p))) d)" by metis
  ultimately show ?thesis using assms(1) find_operation_Some
    by (fastforce simp: not_completed_def finish_promotion_find)
qed

lemma not_completed_before_promotion:
  assumes "before_promotion op stage a" "not_completed op d"
  shows "not_completed op (perform a d)"
proof (cases a)
  case (Insert_operation r)
  with assms show ?thesis
    by (auto simp: before_promotion_def off_stage_def foreign_def intro: not_completed_insert)
next
  case (Start_checked r)
  with assms show ?thesis
    by (auto simp: before_promotion_def off_stage_def foreign_def start_checked_def intro: not_completed_insert)
next
  case (Update_operation i st e c b t)
  with assms(1) have "i = op \<Longrightarrow> st \<noteq> ''completed''"
    by (auto simp: before_promotion_def off_stage_def foreign_def)
  with assms(2) show ?thesis unfolding Update_operation perform.simps update_operation_with_code_def
    by (intro not_completed_update) auto
next
  case (Delete_operation i)
  have "List.find (\<lambda>r. o_id r = op) (filter (\<lambda>r. o_id r \<noteq> i) xs) =
      (if i = op then None else List.find (\<lambda>r. o_id r = op) xs)" for xs :: "operation list"
    by (induction xs) auto
  with assms(2) show ?thesis
    by (auto simp: Delete_operation delete_operation_def not_completed_def find_operation_def)
next
  case (Promote p x)
  with assms(1) have "pr_operation p \<noteq> op" by (auto simp: before_promotion_def off_stage_def foreign_def)
  with assms(2) show ?thesis unfolding Promote perform.simps by (intro not_completed_promote) auto
next
  case (Set_items i n m t)
  show ?thesis unfolding Set_items perform.simps set_progress_items_def
    by (rule not_completed_update [OF assms(2)]) auto
next
  case (Set_result i v)
  show ?thesis unfolding Set_result perform.simps set_operation_result_def
    by (rule not_completed_update [OF assms(2)]) auto
next
  case (Cancel_active i t)
  show ?thesis unfolding Cancel_active perform.simps cancel_active_def
    by (rule not_completed_update [OF assms(2)]) auto
next
  case (Interrupt_import i)
  show ?thesis unfolding Interrupt_import perform.simps interrupt_import_def
    by (rule not_completed_update [OF assms(2)]) auto
next
  case (Interrupt_all t)
  show ?thesis unfolding Interrupt_all perform.simps interrupt_all_def
    by (rule not_completed_update [OF assms(2)]) auto
qed (use assms(2) in \<open>simp_all add: not_completed_def find_operation_def del: perform.simps\<close>)

subsection \<open>One attempt\<close>

definition at_stage :: "string \<Rightarrow> string \<Rightarrow> (file_state option \<Rightarrow> bool) \<Rightarrow> task_state \<Rightarrow> bool" where
  "at_stage op stage P w \<longleftrightarrow> ts_own w = op \<and> ts_stage w = stage \<and> P (d_files (ts_data w) stage)"

definition staged :: "nat \<Rightarrow> file_state option \<Rightarrow> bool" where
  "staged n f \<longleftrightarrow> (\<exists>x. f = Some x \<and> file_size x = n)"

text \<open>Untouched, or no larger than the catalog's file.\<close>

definition tidy :: "nat \<Rightarrow> file_state option \<Rightarrow> file_state option \<Rightarrow> bool" where
  "tidy bytes f0 f \<longleftrightarrow> f = f0 \<or> (\<forall>x. f = Some x \<longrightarrow> file_size x \<le> bytes)"

lemma at_stage_mono: "at_stage op stage P w \<Longrightarrow> (\<And>f. P f \<Longrightarrow> P' f) \<Longrightarrow> at_stage op stage P' w"
  by (simp add: at_stage_def)

lemma frame_at_stage: "frame (off_stage op stage) w w' \<Longrightarrow> at_stage op stage P w \<Longrightarrow> at_stage op stage P w'"
  using frame_stage [of op stage w w'] by (auto simp: at_stage_def frame_def)

lemma arrive_at_stage [simp]: "at_stage op stage P (arrive w) \<longleftrightarrow> at_stage op stage P w"
  by (auto simp: at_stage_def others_stage)

lemma twp_still:
  assumes "only (off_stage op stage) m" "at_stage op stage P w"
    "\<And>x w'. at_stage op stage P w' \<Longrightarrow> Q x w'" "\<And>e w'. at_stage op stage P w' \<Longrightarrow> E e w'"
  shows "twp m Q E w"
proof (rule twp_only [OF assms(1)])
  show "script_within (off_stage op stage) w" using assms(2) by (simp add: at_stage_def)
qed (use assms frame_at_stage in blast)+

lemma only_cancelled [only_intros]: "only A (cancelled op)"
  unfolding cancelled_def by (intro only_intros)

lemma only_running [only_intros]: "only (off_stage op stage) (running op n)" "only (before_promotion op stage) (running op n)"
  unfolding running_def by (intro only_intros; simp add: off_stage_def before_promotion_def)+

lemma only_backoff [only_intros]: "only A (interruptible_backoff op n)"
proof (induction op n rule: interruptible_backoff.induct)
  case (1 op n)
  show ?case by (subst interruptible_backoff.simps) (auto intro!: only_intros 1)
qed

lemma twp_write_all:
  assumes "at_stage op stage (staged n) w" "n + length chunk \<le> bytes"
  shows "twp (write_all stage chunk) (\<lambda>_. at_stage op stage (staged (n + length chunk)))
    (\<lambda>_. at_stage op stage (tidy bytes f0)) w"
proof -
  from assms(1) obtain x where x: "d_files (performs (others w) (ts_data w)) stage = Some x" "length (fi_bytes x) = n"
    "ts_own w = op" "ts_stage w = stage"
    by (auto simp: at_stage_def staged_def others_stage file_size_def)
  with assms(2) show ?thesis
    by (auto simp: write_all_def twp_act_torn Let_def at_stage_def staged_def tidy_def append_bytes_def file_size_def
        put_data_file_def split: option.splits)
qed

lemma twp_cancelled:
  assumes "at_stage op stage P w" "\<And>b w'. at_stage op stage P w' \<Longrightarrow> twp (k b) Q E w'" "\<And>e w'. at_stage op stage P w' \<Longrightarrow> E e w'"
  shows "twp (t_bind (cancelled op) k) Q E w"
  unfolding twp_simps by (rule twp_still [OF _ assms(1)]) (auto intro: only_intros assms(2,3))

lemma twp_receive:
  assumes "at_stage op stage (staged n) w" "n \<le> bytes"
  shows "twp (receive op stage bytes body n since)
     (\<lambda>(r, k). at_stage op stage (\<lambda>f. staged k f \<and> k \<le> bytes))
     (\<lambda>_. at_stage op stage (tidy bytes f0)) w"
  using assms
proof (induction body arbitrary: n since w)
  case Nil
  then show ?case by (simp add: twp_simps)
next
  case (Cons c body)
  have here: "at_stage op stage (tidy bytes f0) w'" if "at_stage op stage (staged k) w'" "k \<le> bytes" for k w'
    using that(1) by (rule at_stage_mono) (use that(2) in \<open>auto simp: staged_def tidy_def\<close>)
  show ?case
  proof (cases c)
    case (Chunk chunk)
    let ?n = "n + length chunk"
    have go_on: "twp (if b then t_return (Stopped, n)
        else if ?n > bytes then t_fail (failure ''source_unavailable'' ''Model source exceeded catalog size'')
        else t_then (t_map_err internal_failure (write_all stage chunk)) (t_bind (ask se_elapsed) (\<lambda>elapsed.
           if should_flush_progress elapsed (since + length chunk) False then
             t_then (running op ?n) (receive op stage bytes body ?n 0)
           else receive op stage bytes body ?n (since + length chunk))))
      (\<lambda>(r, k). at_stage op stage (\<lambda>f. staged k f \<and> k \<le> bytes)) (\<lambda>_. at_stage op stage (tidy bytes f0)) v"
      if v: "at_stage op stage (staged n) v" for b v
    proof -
      have rest: "twp (receive op stage bytes body ?n s) (\<lambda>(r, k). at_stage op stage (\<lambda>f. staged k f \<and> k \<le> bytes))
          (\<lambda>_. at_stage op stage (tidy bytes f0)) u" if "at_stage op stage (staged ?n) u" "?n \<le> bytes" for s u
        by (rule Cons.IH [OF that])
      have flush: "twp (t_then (running op ?n) (receive op stage bytes body ?n 0))
          (\<lambda>(r, k). at_stage op stage (\<lambda>f. staged k f \<and> k \<le> bytes)) (\<lambda>_. at_stage op stage (tidy bytes f0)) u"
        if u: "at_stage op stage (staged ?n) u" "?n \<le> bytes" for u
        unfolding twp_simps by (rule twp_still [OF _ u(1)]) (auto intro: only_intros rest here [OF _ u(2)] simp: u(2))
      show ?thesis
      proof (cases "b \<or> ?n > bytes")
        case True
        with v Cons.prems here [OF v] show ?thesis
          by (auto simp: twp_simps elim: at_stage_mono)
      next
        case False
        then have n: "?n \<le> bytes" by simp
        have "twp (write_all stage chunk)
           (\<lambda>_ w'. twp (t_bind (ask se_elapsed) (\<lambda>elapsed.
             if should_flush_progress elapsed (since + length chunk) False then
               t_then (running op ?n) (receive op stage bytes body ?n 0)
             else receive op stage bytes body ?n (since + length chunk)))
             (\<lambda>(r, k). at_stage op stage (\<lambda>f. staged k f \<and> k \<le> bytes)) (\<lambda>_. at_stage op stage (tidy bytes f0)) w')
           (\<lambda>_. at_stage op stage (tidy bytes f0)) v"
        proof (rule twp_mono [OF twp_write_all [OF v n, of f0]])
          fix x u assume u: "at_stage op stage (staged ?n) u"
          then have "at_stage op stage (staged ?n) (arrive u)" by simp
          with rest flush n show "twp (t_bind (ask se_elapsed) (\<lambda>elapsed.
             if should_flush_progress elapsed (since + length chunk) False then
               t_then (running op ?n) (receive op stage bytes body ?n 0)
             else receive op stage bytes body ?n (since + length chunk)))
             (\<lambda>(r, k). at_stage op stage (\<lambda>f. staged k f \<and> k \<le> bytes)) (\<lambda>_. at_stage op stage (tidy bytes f0)) u"
            unfolding twp_bind twp_ask by simp
        qed
        with False show ?thesis by (simp add: twp_then twp_basic(4))
      qed
    qed
    show ?thesis unfolding Chunk receive.simps
      by (rule twp_cancelled [OF Cons.prems(1)], erule go_on, erule here [OF _ Cons.prems(2)])
  qed (use here [OF Cons.prems] in \<open>simp_all add: twp_simps\<close>)
qed


lemma only_noop [only_intros]: "only A (act answer (\<lambda>e d. []))"
  by (rule only_act) simp

lemma tidy_staged: "staged n f \<Longrightarrow> n \<le> bytes \<Longrightarrow> tidy bytes f0 f"
  by (auto simp: staged_def tidy_def)

lemma twp_finish_attempt:
  assumes "at_stage op stage (\<lambda>f. staged k f \<and> k \<le> bytes) w"
  shows "twp (finish_attempt op bytes (r, k))
    (\<lambda>x. at_stage op stage (\<lambda>f. (x = Completed \<longrightarrow> staged bytes f) \<and> tidy bytes f0 f))
    (\<lambda>_. at_stage op stage (tidy bytes f0)) w"
proof (cases r)
  case Stopped
  with assms show ?thesis by (auto simp: finish_attempt_def twp_simps at_stage_def intro: tidy_staged)
next
  case Completed
  let ?P = "\<lambda>f. staged k f \<and> k \<le> bytes"
  have tidy: "at_stage op stage (tidy bytes f0) u" if "at_stage op stage ?P u" for u
    using that by (rule at_stage_mono) (auto intro: tidy_staged)
  have last: "twp (if k \<noteq> bytes then t_fail e else t_return Completed)
    (\<lambda>x. at_stage op stage (\<lambda>f. (x = Completed \<longrightarrow> staged bytes f) \<and> tidy bytes f0 f))
    (\<lambda>_. at_stage op stage (tidy bytes f0)) u" if u: "at_stage op stage ?P u" for e u
    using u tidy [OF u] by (auto simp: twp_simps at_stage_def)
  have report: "twp (t_then (running op k) (if k \<noteq> bytes then t_fail e else t_return Completed))
    (\<lambda>x. at_stage op stage (\<lambda>f. (x = Completed \<longrightarrow> staged bytes f) \<and> tidy bytes f0 f))
    (\<lambda>_. at_stage op stage (tidy bytes f0)) u" if u: "at_stage op stage ?P u" for e u
    unfolding twp_then
    by (rule twp_still [where m = "running op k", OF only_running(1) u], erule last, erule tidy)
  show ?thesis unfolding Completed finish_attempt_def prod.case attempt_outcome.case twp_then [of "t_map_err _ _"] twp_basic(4)
    by (rule twp_still [OF only_noop assms], erule report, erule tidy)
qed

lemma twp_size_of:
  assumes "at_stage op stage P w"
  shows "twp (t_catch (size_of stage)) (\<lambda>r w'. at_stage op stage P w' \<and> (\<forall>n. r = Inr n \<longrightarrow> at_stage op stage (staged n) w')) E w"
proof -
  have "d_files (performs (others w) (ts_data w)) stage = d_files (ts_data w) stage"
    using assms by (simp add: at_stage_def others_stage)
  with assms show ?thesis
    by (auto simp: size_of_def file_at_def act_def twp_simps twp_act_torn Let_def at_stage_def staged_def
        outcome_simps split: option.splits sum.splits)
qed

lemma twp_remove:
  assumes "at_stage op stage P w" "P None"
  shows "twp (remove_task_file stage) (\<lambda>_. at_stage op stage (\<lambda>f. f = None)) (\<lambda>_. at_stage op stage P) w"
  using assms others_stage [of w stage]
  by (auto simp: remove_task_file_def statement_def act_def twp_act_torn Let_def at_stage_def put_data_file_def
      split: option.splits)

definition resumable :: "nat \<Rightarrow> file_state option \<Rightarrow> nat \<Rightarrow> file_state option \<Rightarrow> bool" where
  "resumable bytes f0 offset f \<longleftrightarrow> tidy bytes f0 f \<and> (offset > 0 \<longrightarrow> staged offset f \<and> offset \<le> bytes)"

lemma tidy_None [simp]: "tidy bytes f0 None"
  by (simp add: tidy_def)

lemma twp_start_offset:
  assumes "at_stage op stage (\<lambda>f. f = f0) w"
  shows "twp (start_offset stage bytes)
     (\<lambda>s. at_stage op stage (\<lambda>f. case s of None \<Rightarrow> staged bytes f | Some n \<Rightarrow> resumable bytes f0 n f))
     (\<lambda>_. at_stage op stage (tidy bytes f0)) w"
  unfolding start_offset_def twp_bind
proof (rule twp_mono [OF twp_size_of [OF assms]])
  fix r w' assume w': "at_stage op stage (\<lambda>f. f = f0) w' \<and> (\<forall>n. r = Inr n \<longrightarrow> at_stage op stage (staged n) w')"
  define n where "n = unwrap_or 0 (to_option r)"
  have stg: "at_stage op stage (staged n) w'" if "n > 0"
    using that w' by (cases r) (auto simp: n_def)
  have f0: "at_stage op stage (tidy bytes f0) w'" using w' by (auto simp: at_stage_def tidy_def)
  have rem: "twp (t_then (t_when (n > 0) (t_map_err internal_failure (remove_task_file stage))) (t_return (Some 0)))
     (\<lambda>s. at_stage op stage (\<lambda>f. case s of None \<Rightarrow> staged bytes f | Some n \<Rightarrow> resumable bytes f0 n f))
     (\<lambda>_. at_stage op stage (tidy bytes f0)) w'"
  proof (cases "n > 0")
    case True
    have "twp (remove_task_file stage) (\<lambda>_. at_stage op stage (resumable bytes f0 0)) (\<lambda>_. at_stage op stage (tidy bytes f0)) w'"
      by (rule twp_mono [OF twp_remove [OF f0]]) (auto simp: resumable_def elim: at_stage_mono)
    with True show ?thesis by (simp add: twp_simps t_when_def)
  next
    case False
    with f0 show ?thesis by (simp add: twp_simps t_when_def resumable_def)
  qed
  have "twp (case resume_decision n bytes of VerifyOnly \<Rightarrow> t_return None
       | RestartFromZero \<Rightarrow> t_then (t_when (n > 0) (t_map_err internal_failure (remove_task_file stage))) (t_return (Some 0))
       | Range offset \<Rightarrow> t_return (Some offset))
     (\<lambda>s. at_stage op stage (\<lambda>f. case s of None \<Rightarrow> staged bytes f | Some n \<Rightarrow> resumable bytes f0 n f))
     (\<lambda>_. at_stage op stage (tidy bytes f0)) w'"
  proof (cases "resume_decision n bytes")
    case VerifyOnly
    then have "n > 0" "n = bytes" by (auto simp: resume_decision_def split: if_splits)
    with stg VerifyOnly show ?thesis by (simp add: twp_simps)
  next
    case (Range k)
    then have "n > 0" "k = n" "n \<le> bytes" by (auto simp: resume_decision_def split: if_splits)
    with stg f0 Range show ?thesis by (auto simp: twp_simps resumable_def at_stage_def)
  next
    case RestartFromZero
    with rem show ?thesis by simp
  qed
  then show "twp (let partial_len = unwrap_or 0 (to_option r) in
       case resume_decision partial_len bytes of VerifyOnly \<Rightarrow> t_return None
       | RestartFromZero \<Rightarrow> t_then (t_when (partial_len > 0) (t_map_err internal_failure (remove_task_file stage))) (t_return (Some 0))
       | Range offset \<Rightarrow> t_return (Some offset))
     (\<lambda>s. at_stage op stage (\<lambda>f. case s of None \<Rightarrow> staged bytes f | Some n \<Rightarrow> resumable bytes f0 n f))
     (\<lambda>_. at_stage op stage (tidy bytes f0)) w'"
    by (simp add: Let_def n_def cong: resume_decision.case_cong)
qed

lemma twp_accept_response:
  assumes "at_stage op stage (resumable bytes f0 offset) w"
  shows "twp (accept_response stage offset st shown hdr)
     (\<lambda>from. at_stage op stage (resumable bytes f0 from)) (\<lambda>_. at_stage op stage (tidy bytes f0)) w"
proof -
  have t: "at_stage op stage (tidy bytes f0) w" using assms by (rule at_stage_mono) (simp add: resumable_def)
  have zero: "at_stage op stage (resumable bytes f0 0) w" using t by (rule at_stage_mono) (simp add: resumable_def)
  have rem: "twp (remove_task_file stage) (\<lambda>_. at_stage op stage (resumable bytes f0 0)) (\<lambda>_. at_stage op stage (tidy bytes f0)) w"
    by (rule twp_mono [OF twp_remove [OF t]]) (auto simp: resumable_def elim: at_stage_mono)
  have fail: "twp (remove_task_file stage) (\<lambda>_. at_stage op stage (tidy bytes f0)) (\<lambda>_. at_stage op stage (tidy bytes f0)) w"
    by (rule twp_mono [OF twp_remove [OF t]]) (auto elim: at_stage_mono)
  show ?thesis
    using assms t zero rem fail by (auto simp: accept_response_def twp_simps split: range_outcome.splits)
qed

lemma twp_open_stage:
  assumes "at_stage op stage (resumable bytes f0 offset) w"
  shows "twp (open_stage stage offset) (\<lambda>_. at_stage op stage (\<lambda>f. staged offset f \<and> offset \<le> bytes))
    (\<lambda>_. at_stage op stage (tidy bytes f0)) w"
proof -
  have d: "d_files (performs (others w) (ts_data w)) stage = d_files (ts_data w) stage"
    using assms by (simp add: at_stage_def others_stage)
  from assms d show ?thesis
    by (auto simp: open_stage_def act_def twp_act_torn Let_def at_stage_def resumable_def staged_def put_data_file_def
        append_bytes_def file_size_def split: option.splits)
qed

lemma twp_attempt:
  assumes "at_stage op stage (\<lambda>f. f = f0) w"
  shows "twp (attempt_download op url stage bytes)
    (\<lambda>x. at_stage op stage (\<lambda>f. (x = Completed \<longrightarrow> staged bytes f) \<and> tidy bytes f0 f))
    (\<lambda>_. at_stage op stage (tidy bytes f0)) w"
  unfolding attempt_download_def twp_bind
proof (rule twp_mono [OF twp_start_offset [OF assms]])
  let ?Q = "\<lambda>x. at_stage op stage (\<lambda>f. (x = Completed \<longrightarrow> staged bytes f) \<and> tidy bytes f0 f)"
  let ?E = "\<lambda>_. at_stage op stage (tidy bytes f0)"
  fix s w1 assume s: "at_stage op stage (\<lambda>f. case s of None \<Rightarrow> staged bytes f | Some n \<Rightarrow> resumable bytes f0 n f) w1"
  have body: "twp (t_then (t_map_err internal_failure (open_stage stage start))
      (t_bind (receive op stage bytes body start 0) (finish_attempt op bytes))) ?Q ?E u"
    if u: "at_stage op stage (resumable bytes f0 start) u" for start body u
    unfolding twp_then twp_basic(4) twp_bind
  proof (rule twp_mono [OF twp_open_stage [OF u]])
    fix x v assume v: "at_stage op stage (\<lambda>f. staged start f \<and> start \<le> bytes) v"
    then have v': "at_stage op stage (staged start) v" "start \<le> bytes" by (auto simp: at_stage_def)
    show "twp (receive op stage bytes body start 0) (\<lambda>r. twp (finish_attempt op bytes r) ?Q ?E) ?E v"
      by (rule twp_mono [OF twp_receive [OF v', of body 0 f0]]) (auto intro: twp_finish_attempt)
  qed
  show "twp (case s of None \<Rightarrow> t_return Completed
     | Some offset \<Rightarrow> t_bind (ask se_send) (\<lambda>response. case response of
           Send_timeout \<Rightarrow> t_fail (failure ''stalled'' (''no response within '' @ decimal stall_timeout_secs @ ''s from '' @ url))
         | Send_error msg \<Rightarrow> t_fail (failure ''source_unavailable'' msg)
         | Sent st shown hdr body \<Rightarrow> t_bind (accept_response stage offset st shown hdr) (\<lambda>from.
             t_then (t_map_err internal_failure (open_stage stage from))
               (t_bind (receive op stage bytes body from 0) (finish_attempt op bytes))))) ?Q ?E w1"
  proof (cases s)
    case None
    with s show ?thesis by (auto simp: twp_simps at_stage_def intro: tidy_staged)
  next
    case (Some offset)
    with s have r: "at_stage op stage (resumable bytes f0 offset) (arrive w1)" by simp
    then have t: "at_stage op stage (tidy bytes f0) (arrive w1)" by (rule at_stage_mono) (simp add: resumable_def)
    show ?thesis unfolding Some option.case twp_bind twp_ask
    proof (cases "se_send (ts_script w1 (ts_step w1))")
      case (Sent st shown hdr bdy)
      have "twp (accept_response stage offset st shown hdr) (\<lambda>from. twp (t_then (t_map_err internal_failure (open_stage stage from))
               (t_bind (receive op stage bytes bdy from 0) (finish_attempt op bytes))) ?Q ?E) ?E (arrive w1)"
        by (rule twp_mono [OF twp_accept_response [OF r]]) (auto intro: body)
      with Sent show "twp (case se_send (ts_script w1 (ts_step w1)) of
           Sent st shown hdr body \<Rightarrow> t_bind (accept_response stage offset st shown hdr) (\<lambda>from.
             t_then (t_map_err internal_failure (open_stage stage from))
               (t_bind (receive op stage bytes body from 0) (finish_attempt op bytes)))
         | Send_timeout \<Rightarrow> t_fail (failure ''stalled'' (''no response within '' @ decimal stall_timeout_secs @ ''s from '' @ url))
         | Send_error msg \<Rightarrow> t_fail (failure ''source_unavailable'' msg)) ?Q ?E (arrive w1)"
        by (simp add: twp_bind)
    qed (use t in \<open>simp_all add: twp_simps\<close>)
  qed
qed


text \<open>
  An attempt never overfills the staging file: whatever the server answers and wherever it fails,
  the staged file is afterwards untouched or no larger than the catalog's file, and an attempt that
  reports completion has staged exactly the catalog's number of bytes.
\<close>

theorem attempt_never_overfills:
  assumes "ts_own w = op" "ts_stage w = stage"
    and "attempt_download op url stage bytes w = (r, w')"
  shows "(r = Inr Completed \<longrightarrow> staged bytes (d_files (ts_data w') stage))
    \<and> (d_files (ts_data w') stage = d_files (ts_data w) stage
       \<or> (\<forall>x. d_files (ts_data w') stage = Some x \<longrightarrow> file_size x \<le> bytes))"
proof -
  have "at_stage op stage (\<lambda>f. f = d_files (ts_data w) stage) w" using assms by (simp add: at_stage_def)
  from twp_attempt [OF this, of url bytes] assms(3) show ?thesis
    by (auto simp: twp_def at_stage_def tidy_def split: sum.splits)
qed

subsection \<open>From the first source to the promotion\<close>

lemma only_attempt [only_intros]: "only (before_promotion op stage) (attempt_download op url stage bytes)"
proof -
  have [only_intros]: "only (before_promotion op stage) (remove_task_file stage)"
    by (intro only_intros) (simp add: before_promotion_def)
  have [only_intros]: "only (before_promotion op stage) (open_stage stage k)" for k
    unfolding open_stage_def by (intro only_intros) (auto simp: before_promotion_def split: if_splits)
  have [only_intros]: "only (before_promotion op stage) (write_all stage c)" for c
    unfolding write_all_def by (intro only_intros) (auto simp: before_promotion_def)
  have [only_intros]: "only (before_promotion op stage) (receive op stage bytes body k s)" for body k s
  proof (induction body arbitrary: k s)
    case (Cons c body)
    then show ?case by (cases c) (auto intro!: only_intros)
  qed (auto intro!: only_intros)
  have [only_intros]: "only (before_promotion op stage) (finish_attempt op bytes r)" for r
    unfolding finish_attempt_def by (cases r; cases "fst r") (auto intro!: only_intros)
  have [only_intros]: "only (before_promotion op stage) (accept_response stage k st shown hdr)" for k st shown hdr
    unfolding accept_response_def by (auto intro!: only_intros split: range_outcome.split)
  have [only_intros]: "only (before_promotion op stage) (start_offset stage bytes)"
    unfolding start_offset_def Let_def
    by (rule only_bind) (auto intro!: only_intros split: resume_decision.split)
  show ?thesis
    unfolding attempt_download_def by (auto intro!: only_intros split: send_outcome.split option.split)
qed

lemma only_try_source [only_intros]: "only (before_promotion op stage) (try_source op stage bytes url backs errs)"
proof (induction backs arbitrary: errs)
  case (Cons b backs)
  then show ?case
    by (auto simp: Let_def intro!: only_intros split: sum.split attempt_outcome.split)
qed (auto intro!: only_intros)

lemma only_try_sources [only_intros]: "only (before_promotion op stage) (try_sources op stage bytes urls errs)"
proof (induction urls arbitrary: errs)
  case (Cons u urls)
  then show ?case by (auto intro!: only_intros split: prod.split)
qed (auto intro!: only_intros)

abbreviation any_stage :: "file_state option \<Rightarrow> bool" where "any_stage \<equiv> \<lambda>_. True"

lemma twp_try_source:
  assumes "at_stage op stage any_stage w"
  shows "twp (try_source op stage bytes url backs errs)
    (\<lambda>(ok, _). at_stage op stage (\<lambda>f. ok \<longrightarrow> staged bytes f)) (\<lambda>_. at_stage op stage any_stage) w"
  using assms
proof (induction backs arbitrary: errs w)
  case Nil
  then show ?case by (simp add: twp_simps)
next
  case (Cons b backs)
  let ?Q = "\<lambda>(ok, _). at_stage op stage (\<lambda>f. ok \<longrightarrow> staged bytes f)"
  let ?E = "\<lambda>_. at_stage op stage any_stage"
  let ?after = "\<lambda>r. case r of Inr Completed \<Rightarrow> t_return (True, errs) | Inr Stopped \<Rightarrow> t_fail cancelled_failure
         | Inl e \<Rightarrow> (let errs' = filter (\<lambda>(u, _). u \<noteq> url) errs @ [(url, e)] in
              t_then (t_when (backs \<noteq> []) (interruptible_backoff op b)) (try_source op stage bytes url backs errs'))"
  have again: "twp (t_then (t_when (backs \<noteq> []) (interruptible_backoff op b)) (try_source op stage bytes url backs es)) ?Q ?E u"
    if u: "at_stage op stage any_stage u" for es u
    unfolding twp_then
    by (rule twp_still [OF only_cond(2) [OF only_backoff] u]) (auto intro: Cons.IH)
  have tried: "twp (t_bind (t_catch (attempt_download op url stage bytes)) ?after) ?Q ?E u"
    if u: "at_stage op stage any_stage u" for u
  proof -
    have f0: "at_stage op stage (\<lambda>f. f = d_files (ts_data u) stage) u" using u by (simp add: at_stage_def)
    show ?thesis unfolding twp_bind twp_basic(3)
    proof (rule twp_mono [OF twp_attempt [OF f0]])
      fix x v assume v: "at_stage op stage (\<lambda>f. (x = Completed \<longrightarrow> staged bytes f) \<and> tidy bytes (d_files (ts_data u) stage) f) v"
      show "twp (?after (Inr x)) ?Q ?E v"
        using v by (cases x) (auto simp: twp_simps at_stage_def)
    next
      fix e v assume "at_stage op stage (tidy bytes (d_files (ts_data u) stage)) v"
      then have "at_stage op stage any_stage v" by (simp add: at_stage_def)
      then show "twp (?after (Inl e)) ?Q ?E v" unfolding sum.case Let_def by (rule again)
    qed
  qed
  have "twp (t_bind (cancelled op) (\<lambda>c. if c then t_fail cancelled_failure
      else t_bind (t_catch (attempt_download op url stage bytes)) ?after)) ?Q ?E w"
  proof (rule twp_cancelled [OF Cons.prems])
    fix c v assume v: "at_stage op stage any_stage v"
    show "twp (if c then t_fail cancelled_failure else t_bind (t_catch (attempt_download op url stage bytes)) ?after) ?Q ?E v"
      using tried [OF v] v by (simp add: twp_simps)
  qed
  then show ?case by simp
qed

lemma twp_try_sources:
  assumes "at_stage op stage any_stage w"
  shows "twp (try_sources op stage bytes urls errs)
    (\<lambda>(ok, _). at_stage op stage (\<lambda>f. ok \<longrightarrow> staged bytes f)) (\<lambda>_. at_stage op stage any_stage) w"
  using assms
proof (induction urls arbitrary: errs w)
  case Nil
  then show ?case by (simp add: twp_simps)
next
  case (Cons url urls)
  show ?case unfolding try_sources.simps twp_bind
  proof (rule twp_mono [OF twp_try_source [OF Cons.prems]])
    fix x :: "bool \<times> source_errors" and u
    assume u: "(case x of (ok, _) \<Rightarrow> at_stage op stage (\<lambda>f. ok \<longrightarrow> staged bytes f)) u"
    obtain ok es where x: "x = (ok, es)" by force
    from u x have "at_stage op stage any_stage u" by (simp add: at_stage_def)
    from Cons.IH [OF this] u show "twp (case x of (ok, errs') \<Rightarrow> if ok then t_return (True, errs')
        else try_sources op stage bytes urls errs')
      (\<lambda>(ok, _). at_stage op stage (\<lambda>f. ok \<longrightarrow> staged bytes f)) (\<lambda>_. at_stage op stage any_stage) u"
      by (cases ok) (simp_all add: x twp_simps)
  qed
qed

text \<open>What a completed installation means for the state.\<close>

definition verified_install ::
    "(byte list \<Rightarrow> string) \<Rightarrow> string \<Rightarrow> string \<Rightarrow> catalog_file \<Rightarrow> sdata \<Rightarrow> bool" where
  "verified_install sha256 dir slug f d \<longleftrightarrow>
     (\<exists>row x. find_installed slug d = Some row \<and> in_path row = store_path dir (cf_sha256 f)
        \<and> in_sha256 row = cf_sha256 f \<and> in_quant row = Some (cf_quant f) \<and> \<not> in_needs_verification row
        \<and> d_files d (in_path row) = Some x \<and> eq_ignore_case (sha256 (fi_bytes x)) (cf_sha256 f)
        \<and> file_size x = cf_size_bytes f)"

definition completed :: "string \<Rightarrow> sdata \<Rightarrow> bool" where
  "completed op d \<longleftrightarrow> (\<exists>r. find_operation op d = Some r \<and> o_state r = ''completed'')"

lemma completed_not: "\<not> completed op d \<longleftrightarrow> not_completed op d"
  by (auto simp: completed_def not_completed_def)

lemma promoted_install:
  assumes "fst (promote p x d) = Inr ()" "d_files d (pr_stage p) = Some c" "pr_dir p = dir" "pr_file p = f"
    "eq_ignore_case (sha256 (fi_bytes c)) (cf_sha256 f)" "file_size c = cf_size_bytes f"
  shows "verified_install sha256 dir (pr_model p) f (snd (promote p x d)) \<and> completed (pr_operation p) (snd (promote p x d))"
proof -
  from promote_effect [OF assms(1)] obtain c' t where e: "d_files d (pr_stage p) = Some c'"
    "snd (promote p x d) = finish_promotion p t (move_file (pr_stage p) (store_path (pr_dir p) (cf_sha256 (pr_file p))) d)" .
  from assms(1) obtain r where r: "find_operation (pr_operation p) d = Some r" "find_installed (pr_model p) d = None"
    by (auto simp: promote_Inr)
  then have "completed (pr_operation p) (snd (promote p x d))"
    using find_operation_Some [OF r(1)] by (simp add: completed_def e finish_promotion_find)
  moreover have "find_installed (pr_model p) (snd (promote p x d)) = Some (promoted_row p t)"
    using r(2) by (simp add: find_installed_def e find_append promoted_row_def)
  ultimately show ?thesis
    using assms(2-6) by (simp add: verified_install_def e(2) promoted_row_def move_file_def put_data_file_def)
qed


lemma twp_true [simp]: "twp m (\<lambda>_ _. True) (\<lambda>_ _. True) w"
  by (simp add: twp_def split: prod.splits sum.splits)

lemma twp_conj:
  assumes "twp m Q E w" "twp m Q' E' w"
  shows "twp m (\<lambda>x w'. Q x w' \<and> Q' x w') (\<lambda>e w'. E e w' \<and> E' e w') w"
  using assms by (auto simp: twp_def split: prod.splits sum.splits)

lemma frame_not_completed:
  "frame (before_promotion op stage) w w' \<Longrightarrow> not_completed op (ts_data w) \<Longrightarrow> not_completed op (ts_data w')"
  by (erule frame_invariant) (rule not_completed_before_promotion)

lemma others_not_completed:
  "ts_own w = op \<Longrightarrow> not_completed op d \<Longrightarrow> not_completed op (performs (others w) d)"
  by (rule performs_invariant [of "before_promotion op (ts_stage w)"])
     (auto simp: others_def before_promotion_def off_stage_def intro: not_completed_before_promotion [unfolded before_promotion_def off_stage_def])

text \<open>The task's own operation is unfinished, and the staging file is as \<open>P\<close> says.\<close>

definition unfinished :: "string \<Rightarrow> string \<Rightarrow> (file_state option \<Rightarrow> bool) \<Rightarrow> task_state \<Rightarrow> bool" where
  "unfinished op stage P w \<longleftrightarrow> at_stage op stage P w \<and> not_completed op (ts_data w)"

lemma twp_unfinished:
  assumes "only (before_promotion op stage) m" "unfinished op stage P w" "twp m (\<lambda>x. at_stage op stage (Q x)) (\<lambda>e. at_stage op stage R) w"
  shows "twp m (\<lambda>x. unfinished op stage (Q x)) (\<lambda>e. unfinished op stage R) w"
proof -
  have "twp m (\<lambda>_ w'. not_completed op (ts_data w')) (\<lambda>_ w'. not_completed op (ts_data w')) w"
    by (rule twp_only [OF assms(1)])
       (use assms(2) in \<open>auto simp: unfinished_def at_stage_def intro: frame_not_completed\<close>)
  from twp_mono [OF twp_conj [OF assms(3) this]] show ?thesis by (simp add: unfinished_def)
qed

lemma twp_unfinished_still:
  assumes "only (off_stage op stage) m" "only (before_promotion op stage) m" "unfinished op stage P w"
    "\<And>x w'. unfinished op stage P w' \<Longrightarrow> Q x w'" "\<And>e w'. unfinished op stage P w' \<Longrightarrow> E e w'"
  shows "twp m Q E w"
proof (rule twp_mono)
  show "twp m (\<lambda>_. unfinished op stage P) (\<lambda>_. unfinished op stage P) w"
    by (rule twp_unfinished [OF assms(2,3)], rule twp_still [OF assms(1)])
       (use assms(3) in \<open>auto simp: unfinished_def\<close>)
qed (use assms(4,5) in auto)

definition still_open :: "string \<Rightarrow> task_state \<Rightarrow> bool" where
  "still_open op w \<longleftrightarrow> not_completed op (ts_data w) \<and> ts_own w = op"

lemma frame_still_open:
  "still_open op w \<Longrightarrow> frame (before_promotion op stage) w w' \<Longrightarrow> still_open op w'"
  using frame_not_completed [of op stage w w'] by (auto simp: still_open_def frame_def)

text \<open>Promoting a staged file that has the catalog's size and hash.\<close>

lemma twp_promote:
  assumes "still_open op u" "ts_stage u = stage" "d_files (ts_data u) stage = Some c"
    "file_size c = cf_size_bytes f" "eq_ignore_case (sha256 (fi_bytes c)) (cf_sha256 f)"
  shows "twp (promote_task (promotion_of dir op slug f stage bytes source))
      (\<lambda>_ w'. completed op (ts_data w') \<and> verified_install sha256 dir slug f (ts_data w'))
      (\<lambda>_ w'. still_open op w') u"
proof -
  define p where "p = promotion_of dir op slug f stage bytes source (se_now (ts_script u (ts_step u)))"
  define x where "x = se_promote (ts_script u (ts_step u))"
  define d' where "d' = performs (others u) (ts_data u)"
  have p: "pr_operation p = op" "pr_model p = slug" "pr_file p = f" "pr_stage p = stage" "pr_dir p = dir"
    by (simp_all add: p_def promotion_of_def)
  have u: "ts_own u = op" "not_completed op (ts_data u)" using assms(1) by (simp_all add: still_open_def)
  have c': "d_files d' (pr_stage p) = Some c" using assms(2,3) p by (simp add: d'_def others_stage)
  have n: "not_completed op d'" using u by (simp add: d'_def others_not_completed)
  have "fst (promote p x d') = Inr () \<Longrightarrow>
      verified_install sha256 dir slug f (snd (promote p x d')) \<and> completed op (snd (promote p x d'))"
    using promoted_install [OF _ c', of x dir f sha256] p assms(4,5) by simp
  moreover have "fst (promote p x d') = Inl e \<Longrightarrow> not_completed op (snd (promote p x d'))" for e
    using n by (intro not_completed_promote) auto
  ultimately show ?thesis using n u(1)
    by (auto simp: still_open_def promote_task_def act_def twp_act_torn Let_def d'_def [symmetric] p_def [symmetric] x_def [symmetric]
        split: option.splits sum.splits)
qed

lemma twp_verify_and_promote:
  assumes "unfinished op (stage_path dir (cf_sha256 f)) (staged (cf_size_bytes f)) w"
  shows "twp (verify_and_promote sha256 dir op slug f (stage_path dir (cf_sha256 f)))
    (\<lambda>_ w'. completed op (ts_data w') \<and> verified_install sha256 dir slug f (ts_data w'))
    (\<lambda>_ w'. still_open op w') w"
proof -
  let ?stage = "stage_path dir (cf_sha256 f)"
  define d where "d = performs (others w) (ts_data w)"
  from assms obtain c where c: "d_files d ?stage = Some c" "file_size c = cf_size_bytes f" "not_completed op d"
    "ts_own w = op" "ts_stage w = ?stage"
    by (auto simp: unfinished_def at_stage_def staged_def d_def others_stage others_not_completed)
  have hashed: "twp (sha256_of sha256 ?stage)
      (\<lambda>x w'. x = sha256 (fi_bytes c) \<and> ts_own w' = op \<and> ts_stage w' = ?stage \<and> ts_data w' = d)
      (\<lambda>_ w'. still_open op w') w"
    using c by (auto simp: still_open_def sha256_of_def file_at_def act_def twp_simps twp_act_torn Let_def d_def [symmetric]
        split: option.splits)
  have quarantined: "twp (quarantine dir ?stage n) (\<lambda>_ w'. still_open op w') (\<lambda>_ w'. still_open op w') u"
    if u: "ts_own u = op" "ts_stage u = ?stage" "ts_data u = d" for u n
  proof (rule twp_only)
    show "only (before_promotion op ?stage) (quarantine dir ?stage n)"
      unfolding quarantine_def by (intro only_intros) (simp add: before_promotion_def)
  next
    have "still_open op u" using u c(3) by (simp add: still_open_def)
    then show "still_open op w'" if "frame (before_promotion op ?stage) u w'" for w' using that by (rule frame_still_open)
    then show "still_open op w'" if "frame (before_promotion op ?stage) u w'" for w' using that .
  qed (use u in simp)
  have promoted: "twp (promote_task (promotion_of dir op slug f ?stage (cf_size_bytes f) source_catalog_download))
      (\<lambda>_ w'. completed op (ts_data w') \<and> verified_install sha256 dir slug f (ts_data w'))
      (\<lambda>_ w'. still_open op w') u"
    if u: "ts_own u = op" "ts_stage u = ?stage" "ts_data u = d" and h: "eq_ignore_case (sha256 (fi_bytes c)) (cf_sha256 f)" for u
    by (rule twp_promote) (use u h c in \<open>auto simp: still_open_def\<close>)
  have "twp (if \<not> eq_ignore_case actual (cf_sha256 f) then
         t_then (t_map_err internal_failure (quarantine dir ?stage (op @ ''-hash-mismatch'')))
           (t_fail (failure ''hash_mismatch'' ''Catalog SHA-256 mismatch''))
       else t_map_err internal_failure (promote_task (promotion_of dir op slug f ?stage (cf_size_bytes f) source_catalog_download)))
      (\<lambda>_ w'. completed op (ts_data w') \<and> verified_install sha256 dir slug f (ts_data w'))
      (\<lambda>_ w'. still_open op w') u"
    if u: "actual = sha256 (fi_bytes c) \<and> ts_own u = op \<and> ts_stage u = ?stage \<and> ts_data u = d" for actual u
    using u quarantined [of u] promoted [of u] by (simp add: twp_then twp_basic)
  then show ?thesis
    unfolding verify_and_promote_def twp_bind twp_basic(4) by (intro twp_mono [OF hashed]) auto
qed


lemma unfinished_any: "unfinished op stage P w \<Longrightarrow> unfinished op stage any_stage w"
  by (simp add: unfinished_def at_stage_def)

lemma twp_download_with_sources:
  assumes "unfinished op (stage_path dir (cf_sha256 f)) any_stage w"
  shows "twp (download_with_sources sha256 dir urls m f op (stage_path dir (cf_sha256 f)))
    (\<lambda>_ w'. completed op (ts_data w') \<and> verified_install sha256 dir (cm_slug m) f (ts_data w'))
    (\<lambda>_ w'. still_open op w') w"
proof -
  let ?stage = "stage_path dir (cf_sha256 f)"
  let ?Q = "\<lambda>_ w'. completed op (ts_data w') \<and> verified_install sha256 dir (cm_slug m) f (ts_data w')"
  let ?E = "\<lambda>_ w'. still_open op w'"
  have "twp (try_sources op ?stage (cf_size_bytes f) urls [])
      (\<lambda>r. unfinished op ?stage (\<lambda>x. fst r \<longrightarrow> staged (cf_size_bytes f) x)) (\<lambda>_. unfinished op ?stage any_stage) w"
    by (rule twp_unfinished [OF only_try_sources assms], rule twp_mono [OF twp_try_sources])
       (use assms in \<open>auto simp: unfinished_def split: prod.splits\<close>)
  then show ?thesis unfolding download_with_sources_def twp_bind
  proof (rule twp_mono)
    fix r :: "bool \<times> source_errors" and u
    assume u: "unfinished op ?stage (\<lambda>x. fst r \<longrightarrow> staged (cf_size_bytes f) x) u"
    obtain ok errs where r: "r = (ok, errs)" by force
    show "twp (case r of (ok, errs) \<Rightarrow> if \<not> ok then t_fail (all_sources_failed errs)
        else verify_and_promote sha256 dir op (cm_slug m) f ?stage) ?Q ?E u"
      using u twp_verify_and_promote [of op dir f u sha256 "cm_slug m"]
      by (cases ok) (simp_all add: r twp_simps unfinished_def at_stage_def still_open_def)
  qed (simp add: unfinished_def at_stage_def still_open_def)
qed

lemma twp_download_model:
  assumes "unfinished op (stage_path dir (cf_sha256 f)) any_stage w"
  shows "twp (download_model sha256 dir m f op)
    (\<lambda>_ w'. completed op (ts_data w') \<and> verified_install sha256 dir (cm_slug m) f (ts_data w'))
    (\<lambda>_ w'. still_open op w') w"
proof -
  let ?stage = "stage_path dir (cf_sha256 f)"
  let ?Q = "\<lambda>_ w'. completed op (ts_data w') \<and> verified_install sha256 dir (cm_slug m) f (ts_data w')"
  let ?E = "\<lambda>_ w'. still_open op w'"
  have fail: "?E e u" if "unfinished op ?stage any_stage u" for e :: download_failure and u
    using that by (simp add: unfinished_def at_stage_def still_open_def)
  note still = twp_unfinished_still [where op = op and stage = ?stage and P = any_stage]
  have space: "twp (t_bind (t_map_err internal_failure free_space_bytes) (\<lambda>available.
        if available < needed then t_fail (x available) else download_with_sources sha256 dir (candidate_urls m f) m f op ?stage)) ?Q ?E u"
    if u: "unfinished op ?stage any_stage u" for needed x u
    unfolding twp_bind free_space_bytes_def
    by (rule still [OF _ _ u]) (auto intro!: only_intros intro: twp_download_with_sources fail simp: twp_basic)
  have staged: "twp (t_bind (t_catch (size_of ?stage)) k) ?Q ?E u"
    if u: "unfinished op ?stage any_stage u" and k: "\<And>r v. unfinished op ?stage any_stage v \<Longrightarrow> twp (k r) ?Q ?E v"
    for k :: "string + nat \<Rightarrow> (download_failure, unit) task" and u
    unfolding twp_bind by (rule still [OF _ _ u]) (auto intro!: only_intros intro: k fail)
  have run: "twp (t_then (running op 0) k) ?Q ?E u"
    if u: "unfinished op ?stage any_stage u" and k: "\<And>v. unfinished op ?stage any_stage v \<Longrightarrow> twp k ?Q ?E v"
    for k :: "(download_failure, unit) task" and u
    unfolding twp_then by (rule still [OF _ _ u]) (auto intro!: only_intros intro: k fail)
  show ?thesis unfolding download_model_def twp_bind [of "cancelled op"]
  proof (rule still [OF only_cancelled only_cancelled assms])
    fix c u assume u: "unfinished op ?stage any_stage u"
    show "twp (if c then t_fail cancelled_failure else t_then (running op 0)
         (let stage = ?stage in t_bind (t_catch (size_of stage)) (\<lambda>len.
            let needed = disk_required_bytes (cf_size_bytes f) (unwrap_or 0 (to_option len)) in
            t_bind (t_map_err internal_failure free_space_bytes) (\<lambda>available.
              if available < needed then t_fail (failure ''insufficient_disk_space''
                  (''Need '' @ decimal needed @ '' bytes free, only '' @ decimal available @ '' available''))
              else download_with_sources sha256 dir (candidate_urls m f) m f op stage)))) ?Q ?E u"
    proof (cases c)
      case True
      with u show ?thesis by (simp add: twp_simps unfinished_def at_stage_def still_open_def)
    next
      case False
      show ?thesis unfolding Let_def using False by (simp only: if_False) (rule run [OF u], rule staged, assumption, rule space, assumption)
    qed
  qed (rule fail)
qed

lemma twp_install_worker:
  assumes "unfinished op (stage_path dir (cf_sha256 f)) any_stage w"
  shows "twp (install_worker sha256 dir m f op)
    (\<lambda>_ w'. completed op (ts_data w') \<longrightarrow> verified_install sha256 dir (cm_slug m) f (ts_data w'))
    (\<lambda>_ _. False) w"
proof -
  let ?Q = "\<lambda>_ w'. completed op (ts_data w') \<longrightarrow> verified_install sha256 dir (cm_slug m) f (ts_data w')"
  define A where "A = (\<lambda>(w' :: task_state) a. before_promotion op (ts_stage w') a \<or> (\<exists>e c b t. a = Update_operation op ''failed'' e c b t))"
  have keep: "not_completed op (perform a d)" if a: "A w' a" and d: "not_completed op d" for w' a d
  proof (cases "before_promotion op (ts_stage w') a")
    case True
    then show ?thesis using d by (rule not_completed_before_promotion)
  next
    case False
    with a obtain e c b t where "a = Update_operation op ''failed'' e c b t" by (auto simp: A_def)
    with d show ?thesis by (auto simp: update_operation_with_code_def intro: not_completed_update)
  qed
  have note_failure: "twp (t_bind (t_catch (operation_state op)) (\<lambda>st.
             if Option.bind (to_option st) (\<lambda>x. x) \<noteq> Some ''cancelled'' then
               t_ignore (update_operation_task op ''failed'' (Some (df_message e)) (Some (df_code e)) 0)
             else t_return ())) ?Q (\<lambda>_ _. False) u"
    if u: "not_completed op (ts_data u)" "ts_own u = op" for e u
  proof -
    let ?m = "t_bind (t_catch (operation_state op)) (\<lambda>st.
             if Option.bind (to_option st) (\<lambda>x. x) \<noteq> Some ''cancelled'' then
               t_ignore (update_operation_task op ''failed'' (Some (df_message e)) (Some (df_code e)) 0)
             else t_return ())"
    have "only (A u) ?m" by (intro only_intros) (simp add: A_def)
    then have "twp ?m (\<lambda>_ w'. not_completed op (ts_data w')) (\<lambda>_ w'. not_completed op (ts_data w')) u"
    proof (rule twp_only)
      show "script_within (A u) u" using u(2) by (auto simp: script_within_def A_def before_promotion_def off_stage_def)
    qed (erule frame_invariant; use keep u(1) in blast)+
    moreover have "twp ?m (\<lambda>_ _. True) (\<lambda>_ _. False) u"
      unfolding twp_bind twp_basic(3) by (rule twp_mono [OF twp_true]) (auto simp: twp_simps)
    ultimately show ?thesis by (rule twp_mono [OF twp_conj]) (auto simp: completed_not [symmetric])
  qed
  show ?thesis unfolding install_worker_def twp_bind twp_basic(3)
  proof (rule twp_mono [OF twp_download_model [OF assms]])
    fix x :: unit and u :: task_state
    assume "completed op (ts_data u) \<and> verified_install sha256 dir (cm_slug m) f (ts_data u)"
    then show "twp (case Inr x of Inl e \<Rightarrow> t_bind (t_catch (operation_state op)) (\<lambda>st.
             if Option.bind (to_option st) (\<lambda>x. x) \<noteq> Some ''cancelled'' then
               t_ignore (update_operation_task op ''failed'' (Some (df_message e)) (Some (df_code e)) 0)
             else t_return ()) | Inr _ \<Rightarrow> t_return ()) ?Q (\<lambda>_ _. False) u"
      by (simp add: twp_basic)
  next
    fix e :: download_failure and u :: task_state
    assume "still_open op u"
    then show "twp (case Inl e of Inl e \<Rightarrow> t_bind (t_catch (operation_state op)) (\<lambda>st.
             if Option.bind (to_option st) (\<lambda>x. x) \<noteq> Some ''cancelled'' then
               t_ignore (update_operation_task op ''failed'' (Some (df_message e)) (Some (df_code e)) 0)
             else t_return ()) | Inr _ \<Rightarrow> t_return ()) ?Q (\<lambda>_ _. False) u"
      unfolding sum.case by (intro note_failure) (simp_all add: still_open_def)
  qed
qed

text \<open>
  C23. A completed installation is a verified one. Whatever the network, the disk, the database and the
  other tasks do, when the worker of an installation ends with its operation completed, the model is
  registered as verified under its catalog identity, and the store holds a file of the catalog's size
  whose hash is the catalog's. A failed, stalled or cancelled download never completes.
\<close>

theorem completed_install_is_verified:
  assumes "ts_own w = op" "ts_stage w = stage_path dir (cf_sha256 f)" "\<not> completed op (ts_data w)"
    and "completed op (ts_data (snd (install_worker sha256 dir m f op w)))"
  shows "verified_install sha256 dir (cm_slug m) f (ts_data (snd (install_worker sha256 dir m f op w)))"
proof -
  have "unfinished op (stage_path dir (cf_sha256 f)) any_stage w"
    using assms(1-3) by (simp add: unfinished_def at_stage_def completed_not)
  from twp_install_worker [OF this, of sha256 m] assms(4) show ?thesis
    by (auto simp: twp_def split: prod.splits sum.splits)
qed

definition sample_file :: catalog_file where
  "sample_file = \<lparr>cf_filename = ''m.gguf'', cf_quant = ''Q8_0'', cf_size_bytes = 3, cf_sha256 = ''abc''\<rparr>"

definition sample_model :: catalog_model where
  "sample_model = \<lparr>cm_id = ''org/m'', cm_revision = ''r1'', cm_slug = ''m'', cm_name = ''M'', cm_architecture = ''whisper'',
     cm_family = ''whisper'', cm_license = ''mit'', cm_languages = [''en''],
     cm_capabilities = \<lparr>cl_streaming = False, cl_translate = False, cl_lang_detect = False, cl_timestamps = ''none''\<rparr>,
     cm_speed_score = None, cm_accuracy_score = None, cm_files = [sample_file], cm_default_quant = ''Q8_0'',
     cm_recommended = False, cm_recommended_rank = None\<rparr>"

definition sample_hash :: "byte list \<Rightarrow> string" where
  "sample_hash bs = (if bs = [1, 2, 3] then ''ABC'' else ''def'')"

text \<open>A partial download that is already complete: it is verified without the network.\<close>

definition install_sample :: task_state where
  "install_sample = sample_state\<lparr>ts_own := ''op1'', ts_stage := stage_path ''d'' ''abc'',
     ts_data := put_data_file (stage_path ''d'' ''abc'') (Some \<lparr>fi_bytes = [1, 2, 3], fi_mtime = Some 2\<rparr>) (ts_data sample_state)\<rparr>"

text \<open>A server that sends the file in two chunks.\<close>

definition attempt_sample :: task_state where
  "attempt_sample = sample_state\<lparr>ts_own := ''op1'', ts_stage := ''s'',
     ts_script := (\<lambda>_. quiet\<lparr>se_send := Sent 200 ''200 OK'' None [Chunk [1, 2], Chunk [3]]\<rparr>)\<rparr>"

theorem completed_install_is_verified_witness:
  "verified_install sample_hash ''d'' (cm_slug sample_model) sample_file
     (ts_data (snd (install_worker sample_hash ''d'' sample_model sample_file ''op1'' install_sample)))"
proof (rule completed_install_is_verified)
  show "ts_own install_sample = ''op1''" "ts_stage install_sample = stage_path ''d'' (cf_sha256 sample_file)"
    by (simp_all add: install_sample_def sample_file_def)
  show "\<not> completed ''op1'' (ts_data install_sample)"
    by (simp add: install_sample_def completed_def find_operation_def sample_defs put_data_file_def)
  have "map_option o_state (find_operation ''op1'' (ts_data (snd (install_worker sample_hash ''d'' sample_model sample_file ''op1'' install_sample)))) = Some ''completed''"
    by code_simp
  then show "completed ''op1'' (ts_data (snd (install_worker sample_hash ''d'' sample_model sample_file ''op1'' install_sample)))"
    by (auto simp: completed_def)
qed

theorem attempt_never_overfills_witness:
  "staged 3 (d_files (ts_data (snd (attempt_download ''op1'' ''u'' ''s'' 3 attempt_sample))) ''s'')"
proof -
  have "fst (attempt_download ''op1'' ''u'' ''s'' 3 attempt_sample) = Inr Completed" by code_simp
  then show ?thesis
    using attempt_never_overfills [where w = attempt_sample and stage = "''s''" and url = "''u''" and bytes = 3,
        of "''op1''" "Inr Completed" "snd (attempt_download ''op1'' ''u'' ''s'' 3 attempt_sample)"]
    by (simp add: attempt_sample_def prod_eq_iff)
qed

end
