(* ===== verification/Import.thy ===== *)
theory Import
  imports Download_Safety
begin

text \<open>
  \<open>src/import.rs\<close>: a model file uploaded as multipart form data, hashed while it is
  staged, matched against the catalog and promoted, with a guard that quarantines what an interrupted
  upload leaves. A form
  part has a name and can be read as text or as chunks; the parts come from the request.
\<close>

subsection \<open>The upload route\<close>

datatype part = Part string "string + string" "(string + byte list) list" | Broken_part string

record import_state =
  im_model :: "string option"
  im_quant :: "string option"
  im_imported :: bool
  im_operation :: "string option"

text \<open>The guard around the staged upload: an error runs its \<open>drop\<close>.\<close>

definition guard_drop :: "string \<Rightarrow> string \<Rightarrow> string \<Rightarrow> (api_error, unit) task" where
  "guard_drop dir op stage =
     t_then (t_ignore
       (t_bind (query (\<lambda>d. d_files d stage \<noteq> None)) (\<lambda>present.
         t_when present (quarantine dir stage (op @ ''-interrupted'')))))
     (t_ignore (statement (\<lambda>e. Interrupt_import op)))"

definition import_guard :: "string \<Rightarrow> string \<Rightarrow> string \<Rightarrow> (api_error, 'a) task \<Rightarrow> (api_error, 'a) task" where
  "import_guard dir op stage m =
     t_bind (t_catch m) (\<lambda>r. case r of Inr x \<Rightarrow> t_return x | Inl e \<Rightarrow> t_then (guard_drop dir op stage) (t_fail e))"

definition operation_update :: "string \<Rightarrow> string \<Rightarrow> string option \<Rightarrow> nat \<Rightarrow> (api_error, unit) task" where
  "operation_update op st err bytes = t_map_err internal (update_operation_task op st err None bytes)"

definition size_mismatch :: api_error where
  "size_mismatch = api_error_new 422 ''size_mismatch'' ''File exceeds catalog size''"

definition hash_mismatch :: api_error where
  "hash_mismatch = api_error_new 422 ''hash_mismatch'' ''Catalog size or SHA-256 mismatch''"

text \<open>The upload loop; \<open>seen\<close> is what the digest has been fed, \<open>since\<close> the bytes since the last report.\<close>

fun receive_upload ::
    "string \<Rightarrow> string \<Rightarrow> nat \<Rightarrow> (string + byte list) list \<Rightarrow> byte list \<Rightarrow> nat \<Rightarrow> (api_error, byte list) task" where
  "receive_upload op stage cap [] seen since = t_return seen"
| "receive_upload op stage cap (Inl msg # rest) seen since = t_fail (api_error_new 400 ''invalid_multipart'' msg)"
| "receive_upload op stage cap (Inr chunk # rest) seen since =
     (let now_seen = seen @ chunk in
      if length now_seen > cap then
        t_then (operation_update op ''failed'' (Some ''File exceeds catalog size'') (length now_seen)) (t_fail size_mismatch)
      else t_then (t_map_err internal (write_all stage chunk))
        (t_bind (ask se_elapsed) (\<lambda>elapsed.
          if should_flush_progress elapsed (since + length chunk) False then
            t_then (operation_update op ''running'' None (length now_seen)) (receive_upload op stage cap rest now_seen 0)
          else receive_upload op stage cap rest now_seen (since + length chunk))))"

definition matching_file :: "catalog_model \<Rightarrow> catalog_file option \<Rightarrow> nat \<Rightarrow> string \<Rightarrow> catalog_file option" where
  "matching_file m preselected bytes actual =
     (case preselected of
        Some f \<Rightarrow> if bytes = cf_size_bytes f \<and> eq_ignore_case actual (cf_sha256 f) then Some f else None
      | None \<Rightarrow> List.find (\<lambda>f. cf_size_bytes f = bytes \<and> eq_ignore_case (cf_sha256 f) actual) (cm_files m))"

definition preselect :: "catalog_model \<Rightarrow> string option \<Rightarrow> api_error + catalog_file option" where
  "preselect m quant =
     (case quant of
        None \<Rightarrow> Inr None
      | Some q \<Rightarrow> map_sum id Some (ok_or (api_error_new 400 ''invalid_quant''
            (''Unknown quant '' @ quoted q @ '' for model '' @ cm_slug m))
          (List.find (\<lambda>f. cf_quant f = q) (cm_files m))))"

definition upload_cap :: "catalog_model \<Rightarrow> catalog_file option \<Rightarrow> api_error + nat" where
  "upload_cap m preselected =
     (case preselected of
        Some f \<Rightarrow> Inr (cf_size_bytes f)
      | None \<Rightarrow> if cm_files m = [] then Inl (internal ''Model has no catalog files'')
          else Inr (Max (cf_size_bytes ` set (cm_files m))))"

definition finish_upload ::
    "(byte list \<Rightarrow> string) \<Rightarrow> string \<Rightarrow> string \<Rightarrow> string \<Rightarrow> catalog_model \<Rightarrow> catalog_file option \<Rightarrow> string \<Rightarrow> byte list \<Rightarrow>
     (api_error, unit) task" where
  "finish_upload sha256 dir i op m preselected stage seen =
     t_then (t_map_err internal (act (\<lambda>e d. Inr ()) (\<lambda>e d. [])))
     (t_then (operation_update op ''running'' None (length seen))
     (case matching_file m preselected (length seen) (sha256 seen) of
        None \<Rightarrow>
          t_then (t_map_err internal (quarantine dir stage op))
          (t_then (operation_update op ''failed'' (Some ''Catalog size or SHA-256 mismatch'') (length seen))
            (t_fail hash_mismatch))
      | Some f \<Rightarrow> t_map_err internal (promote_task (promotion_of dir op i f stage (length seen) source_import))))"

definition create_stage :: "string \<Rightarrow> (string, unit) task" where
  "create_stage stage = act (\<lambda>e d. Inr ()) (\<lambda>e d. [Write_file stage (Some (append_bytes (se_now e) None []))])"

definition import_file ::
    "(byte list \<Rightarrow> string) \<Rightarrow> string \<Rightarrow> catalog_model list \<Rightarrow> string \<Rightarrow> import_state \<Rightarrow> (string + byte list) list \<Rightarrow>
     (api_error, unit) task" where
  "import_file sha256 dir catalog op s chunks =
     t_bind (t_lift (ok_or (api_error_new 400 ''missing_model'' ''Send model before file'') (im_model s))) (\<lambda>i.
     t_bind (t_map_err internal (installed_file i)) (\<lambda>present.
     if present \<noteq> None then t_fail already_installed
     else t_bind (t_lift (catalog_model catalog i)) (\<lambda>m.
       t_bind (t_lift (preselect m (im_quant s))) (\<lambda>preselected.
       t_bind (t_lift (upload_cap m preselected)) (\<lambda>cap.
       let stage = stage_path dir op in
       t_then (start_operation (queued_operation op i ''import'' ''running'' cap))
       (import_guard dir op stage
         (t_then (t_map_err internal (create_stage stage))
           (t_bind (receive_upload op stage cap chunks [] 0) (finish_upload sha256 dir i op m preselected stage)))))))))"

fun import_parts ::
    "(byte list \<Rightarrow> string) \<Rightarrow> string \<Rightarrow> catalog_model list \<Rightarrow> string \<Rightarrow> part list \<Rightarrow> import_state \<Rightarrow>
     (api_error, import_state) task" where
  "import_parts sha256 dir catalog op [] s =
     (if im_imported s then t_return s else t_fail (api_error_new 400 ''missing_file'' ''model and file are required''))"
| "import_parts sha256 dir catalog op (Broken_part msg # rest) s = t_fail (api_error_new 400 ''invalid_multipart'' msg)"
| "import_parts sha256 dir catalog op (Part name txt chunks # rest) s =
     (if name = ''model'' \<and> im_model s = None \<and> \<not> im_imported s then
        t_bind (t_lift (map_err (api_error_new 400 ''invalid_model'') txt)) (\<lambda>i.
        t_bind (t_lift (catalog_model catalog i)) (\<lambda>_.
        import_parts sha256 dir catalog op rest (s\<lparr>im_model := Some i\<rparr>)))
      else if name = ''quant'' \<and> im_model s \<noteq> None \<and> im_quant s = None \<and> \<not> im_imported s then
        t_bind (t_lift (map_err (api_error_new 400 ''invalid_quant'') txt)) (\<lambda>q.
        import_parts sha256 dir catalog op rest (s\<lparr>im_quant := Some q\<rparr>))
      else if name = ''file'' \<and> \<not> im_imported s then
        t_then (import_file sha256 dir catalog op s chunks)
          (import_parts sha256 dir catalog op rest (s\<lparr>im_imported := True, im_operation := Some op\<rparr>))
      else t_fail (api_error_new 400 ''unexpected_field'' (''Unexpected or duplicate field '' @ name)))"

definition import_model ::
    "(byte list \<Rightarrow> string) \<Rightarrow> string \<Rightarrow> catalog_model list \<Rightarrow> string option \<Rightarrow> string \<Rightarrow> string \<Rightarrow> string \<Rightarrow> part list \<Rightarrow>
     (api_error, json) task" where
  "import_model sha256 dir catalog header admin user op parts =
     t_then (t_lift (authorized header admin user))
     (t_bind (import_parts sha256 dir catalog op parts
         \<lparr>im_model = None, im_quant = None, im_imported = False, im_operation = None\<rparr>) (\<lambda>s.
      t_return (JObj [(''operation_id'', jopt JStr (im_operation s)), (''model'', jopt JStr (im_model s))])))"

subsection \<open>What an upload installs\<close>

definition holds :: "byte list \<Rightarrow> file_state option \<Rightarrow> bool" where
  "holds bs f \<longleftrightarrow> (\<exists>c. f = Some c \<and> fi_bytes c = bs)"

lemma only_operation_update [only_intros]:
  "st \<noteq> ''completed'' \<Longrightarrow> only (off_stage op stage) (operation_update op st err b)"
  "st \<noteq> ''completed'' \<Longrightarrow> only (before_promotion op stage) (operation_update op st err b)"
  unfolding operation_update_def by (intro only_intros; simp add: off_stage_def before_promotion_def)+

lemma only_start [only_intros]:
  "(\<And>t. o_state (r t) \<noteq> ''completed'') \<Longrightarrow> only (off_stage op stage) (start_operation r)"
  "(\<And>t. o_state (r t) \<noteq> ''completed'') \<Longrightarrow> only (before_promotion op stage) (start_operation r)"
  unfolding start_operation_def by (intro only_intros; simp add: off_stage_def before_promotion_def)+

lemma only_stage_writes [only_intros]:
  "only (before_promotion op stage) (write_all stage c)" "only (before_promotion op stage) (create_stage stage)"
  "only (before_promotion op stage) (quarantine dir stage n)" "only (before_promotion op stage) (guard_drop dir op stage)"
  unfolding write_all_def create_stage_def quarantine_def guard_drop_def
  by (intro only_intros; auto simp: before_promotion_def off_stage_def)+

lemma twp_holds:
  assumes "unfinished op stage (holds seen) w"
  shows "twp (write_all stage chunk) (\<lambda>_. unfinished op stage (holds (seen @ chunk))) (\<lambda>_. unfinished op stage any_stage) w"
proof (rule twp_unfinished [OF _ assms])
  show "only (before_promotion op stage) (write_all stage chunk)" by (intro only_intros)
  from assms obtain c where "d_files (performs (others w) (ts_data w)) stage = Some c" "fi_bytes c = seen"
    "ts_own w = op" "ts_stage w = stage"
    by (auto simp: unfinished_def at_stage_def holds_def others_stage)
  then show "twp (write_all stage chunk) (\<lambda>_. at_stage op stage (holds (seen @ chunk))) (\<lambda>_. at_stage op stage any_stage) w"
    by (auto simp: write_all_def twp_act_torn Let_def at_stage_def holds_def append_bytes_def put_data_file_def
        split: option.splits)
qed

lemma twp_create_stage:
  assumes "unfinished op stage P w"
  shows "twp (create_stage stage) (\<lambda>_. unfinished op stage (holds [])) (\<lambda>_. unfinished op stage any_stage) w"
proof (rule twp_unfinished [OF _ assms])
  show "only (before_promotion op stage) (create_stage stage)" by (intro only_intros)
  from assms show "twp (create_stage stage) (\<lambda>_. at_stage op stage (holds [])) (\<lambda>_. at_stage op stage any_stage) w"
    by (auto simp: create_stage_def act_def twp_act_torn Let_def unfinished_def at_stage_def holds_def append_bytes_def
        put_data_file_def split: option.splits)
qed

text \<open>Steps after which only the operation's being unfinished matters.\<close>

lemma twp_unfinished_any:
  assumes "only (before_promotion op stage) m" "unfinished op stage P w"
    "\<And>x w'. unfinished op stage any_stage w' \<Longrightarrow> Q x w'" "\<And>e w'. unfinished op stage any_stage w' \<Longrightarrow> E e w'"
  shows "twp m Q E w"
proof -
  have "unfinished op stage any_stage w'" if "frame (before_promotion op stage) w w'" for w'
    using assms(2) that frame_not_completed [OF that] by (auto simp: unfinished_def at_stage_def frame_def)
  with assms(3,4) show ?thesis
    by (intro twp_only [OF assms(1)]) (use assms(2) in \<open>auto simp: unfinished_def at_stage_def\<close>)
qed

lemma unfinished_open: "unfinished op stage P w \<Longrightarrow> still_open op w \<and> ts_stage w = stage"
  by (simp add: unfinished_def still_open_def at_stage_def)

lemma twp_receive_upload:
  assumes "unfinished op stage (holds seen) w"
  shows "twp (receive_upload op stage cap chunks seen since)
    (\<lambda>all. unfinished op stage (holds all)) (\<lambda>_. unfinished op stage any_stage) w"
  using assms
proof (induction chunks arbitrary: seen since w)
  case Nil
  then show ?case by (simp add: twp_basic)
next
  case (Cons c chunks)
  note any = unfinished_any [OF Cons.prems]
  show ?case
  proof (cases c)
    case (Inl msg)
    with any show ?thesis by (simp add: twp_basic)
  next
    case (Inr chunk)
    let ?Q = "\<lambda>all. unfinished op stage (holds all)"
    let ?E = "\<lambda>_. unfinished op stage any_stage"
    let ?seen = "seen @ chunk"
    have reject: "twp (t_then (operation_update op ''failed'' err n) (t_fail size_mismatch)) ?Q ?E w" for err n
      unfolding twp_then
      by (rule twp_unfinished_still [OF _ _ any]) (auto intro!: only_intros simp: twp_basic)
    have flush: "twp (t_then (operation_update op ''running'' None n) (receive_upload op stage cap chunks ?seen 0)) ?Q ?E u"
      if u: "unfinished op stage (holds ?seen) u" for u n
      unfolding twp_then
      by (rule twp_unfinished_still [OF _ _ u]) (auto intro!: only_intros intro: Cons.IH unfinished_any)
    have "twp (t_then (t_map_err internal (write_all stage chunk)) (t_bind (ask se_elapsed) (\<lambda>elapsed.
          if should_flush_progress elapsed (since + length chunk) False then
            t_then (operation_update op ''running'' None (length ?seen)) (receive_upload op stage cap chunks ?seen 0)
          else receive_upload op stage cap chunks ?seen (since + length chunk)))) ?Q ?E w"
      unfolding twp_then [of "t_map_err _ _"] twp_basic(4)
    proof (rule twp_mono [OF twp_holds [OF Cons.prems]])
      fix x u assume u: "unfinished op stage (holds ?seen) u"
      have "unfinished op stage (holds ?seen) (arrive u)"
        using u by (simp add: unfinished_def others_not_completed at_stage_def others_stage)
      with flush Cons.IH show "twp (t_bind (ask se_elapsed) (\<lambda>elapsed.
          if should_flush_progress elapsed (since + length chunk) False then
            t_then (operation_update op ''running'' None (length ?seen)) (receive_upload op stage cap chunks ?seen 0)
          else receive_upload op stage cap chunks ?seen (since + length chunk))) ?Q ?E u"
        unfolding twp_bind twp_ask by simp
    qed
    with reject show ?thesis by (simp add: Inr Let_def)
  qed
qed

lemma preselect_Inr:
  assumes "preselect m q = Inr pre"
  shows "pre = Some g \<Longrightarrow> g \<in> set (cm_files m) \<and> q = Some (cf_quant g)" "pre = None \<Longrightarrow> q = None"
  using assms by (auto simp: preselect_def outcome_simps map_sum_def split: option.splits sum.splits dest: find_Some_set)

lemma matching_file_Some:
  assumes "matching_file m pre n actual = Some f" "preselect m q = Inr pre"
  shows "f \<in> set (cm_files m) \<and> cf_size_bytes f = n \<and> eq_ignore_case actual (cf_sha256 f) \<and> (\<forall>x. q = Some x \<longrightarrow> cf_quant f = x)"
  using assms(1) preselect_Inr [OF assms(2)]
  by (auto simp: matching_file_def eq_ignore_case_sym split: option.splits if_splits dest: find_Some_set)

text \<open>The operation is completed and a file of the model is installed, the named quantisation if one was named.\<close>

definition imported_from :: "(byte list \<Rightarrow> string) \<Rightarrow> string \<Rightarrow> string \<Rightarrow> catalog_model \<Rightarrow> string option \<Rightarrow> string \<Rightarrow> sdata \<Rightarrow> bool" where
  "imported_from sha256 dir op m q i d \<longleftrightarrow> completed op d
     \<and> (\<exists>f \<in> set (cm_files m). (\<forall>x. q = Some x \<longrightarrow> cf_quant f = x) \<and> verified_install sha256 dir i f d)"

lemma twp_finish_upload:
  assumes "unfinished op stage (holds seen) w" "preselect m q = Inr pre"
  shows "twp (finish_upload sha256 dir i op m pre stage seen)
    (\<lambda>_ w'. imported_from sha256 dir op m q i (ts_data w')) (\<lambda>_. unfinished op stage any_stage) w"
proof -
  let ?Q = "\<lambda>_ w'. imported_from sha256 dir op m q i (ts_data w')"
  let ?E = "\<lambda>_. unfinished op stage any_stage"
  have promote: "twp (t_map_err internal (promote_task (promotion_of dir op i f stage (length seen) source_import))) ?Q ?E u"
    if f: "matching_file m pre (length seen) (sha256 seen) = Some f" and u: "unfinished op stage (holds seen) u" for f u
  proof -
    note m = matching_file_Some [OF f assms(2)]
    from u obtain c where c: "d_files (ts_data u) stage = Some c" "fi_bytes c = seen"
      by (auto simp: unfinished_def at_stage_def holds_def)
    have "twp (promote_task (promotion_of dir op i f stage (length seen) source_import))
        (\<lambda>_ w'. completed op (ts_data w') \<and> verified_install sha256 dir i f (ts_data w')) (\<lambda>_. still_open op) u"
      by (rule twp_promote) (use u c m in \<open>auto simp: unfinished_open file_size_def dest: unfinished_open\<close>)
    moreover have "twp (promote_task (promotion_of dir op i f stage (length seen) source_import))
        (\<lambda>_ w'. ts_stage w' = stage) (\<lambda>_ w'. ts_stage w' = stage) u"
      using u by (auto simp: promote_task_def act_def twp_act_torn Let_def unfinished_def at_stage_def
          split: option.splits sum.splits)
    ultimately show ?thesis unfolding twp_basic(4)
      by (rule twp_mono [OF twp_conj])
         (use m in \<open>auto simp: imported_from_def unfinished_def still_open_def at_stage_def\<close>)
  qed
  have reject: "twp (t_then (t_map_err internal (quarantine dir stage op))
          (t_then (operation_update op ''failed'' err n) (t_fail hash_mismatch :: (api_error, unit) task))) ?Q ?E u"
    if u: "unfinished op stage (holds seen) u" for u err n
    unfolding twp_then
    by (rule twp_unfinished_any [OF _ u], intro only_intros, rule twp_unfinished_any)
       (auto intro!: only_intros simp: twp_basic)
  show ?thesis unfolding finish_upload_def twp_then [of "t_map_err _ _"]
  proof (rule twp_unfinished_still [OF _ _ assms(1)])
    fix x u assume u: "unfinished op stage (holds seen) u"
    show "twp (t_then (operation_update op ''running'' None (length seen))
       (case matching_file m pre (length seen) (sha256 seen) of
          None \<Rightarrow> t_then (t_map_err internal (quarantine dir stage op))
             (t_then (operation_update op ''failed'' (Some ''Catalog size or SHA-256 mismatch'') (length seen)) (t_fail hash_mismatch))
        | Some f \<Rightarrow> t_map_err internal (promote_task (promotion_of dir op i f stage (length seen) source_import)))) ?Q ?E u"
      unfolding twp_then [of "operation_update _ _ _ _"]
    proof (rule twp_unfinished_still [OF _ _ u])
      fix y v assume v: "unfinished op stage (holds seen) v"
      show "twp (case matching_file m pre (length seen) (sha256 seen) of
          None \<Rightarrow> t_then (t_map_err internal (quarantine dir stage op))
             (t_then (operation_update op ''failed'' (Some ''Catalog size or SHA-256 mismatch'') (length seen)) (t_fail hash_mismatch))
        | Some f \<Rightarrow> t_map_err internal (promote_task (promotion_of dir op i f stage (length seen) source_import))) ?Q ?E v"
        using reject [OF v] promote [OF _ v] by (simp split: option.splits)
    qed (auto intro!: only_intros intro: unfinished_any)
  qed (auto intro!: only_intros intro: unfinished_any)
qed

text \<open>An import either has not touched the operation's outcome, or has installed a file of the model it names.\<close>

definition import_outcome ::
    "(byte list \<Rightarrow> string) \<Rightarrow> string \<Rightarrow> catalog_model list \<Rightarrow> string \<Rightarrow> string option \<Rightarrow> string option \<Rightarrow> sdata \<Rightarrow> bool" where
  "import_outcome sha256 dir catalog op i q d \<longleftrightarrow>
     not_completed op d \<or> (\<exists>m \<in> set catalog. i = Some (cm_slug m) \<and> imported_from sha256 dir op m q (cm_slug m) d)"

lemma twp_import_file:
  assumes "unfinished op (stage_path dir op) any_stage w"
  shows "twp (import_file sha256 dir catalog op s chunks)
    (\<lambda>_ w'. \<exists>m \<in> set catalog. im_model s = Some (cm_slug m) \<and> imported_from sha256 dir op m (im_quant s) (cm_slug m) (ts_data w'))
    (\<lambda>_. unfinished op (stage_path dir op) any_stage) w"
proof -
  let ?stage = "stage_path dir op"
  let ?Q = "\<lambda>_ w'. \<exists>m \<in> set catalog. im_model s = Some (cm_slug m) \<and> imported_from sha256 dir op m (im_quant s) (cm_slug m) (ts_data w')"
  let ?E = "\<lambda>_. unfinished op ?stage any_stage"
  have guarded: "twp (import_guard dir op ?stage (t_then (t_map_err internal (create_stage ?stage))
       (t_bind (receive_upload op ?stage cap chunks [] 0) (finish_upload sha256 dir i op m pre ?stage)))) ?Q ?E u"
    if u: "unfinished op ?stage any_stage u" and i: "im_model s = Some i" and m: "catalog_model catalog i = Inr m"
      and pre: "preselect m (im_quant s) = Inr pre" for u i m pre cap
  proof -
    have run: "twp (t_then (t_map_err internal (create_stage ?stage))
         (t_bind (receive_upload op ?stage cap chunks [] 0) (finish_upload sha256 dir i op m pre ?stage))) ?Q ?E u"
      unfolding twp_then twp_basic(4) twp_bind
    proof (rule twp_mono [OF twp_create_stage [OF u]])
      fix x v assume v: "unfinished op ?stage (holds []) v"
      show "twp (receive_upload op ?stage cap chunks [] 0) (\<lambda>r. twp (finish_upload sha256 dir i op m pre ?stage r) ?Q ?E) ?E v"
      proof (rule twp_mono [OF twp_receive_upload [OF v]])
        fix seen y assume y: "unfinished op ?stage (holds seen) y"
        have "twp (finish_upload sha256 dir i op m pre ?stage seen)
            (\<lambda>_ w'. imported_from sha256 dir op m (im_quant s) i (ts_data w')) ?E y"
          by (rule twp_finish_upload [OF y pre])
        then show "twp (finish_upload sha256 dir i op m pre ?stage seen) ?Q ?E y"
          by (rule twp_mono) (use catalog_model_Inr [OF m] i in auto)
      qed
    qed
    have drop: "twp (t_then (guard_drop dir op ?stage) (t_fail e :: (api_error, unit) task)) ?Q ?E v"
      if v: "unfinished op ?stage any_stage v" for e v
      unfolding twp_then by (rule twp_unfinished_any [OF _ v]) (auto intro!: only_intros simp: twp_basic)
    show ?thesis unfolding import_guard_def twp_bind twp_basic(3)
      by (rule twp_mono [OF run]) (use drop in \<open>auto simp: twp_basic\<close>)
  qed
  have started: "twp (t_then (start_operation (queued_operation op i ''import'' ''running'' cap))
       (import_guard dir op ?stage (t_then (t_map_err internal (create_stage ?stage))
         (t_bind (receive_upload op ?stage cap chunks [] 0) (finish_upload sha256 dir i op m pre ?stage))))) ?Q ?E u"
    if u: "unfinished op ?stage any_stage u" and i: "im_model s = Some i" and m: "catalog_model catalog i = Inr m"
      and pre: "preselect m (im_quant s) = Inr pre" for u i m pre cap
    unfolding twp_then
  proof (rule twp_unfinished_any [OF _ u])
    show "only (before_promotion op ?stage) (start_operation (queued_operation op i ''import'' ''running'' cap))"
      by (rule only_start) (simp add: queued_operation_def)
  qed (use guarded [OF _ i m pre] in auto)
  have resolved: "twp (if present \<noteq> None then t_fail already_installed
     else t_bind (t_lift (catalog_model catalog i)) (\<lambda>m.
       t_bind (t_lift (preselect m (im_quant s))) (\<lambda>preselected.
       t_bind (t_lift (upload_cap m preselected)) (\<lambda>cap.
       let stage = ?stage in
       t_then (start_operation (queued_operation op i ''import'' ''running'' cap))
       (import_guard dir op stage
         (t_then (t_map_err internal (create_stage stage))
           (t_bind (receive_upload op stage cap chunks [] 0) (finish_upload sha256 dir i op m preselected stage)))))))) ?Q ?E u"
    if u: "unfinished op ?stage any_stage u" and i: "im_model s = Some i" for u i and present :: "installed option"
    using u started [OF u i] by (auto simp: Let_def twp_basic twp_lift twp_bind split: sum.split)
  have located: "twp (t_bind (t_map_err internal (installed_file i)) (\<lambda>present.
     if present \<noteq> None then t_fail already_installed
     else t_bind (t_lift (catalog_model catalog i)) (\<lambda>m.
       t_bind (t_lift (preselect m (im_quant s))) (\<lambda>preselected.
       t_bind (t_lift (upload_cap m preselected)) (\<lambda>cap.
       let stage = ?stage in
       t_then (start_operation (queued_operation op i ''import'' ''running'' cap))
       (import_guard dir op stage
         (t_then (t_map_err internal (create_stage stage))
           (t_bind (receive_upload op stage cap chunks [] 0) (finish_upload sha256 dir i op m preselected stage))))))))) ?Q ?E w" if i: "im_model s = Some i" for i
    unfolding twp_bind [of "t_map_err internal (installed_file i)"]
    by (rule twp_unfinished_any [OF _ assms], intro only_intros) (rule resolved [OF _ i], assumption, assumption)
  show ?thesis unfolding import_file_def twp_bind [of "t_lift _"] twp_lift
    using assms located by (auto simp: outcome_simps split: sum.split)
qed

lemma import_parts_done: "im_imported s \<Longrightarrow> snd (import_parts sha256 dir catalog op parts s w) = w"
  by (cases "(sha256, dir, catalog, op, parts, s)" rule: import_parts.cases) (auto simp: t_return_def t_fail_def)

text \<open>What a form names before its file part.\<close>

fun named_before_file :: "string \<Rightarrow> part list \<Rightarrow> string option" where
  "named_before_file field [] = None"
| "named_before_file field (Broken_part msg # rest) = None"
| "named_before_file field (Part name txt chunks # rest) =
     (if name = ''file'' then None
      else if name = field then (case txt of Inr v \<Rightarrow> Some v | Inl _ \<Rightarrow> None)
      else named_before_file field rest)"

lemma or_else_nothing [simp]: "or_else x None = x"
  by (cases x) simp_all

lemma twp_import_parts:
  assumes "unfinished op (stage_path dir op) any_stage w" "\<not> im_imported s"
  shows "twp (import_parts sha256 dir catalog op parts s)
    (\<lambda>_ w'. import_outcome sha256 dir catalog op (or_else (im_model s) (named_before_file ''model'' parts))
       (or_else (im_quant s) (named_before_file ''quant'' parts)) (ts_data w'))
    (\<lambda>_ w'. import_outcome sha256 dir catalog op (or_else (im_model s) (named_before_file ''model'' parts))
       (or_else (im_quant s) (named_before_file ''quant'' parts)) (ts_data w')) w"
  using assms(2)
proof (induction parts arbitrary: s)
  case Nil
  then show ?case using assms(1) by (simp add: twp_basic import_outcome_def unfinished_def)
next
  case (Cons part parts)
  let ?O = "\<lambda>i q (_ :: 'x) w'. import_outcome sha256 dir catalog op i q (ts_data w')"
  have here: "import_outcome sha256 dir catalog op i q (ts_data w)" for i q
    using assms(1) by (simp add: import_outcome_def unfinished_def)
  show ?case
  proof (cases part)
    case (Broken_part msg)
    then show ?thesis using here by (simp add: twp_basic)
  next
    case (Part name body chunks)
    have uploaded: "twp (t_then (import_file sha256 dir catalog op s chunks)
        (import_parts sha256 dir catalog op parts (s\<lparr>im_imported := True, im_operation := Some op\<rparr>)))
        (?O (im_model s) (im_quant s)) (?O (im_model s) (im_quant s)) w"
      unfolding twp_then
    proof (rule twp_mono [OF twp_import_file [OF assms(1)]])
      fix x :: unit and u :: task_state
      assume u: "\<exists>m \<in> set catalog. im_model s = Some (cm_slug m) \<and> imported_from sha256 dir op m (im_quant s) (cm_slug m) (ts_data u)"
      have "snd (import_parts sha256 dir catalog op parts (s\<lparr>im_imported := True, im_operation := Some op\<rparr>) u) = u"
        by (rule import_parts_done) simp
      with u show "twp (import_parts sha256 dir catalog op parts (s\<lparr>im_imported := True, im_operation := Some op\<rparr>))
          (?O (im_model s) (im_quant s)) (?O (im_model s) (im_quant s)) u"
        by (auto simp: twp_def import_outcome_def split: prod.splits sum.splits)
    qed (simp add: import_outcome_def unfinished_def)
    show ?thesis
      using Cons.IH [of "s\<lparr>im_model := Some y\<rparr>" for y] Cons.IH [of "s\<lparr>im_quant := Some y\<rparr>" for y] Cons.prems uploaded here
      by (auto simp: Part twp_bind twp_lift twp_basic split: sum.split)
  qed
qed

text \<open>
  C24. A completed import is a verified one: whatever the upload contains and wherever it breaks off,
  whatever fails and whatever other tasks do, if the request ends with its operation completed, the form has named
  a model of the catalog before its file, and a file of that model, the named quantisation if it named one, is
  registered as verified and stored with the catalog's size and hash, also when the request itself answers with an
  error.
\<close>

theorem completed_import_is_verified:
  assumes "ts_own w = op" "ts_stage w = stage_path dir op" "\<not> completed op (ts_data w)"
    and "completed op (ts_data (snd (import_model sha256 dir catalog header admin user op parts w)))"
  shows "\<exists>m \<in> set catalog. named_before_file ''model'' parts = Some (cm_slug m) \<and>
    (\<exists>f \<in> set (cm_files m). (\<forall>q. named_before_file ''quant'' parts = Some q \<longrightarrow> cf_quant f = q) \<and>
      verified_install sha256 dir (cm_slug m) f (ts_data (snd (import_model sha256 dir catalog header admin user op parts w))))"
proof -
  have u: "unfinished op (stage_path dir op) any_stage w"
    using assms(1-3) by (simp add: unfinished_def at_stage_def completed_not)
  let ?i = "named_before_file ''model'' parts" and ?q = "named_before_file ''quant'' parts"
  have "twp (import_model sha256 dir catalog header admin user op parts)
      (\<lambda>_ w'. import_outcome sha256 dir catalog op ?i ?q (ts_data w')) (\<lambda>_ w'. import_outcome sha256 dir catalog op ?i ?q (ts_data w')) w"
    using twp_import_parts [OF u, of "\<lparr>im_model = None, im_quant = None, im_imported = False, im_operation = None\<rparr>" sha256 catalog parts]
      assms(3)
    by (auto simp: import_model_def twp_then twp_bind twp_lift twp_basic import_outcome_def completed_not split: sum.split)
  then have "import_outcome sha256 dir catalog op ?i ?q (ts_data (snd (import_model sha256 dir catalog header admin user op parts w)))"
    by (auto simp: twp_def split: prod.splits sum.splits)
  with assms(4) show ?thesis by (auto simp: import_outcome_def imported_from_def completed_not [symmetric])
qed

definition import_sample :: task_state where
  "import_sample = sample_state\<lparr>ts_own := ''op2'', ts_stage := stage_path ''d'' ''op2'',
     ts_data := (ts_data sample_state)\<lparr>d_operations := []\<rparr>\<rparr>"

definition sample_parts :: "part list" where
  "sample_parts = [Part ''model'' (Inr ''m'') [], Part ''file'' (Inl []) [Inr [1, 2], Inr [3]]]"

theorem completed_import_is_verified_witness:
  "\<exists>m \<in> set [sample_model]. named_before_file ''model'' sample_parts = Some (cm_slug m) \<and>
    (\<exists>f \<in> set (cm_files m). (\<forall>q. named_before_file ''quant'' sample_parts \<noteq> Some q \<or> cf_quant f = q) \<and>
      verified_install sample_hash ''d'' (cm_slug m) f
        (ts_data (snd (import_model sample_hash ''d'' [sample_model] (Some ''Bearer a'') ''a'' ''u'' ''op2'' sample_parts import_sample))))"
proof -
  have own: "ts_own import_sample = ''op2''" "ts_stage import_sample = stage_path ''d'' ''op2''"
    by (simp_all add: import_sample_def)
  have open_op: "\<not> completed ''op2'' (ts_data import_sample)"
    by (simp add: import_sample_def completed_def find_operation_def)
  have "map_option o_state (find_operation ''op2'' (ts_data (snd (import_model sample_hash ''d'' [sample_model]
      (Some ''Bearer a'') ''a'' ''u'' ''op2'' sample_parts import_sample)))) = Some ''completed''"
    by code_simp
  then have "completed ''op2'' (ts_data (snd (import_model sample_hash ''d'' [sample_model]
      (Some ''Bearer a'') ''a'' ''u'' ''op2'' sample_parts import_sample)))"
    by (auto simp: completed_def)
  from completed_import_is_verified [OF own open_op this] show ?thesis by (auto simp: sample_parts_def)
qed

end
