(* ===== verification/Verify.thy ===== *)
theory Verify
  imports Download_Safety
begin

text \<open>
  \<open>src/verify.rs\<close>: hashing an installed model again. The worker reads modification time, size, content,
  and both again; a file that changed meanwhile is an error. A model that no longer matches its record
  is unregistered and quarantined, or, if it belongs to the user's folder, only marked.
\<close>

subsection \<open>The route and its worker\<close>

definition model_not_installed :: api_error where
  "model_not_installed = api_error_new 404 ''model_not_installed'' ''Model is not installed''"

definition recorded_file :: "installed \<Rightarrow> api_error + catalog_file" where
  "recorded_file r =
     (case in_size_bytes r of
        None \<Rightarrow> Inl (internal ''Installed model is missing recorded size; run reconciliation'')
      | Some n \<Rightarrow> Inr \<lparr>cf_filename = unwrap_or [] (in_filename r), cf_quant = unwrap_or [] (in_quant r),
            cf_size_bytes = n, cf_sha256 = in_sha256 r\<rparr>)"

definition verify_model ::
    "string option \<Rightarrow> string \<Rightarrow> string \<Rightarrow> string \<Rightarrow> string \<Rightarrow> (api_error, (installed \<times> catalog_file) \<times> json) task" where
  "verify_model header admin user i op =
     t_then (t_lift (authorized header admin user))
     (t_bind (t_map_err internal (installed_file i)) (\<lambda>present.
      t_bind (t_lift (ok_or model_not_installed present)) (\<lambda>r.
      t_bind (t_lift (recorded_file r)) (\<lambda>f.
      t_then (start_operation (queued_operation op i ''verify'' ''queued'' (cf_size_bytes f)))
        (t_return ((r, f), JObj [(''operation_id'', JStr op), (''state'', JStr ''queued'')]))))))"

definition stable_hash :: "(byte list \<Rightarrow> string) \<Rightarrow> string \<Rightarrow> (string, nat \<times> string \<times> int) task" where
  "stable_hash sha256 path =
     t_bind (mtime_of path) (\<lambda>before.
     t_bind (size_of path) (\<lambda>bytes.
     t_bind (sha256_of sha256 path) (\<lambda>hash.
     t_bind (mtime_of path) (\<lambda>after.
     if before \<noteq> after then t_fail ''Model changed during verification; retry''
     else t_bind (size_of path) (\<lambda>again.
       if again \<noteq> bytes then t_fail ''Model changed during verification; retry''
       else t_return (bytes, hash, after))))))"

text \<open>An unreadable state counts as not cancelled.\<close>

definition seen_cancelled :: "string \<Rightarrow> ('e, bool) task" where
  "seen_cancelled op = t_bind (t_catch (operation_state op)) (\<lambda>st.
     t_return (Option.bind (to_option st) (\<lambda>x. x) = Some ''cancelled''))"

definition fail_operation :: "string \<Rightarrow> string \<Rightarrow> ('e, unit) task" where
  "fail_operation op msg = t_ignore (update_operation_task op ''failed'' (Some msg) None 0)"

definition verified :: "string \<Rightarrow> string \<Rightarrow> nat \<Rightarrow> int \<Rightarrow> ('e, unit) task" where
  "verified op i bytes mtime =
     t_bind (t_catch (statement (\<lambda>e. Mark_verified i mtime))) (\<lambda>saved.
       case saved of
         Inr _ \<Rightarrow> t_ignore (update_operation_task op ''completed'' None None bytes)
       | Inl e \<Rightarrow> fail_operation op e)"

definition unregister_damaged :: "string \<Rightarrow> string \<Rightarrow> string \<Rightarrow> string \<Rightarrow> ('e, unit) task" where
  "unregister_damaged dir op i path =
     t_then (t_ignore (statement (\<lambda>e. Delete_installed i)))
     (t_then (t_ignore (statement (\<lambda>e. Deselect i)))
     (t_then (t_ignore (statement (\<lambda>e. Unload_if i)))
     (t_then (t_ignore (quarantine dir path (op @ ''-verify-failed'')))
       (fail_operation op ''Installed model size or SHA-256 mismatch''))))"

definition mismatched :: "string \<Rightarrow> string \<Rightarrow> installed \<Rightarrow> ('e, unit) task" where
  "mismatched dir op r =
     t_bind (t_catch (act (\<lambda>e d. Inr ()) (\<lambda>e d. []))) (\<lambda>permit.
       case permit of
         Inl _ \<Rightarrow> t_return ()
       | Inr _ \<Rightarrow> t_bind (seen_cancelled op) (\<lambda>c.
           if c then t_return ()
           else if in_source r = source_user_folder then
             t_then (t_ignore (statement (\<lambda>e. Needs_verification (in_id r))))
               (fail_operation op ''Drop-in model size or SHA-256 mismatch; needs re-verification'')
           else unregister_damaged dir op (in_id r) (in_path r)))"

definition verify_worker ::
    "(byte list \<Rightarrow> string) \<Rightarrow> string \<Rightarrow> string \<Rightarrow> installed \<Rightarrow> catalog_file \<Rightarrow> (string, unit) task" where
  "verify_worker sha256 dir op r f =
     t_bind (seen_cancelled op) (\<lambda>c.
       if c then t_return ()
       else t_then (t_ignore (update_operation_task op ''running'' None None 0))
         (t_bind (t_catch (stable_hash sha256 (in_path r))) (\<lambda>actual.
          t_bind (seen_cancelled op) (\<lambda>c.
            if c then t_return ()
            else case actual of
              Inl msg \<Rightarrow>
                t_then (t_ignore (statement (\<lambda>e. Needs_verification (in_id r))))
                  (fail_operation op (''Model could not be read safely; retry verification: '' @ msg))
            | Inr (bytes, hash, mtime) \<Rightarrow>
                if bytes = cf_size_bytes f \<and> eq_ignore_case hash (cf_sha256 f)
                then verified op (in_id r) (cf_size_bytes f) mtime
                else mismatched dir op r))))"

subsection \<open>A damaged model is never passed as verified\<close>

text \<open>No other task acts while this one runs; its own steps may still fail anywhere.\<close>

definition alone :: "task_state \<Rightarrow> bool" where
  "alone w \<longleftrightarrow> (\<forall>n. se_others (ts_script w n) = [])"

lemma alone_within [simp]: "alone w \<Longrightarrow> script_within A w"
  by (simp add: alone_def script_within_def)

lemma alone_others [simp]: "alone w \<Longrightarrow> others w = []"
  by (simp add: alone_def others_def)

lemma alone_fields [simp]: "alone (arrive w) \<longleftrightarrow> alone w" "alone (w\<lparr>ts_data := d\<rparr>) \<longleftrightarrow> alone w"
  by (simp_all add: alone_def)

text \<open>Runs on which nothing fails and no other task acts.\<close>

definition smooth :: "task_state \<Rightarrow> bool" where
  "smooth w \<longleftrightarrow> alone w \<and> (\<forall>n. se_fault (ts_script w n) = None)"

lemma smooth_step:
  assumes "smooth w"
  shows "act_torn torn answer actions w =
    (answer (ts_script w (ts_step w)) (ts_data w),
     w\<lparr>ts_data := performs (actions (ts_script w (ts_step w)) (ts_data w)) (ts_data w), ts_step := ts_step w + 1\<rparr>)"
  using assms by (simp add: smooth_def act_torn_def Let_def arrive_def others_def alone_def)

lemma smooth_update: "smooth (w\<lparr>ts_data := d\<rparr>) = smooth w" "smooth (w\<lparr>ts_step := k\<rparr>) = smooth w"
  by (simp_all add: smooth_def alone_def)

definition matches :: "(byte list \<Rightarrow> string) \<Rightarrow> catalog_file \<Rightarrow> file_state option \<Rightarrow> bool" where
  "matches sha256 f x \<longleftrightarrow>
     (\<exists>c. x = Some c \<and> file_size c = cf_size_bytes f \<and> eq_ignore_case (sha256 (fi_bytes c)) (cf_sha256 f))"

text \<open>Steps that only touch the operation leave the rows and the files alone.\<close>

definition bookkeeping :: "string \<Rightarrow> action \<Rightarrow> bool" where
  "bookkeeping op a \<longleftrightarrow> (\<exists>st e c b t. a = Update_operation op st e c b t \<and> st \<noteq> ''completed'')"

lemma bookkeeping_keeps:
  assumes "bookkeeping op a"
  shows "d_installed (perform a d) = d_installed d" "d_files (perform a d) = d_files d"
    "not_completed op d \<Longrightarrow> not_completed op (perform a d)"
proof -
  from assms obtain st e c b t where a: "a = Update_operation op st e c b t" "st \<noteq> ''completed''"
    by (auto simp: bookkeeping_def)
  then show "d_installed (perform a d) = d_installed d" "d_files (perform a d) = d_files d"
    by (simp_all add: update_operation_with_code_def)
  show "not_completed op (perform a d)" if "not_completed op d"
    unfolding a(1) perform.simps update_operation_with_code_def by (rule not_completed_update [OF that]) (use a(2) in auto)
qed

text \<open>The row is as it was, marked as unverified, or gone.\<close>

definition row_safe :: "installed \<Rightarrow> sdata \<Rightarrow> bool" where
  "row_safe r d \<longleftrightarrow> (\<forall>q. find_installed (in_id r) d = Some q \<longrightarrow> q = r \<or> in_needs_verification q)"

definition refusing :: "string \<Rightarrow> installed \<Rightarrow> action \<Rightarrow> bool" where
  "refusing op r a \<longleftrightarrow> (\<exists>st e c b t. a = Update_operation op st e c b t \<and> st \<noteq> ''completed'')
     \<or> a = Needs_verification (in_id r)
     \<or> in_source r \<noteq> source_user_folder \<and> (a = Delete_installed (in_id r) \<or> a = Deselect (in_id r)
          \<or> a = Unload_if (in_id r) \<or> (\<exists>q. a = Move_file (in_path r) q))"

lemma row_safe_same: "d_installed d' = d_installed d \<Longrightarrow> row_safe r d' = row_safe r d"
  by (simp add: row_safe_def find_installed_def)

lemma refusing_keeps:
  assumes "refusing op r a" "row_safe r d \<and> not_completed op d"
  shows "row_safe r (perform a d) \<and> not_completed op (perform a d)"
proof -
  have gone: "find_installed i (delete_installed i d) = None" for i
    by (auto simp: find_installed_None delete_installed_def)
  from assms(1) consider st e c b t where "a = Update_operation op st e c b t" "st \<noteq> ''completed''"
    | "a = Needs_verification (in_id r)" | "a = Delete_installed (in_id r)" | "a = Deselect (in_id r)"
    | "a = Unload_if (in_id r)" | q where "a = Move_file (in_path r) q"
    unfolding refusing_def by blast
  then show ?thesis
  proof cases
    case 1
    then have "bookkeeping op a" by (auto simp: bookkeeping_def)
    from bookkeeping_keeps [OF this, of d] assms(2) show ?thesis by (simp add: row_safe_def find_installed_def)
  next
    case 2
    have "row_safe r (needs_verification (in_id r) d)"
    proof (cases "find_installed (in_id r) d")
      case (Some q)
      then have "find_installed (in_id r) (needs_verification (in_id r) d) = Some (q\<lparr>in_needs_verification := True\<rparr>)"
        using find_installed_Some [OF Some] unfolding needs_verification_def
        by (subst find_installed_update) simp_all
      then show ?thesis by (simp add: row_safe_def)
    next
      case None
      then show ?thesis unfolding row_safe_def needs_verification_def by (subst find_installed_update) simp_all
    qed
    moreover have "not_completed op (needs_verification (in_id r) d)"
      using assms(2) by (simp add: not_completed_def find_operation_def needs_verification_def)
    ultimately show ?thesis using 2 by simp
  next
    case 3
    with assms(2) gone show ?thesis
      by (simp add: row_safe_def not_completed_def find_operation_def delete_installed_def)
  next
    case 4
    with assms(2) show ?thesis by (auto simp: row_safe_def not_completed_def deselect_def)
  next
    case 5
    with assms(2) show ?thesis by (auto simp: row_safe_def not_completed_def unload_if_def)
  next
    case 6
    with assms(2) show ?thesis by (simp add: row_safe_def not_completed_def)
  qed
qed

lemma only_refusing [only_intros]:
  "only A (seen_cancelled op)" "only A (stable_hash sha256 path)" "only (refusing op r) (fail_operation op msg)"
  unfolding seen_cancelled_def stable_hash_def fail_operation_def by (intro only_intros; simp add: refusing_def)+

lemma only_mismatched [only_intros]: "only (refusing op r) (mismatched dir op r)"
proof (cases "in_source r = source_user_folder")
  case True
  then show ?thesis unfolding mismatched_def
    by (simp only: if_True simp_thms) (intro only_intros; simp add: refusing_def)
next
  case False
  then show ?thesis unfolding mismatched_def unregister_damaged_def quarantine_def
    by (simp only: if_False simp_thms) (intro only_intros; simp add: refusing_def)
qed

lemma twp_refusing:
  assumes "only (refusing op r) m" "alone w" "row_safe r (ts_data w) \<and> not_completed op (ts_data w)"
  shows "twp m (\<lambda>_ w'. row_safe r (ts_data w') \<and> not_completed op (ts_data w'))
    (\<lambda>_ w'. row_safe r (ts_data w') \<and> not_completed op (ts_data w')) w"
proof -
  have "row_safe r (ts_data w') \<and> not_completed op (ts_data w')" if "frame (refusing op r) w w'" for w'
    by (rule frame_invariant [OF that refusing_keeps assms(3)])
  then show ?thesis by (intro twp_only [OF assms(1) alone_within [OF assms(2)]])
qed

definition steady :: "string \<Rightarrow> installed list \<Rightarrow> (string \<Rightarrow> file_state option) \<Rightarrow> task_state \<Rightarrow> bool" where
  "steady op rows fs w \<longleftrightarrow> alone w \<and> d_installed (ts_data w) = rows \<and> d_files (ts_data w) = fs \<and> not_completed op (ts_data w)"

lemma twp_stable:
  assumes "only (bookkeeping op) m" "steady op rows fs w"
    "\<And>x w'. steady op rows fs w' \<Longrightarrow> Q x w'" "\<And>e w'. steady op rows fs w' \<Longrightarrow> E e w'"
  shows "twp m Q E w"
proof -
  have "steady op rows fs w'" if f: "frame (bookkeeping op) w w'" for w'
  proof -
    have "d_installed (ts_data w') = rows \<and> d_files (ts_data w') = fs \<and> not_completed op (ts_data w')"
      by (rule frame_invariant [OF f])
         (use assms(2) in \<open>simp_all add: steady_def bookkeeping_keeps\<close>)
    with f assms(2) show ?thesis by (simp add: steady_def frame_def alone_def)
  qed
  with assms show ?thesis by (intro twp_only [OF assms(1)]) (auto simp: steady_def)
qed

lemma twp_stable_bind:
  assumes "only (bookkeeping op) m" "steady op rows fs w"
    "\<And>x w'. steady op rows fs w' \<Longrightarrow> twp (k x) Q E w'" "\<And>e w'. steady op rows fs w' \<Longrightarrow> E e w'"
  shows "twp (t_bind m k) Q E w"
  unfolding twp_bind by (rule twp_stable [OF assms])

lemma twp_file_at_stable:
  assumes "steady op rows fs w" "\<And>x w'. steady op rows fs w' \<Longrightarrow> fs p = Some x \<Longrightarrow> Q x w'" "\<And>e w'. steady op rows fs w' \<Longrightarrow> E e w'"
  shows "twp (file_at p) Q E w"
  using assms by (auto simp: file_at_def act_def twp_act_torn Let_def steady_def outcome_simps split: option.splits sum.splits)

lemma twp_bindI:
  assumes "twp m R F w" "\<And>x w'. R x w' \<Longrightarrow> twp (f x) Q E w'" "\<And>e w'. F e w' \<Longrightarrow> E e w'"
  shows "twp (t_bind m f) Q E w"
  unfolding twp_bind by (rule twp_mono [OF assms(1)]) (use assms(2,3) in auto)

lemma twp_reads_stable:
  assumes "steady op rows fs w"
  shows "twp (mtime_of p) (\<lambda>_. steady op rows fs) (\<lambda>_. steady op rows fs) w"
    "twp (size_of p) (\<lambda>n w'. steady op rows fs w' \<and> (\<exists>c. fs p = Some c \<and> n = file_size c)) (\<lambda>_. steady op rows fs) w"
    "twp (sha256_of h p) (\<lambda>x w'. steady op rows fs w' \<and> (\<exists>c. fs p = Some c \<and> x = h (fi_bytes c))) (\<lambda>_. steady op rows fs) w"
  unfolding mtime_of_def size_of_def sha256_of_def twp_bind twp_lift twp_basic
  by (rule twp_file_at_stable [OF assms]; auto split: sum.split)+

lemma twp_stable_hash:
  assumes "steady op rows fs w"
  shows "twp (stable_hash sha256 path)
    (\<lambda>(bytes, hash, _) w'. steady op rows fs w' \<and> (\<exists>c. fs path = Some c \<and> bytes = file_size c \<and> hash = sha256 (fi_bytes c)))
    (\<lambda>_. steady op rows fs) w"
proof -
  let ?R = "\<lambda>(bytes, hash, _ :: int) w'.
     steady op rows fs w' \<and> (\<exists>c. fs path = Some c \<and> bytes = file_size c \<and> hash = sha256 (fi_bytes c))"
  have last: "twp (if before \<noteq> after then t_fail ''Model changed during verification; retry''
     else t_bind (size_of path) (\<lambda>again. if again \<noteq> file_size c then t_fail ''Model changed during verification; retry''
       else t_return (file_size c, sha256 (fi_bytes c), after))) ?R (\<lambda>_. steady op rows fs) u"
    if u: "steady op rows fs u" and c: "fs path = Some c" for u c before and after :: int
  proof (cases "before = after")
    case True
    have "twp (t_bind (size_of path) (\<lambda>again. if again \<noteq> file_size c then t_fail ''Model changed during verification; retry''
       else t_return (file_size c, sha256 (fi_bytes c), after))) ?R (\<lambda>_. steady op rows fs) u"
      by (rule twp_bindI [OF twp_reads_stable(2) [OF u]]) (use c in \<open>auto simp: twp_basic\<close>)
    with True show ?thesis by simp
  qed (simp add: twp_basic u)
  have third: "twp (t_bind (mtime_of path) (\<lambda>after. if before \<noteq> after then t_fail ''Model changed during verification; retry''
     else t_bind (size_of path) (\<lambda>again. if again \<noteq> file_size c then t_fail ''Model changed during verification; retry''
       else t_return (file_size c, sha256 (fi_bytes c), after)))) ?R (\<lambda>_. steady op rows fs) u"
    if u: "steady op rows fs u" and c: "fs path = Some c" for u c before
    by (rule twp_bindI [OF twp_reads_stable(1) [OF u]], rule last [OF _ c], assumption+)
  have second: "twp (t_bind (sha256_of sha256 path) (\<lambda>hash. t_bind (mtime_of path) (\<lambda>after.
       if before \<noteq> after then t_fail ''Model changed during verification; retry''
       else t_bind (size_of path) (\<lambda>again. if again \<noteq> file_size c then t_fail ''Model changed during verification; retry''
         else t_return (file_size c, hash, after))))) ?R (\<lambda>_. steady op rows fs) u"
    if u: "steady op rows fs u" and c: "fs path = Some c" for u c before
  proof (rule twp_bindI [OF twp_reads_stable(3) [OF u]])
    fix hash v assume v: "steady op rows fs v \<and> (\<exists>c. fs path = Some c \<and> hash = sha256 (fi_bytes c))"
    then have h: "hash = sha256 (fi_bytes c)" using c by simp
    show "twp (t_bind (mtime_of path) (\<lambda>after. if before \<noteq> after then t_fail ''Model changed during verification; retry''
       else t_bind (size_of path) (\<lambda>again. if again \<noteq> file_size c then t_fail ''Model changed during verification; retry''
         else t_return (file_size c, hash, after)))) ?R (\<lambda>_. steady op rows fs) v"
      unfolding h by (rule third [OF conjunct1 [OF v] c])
  qed
  have first: "twp (t_bind (size_of path) (\<lambda>bytes. t_bind (sha256_of sha256 path) (\<lambda>hash. t_bind (mtime_of path) (\<lambda>after.
       if before \<noteq> after then t_fail ''Model changed during verification; retry''
       else t_bind (size_of path) (\<lambda>again. if again \<noteq> bytes then t_fail ''Model changed during verification; retry''
         else t_return (bytes, hash, after)))))) ?R (\<lambda>_. steady op rows fs) u"
    if u: "steady op rows fs u" for u before
  proof (rule twp_bindI [OF twp_reads_stable(2) [OF u]])
    fix bytes v assume v: "steady op rows fs v \<and> (\<exists>c. fs path = Some c \<and> bytes = file_size c)"
    then obtain c where c: "fs path = Some c" "bytes = file_size c" by blast
    show "twp (t_bind (sha256_of sha256 path) (\<lambda>hash. t_bind (mtime_of path) (\<lambda>after.
       if before \<noteq> after then t_fail ''Model changed during verification; retry''
       else t_bind (size_of path) (\<lambda>again. if again \<noteq> bytes then t_fail ''Model changed during verification; retry''
         else t_return (bytes, hash, after))))) ?R (\<lambda>_. steady op rows fs) v"
      unfolding c(2) by (rule second [OF conjunct1 [OF v] c(1)])
  qed
  show ?thesis unfolding stable_hash_def
    by (rule twp_bindI [OF twp_reads_stable(1) [OF assms]], rule first, assumption+)
qed

lemma damaged_refused:
  assumes "alone w" "recorded_file r = Inr f" "\<not> matches sha256 f (d_files (ts_data w) (in_path r))"
    and "find_installed (in_id r) (ts_data w) = Some r" "\<not> completed op (ts_data w)"
  shows "\<not> completed op (ts_data (snd (verify_worker sha256 dir op r f w)))
    \<and> row_safe r (ts_data (snd (verify_worker sha256 dir op r f w)))"
proof -
  let ?rows = "d_installed (ts_data w)" and ?fs = "d_files (ts_data w)"
  let ?Q = "\<lambda>_ w'. row_safe r (ts_data w') \<and> not_completed op (ts_data w')"
  have safe: "row_safe r (ts_data u) \<and> not_completed op (ts_data u)" "alone u" if "steady op ?rows ?fs u" for u
    using that assms(4) by (auto simp: steady_def row_safe_def find_installed_def)
  have judge: "twp (if c then t_return () else case actual of
        Inl msg \<Rightarrow> t_then (t_ignore (statement (\<lambda>e. Needs_verification (in_id r))))
            (fail_operation op (''Model could not be read safely; retry verification: '' @ msg))
      | Inr (bytes, hash, mtime) \<Rightarrow>
          if bytes = cf_size_bytes f \<and> eq_ignore_case hash (cf_sha256 f)
          then verified op (in_id r) (cf_size_bytes f) mtime else (mismatched dir op r :: (string, unit) task)) ?Q ?Q u"
    if u: "steady op ?rows ?fs u"
      and hash: "\<And>bytes hash t. actual = Inr (bytes, hash, t) \<Longrightarrow>
        \<exists>c. ?fs (in_path r) = Some c \<and> bytes = file_size c \<and> hash = sha256 (fi_bytes c)"
    for u c and actual :: "string + nat \<times> string \<times> int"
  proof (cases actual)
    case (Inl msg)
    have "only (refusing op r) (t_then (t_ignore (statement (\<lambda>e. Needs_verification (in_id r))))
        (fail_operation op m :: (string, unit) task))" for m
      by (intro only_intros) (simp add: refusing_def)
    note twp_refusing [OF this safe(2) [OF u] safe(1) [OF u]]
    then show ?thesis unfolding Inl sum.case using safe(1) [OF u] by (cases c) (simp_all only: if_True if_False twp_basic(1))
  next
    case (Inr res)
    obtain bytes h t where res: "res = (bytes, h, t)" by (cases res)
    from hash [of bytes h t] assms(3) have "\<not> (bytes = cf_size_bytes f \<and> eq_ignore_case h (cf_sha256 f))"
      by (auto simp: Inr res matches_def)
    moreover have "twp (mismatched dir op r :: (string, unit) task) ?Q ?Q u"
      by (rule twp_refusing [OF only_mismatched safe(2) [OF u] safe(1) [OF u]])
    ultimately show ?thesis unfolding Inr res sum.case prod.case using safe(1) [OF u]
      by (cases c) (simp_all only: if_True if_False twp_basic(1) simp_thms)
  qed
  have init: "steady op ?rows ?fs w" using assms(1,5) by (simp add: steady_def completed_not)
  have body: "twp (t_then (t_ignore (update_operation_task op ''running'' None None 0))
         (t_bind (t_catch (stable_hash sha256 (in_path r))) (\<lambda>actual. t_bind (seen_cancelled op) (\<lambda>c.
            if c then t_return () else case actual of
              Inl msg \<Rightarrow> t_then (t_ignore (statement (\<lambda>e. Needs_verification (in_id r))))
                  (fail_operation op (''Model could not be read safely; retry verification: '' @ msg))
            | Inr (bytes, hash, mtime) \<Rightarrow>
                if bytes = cf_size_bytes f \<and> eq_ignore_case hash (cf_sha256 f)
                then verified op (in_id r) (cf_size_bytes f) mtime else (mismatched dir op r :: (string, unit) task))))) ?Q ?Q u"
    if u: "steady op ?rows ?fs u" for u
    unfolding twp_then [of "t_ignore _"]
  proof (rule twp_stable [OF _ u])
    show "only (bookkeeping op) (t_ignore (update_operation_task op ''running'' None None 0) :: (string, unit) task)"
      by (intro only_intros) (simp add: bookkeeping_def)
    fix x v assume v: "steady op ?rows ?fs v"
    show "twp (t_bind (t_catch (stable_hash sha256 (in_path r))) (\<lambda>actual. t_bind (seen_cancelled op) (\<lambda>c.
            if c then t_return () else case actual of
              Inl msg \<Rightarrow> t_then (t_ignore (statement (\<lambda>e. Needs_verification (in_id r))))
                  (fail_operation op (''Model could not be read safely; retry verification: '' @ msg))
            | Inr (bytes, hash, mtime) \<Rightarrow>
                if bytes = cf_size_bytes f \<and> eq_ignore_case hash (cf_sha256 f)
                then verified op (in_id r) (cf_size_bytes f) mtime else (mismatched dir op r :: (string, unit) task)))) ?Q ?Q v"
      unfolding twp_bind twp_basic(3)
    proof (rule twp_mono [OF twp_stable_hash [OF v]])
      fix res :: "nat \<times> string \<times> int" and y
      assume "(case res of (bytes, hash, _) \<Rightarrow> \<lambda>w'. steady op ?rows ?fs w'
        \<and> (\<exists>c. ?fs (in_path r) = Some c \<and> bytes = file_size c \<and> hash = sha256 (fi_bytes c))) y"
      then have y: "steady op ?rows ?fs y" and h: "\<And>bytes hash t. Inr res = Inr (bytes, hash, t) \<Longrightarrow>
          \<exists>c. ?fs (in_path r) = Some c \<and> bytes = file_size c \<and> hash = sha256 (fi_bytes c)"
        by (auto split: prod.splits)
      show "twp (seen_cancelled op) (\<lambda>c. twp (if c then t_return () else case Inr res of
              Inl msg \<Rightarrow> t_then (t_ignore (statement (\<lambda>e. Needs_verification (in_id r))))
                  (fail_operation op (''Model could not be read safely; retry verification: '' @ msg))
            | Inr (bytes, hash, mtime) \<Rightarrow>
                if bytes = cf_size_bytes f \<and> eq_ignore_case hash (cf_sha256 f)
                then verified op (in_id r) (cf_size_bytes f) mtime else (mismatched dir op r :: (string, unit) task)) ?Q ?Q) ?Q y"
        by (rule twp_stable [OF only_refusing(1) y], rule judge [OF _ h], assumption, assumption, rule safe(1))
    next
      fix msg y
      assume y: "steady op ?rows ?fs y"
      show "twp (seen_cancelled op) (\<lambda>c. twp (if c then t_return () else case Inl msg of
              Inl msg \<Rightarrow> t_then (t_ignore (statement (\<lambda>e. Needs_verification (in_id r))))
                  (fail_operation op (''Model could not be read safely; retry verification: '' @ msg))
            | Inr (bytes, hash, mtime) \<Rightarrow>
                if bytes = cf_size_bytes f \<and> eq_ignore_case hash (cf_sha256 f)
                then verified op (in_id r) (cf_size_bytes f) mtime else (mismatched dir op r :: (string, unit) task)) ?Q ?Q) ?Q y"
        by (rule twp_stable [OF only_refusing(1) y], rule judge, assumption, simp, rule safe(1))
    qed
  qed (use safe in auto)
  have "twp (verify_worker sha256 dir op r f) ?Q ?Q w"
    unfolding verify_worker_def
    apply (rule twp_stable_bind [OF only_refusing(1) init])
    subgoal for c u by (cases c) (simp_all only: if_True if_False twp_basic(1) body safe(1) simp_thms)
    by (rule safe(1))
  then show ?thesis by (auto simp: twp_def completed_not split: prod.splits sum.splits)
qed

lemma find_after:
  "find_operation i (update_operation_with_code j st err ecode bytes t d) =
     map_option (\<lambda>r. if o_id r = j \<and> o_state r \<noteq> ''cancelled'' then set_state st err ecode bytes t r else r) (find_operation i d)"
  "find_installed i (update_operation_with_code j st err ecode bytes t d) = find_installed i d"
  "find_operation i (needs_verification k d) = find_operation i d"
  "find_installed i (needs_verification i d) = map_option (\<lambda>r. r\<lparr>in_needs_verification := True\<rparr>) (find_installed i d)"
  "d_files (update_operation_with_code j st err ecode bytes t d) = d_files d"
  "o_id (set_state st err ecode bytes t r) = o_id r" "o_state (set_state st err ecode bytes t r) = st"
proof -
  show "find_operation i (update_operation_with_code j st err ecode bytes t d) =
     map_option (\<lambda>r. if o_id r = j \<and> o_state r \<noteq> ''cancelled'' then set_state st err ecode bytes t r else r) (find_operation i d)"
    unfolding update_operation_with_code_def by (rule find_operation_update) (simp add: set_state_def Let_def)
  show "find_installed i (needs_verification i d) = map_option (\<lambda>r. r\<lparr>in_needs_verification := True\<rparr>) (find_installed i d)"
    unfolding needs_verification_def
    by (subst find_installed_update) (auto simp: find_installed_Some intro!: option.map_cong dest: find_installed_Some)
qed (simp_all add: update_operation_with_code_def update_operations_def needs_verification_def set_state_def Let_def)

lemma find_after_unregister:
  "find_operation i (delete_installed k d) = find_operation i d" "find_installed i (delete_installed i d) = None"
  "find_operation i (deselect k d) = find_operation i d" "find_installed i (deselect k d) = find_installed i d"
  "find_operation i (unload_if k d) = find_operation i d" "find_installed i (unload_if k d) = find_installed i d"
  by (auto simp: delete_installed_def find_installed_None deselect_def unload_if_def)

definition readable :: "file_state option \<Rightarrow> bool" where
  "readable x \<longleftrightarrow> (\<exists>c. x = Some c \<and> fi_mtime c \<noteq> None)"

lemma damaged_given_up:
  assumes "smooth w" "\<not> matches sha256 f (d_files (ts_data w) (in_path r))"
    and "find_installed (in_id r) (ts_data w) = Some r"
    and "find_operation op (ts_data w) = Some p" "o_state p \<noteq> ''cancelled''"
  shows "map_option o_state (find_operation op (ts_data (snd (verify_worker sha256 dir op r f w)))) = Some ''failed'' \<and>
    find_installed (in_id r) (ts_data (snd (verify_worker sha256 dir op r f w))) =
      (if readable (d_files (ts_data w) (in_path r)) \<and> in_source r \<noteq> source_user_folder then None
       else Some (r\<lparr>in_needs_verification := True\<rparr>))"
proof -
  note run = t_then_def t_bind_def t_lift_def t_catch_def t_return_def t_fail_def t_ignore_def smooth_step smooth_update
    find_after find_after_unregister outcome_simps
  note body = verify_worker_def seen_cancelled_def operation_state_def query_def update_operation_task_def statement_def act_def
    stable_hash_def size_of_def mtime_of_def sha256_of_def file_at_def fail_operation_def mismatched_def unregister_damaged_def
    quarantine_def rename_task_def
  have p: "o_id p = op" using find_operation_Some [OF assms(4)] by simp
  show ?thesis
  proof (cases "d_files (ts_data w) (in_path r)")
    case None
    then show ?thesis unfolding body by (simp add: run assms p readable_def)
  next
    case c: (Some c)
    show ?thesis
    proof (cases "fi_mtime c")
      case None
      then show ?thesis unfolding body by (simp add: run assms p readable_def c)
    next
      case (Some t)
      have bad: "(file_size c = cf_size_bytes f \<and> eq_ignore_case (sha256 (fi_bytes c)) (cf_sha256 f)) = False"
        using assms(2) c by (simp add: matches_def)
      show ?thesis unfolding body by (simp add: run assms(1,3-) p readable_def bad c Some)
    qed
  qed
qed
text \<open>
  C25. A damaged model never passes verification. A verification runs alone, its row is registered with its
  recorded size and hash, and the row's file does not have them. Whatever fails on the way, the operation does
  not complete, and the row is afterwards unchanged, marked as needing verification, or gone. If nothing fails
  and the operation has not been cancelled, the operation has failed, and the row is gone when its file could be
  read and is not the user's own, and marked as needing verification otherwise.
\<close>
theorem damaged_model_not_verified:
  assumes "alone w" "recorded_file r = Inr f" "\<not> matches sha256 f (d_files (ts_data w) (in_path r))"
    and "find_installed (in_id r) (ts_data w) = Some r" "\<not> completed op (ts_data w)"
  shows "\<not> completed op (ts_data (snd (verify_worker sha256 dir op r f w)))
    \<and> row_safe r (ts_data (snd (verify_worker sha256 dir op r f w)))
    \<and> (smooth w \<and> (\<exists>p. find_operation op (ts_data w) = Some p \<and> o_state p \<noteq> ''cancelled'') \<longrightarrow>
        map_option o_state (find_operation op (ts_data (snd (verify_worker sha256 dir op r f w)))) = Some ''failed'' \<and>
        find_installed (in_id r) (ts_data (snd (verify_worker sha256 dir op r f w))) =
          (if readable (d_files (ts_data w) (in_path r)) \<and> in_source r \<noteq> source_user_folder then None
           else Some (r\<lparr>in_needs_verification := True\<rparr>)))"
  using damaged_refused [OF assms] damaged_given_up [OF _ assms(3,4)] by blast

definition damaged_row :: installed where
  "damaged_row = \<lparr>in_id = ''m'', in_path = ''d/models/abc.gguf'', in_sha256 = ''abc'', in_quant = Some ''Q8_0'',
     in_filename = Some ''m.gguf'', in_size_bytes = Some 3, in_source = source_import, in_custom_name = None,
     in_custom_arch = None, in_custom_languages = None, in_custom_claims = None, in_mtime_ms = Some 1,
     in_needs_verification = False\<rparr>"

definition damaged_state :: task_state where
  "damaged_state = sample_state\<lparr>ts_own := ''op1'', ts_data := (ts_data sample_state)\<lparr>d_installed := [damaged_row],
     d_files := [''d/models/abc.gguf'' \<mapsto> \<lparr>fi_bytes = [9, 9, 9], fi_mtime = Some 1\<rparr>]\<rparr>\<rparr>"

theorem damaged_model_not_verified_witness:
  "find_installed ''m'' (ts_data (snd (verify_worker sample_hash ''d'' ''op1'' damaged_row
     \<lparr>cf_filename = ''m.gguf'', cf_quant = ''Q8_0'', cf_size_bytes = 3, cf_sha256 = ''abc''\<rparr> damaged_state))) = None"
proof -
  let ?f = "\<lparr>cf_filename = ''m.gguf'', cf_quant = ''Q8_0'', cf_size_bytes = 3, cf_sha256 = ''abc''\<rparr>"
  have run: "smooth damaged_state" "alone damaged_state"
    by (simp_all add: smooth_def alone_def damaged_state_def sample_defs)
  have row: "recorded_file damaged_row = Inr ?f" "find_installed (in_id damaged_row) (ts_data damaged_state) = Some damaged_row"
    "in_id damaged_row = ''m''" "in_source damaged_row \<noteq> source_user_folder"
    by (simp_all add: damaged_state_def damaged_row_def recorded_file_def find_installed_def source_import_def source_user_folder_def)
  have content: "\<not> matches sample_hash ?f (d_files (ts_data damaged_state) (in_path damaged_row))"
    "readable (d_files (ts_data damaged_state) (in_path damaged_row))"
    by (simp_all add: damaged_state_def damaged_row_def matches_def readable_def sample_hash_def eq_ignore_case_def lowercase_def ascii_lower_def)
  have active: "\<not> completed ''op1'' (ts_data damaged_state)"
    "\<exists>p. find_operation ''op1'' (ts_data damaged_state) = Some p \<and> o_state p \<noteq> ''cancelled''"
    by (simp_all add: damaged_state_def sample_defs completed_def find_operation_def)
  show ?thesis
    using damaged_model_not_verified [OF run(2) row(1) content(1) row(2) active(1), of "''d''"] run(1) active(2) content(2) row(3,4)
    by simp
qed


end
