(* ===== verification/Vad.thy ===== *)
theory Vad
  imports Floats
begin

text \<open>
  Speech detection on finished audio, \<open>src/vad.rs\<close>: the settings and their checks, the framing of
  the samples, the segmenter that turns frame probabilities into spans (hysteresis, padding,
  merging), and the response body. The neural scorer is arithmetic on embedded weights and is the
  parameter \<open>score\<close>, a step function with its carried state. Sample indices are \<open>usize\<close> in the
  code; the lemmas show that none of its subtractions goes below zero on audio that fits the frames.
\<close>

definition frame_len :: nat where "frame_len = 512"
definition sample_rate :: nat where "sample_rate = 16000"

record params =
  vp_threshold :: f32
  vp_min_speech_ms :: nat
  vp_min_silence_ms :: nat
  vp_speech_pad_ms :: nat

definition default_params :: params where
  "default_params = \<lparr>vp_threshold = Fin (1 / 2), vp_min_speech_ms = 250, vp_min_silence_ms = 100, vp_speech_pad_ms = 30\<rparr>"

definition max_ms :: nat where "max_ms = 60000"

definition range_message :: "string \<Rightarrow> string" where
  "range_message name = name @ '' must be between 0 and '' @ decimal max_ms"

definition validate_params :: "params \<Rightarrow> string + unit" where
  "validate_params p =
     (if \<not> f32_within (f32_round (5 / 100)) (f32_round (95 / 100)) (vp_threshold p) then
        Inl ''threshold must be between 0.05 and 0.95''
      else if vp_min_speech_ms p > max_ms then Inl (range_message ''min_speech_ms'')
      else if vp_min_silence_ms p > max_ms then Inl (range_message ''min_silence_ms'')
      else if vp_speech_pad_ms p > max_ms then Inl (range_message ''speech_pad_ms'')
      else Inr ())"

text \<open>\<open>frame_probabilities\<close>: chunks of one frame, the last one padded with zeros.\<close>

definition pad_frame :: "f32 list \<Rightarrow> f32 list" where
  "pad_frame chunk = chunk @ replicate (frame_len - length chunk) (Fin 0)"

function chunks :: "'a list \<Rightarrow> 'a list list" where
  "chunks xs = (if xs = [] then [] else take frame_len xs # chunks (drop frame_len xs))"
  by pat_completeness auto
termination by (relation "measure length") (auto simp: frame_len_def)

declare chunks.simps [simp del]

fun score_frames :: "('s \<Rightarrow> f32 list \<Rightarrow> f32 \<times> 's) \<Rightarrow> 's \<Rightarrow> f32 list list \<Rightarrow> f32 list" where
  "score_frames score st [] = []"
| "score_frames score st (c # cs) = (let (p, st') = score st (pad_frame c) in p # score_frames score st' cs)"

definition frame_probabilities :: "('s \<Rightarrow> f32 list \<Rightarrow> f32 \<times> 's) \<Rightarrow> 's \<Rightarrow> f32 list \<Rightarrow> f32 list" where
  "frame_probabilities score st samples = score_frames score st (chunks samples)"

subsection \<open>The segmenter\<close>

record span =
  sp_start :: nat
  sp_end :: nat

definition samples_of_ms :: "nat \<Rightarrow> nat" where "samples_of_ms v = v * (sample_rate div 1000)"

text \<open>\<open>(threshold - 0.15).max(0.01)\<close>; the maximum with not-a-number is the other operand.\<close>

definition negative_threshold :: "f32 \<Rightarrow> f32" where
  "negative_threshold t =
     (let lo = f32_round (1 / 100) in
      case t of
        Fin r \<Rightarrow> (let d = f32_round (r - f32_round (15 / 100)) in Fin (if d < lo then lo else d))
      | PosInf \<Rightarrow> PosInf
      | _ \<Rightarrow> Fin lo)"

record scan =
  sc_start :: "nat option"
  sc_silence :: "nat option"
  sc_spans :: "span list"

definition scan_frame :: "params \<Rightarrow> nat \<Rightarrow> f32 \<Rightarrow> scan \<Rightarrow> scan" where
  "scan_frame p pos probability s =
     (if f32_le (vp_threshold p) probability then
        s\<lparr>sc_silence := None, sc_start := (case sc_start s of None \<Rightarrow> Some pos | Some a \<Rightarrow> Some a)\<rparr>
      else if f32_lt probability (negative_threshold (vp_threshold p)) then
        (case sc_start s of
           None \<Rightarrow> s
         | Some speech_start \<Rightarrow>
             let silence_start = unwrap_or pos (sc_silence s) in
             if pos - silence_start \<ge> samples_of_ms (vp_min_silence_ms p) then
               s\<lparr>sc_start := None, sc_silence := None,
                 sc_spans := (if silence_start - speech_start > samples_of_ms (vp_min_speech_ms p)
                   then sc_spans s @ [\<lparr>sp_start = speech_start, sp_end = silence_start\<rparr>] else sc_spans s)\<rparr>
             else s\<lparr>sc_silence := Some silence_start\<rparr>)
      else s)"

fun scan_frames :: "params \<Rightarrow> nat \<Rightarrow> f32 list \<Rightarrow> scan \<Rightarrow> scan" where
  "scan_frames p i [] s = s"
| "scan_frames p i (x # xs) s = scan_frames p (Suc i) xs (scan_frame p (i * frame_len) x s)"

definition raw_spans :: "params \<Rightarrow> f32 list \<Rightarrow> nat \<Rightarrow> span list" where
  "raw_spans p probabilities total_len =
     (let s = scan_frames p 0 probabilities \<lparr>sc_start = None, sc_silence = None, sc_spans = []\<rparr> in
      case sc_start s of
        None \<Rightarrow> sc_spans s
      | Some speech_start \<Rightarrow>
          if total_len - speech_start > samples_of_ms (vp_min_speech_ms p)
          then sc_spans s @ [\<lparr>sp_start = speech_start, sp_end = total_len\<rparr>] else sc_spans s)"

fun grow_spans :: "nat \<Rightarrow> nat \<Rightarrow> span list \<Rightarrow> span list" where
  "grow_spans pad total_len [] = []"
| "grow_spans pad total_len [s] = [s\<lparr>sp_end := min (sp_end s + pad) total_len\<rparr>]"
| "grow_spans pad total_len (s # t # r) =
     (let gap = sp_start t - sp_end s in
      if gap < 2 * pad then
        s\<lparr>sp_end := sp_end s + gap div 2\<rparr> # grow_spans pad total_len (t\<lparr>sp_start := sp_start t - gap div 2\<rparr> # r)
      else
        s\<lparr>sp_end := min (sp_end s + pad) total_len\<rparr> # grow_spans pad total_len (t\<lparr>sp_start := sp_start t - pad\<rparr> # r))"

definition pad_spans :: "nat \<Rightarrow> nat \<Rightarrow> span list \<Rightarrow> span list" where
  "pad_spans pad total_len spans =
     (case spans of [] \<Rightarrow> [] | s # r \<Rightarrow> grow_spans pad total_len (s\<lparr>sp_start := saturating_sub (sp_start s) pad\<rparr> # r))"

fun merge_from :: "span \<Rightarrow> span list \<Rightarrow> span list" where
  "merge_from l [] = [l]"
| "merge_from l (s # r) =
     (if sp_start s \<le> sp_end l + 1 then merge_from (l\<lparr>sp_end := max (sp_end l) (sp_end s)\<rparr>) r
      else l # merge_from s r)"

definition merge_spans :: "span list \<Rightarrow> span list" where
  "merge_spans spans = (case spans of [] \<Rightarrow> [] | s # r \<Rightarrow> merge_from s r)"

definition segments :: "f32 list \<Rightarrow> nat \<Rightarrow> params \<Rightarrow> span list" where
  "segments probabilities total_len p =
     merge_spans (pad_spans (samples_of_ms (vp_speech_pad_ms p)) total_len (raw_spans p probabilities total_len))"

definition detect :: "('s \<Rightarrow> f32 list \<Rightarrow> f32 \<times> 's) \<Rightarrow> 's \<Rightarrow> f32 list \<Rightarrow> params \<Rightarrow> span list" where
  "detect score st samples p = segments (frame_probabilities score st samples) (length samples) p"

text \<open>\<open>f64::round\<close> rounds halves away from zero; the values here are never negative.\<close>

definition rounded :: "rat \<Rightarrow> nat \<Rightarrow> rat" where
  "rounded v decimals =
     (let scale = 10 ^ decimals in f64_div (of_int \<lfloor>f64_round (v * scale) + 1 / 2\<rfloor>) scale)"

definition seconds :: "nat \<Rightarrow> rat" where "seconds n = f64_div (of_nat n) (of_nat sample_rate)"

definition speech_samples :: "span list \<Rightarrow> nat" where
  "speech_samples spans = sum_list (map (\<lambda>s. sp_end s - sp_start s) spans)"

definition vad_report :: "('s \<Rightarrow> f32 list \<Rightarrow> f32 \<times> 's) \<Rightarrow> 's \<Rightarrow> f32 list \<Rightarrow> params \<Rightarrow> json" where
  "vad_report score st samples p =
     (let spans = detect score st samples p in
      JObj [(''duration'', JFloat (rounded (seconds (length samples)) 3)),
            (''speech_seconds'', JFloat (rounded (seconds (speech_samples spans)) 3)),
            (''speech_ratio'', JFloat (rounded (f64_div (of_nat (speech_samples spans)) (of_nat (max (length samples) 1))) 4)),
            (''segments'', JArr (map (\<lambda>s. JObj [(''start'', JFloat (rounded (seconds (sp_start s)) 3)),
               (''end'', JFloat (rounded (seconds (sp_end s)) 3))]) spans))])"

subsection \<open>The spans are in order\<close>

text \<open>Spans of at least \<open>m + 1\<close> samples, each starting after the one before has ended.\<close>

fun chained :: "nat \<Rightarrow> nat \<Rightarrow> span list \<Rightarrow> bool" where
  "chained m lo [] \<longleftrightarrow> True"
| "chained m lo (s # r) \<longleftrightarrow> lo \<le> sp_start s \<and> sp_start s + m < sp_end s \<and> chained m (sp_end s + 1) r"

fun last_end :: "nat \<Rightarrow> span list \<Rightarrow> nat" where
  "last_end lo [] = lo"
| "last_end lo (s # r) = last_end (sp_end s + 1) r"

lemma chained_append: "chained m lo (xs @ ys) \<longleftrightarrow> chained m lo xs \<and> chained m (last_end lo xs) ys"
  by (induction xs arbitrary: lo) auto

lemma last_end_append: "last_end lo (xs @ ys) = last_end (last_end lo xs) ys"
  by (induction xs arbitrary: lo) auto

lemma last_end_mono: "chained m lo xs \<Longrightarrow> lo \<le> last_end lo xs"
  by (induction xs arbitrary: lo) fastforce+

lemma chained_ends: "chained m lo xs \<Longrightarrow> s \<in> set xs \<Longrightarrow> sp_end s + 1 \<le> last_end lo xs"
proof (induction xs arbitrary: lo)
  case (Cons x xs)
  then show ?case using last_end_mono [of m "sp_end x + 1" xs] by auto
qed simp

text \<open>The state once every frame before index \<open>q\<close> has been read.\<close>

definition scan_ok :: "nat \<Rightarrow> nat \<Rightarrow> scan \<Rightarrow> bool" where
  "scan_ok m q s \<longleftrightarrow> chained m 0 (sc_spans s) \<and> last_end 0 (sc_spans s) \<le> q
     \<and> (case sc_start s of None \<Rightarrow> sc_silence s = None
        | Some a \<Rightarrow> last_end 0 (sc_spans s) \<le> a \<and> a < q
            \<and> (\<forall>b. sc_silence s = Some b \<longrightarrow> a < b \<and> b < q))"

lemma scan_frame_ok:
  assumes "scan_ok (samples_of_ms (vp_min_speech_ms p)) q s" "q \<le> pos"
  shows "scan_ok (samples_of_ms (vp_min_speech_ms p)) (pos + 1) (scan_frame p pos x s)"
  using assms
  by (cases "sc_start s"; cases "sc_silence s")
     (auto simp: scan_ok_def scan_frame_def chained_append last_end_append Let_def)

lemma scan_frames_ok:
  "scan_ok (samples_of_ms (vp_min_speech_ms p)) q s \<Longrightarrow> q \<le> i * frame_len \<Longrightarrow>
     scan_ok (samples_of_ms (vp_min_speech_ms p)) (if xs = [] then q else (i + length xs - 1) * frame_len + 1)
       (scan_frames p i xs s)"
proof (induction xs arbitrary: i s q)
  case (Cons x xs)
  have "scan_ok (samples_of_ms (vp_min_speech_ms p)) (i * frame_len + 1) (scan_frame p (i * frame_len) x s)"
    by (rule scan_frame_ok [OF Cons.prems])
  moreover have "i * frame_len + 1 \<le> Suc i * frame_len" by (simp add: frame_len_def)
  ultimately have "scan_ok (samples_of_ms (vp_min_speech_ms p))
      (if xs = [] then i * frame_len + 1 else (Suc i + length xs - 1) * frame_len + 1)
      (scan_frames p (Suc i) xs (scan_frame p (i * frame_len) x s))" by (rule Cons.IH)
  then show ?case by (cases xs) simp_all
qed simp

definition fits :: "f32 list \<Rightarrow> nat \<Rightarrow> bool" where
  "fits probabilities total_len \<longleftrightarrow> probabilities = [] \<or> (length probabilities - 1) * frame_len < total_len"

lemma raw_spans_chained:
  assumes "fits probabilities total_len"
  shows "chained (samples_of_ms (vp_min_speech_ms p)) 0 (raw_spans p probabilities total_len)
    \<and> (\<forall>s \<in> set (raw_spans p probabilities total_len). sp_end s \<le> total_len)"
proof -
  let ?m = "samples_of_ms (vp_min_speech_ms p)"
  let ?init = "\<lparr>sc_start = None, sc_silence = None, sc_spans = []\<rparr>"
  let ?s = "scan_frames p 0 probabilities ?init"
  have s0: "scan_ok ?m 0 ?init" by (simp add: scan_ok_def)
  have "scan_ok ?m (if probabilities = [] then 0 else (length probabilities - 1) * frame_len + 1) ?s"
    using scan_frames_ok [OF s0, where i = 0 and xs = probabilities] by (cases probabilities) simp_all
  moreover have "(if probabilities = [] then 0 else (length probabilities - 1) * frame_len + 1) \<le> total_len"
    using assms by (auto simp: fits_def)
  ultimately obtain q where q: "scan_ok ?m q ?s" "q \<le> total_len" by blast
  then have c: "chained ?m 0 (sc_spans ?s)" "last_end 0 (sc_spans ?s) \<le> q" by (auto simp: scan_ok_def)
  have ends: "\<forall>x \<in> set (sc_spans ?s). sp_end x \<le> total_len"
    using chained_ends [OF c(1)] c(2) q(2) by fastforce
  show ?thesis
  proof (cases "sc_start ?s")
    case None
    with c ends show ?thesis by (simp add: raw_spans_def Let_def)
  next
    case (Some a)
    with q have "last_end 0 (sc_spans ?s) \<le> a" by (simp add: scan_ok_def)
    with Some c ends show ?thesis by (auto simp: raw_spans_def Let_def chained_append)
  qed
qed

text \<open>After padding, neighbours may touch; after merging, they are more than one sample apart.\<close>

fun touching :: "nat \<Rightarrow> nat \<Rightarrow> span list \<Rightarrow> bool" where
  "touching m lo [] \<longleftrightarrow> True"
| "touching m lo (s # r) \<longleftrightarrow> lo \<le> sp_start s \<and> sp_start s + m < sp_end s \<and> touching m (sp_end s) r"

fun spaced :: "nat \<Rightarrow> nat \<Rightarrow> span list \<Rightarrow> bool" where
  "spaced m lo [] \<longleftrightarrow> True"
| "spaced m lo (s # r) \<longleftrightarrow> lo \<le> sp_start s \<and> sp_start s + m < sp_end s \<and> spaced m (sp_end s + 2) r"

lemma touching_weaken: "touching m lo xs \<Longrightarrow> lo' \<le> lo \<Longrightarrow> touching m lo' xs"
  by (cases xs) auto

lemma spaced_weaken: "spaced m lo xs \<Longrightarrow> lo' \<le> lo \<Longrightarrow> spaced m lo' xs"
  by (cases xs) auto

lemma grow_spans_touching:
  assumes "sp_start s + m < sp_end s" "chained m (sp_end s + 1) r" "\<forall>x \<in> set (s # r). sp_end x \<le> total_len"
  shows "touching m (sp_start s) (grow_spans pad total_len (s # r))
    \<and> (\<forall>x \<in> set (grow_spans pad total_len (s # r)). sp_end x \<le> total_len)"
  using assms
proof (induction r arbitrary: s)
  case (Cons t r)
  define k where "k = (if sp_start t - sp_end s < 2 * pad then (sp_start t - sp_end s) div 2 else pad)"
  define e where "e = (if sp_start t - sp_end s < 2 * pad then sp_end s + (sp_start t - sp_end s) div 2
    else min (sp_end s + pad) total_len)"
  let ?t = "t\<lparr>sp_start := sp_start t - k\<rparr>"
  have k: "sp_end s \<le> sp_start t - k" "e \<le> sp_start t - k" "sp_end s \<le> e" "e \<le> total_len"
    using Cons.prems by (auto simp: k_def e_def)
  have "touching m (sp_start ?t) (grow_spans pad total_len (?t # r))
    \<and> (\<forall>x \<in> set (grow_spans pad total_len (?t # r)). sp_end x \<le> total_len)"
    using Cons.prems by (intro Cons.IH) auto
  moreover have "grow_spans pad total_len (s # t # r) = s\<lparr>sp_end := e\<rparr> # grow_spans pad total_len (?t # r)"
    by (simp add: Let_def k_def e_def)
  ultimately show ?case using k Cons.prems(1) by (auto intro: touching_weaken)
qed auto

lemma pad_spans_touching:
  assumes "chained m 0 spans" "\<forall>x \<in> set spans. sp_end x \<le> total_len"
  shows "touching m 0 (pad_spans pad total_len spans) \<and> (\<forall>x \<in> set (pad_spans pad total_len spans). sp_end x \<le> total_len)"
proof (cases spans)
  case (Cons s r)
  let ?s = "s\<lparr>sp_start := saturating_sub (sp_start s) pad\<rparr>"
  have "touching m (sp_start ?s) (grow_spans pad total_len (?s # r))
    \<and> (\<forall>x \<in> set (grow_spans pad total_len (?s # r)). sp_end x \<le> total_len)"
    using assms by (intro grow_spans_touching) (auto simp: Cons saturating_sub_def)
  then show ?thesis using touching_weaken by (auto simp: pad_spans_def Cons)
qed (simp add: pad_spans_def)

lemma merge_from_spaced:
  assumes "sp_start l + m < sp_end l" "touching m (sp_start l) r" "\<forall>x \<in> set (l # r). sp_end x \<le> total_len"
  shows "spaced m (sp_start l) (merge_from l r) \<and> (\<forall>x \<in> set (merge_from l r). sp_end x \<le> total_len)"
  using assms
proof (induction r arbitrary: l)
  case (Cons s r)
  show ?case
  proof (cases "sp_start s \<le> sp_end l + 1")
    case True
    let ?l = "l\<lparr>sp_end := max (sp_end l) (sp_end s)\<rparr>"
    have "touching m (sp_start ?l) r" using Cons.prems(2) touching_weaken [of m "sp_end s" r "sp_start l"] by auto
    with Cons.prems have "spaced m (sp_start ?l) (merge_from ?l r) \<and> (\<forall>x \<in> set (merge_from ?l r). sp_end x \<le> total_len)"
      by (intro Cons.IH) auto
    with True show ?thesis by simp
  next
    case False
    have "touching m (sp_start s) r" using Cons.prems(2) touching_weaken [of m "sp_end s" r "sp_start s"] by auto
    with Cons.prems have "spaced m (sp_start s) (merge_from s r) \<and> (\<forall>x \<in> set (merge_from s r). sp_end x \<le> total_len)"
      by (intro Cons.IH) auto
    with False Cons.prems show ?thesis using spaced_weaken [of m "sp_start s" _ "sp_end l + 2"] by auto
  qed
qed auto

lemma merge_spans_spaced:
  assumes "touching m 0 spans" "\<forall>x \<in> set spans. sp_end x \<le> total_len"
  shows "spaced m 0 (merge_spans spans) \<and> (\<forall>x \<in> set (merge_spans spans). sp_end x \<le> total_len)"
proof (cases spans)
  case (Cons s r)
  have "spaced m (sp_start s) (merge_from s r) \<and> (\<forall>x \<in> set (merge_from s r). sp_end x \<le> total_len)"
    using assms touching_weaken [of m "sp_end s" r "sp_start s"] by (intro merge_from_spaced) (auto simp: Cons)
  then show ?thesis using spaced_weaken by (auto simp: merge_spans_def Cons)
qed (simp add: merge_spans_def)

lemma segments_spaced:
  assumes "fits probabilities total_len"
  shows "spaced (samples_of_ms (vp_min_speech_ms p)) 0 (segments probabilities total_len p)
     \<and> (\<forall>x \<in> set (segments probabilities total_len p). sp_end x \<le> total_len)"
proof -
  note r = raw_spans_chained [OF assms, of p]
  note t = pad_spans_touching [OF conjunct1 [OF r] conjunct2 [OF r], of "samples_of_ms (vp_speech_pad_ms p)"]
  show ?thesis unfolding segments_def by (rule merge_spans_spaced [OF conjunct1 [OF t] conjunct2 [OF t]])
qed

lemma spaced_sorted: "spaced m lo xs \<Longrightarrow>
    sorted_wrt (\<lambda>a b. sp_end a + 1 < sp_start b) xs \<and> (\<forall>x \<in> set xs. lo \<le> sp_start x \<and> sp_start x + m < sp_end x)"
proof (induction xs arbitrary: lo)
  case (Cons s r)
  then have "spaced m (sp_end s + 2) r" by simp
  from Cons.IH [OF this] Cons.prems show ?case by auto
qed simp

lemma spaced_speech: "spaced m lo xs \<Longrightarrow> \<forall>x \<in> set xs. sp_end x \<le> total_len \<Longrightarrow> lo \<le> total_len \<Longrightarrow>
    speech_samples xs \<le> total_len - lo"
proof (induction xs arbitrary: lo)
  case (Cons s r)
  show ?case
  proof (cases r)
    case Nil
    with Cons.prems show ?thesis by (auto simp: speech_samples_def)
  next
    case (Cons t r')
    with Cons.prems have "sp_end s + 2 \<le> total_len" by auto
    with Cons.IH [of "sp_end s + 2"] Cons.prems show ?thesis by (auto simp: speech_samples_def)
  qed
qed (simp add: speech_samples_def)

lemma chunks_length: "xs \<noteq> [] \<Longrightarrow> chunks xs \<noteq> [] \<and> (length (chunks xs) - 1) * frame_len < length xs"
proof (induction xs rule: chunks.induct)
  case (1 xs)
  show ?case
  proof (cases "drop frame_len xs = []")
    case True
    have "chunks (drop frame_len xs) = []" unfolding True by (simp add: chunks.simps)
    with 1 show ?thesis by (subst (1 2) chunks.simps) simp
  next
    case False
    with 1 have IH: "chunks (drop frame_len xs) \<noteq> []" "(length (chunks (drop frame_len xs)) - 1) * frame_len < length xs - frame_len"
      by auto
    then obtain n where n: "length (chunks (drop frame_len xs)) = Suc n"
      by (cases "chunks (drop frame_len xs)") auto
    with IH(2) 1 False show ?thesis by (subst (1 2) chunks.simps) simp
  qed
qed

lemma score_frames_length: "length (score_frames score st cs) = length cs"
  by (induction cs arbitrary: st) (auto split: prod.splits)

lemma frames_fit: "fits (frame_probabilities score st samples) (length samples)"
proof (cases "samples = []")
  case True
  then show ?thesis by (simp add: fits_def frame_probabilities_def chunks.simps)
next
  case False
  with chunks_length [OF False] show ?thesis
    by (simp add: fits_def frame_probabilities_def score_frames_length)
qed

text \<open>
  C21. Speech spans are well formed, whatever the scorer answers: they lie inside the audio, each is
  longer than the configured minimum, they are in order and more than one sample apart, and together
  they are no longer than the audio, so the reported speech ratio never exceeds one.
\<close>

theorem vad_spans_well_formed:
  "sorted_wrt (\<lambda>a b. sp_end a + 1 < sp_start b) (detect score st samples p)
   \<and> (\<forall>s \<in> set (detect score st samples p).
         sp_start s + samples_of_ms (vp_min_speech_ms p) < sp_end s \<and> sp_end s \<le> length samples)
   \<and> speech_samples (detect score st samples p) \<le> length samples"
  using segments_spaced [OF frames_fit [of score st samples], of p]
    spaced_sorted [of "samples_of_ms (vp_min_speech_ms p)" 0 "detect score st samples p"]
    spaced_speech [of "samples_of_ms (vp_min_speech_ms p)" 0 "detect score st samples p" "length samples"]
  unfolding detect_def by simp

definition loud :: "unit \<Rightarrow> f32 list \<Rightarrow> f32 \<times> unit" where "loud st frame = (Fin 1, st)"

theorem vad_spans_well_formed_witness:
  "detect loud () [Fin 0, Fin 0] (default_params\<lparr>vp_min_speech_ms := 0\<rparr>) = [\<lparr>sp_start = 0, sp_end = 2\<rparr>]
   \<and> speech_samples (detect loud () [Fin 0, Fin 0] (default_params\<lparr>vp_min_speech_ms := 0\<rparr>)) \<le> 2"
proof -
  have "detect loud () [Fin 0, Fin 0] (default_params\<lparr>vp_min_speech_ms := 0\<rparr>) = [\<lparr>sp_start = 0, sp_end = 2\<rparr>]"
    by code_simp
  then show ?thesis
    using vad_spans_well_formed [of loud "()" "[Fin 0, Fin 0]" "default_params\<lparr>vp_min_speech_ms := 0\<rparr>"] by simp
qed


end
