(* ===== verification/Gguf_Probe.thy ===== *)
theory Gguf_Probe
  imports Prelude "HOL-Library.AList"
begin

text \<open>
  The header probe of \<open>src/gguf_probe.rs\<close> that classifies model files copied into the models
  folder: a bounds-checked cursor over a byte prefix, the reader and the skipper of metadata values,
  the header parser, the loop that retries with a longer prefix when the header did not fit, and the
  id given to a custom model. A parser is a function of the cursor that returns an error or a value
  with the advanced cursor; the question-mark operator is \<open>p_bind\<close>. Floats keep their bits.
  The theorems state that a prefix long enough to parse gives the answer of the whole file, that
  skipping a value consumes what reading it would, that a well-formed header parses to the wanted
  entries, and that the retry loop ends with the answer for the longest admitted prefix.
\<close>

subsection \<open>Values, errors, and the cursor\<close>

definition max_string_len :: nat where "max_string_len = 64 * 1024 * 1024"
definition max_array_len :: nat where "max_array_len = 16 * 1024 * 1024"
definition max_stored_array_len :: nat where "max_stored_array_len = 4096"
definition max_kv_count :: nat where "max_kv_count = 1000000"
definition gguf_magic :: "32 word" where "gguf_magic = 0x46554747"

definition known_arches :: "string list" where
  "known_arches = [''whisper'', ''parakeet'', ''qwen3_asr'', ''voxtral'', ''voxtral_realtime'',
     ''cohere'', ''cohere_asr'', ''canary'', ''canary_qwen'', ''moonshine'', ''moonshine_streaming'',
     ''sensevoice'', ''gigaam'', ''granite'', ''granite_speech'', ''granite_nar'',
     ''granite_speech_nar'', ''funasr_nano'', ''medasr'', ''moss'', ''sortformer'']"

definition probe_keys :: "string list" where
  "probe_keys = [''general.architecture'', ''general.name'', ''general.languages'',
     ''stt.capability.streaming'', ''stt.capability.translate'', ''stt.capability.lang_detect'']"

datatype gguf_value =
    GU8 "8 word" | GI8 "8 word" | GU16 "16 word" | GI16 "16 word" | GU32 "32 word" | GI32 "32 word"
  | GU64 "64 word" | GI64 "64 word" | GF32 "32 word" | GF64 "64 word" | GBool bool
  | GString string | GArray "gguf_value list"

fun gv_as_str :: "gguf_value \<Rightarrow> string option" where
  "gv_as_str (GString s) = Some s"
| "gv_as_str _ = None"

fun gv_as_bool :: "gguf_value \<Rightarrow> bool option" where
  "gv_as_bool (GBool b) = Some b"
| "gv_as_bool (GU8 v) = Some (v \<noteq> 0)"
| "gv_as_bool (GI8 v) = Some (v \<noteq> 0)"
| "gv_as_bool (GU32 v) = Some (v \<noteq> 0)"
| "gv_as_bool (GI32 v) = Some (v \<noteq> 0)"
| "gv_as_bool _ = None"

fun all_some :: "'a option list \<Rightarrow> 'a list option" where
  "all_some [] = Some []"
| "all_some (None # xs) = None"
| "all_some (Some x # xs) = map_option (Cons x) (all_some xs)"

fun gv_as_string_array :: "gguf_value \<Rightarrow> string list option" where
  "gv_as_string_array (GArray items) = all_some (map gv_as_str items)"
| "gv_as_string_array _ = None"

datatype gguf_error = NotGguf | UnsupportedVersion "32 word" | Truncated nat | Malformed string

record cursor =
  cu_buf :: "byte list"
  cu_pos :: nat

type_synonym 'a parser = "cursor \<Rightarrow> gguf_error + ('a \<times> cursor)"

definition p_return :: "'a \<Rightarrow> 'a parser" where "p_return x = (\<lambda>cur. Inr (x, cur))"
definition p_fail :: "gguf_error \<Rightarrow> 'a parser" where "p_fail e = (\<lambda>cur. Inl e)"

definition p_bind :: "'a parser \<Rightarrow> ('a \<Rightarrow> 'b parser) \<Rightarrow> 'b parser" where
  "p_bind p q = (\<lambda>cur. case p cur of Inl e \<Rightarrow> Inl e | Inr (x, cur') \<Rightarrow> q x cur')"

definition cursor_new :: "byte list \<Rightarrow> cursor" where "cursor_new buf = \<lparr>cu_buf = buf, cu_pos = 0\<rparr>"

definition cu_truncated :: "cursor \<Rightarrow> nat \<Rightarrow> gguf_error" where
  "cu_truncated cur n = Truncated (saturating_add (cu_pos cur) n)"

definition cu_take :: "nat \<Rightarrow> byte list parser" where
  "cu_take n cur =
     (case checked_add (cu_pos cur) n of
        None \<Rightarrow> Inl (Malformed ''length overflow'')
      | Some end_pos \<Rightarrow>
          if end_pos > length (cu_buf cur) then Inl (cu_truncated cur n)
          else Inr (take n (drop (cu_pos cur) (cu_buf cur)), cur\<lparr>cu_pos := end_pos\<rparr>))"

fun le_value :: "byte list \<Rightarrow> nat" where
  "le_value [] = 0"
| "le_value (b # bs) = unat b + 256 * le_value bs"

definition cu_u32 :: "32 word parser" where
  "cu_u32 = p_bind (cu_take 4) (\<lambda>b. p_return (word_of_nat (le_value b)))"

definition cu_u64 :: "64 word parser" where
  "cu_u64 = p_bind (cu_take 8) (\<lambda>b. p_return (word_of_nat (le_value b)))"

definition cu_string_len :: "nat parser" where
  "cu_string_len = p_bind cu_u64 (\<lambda>n.
     if unat n > max_string_len then p_fail (Malformed ''string length too large'')
     else p_return (unat n))"

text \<open>
  \<open>String::from_utf8_lossy\<close>: each maximal ill-formed piece becomes one replacement character.
\<close>

definition replacement :: "byte list" where "replacement = [0xEF, 0xBF, 0xBD]"

definition is_cont :: "byte \<Rightarrow> bool" where "is_cont b \<longleftrightarrow> 0x80 \<le> b \<and> b \<le> 0xBF"

definition second_of_3 :: "byte \<Rightarrow> byte \<Rightarrow> bool" where
  "second_of_3 a b \<longleftrightarrow>
     (a = 0xE0 \<and> 0xA0 \<le> b \<and> b \<le> 0xBF) \<or> (0xE1 \<le> a \<and> a \<le> 0xEC \<and> is_cont b)
     \<or> (a = 0xED \<and> 0x80 \<le> b \<and> b \<le> 0x9F) \<or> (0xEE \<le> a \<and> a \<le> 0xEF \<and> is_cont b)"

definition second_of_4 :: "byte \<Rightarrow> byte \<Rightarrow> bool" where
  "second_of_4 a b \<longleftrightarrow>
     (a = 0xF0 \<and> 0x90 \<le> b \<and> b \<le> 0xBF) \<or> (0xF1 \<le> a \<and> a \<le> 0xF3 \<and> is_cont b)
     \<or> (a = 0xF4 \<and> 0x80 \<le> b \<and> b \<le> 0x8F)"

definition utf8_head :: "byte \<Rightarrow> byte list \<Rightarrow> bool \<times> nat" where
  "utf8_head a bs =
     (let nth_ok = (\<lambda>P i. i < length bs \<and> P (bs ! i)) in
      if a < 0x80 then (True, 1)
      else if 0xC2 \<le> a \<and> a \<le> 0xDF then (if nth_ok is_cont 0 then (True, 2) else (False, 1))
      else if 0xE0 \<le> a \<and> a \<le> 0xEF then
        (if \<not> nth_ok (second_of_3 a) 0 then (False, 1)
         else if \<not> nth_ok is_cont 1 then (False, 2) else (True, 3))
      else if 0xF0 \<le> a \<and> a \<le> 0xF4 then
        (if \<not> nth_ok (second_of_4 a) 0 then (False, 1)
         else if \<not> nth_ok is_cont 1 then (False, 2)
         else if \<not> nth_ok is_cont 2 then (False, 3) else (True, 4))
      else (False, 1))"

function utf8_lossy :: "byte list \<Rightarrow> byte list" where
  "utf8_lossy [] = []"
| "utf8_lossy (a # bs) =
     (let (ok, n) = utf8_head a bs in
      (if ok then a # take (n - 1) bs else replacement) @ utf8_lossy (drop (n - 1) bs))"
  by pat_completeness auto
termination by (relation "measure length") auto

definition text_of :: "byte list \<Rightarrow> string" where "text_of bs = map (\<lambda>b. char_of (unat b)) bs"

definition cu_string :: "string parser" where
  "cu_string = p_bind cu_string_len (\<lambda>n. p_bind (cu_take n) (\<lambda>b. p_return (text_of (utf8_lossy b))))"

definition cu_skip_string :: "unit parser" where
  "cu_skip_string = p_bind cu_string_len (\<lambda>n. p_bind (cu_take n) (\<lambda>_. p_return ()))"

subsection \<open>Reading and skipping a value\<close>

text \<open>A value of any type but an array; the code reaches arrays only at the outermost level.\<close>

definition read_plain :: "nat \<Rightarrow> gguf_value parser" where
  "read_plain t =
     (if t = 0 then p_bind (cu_take 1) (\<lambda>b. p_return (GU8 (b ! 0)))
      else if t = 1 then p_bind (cu_take 1) (\<lambda>b. p_return (GI8 (b ! 0)))
      else if t = 2 then p_bind (cu_take 2) (\<lambda>b. p_return (GU16 (word_of_nat (le_value b))))
      else if t = 3 then p_bind (cu_take 2) (\<lambda>b. p_return (GI16 (word_of_nat (le_value b))))
      else if t = 4 then p_bind cu_u32 (\<lambda>n. p_return (GU32 n))
      else if t = 5 then p_bind cu_u32 (\<lambda>n. p_return (GI32 n))
      else if t = 6 then p_bind cu_u32 (\<lambda>n. p_return (GF32 n))
      else if t = 7 then p_bind (cu_take 1) (\<lambda>b. p_return (GBool (b ! 0 \<noteq> 0)))
      else if t = 8 then p_bind cu_string (\<lambda>s. p_return (GString s))
      else if t = 10 then p_bind cu_u64 (\<lambda>n. p_return (GU64 n))
      else if t = 11 then p_bind cu_u64 (\<lambda>n. p_return (GI64 n))
      else if t = 12 then p_bind cu_u64 (\<lambda>n. p_return (GF64 n))
      else p_fail (Malformed ''unknown value type''))"

fun p_times :: "nat \<Rightarrow> 'a parser \<Rightarrow> 'a list parser" where
  "p_times 0 p = p_return []"
| "p_times (Suc n) p = p_bind p (\<lambda>x. p_bind (p_times n p) (\<lambda>xs. p_return (x # xs)))"

definition read_value :: "nat \<Rightarrow> gguf_value parser" where
  "read_value t =
     (if t \<noteq> 9 then read_plain t
      else p_bind cu_u32 (\<lambda>elem.
        if elem = 9 then p_fail (Malformed ''nested arrays are not allowed'')
        else p_bind cu_u64 (\<lambda>n.
          if unat n > max_array_len then p_fail (Malformed ''array length too large'')
          else if unat n > max_stored_array_len then p_fail (Malformed ''stored array length too large'')
          else p_bind (p_times (unat n) (read_plain (unat elem))) (\<lambda>items. p_return (GArray items)))))"

definition scalar_size :: "nat \<Rightarrow> nat option" where
  "scalar_size t =
     (if t = 0 \<or> t = 1 \<or> t = 7 then Some 1
      else if t = 2 \<or> t = 3 then Some 2
      else if t = 4 \<or> t = 5 \<or> t = 6 then Some 4
      else if t = 10 \<or> t = 11 \<or> t = 12 then Some 8
      else None)"

definition skip_value :: "nat \<Rightarrow> unit parser" where
  "skip_value t =
     (case scalar_size t of
        Some n \<Rightarrow> p_bind (cu_take n) (\<lambda>_. p_return ())
      | None \<Rightarrow>
          if t = 8 then cu_skip_string
          else if t = 9 then
            p_bind cu_u32 (\<lambda>elem.
              if elem = 9 then p_fail (Malformed ''nested arrays are not allowed'')
              else p_bind cu_u64 (\<lambda>n.
                if unat n > max_array_len then p_fail (Malformed ''array length too large'')
                else case scalar_size (unat elem) of
                    Some sz \<Rightarrow>
                      (case checked_mul (unat n) sz of
                         None \<Rightarrow> p_fail (Malformed ''length overflow'')
                       | Some bytes \<Rightarrow> p_bind (cu_take bytes) (\<lambda>_. p_return ()))
                  | None \<Rightarrow>
                      if unat elem = 8 then p_bind (p_times (unat n) cu_skip_string) (\<lambda>_. p_return ())
                      else p_fail (Malformed ''unknown array element type'')))
          else p_fail (Malformed ''unknown value type''))"

subsection \<open>The header\<close>

type_synonym metadata = "(string \<times> gguf_value) list"

fun parse_entries :: "nat \<Rightarrow> string list \<Rightarrow> metadata \<Rightarrow> metadata parser" where
  "parse_entries 0 wanted kv = p_return kv"
| "parse_entries (Suc n) wanted kv =
     p_bind cu_string (\<lambda>key. p_bind cu_u32 (\<lambda>t.
       if key \<in> set wanted then
         p_bind (read_value (unat t)) (\<lambda>v.
           let kv' = AList.update key v kv in
           if length kv' = length wanted then p_return kv' else parse_entries n wanted kv')
       else p_bind (skip_value (unat t)) (\<lambda>_. parse_entries n wanted kv)))"

definition header_parser :: "string list \<Rightarrow> metadata parser" where
  "header_parser wanted =
     p_bind cu_u32 (\<lambda>magic.
       if magic \<noteq> gguf_magic then p_fail NotGguf
       else p_bind cu_u32 (\<lambda>version.
         if version \<noteq> 2 \<and> version \<noteq> 3 then p_fail (UnsupportedVersion version)
         else p_bind cu_u64 (\<lambda>tensor_count. p_bind cu_u64 (\<lambda>kv_count.
           if unat kv_count > max_kv_count then p_fail (Malformed ''absurd metadata kv count'')
           else parse_entries (unat kv_count) wanted []))))"

definition parse_header :: "string list \<Rightarrow> byte list \<Rightarrow> gguf_error + metadata" where
  "parse_header wanted bytes = map_sum id fst (header_parser wanted (cursor_new bytes))"

text \<open>
  A file is the bytes a read of it delivers, or \<open>None\<close> when it cannot be read.
\<close>

definition read_prefix :: "byte list option \<Rightarrow> nat \<Rightarrow> unit + byte list" where
  "read_prefix file n = (case file of None \<Rightarrow> Inl () | Some bytes \<Rightarrow> Inr (take n bytes))"

definition initial_prefix :: nat where "initial_prefix = 64 * 1024"
definition max_prefix :: nat where "max_prefix = 16 * 1024 * 1024"

definition next_size :: "nat \<Rightarrow> nat \<Rightarrow> nat" where
  "next_size needed sz = min (max needed (saturating_mul sz 2)) max_prefix"

function read_growing ::
  "(byte list \<Rightarrow> gguf_error + 'a) \<Rightarrow> byte list option \<Rightarrow> nat \<Rightarrow> gguf_error + 'a" where
  "read_growing parse file sz =
     (case read_prefix file sz of
        Inl _ \<Rightarrow> Inl (Malformed ''cannot read file'')
      | Inr buf \<Rightarrow>
          (case parse buf of
             Inr meta \<Rightarrow> Inr meta
           | Inl (Truncated needed) \<Rightarrow>
               if length buf < sz then Inl (Malformed ''file shorter than its header'')
               else if next_size needed sz \<le> sz then Inl (Truncated needed)
               else read_growing parse file (next_size needed sz)
           | Inl e \<Rightarrow> Inl e))"
  by pat_completeness auto
termination
  by (relation "measure (\<lambda>(parse, file, sz). max_prefix - sz)") (auto simp: next_size_def)

definition read_header_metadata :: "byte list option \<Rightarrow> gguf_error + metadata" where
  "read_header_metadata file = read_growing (parse_header probe_keys) file initial_prefix"

subsection \<open>The probe and the custom id\<close>

record gguf_probe =
  gp_architecture :: string
  gp_display_name :: "string option"
  gp_languages :: "string list"
  gp_supports_streaming :: bool
  gp_supports_translation :: bool
  gp_supports_language_detect :: bool

definition is_supported :: "gguf_probe \<Rightarrow> bool" where
  "is_supported p \<longleftrightarrow> gp_architecture p \<in> set known_arches"

fun error_text :: "gguf_error \<Rightarrow> string" where
  "error_text NotGguf = ''not a GGUF file''"
| "error_text (UnsupportedVersion v) = ''unsupported GGUF version '' @ decimal (unat v)"
| "error_text (Truncated n) = ''buffer truncated, need at least '' @ decimal n @ '' bytes''"
| "error_text (Malformed why) = ''malformed GGUF: '' @ why"

definition get_str :: "metadata \<Rightarrow> string \<Rightarrow> string option" where
  "get_str kv k = Option.bind (map_of kv k) gv_as_str"

definition get_bool :: "metadata \<Rightarrow> string \<Rightarrow> bool option" where
  "get_bool kv k = Option.bind (map_of kv k) gv_as_bool"

definition get_string_array :: "metadata \<Rightarrow> string \<Rightarrow> string list option" where
  "get_string_array kv k = Option.bind (map_of kv k) gv_as_string_array"

definition probe_gguf_file :: "byte list option \<Rightarrow> string + gguf_probe" where
  "probe_gguf_file file =
     and_then (map_err error_text (read_header_metadata file)) (\<lambda>kv.
     and_then (ok_or ''missing general.architecture'' (get_str kv ''general.architecture'')) (\<lambda>arch.
     Inr \<lparr>gp_architecture = arch, gp_display_name = get_str kv ''general.name'',
          gp_languages = unwrap_or [] (get_string_array kv ''general.languages''),
          gp_supports_streaming = unwrap_or False (get_bool kv ''stt.capability.streaming''),
          gp_supports_translation = unwrap_or False (get_bool kv ''stt.capability.translate''),
          gp_supports_language_detect = unwrap_or False (get_bool kv ''stt.capability.lang_detect'')\<rparr>))"

definition is_alnum :: "char \<Rightarrow> bool" where "is_alnum c \<longleftrightarrow> is_alpha c \<or> is_digit c"

definition slug_step :: "char \<Rightarrow> string \<times> bool \<Rightarrow> string \<times> bool" where
  "slug_step ch st =
     (let (slug, last_was_dash) = st in
      if is_alnum ch then (slug @ [ch], False)
      else if \<not> last_was_dash \<and> slug \<noteq> [] then (slug @ [CHR ''-''], True)
      else (slug, last_was_dash))"

definition trim_dashes :: "string \<Rightarrow> string" where
  "trim_dashes s = rev (dropWhile (\<lambda>c. c = CHR ''-'') (rev s))"

definition slug_of :: "string \<Rightarrow> string" where
  "slug_of name = (let slug = trim_dashes (fst (fold slug_step (lowercase name) ([], False))) in
                   if slug = [] then ''model'' else slug)"

definition custom_model_id :: "string \<Rightarrow> string \<Rightarrow> string" where
  "custom_model_id name sha256 = ''custom-'' @ slug_of name @ ''-'' @ take 8 sha256"

subsection \<open>A longer buffer\<close>

text \<open>
  A parser is stable when a longer buffer changes its answer only if the answer was that the
  buffer is too short.
\<close>

declare read_growing.simps [simp del]

definition extend :: "byte list \<Rightarrow> cursor \<Rightarrow> cursor" where
  "extend rest cur = cur\<lparr>cu_buf := cu_buf cur @ rest\<rparr>"

definition stable :: "'a parser \<Rightarrow> bool" where
  "stable p \<longleftrightarrow> (\<forall>cur rest. case p cur of
       Inr (x, cur') \<Rightarrow> p (extend rest cur) = Inr (x, extend rest cur')
     | Inl e \<Rightarrow> (\<exists>n. e = Truncated n) \<or> p (extend rest cur) = Inl e)"

named_theorems stable_intros \<open>parsers that do not depend on what follows\<close>

lemma stable_return [stable_intros]: "stable (p_return x)"
  by (simp add: stable_def p_return_def)

lemma stable_fail [stable_intros]: "stable (p_fail e)"
  by (simp add: stable_def p_fail_def)

lemma stable_take [stable_intros]: "stable (cu_take n)"
  by (auto simp: stable_def cu_take_def cu_truncated_def extend_def checked_add_def)

lemma stable_bind [stable_intros]:
  assumes p: "stable p" and q: "\<And>x. stable (q x)"
  shows "stable (p_bind p q)"
  unfolding stable_def
proof (intro allI)
  fix cur rest
  show "case p_bind p q cur of
       Inr (x, cur') \<Rightarrow> p_bind p q (extend rest cur) = Inr (x, extend rest cur')
     | Inl e \<Rightarrow> (\<exists>n. e = Truncated n) \<or> p_bind p q (extend rest cur) = Inl e"
  proof (cases "p cur")
    case (Inl e)
    with p show ?thesis by (auto simp: stable_def p_bind_def split: sum.splits dest!: spec [of _ cur])
  next
    case (Inr r)
    obtain x cur' where r: "r = (x, cur')" by force
    from p Inr r have "p (extend rest cur) = Inr (x, extend rest cur')"
      by (auto simp: stable_def dest!: spec [of _ cur])
    moreover from q [of x] have "case q x cur' of
        Inr (y, c) \<Rightarrow> q x (extend rest cur') = Inr (y, extend rest c)
      | Inl e \<Rightarrow> (\<exists>n. e = Truncated n) \<or> q x (extend rest cur') = Inl e"
      by (simp add: stable_def)
    ultimately show ?thesis by (auto simp: p_bind_def Inr r split: sum.splits)
  qed
qed

lemma stable_if [stable_intros]: "(b \<Longrightarrow> stable p) \<Longrightarrow> (\<not> b \<Longrightarrow> stable q) \<Longrightarrow> stable (if b then p else q)"
  by simp

lemma stable_option [stable_intros]:
  "(m = None \<Longrightarrow> stable p) \<Longrightarrow> (\<And>x. m = Some x \<Longrightarrow> stable (q x)) \<Longrightarrow> stable (case m of None \<Rightarrow> p | Some x \<Rightarrow> q x)"
  by (cases m) auto

lemma stable_times [stable_intros]: "stable p \<Longrightarrow> stable (p_times n p)"
  by (induction n) (auto intro!: stable_intros)

lemma stable_values [stable_intros]:
  "stable cu_u32" "stable cu_u64" "stable cu_string_len" "stable cu_string" "stable cu_skip_string"
  by (auto simp: cu_u32_def cu_u64_def cu_string_len_def cu_string_def cu_skip_string_def
      intro!: stable_intros)

lemma stable_read_plain [stable_intros]: "stable (read_plain t)"
  unfolding read_plain_def by (intro stable_intros)

lemma stable_read_value [stable_intros]: "stable (read_value t)"
  unfolding read_value_def by (intro stable_intros)

lemma stable_skip_value [stable_intros]: "stable (skip_value t)"
  unfolding skip_value_def by (intro stable_intros)

lemma stable_parse_entries [stable_intros]: "stable (parse_entries n wanted kv)"
proof (induction n arbitrary: kv)
  case (Suc n)
  show ?case unfolding parse_entries.simps Let_def by (intro stable_intros Suc.IH)
qed (auto intro: stable_intros)

lemma stable_header: "stable (header_parser wanted)"
  unfolding header_parser_def by (intro stable_intros)

locale incremental_parser =
  fixes parse :: "byte list \<Rightarrow> gguf_error + 'a"
  assumes longer_agrees: "parse buf = r \<Longrightarrow> (\<And>n. r \<noteq> Inl (Truncated n)) \<Longrightarrow> parse (buf @ rest) = r"
begin

lemma prefix_agrees:
  assumes "m \<le> k" "parse (take m bytes) = r" "\<And>n. r \<noteq> Inl (Truncated n)"
  shows "parse (take k bytes) = r"
proof -
  from assms(1) have "take k bytes = take m bytes @ take (k - m) (drop m bytes)"
    by (metis le_add_diff_inverse take_add)
  with longer_agrees [OF assms(2,3)] show ?thesis by simp
qed

lemma growing_answer:
  assumes "0 < sz" "sz \<le> max_prefix"
  shows "read_growing parse (Some bytes) sz =
    (case parse (take max_prefix bytes) of
       Inl (Truncated n) \<Rightarrow> if length bytes < max_prefix then Inl (Malformed ''file shorter than its header'')
                           else Inl (Truncated n)
     | r \<Rightarrow> r)"
  using assms
proof (induction sz rule: measure_induct_rule [of "\<lambda>sz. max_prefix - sz"])
  case (less sz)
  note bounds = less.prems
  show ?case
  proof (cases "\<exists>n. parse (take sz bytes) = Inl (Truncated n)")
    case False
    then have "parse (take max_prefix bytes) = parse (take sz bytes)"
      using prefix_agrees [OF bounds(2) refl] by auto
    with False show ?thesis
      by (subst read_growing.simps) (auto simp: read_prefix_def split: sum.splits gguf_error.splits)
  next
    case True
    then obtain n where n: "parse (take sz bytes) = Inl (Truncated n)" by auto
    consider "length bytes < sz" | "sz \<le> length bytes" "next_size n sz \<le> sz" | "sz \<le> length bytes" "sz < next_size n sz"
      by linarith
    then show ?thesis
    proof cases
      case 1
      with bounds(2) n have "parse (take max_prefix bytes) = Inl (Truncated n)" by simp
      with n 1 bounds(2) show ?thesis by (subst read_growing.simps) (simp add: read_prefix_def)
    next
      case 2
      have "sz < saturating_mul sz 2 \<or> max_prefix \<le> saturating_mul sz 2"
        using bounds(1) bounds(2) by (auto simp: saturating_mul_def max_prefix_def u64_max_def)
      with 2(2) have "sz = max_prefix"
        using bounds(2) by (auto simp: next_size_def)
      with 2 n show ?thesis
        by (subst read_growing.simps) (auto simp: read_prefix_def next_size_def max_prefix_def)
    next
      case 3
      then have "next_size n sz \<le> max_prefix" "0 < next_size n sz" by (simp_all add: next_size_def)
      with 3 n less.IH [of "next_size n sz"] show ?thesis by (subst read_growing.simps) (auto simp: read_prefix_def)
    qed
  qed
qed

end

interpretation header: incremental_parser "parse_header wanted" for wanted
proof
  fix buf r rest
  assume r: "parse_header wanted buf = r" "\<And>n. r \<noteq> Inl (Truncated n)"
  have "case header_parser wanted (cursor_new buf) of
       Inr (x, cur') \<Rightarrow> header_parser wanted (extend rest (cursor_new buf)) = Inr (x, extend rest cur')
     | Inl e \<Rightarrow> (\<exists>n. e = Truncated n) \<or> header_parser wanted (extend rest (cursor_new buf)) = Inl e"
    using stable_header [of wanted] unfolding stable_def by blast
  moreover have "extend rest (cursor_new buf) = cursor_new (buf @ rest)"
    by (simp add: extend_def cursor_new_def)
  ultimately show "parse_header wanted (buf @ rest) = r"
    using r by (auto simp: parse_header_def split: sum.splits)
qed

text \<open>
  C19. The probe ends with the answer of the whole header region: whatever prefix sizes the retry
  loop visits, its result is that of parsing the first 16 MiB of the file, except that a header
  that runs past the end of a shorter file is reported as such. In particular a prefix that is long
  enough to parse gives the answer the whole file would give.
\<close>

theorem probe_reads_enough:
  "read_header_metadata (Some bytes) =
     (case parse_header probe_keys (take max_prefix bytes) of
        Inl (Truncated n) \<Rightarrow> if length bytes < max_prefix then Inl (Malformed ''file shorter than its header'')
                            else Inl (Truncated n)
      | r \<Rightarrow> r)"
  unfolding read_header_metadata_def
  by (rule header.growing_answer) (simp_all add: initial_prefix_def max_prefix_def)

subsection \<open>Skipping is reading without the value\<close>

definition cursor_ok :: "cursor \<Rightarrow> bool" where
  "cursor_ok cur \<longleftrightarrow> cu_pos cur \<le> length (cu_buf cur) \<and> cu_pos cur \<le> u64_max"

lemma p_bind_Inr [outcome_simps]:
  "p_bind p q cur = Inr r \<longleftrightarrow> (\<exists>x cur'. p cur = Inr (x, cur') \<and> q x cur' = Inr r)"
  by (auto simp: p_bind_def split: sum.splits)

lemma p_return_Inr [outcome_simps]: "p_return x cur = Inr (y, cur') \<longleftrightarrow> y = x \<and> cur' = cur"
  by (auto simp: p_return_def)

lemma p_fail_Inr [outcome_simps]: "p_fail e cur = Inr r \<longleftrightarrow> False"
  by (simp add: p_fail_def)

lemma cu_take_Inr [outcome_simps]:
  "cu_take n cur = Inr (x, cur') \<longleftrightarrow>
     cu_pos cur + n \<le> length (cu_buf cur) \<and> cu_pos cur + n \<le> u64_max
     \<and> x = take n (drop (cu_pos cur) (cu_buf cur)) \<and> cur' = cur\<lparr>cu_pos := cu_pos cur + n\<rparr>"
  by (auto simp: cu_take_def checked_add_def)

lemma read_plain_scalar:
  "scalar_size t = Some sz \<Longrightarrow> read_plain t cur = Inr (x, cur') \<Longrightarrow>
     cu_pos cur + sz \<le> length (cu_buf cur) \<and> cu_pos cur + sz \<le> u64_max
     \<and> cur' = cur\<lparr>cu_pos := cu_pos cur + sz\<rparr>"
  unfolding scalar_size_def read_plain_def cu_u32_def cu_u64_def
  by (auto simp: outcome_simps split: if_splits)

lemma read_plain_string:
  "read_plain 8 cur = Inr (x, cur') \<Longrightarrow> cu_skip_string cur = Inr ((), cur')"
  by (auto simp: read_plain_def cu_string_def cu_skip_string_def outcome_simps)

lemma times_scalar:
  assumes "scalar_size t = Some sz" "cursor_ok cur" "p_times n (read_plain t) cur = Inr (xs, cur')"
  shows "cu_pos cur + n * sz \<le> length (cu_buf cur) \<and> cu_pos cur + n * sz \<le> u64_max
     \<and> cur' = cur\<lparr>cu_pos := cu_pos cur + n * sz\<rparr>"
  using assms
proof (induction n arbitrary: cur xs)
  case 0
  then show ?case by (simp add: outcome_simps cursor_ok_def)
next
  case (Suc n)
  from Suc.prems(3) obtain x ys cur1 where 1: "read_plain t cur = Inr (x, cur1)"
    "p_times n (read_plain t) cur1 = Inr (ys, cur')" by (auto simp: outcome_simps)
  from read_plain_scalar [OF assms(1) 1(1)] have cur1: "cur1 = cur\<lparr>cu_pos := cu_pos cur + sz\<rparr>" "cursor_ok cur1"
    by (auto simp: cursor_ok_def)
  from Suc.IH [OF assms(1) cur1(2) 1(2)] show ?case by (simp add: cur1(1) add.assoc)
qed

lemma times_string:
  "p_times n (read_plain 8) cur = Inr (xs, cur') \<Longrightarrow> \<exists>us. p_times n cu_skip_string cur = Inr (us, cur')"
proof (induction n arbitrary: cur xs)
  case (Suc n)
  then obtain x ys cur1 where 1: "read_plain 8 cur = Inr (x, cur1)"
    "p_times n (read_plain 8) cur1 = Inr (ys, cur')" by (auto simp: outcome_simps)
  from Suc.IH [OF 1(2)] read_plain_string [OF 1(1)] show ?case by (auto simp: outcome_simps)
qed (simp add: outcome_simps)

lemma read_plain_type:
  "read_plain t cur = Inr r \<Longrightarrow> t = 8 \<or> (\<exists>sz. scalar_size t = Some sz \<and> sz \<le> 8)"
  by (auto simp: read_plain_def scalar_size_def p_fail_def split: if_splits)

lemma u32_ok: "cu_u32 cur = Inr (x, cur') \<Longrightarrow> cursor_ok cur'"
  by (auto simp: cu_u32_def outcome_simps cursor_ok_def)

lemma u64_ok: "cu_u64 cur = Inr (x, cur') \<Longrightarrow> cursor_ok cur'"
  by (auto simp: cu_u64_def outcome_simps cursor_ok_def)

lemma skip_plain:
  "read_plain t cur = Inr (v, cur') \<Longrightarrow> skip_value t cur = Inr ((), cur')"
  using read_plain_type [of t cur "(v, cur')"] read_plain_scalar [of t _ cur v cur'] read_plain_string [of cur v cur']
  by (auto simp: skip_value_def scalar_size_def [of 8] outcome_simps)

lemma skip_array:
  assumes "read_value 9 cur = Inr (v, cur')" "v \<noteq> GArray []"
  shows "skip_value 9 cur = Inr ((), cur')"
proof -
  from assms(1) obtain elem c1 n c2 items where
    1: "cu_u32 cur = Inr (elem, c1)" "elem \<noteq> 9" "cu_u64 c1 = Inr (n, c2)" "unat n \<le> max_array_len"
       "p_times (unat n) (read_plain (unat elem)) c2 = Inr (items, cur')" "v = GArray items"
    by (auto simp: read_value_def outcome_simps split: if_splits)
  with assms(2) obtain m where m: "unat n = Suc m" by (cases "unat n") (auto simp: outcome_simps)
  from 1(5) obtain r where "read_plain (unat elem) c2 = Inr r" unfolding m by (auto simp: outcome_simps)
  then consider "unat elem = 8" | sz where "scalar_size (unat elem) = Some sz" "sz \<le> 8"
    using read_plain_type by blast
  then show ?thesis
  proof cases
    case 1
    with times_string [of "unat n" c2 items cur'] \<open>p_times _ _ _ = _\<close> obtain us where
      "p_times (unat n) cu_skip_string c2 = Inr (us, cur')" by auto
    with \<open>cu_u32 cur = _\<close> \<open>elem \<noteq> 9\<close> \<open>cu_u64 c1 = _\<close> \<open>unat n \<le> _\<close> \<open>unat elem = 8\<close> show ?thesis
      by (auto simp: skip_value_def scalar_size_def outcome_simps)
  next
    case 2
    from times_scalar [OF 2(1) u64_ok [OF 1(3)] 1(5)] have
      pos: "cu_pos c2 + unat n * sz \<le> length (cu_buf c2)" "cu_pos c2 + unat n * sz \<le> u64_max"
      "cur' = c2\<lparr>cu_pos := cu_pos c2 + unat n * sz\<rparr>" by auto
    then have "checked_mul (unat n) sz = Some (unat n * sz)" by (simp add: checked_mul_def)
    with pos 1(1-4) 2(1) show ?thesis
      by (auto simp: skip_value_def scalar_size_def [of 9] p_bind_Inr p_return_Inr cu_take_Inr)
  qed
qed

text \<open>
  Skipping consumes exactly what reading would: whenever a value can be read, skipping it
  succeeds and leaves the cursor at the same place, so that an entry the caller did not ask for
  never shifts the ones after it. The empty array is left out: reading accepts one whose element
  type is unknown, skipping refuses it.
\<close>

theorem skip_agrees_with_read:
  assumes "read_value t cur = Inr (v, cur')" "v \<noteq> GArray []"
  shows "skip_value t cur = Inr ((), cur')"
proof (cases "t = 9")
  case False
  with assms(1) have "read_plain t cur = Inr (v, cur')" by (simp add: read_value_def)
  then show ?thesis by (rule skip_plain)
qed (use assms skip_array in blast)

lemma skip_agrees_with_read_witness:
  "skip_value 4 (cursor_new [7, 0, 0, 0, 9]) = Inr ((), \<lparr>cu_buf = [7, 0, 0, 0, 9], cu_pos = 4\<rparr>)"
proof (rule skip_agrees_with_read)
  show "read_value 4 (cursor_new [7, 0, 0, 0, 9]) = Inr (GU32 7, \<lparr>cu_buf = [7, 0, 0, 0, 9], cu_pos = 4\<rparr>)"
    by (simp add: read_value_def read_plain_def cu_u32_def outcome_simps cursor_new_def u64_max_def)
qed simp

subsection \<open>Well-formed headers\<close>

text \<open>The byte format, as an encoder of values: what the parser is specified against.\<close>

fun le_encode :: "nat \<Rightarrow> nat \<Rightarrow> byte list" where
  "le_encode 0 n = []"
| "le_encode (Suc k) n = word_of_nat (n mod 256) # le_encode k (n div 256)"

definition bytes_of :: "string \<Rightarrow> byte list" where "bytes_of s = map (\<lambda>c. word_of_nat (of_char c)) s"

definition enc_string :: "string \<Rightarrow> byte list" where
  "enc_string s = le_encode 8 (length s) @ bytes_of s"

fun type_tag :: "gguf_value \<Rightarrow> nat" where
  "type_tag (GU8 _) = 0" | "type_tag (GI8 _) = 1" | "type_tag (GU16 _) = 2" | "type_tag (GI16 _) = 3"
| "type_tag (GU32 _) = 4" | "type_tag (GI32 _) = 5" | "type_tag (GF32 _) = 6" | "type_tag (GBool _) = 7"
| "type_tag (GString _) = 8" | "type_tag (GArray _) = 9" | "type_tag (GU64 _) = 10"
| "type_tag (GI64 _) = 11" | "type_tag (GF64 _) = 12"

fun enc_plain :: "gguf_value \<Rightarrow> byte list" where
  "enc_plain (GU8 w) = [w]" | "enc_plain (GI8 w) = [w]"
| "enc_plain (GU16 w) = le_encode 2 (unat w)" | "enc_plain (GI16 w) = le_encode 2 (unat w)"
| "enc_plain (GU32 w) = le_encode 4 (unat w)" | "enc_plain (GI32 w) = le_encode 4 (unat w)"
| "enc_plain (GF32 w) = le_encode 4 (unat w)" | "enc_plain (GBool b) = [if b then 1 else 0]"
| "enc_plain (GString s) = enc_string s" | "enc_plain (GU64 w) = le_encode 8 (unat w)"
| "enc_plain (GI64 w) = le_encode 8 (unat w)" | "enc_plain (GF64 w) = le_encode 8 (unat w)"
| "enc_plain (GArray _) = []"

text \<open>
  A value as it stands in a file: a plain one, or an array with the type of its elements, which an empty array has
  too. An array the caller asked for may have 4096 elements, one that is stepped over 16 million.
\<close>

datatype item_value = Single gguf_value | Items nat "gguf_value list"

fun value_of :: "item_value \<Rightarrow> gguf_value" where
  "value_of (Single v) = v"
| "value_of (Items t vs) = GArray vs"

fun item_tag :: "item_value \<Rightarrow> nat" where
  "item_tag (Single v) = type_tag v"
| "item_tag (Items t vs) = 9"

fun enc_value :: "item_value \<Rightarrow> byte list" where
  "enc_value (Single v) = enc_plain v"
| "enc_value (Items t vs) = le_encode 4 t @ le_encode 8 (length vs) @ concat (map enc_plain vs)"

fun wf_plain :: "gguf_value \<Rightarrow> bool" where
  "wf_plain (GString s) \<longleftrightarrow> utf8_lossy (bytes_of s) = bytes_of s \<and> length s \<le> max_string_len"
| "wf_plain (GArray _) \<longleftrightarrow> False"
| "wf_plain _ \<longleftrightarrow> True"

fun wf_value :: "bool \<Rightarrow> item_value \<Rightarrow> bool" where
  "wf_value asked (Single v) \<longleftrightarrow> wf_plain v"
| "wf_value asked (Items t vs) \<longleftrightarrow> t \<le> 12 \<and> t \<noteq> 9 \<and> (\<forall>v \<in> set vs. wf_plain v \<and> type_tag v = t)
     \<and> length vs \<le> (if asked then max_stored_array_len else max_array_len)"

type_synonym header_entry = "string \<times> item_value"

definition enc_entry :: "header_entry \<Rightarrow> byte list" where
  "enc_entry e = enc_string (fst e) @ le_encode 4 (item_tag (snd e)) @ enc_value (snd e)"

definition wf_entry :: "string list \<Rightarrow> header_entry \<Rightarrow> bool" where
  "wf_entry wanted e \<longleftrightarrow> wf_plain (GString (fst e)) \<and> wf_value (fst e \<in> set wanted) (snd e)"

definition enc_header :: "32 word \<Rightarrow> 64 word \<Rightarrow> header_entry list \<Rightarrow> byte list" where
  "enc_header version tensors kvs =
     le_encode 4 (unat gguf_magic) @ le_encode 4 (unat version) @ le_encode 8 (unat tensors)
     @ le_encode 8 (length kvs) @ concat (map enc_entry kvs)"

definition parses :: "'a parser \<Rightarrow> byte list \<Rightarrow> 'a \<Rightarrow> bool" where
  "parses p bs x \<longleftrightarrow> (\<forall>pre rest. length pre + length bs \<le> u64_max \<longrightarrow>
     p \<lparr>cu_buf = pre @ bs @ rest, cu_pos = length pre\<rparr> =
     Inr (x, \<lparr>cu_buf = pre @ bs @ rest, cu_pos = length pre + length bs\<rparr>))"

lemma le_encode_length [simp]: "length (le_encode k n) = k"
  by (induction k arbitrary: n) auto

lemma le_value_encode: "n < 256 ^ k \<Longrightarrow> le_value (le_encode k n) = n"
proof (induction k arbitrary: n)
  case (Suc k)
  then have "n div 256 < 256 ^ k" by (simp add: less_mult_imp_div_less mult.commute)
  with Suc.IH have "le_value (le_encode k (n div 256)) = n div 256" by blast
  moreover have "unat (word_of_nat (n mod 256) :: byte) = n mod 256"
    by (simp add: unat_of_nat)
  ultimately show ?case by simp
qed simp

lemma parses_bind:
  assumes "parses p b1 x" "parses (q x) b2 y"
  shows "parses (p_bind p q) (b1 @ b2) y"
  unfolding parses_def
proof (intro allI impI)
  fix pre rest :: "byte list"
  assume le: "length pre + length (b1 @ b2) \<le> u64_max"
  have "p \<lparr>cu_buf = pre @ b1 @ (b2 @ rest), cu_pos = length pre\<rparr> =
     Inr (x, \<lparr>cu_buf = pre @ b1 @ (b2 @ rest), cu_pos = length pre + length b1\<rparr>)"
    using assms(1) [unfolded parses_def, rule_format, of pre "b2 @ rest"] le by simp
  moreover have "q x \<lparr>cu_buf = (pre @ b1) @ b2 @ rest, cu_pos = length (pre @ b1)\<rparr> =
     Inr (y, \<lparr>cu_buf = (pre @ b1) @ b2 @ rest, cu_pos = length (pre @ b1) + length b2\<rparr>)"
    using assms(2) [unfolded parses_def, rule_format, of "pre @ b1" rest] le by simp
  ultimately show "p_bind p q \<lparr>cu_buf = pre @ (b1 @ b2) @ rest, cu_pos = length pre\<rparr> =
     Inr (y, \<lparr>cu_buf = pre @ (b1 @ b2) @ rest, cu_pos = length pre + length (b1 @ b2)\<rparr>)"
    by (simp add: p_bind_def add.assoc)
qed

lemma parses_return: "parses (p_return x) [] x"
  by (simp add: parses_def p_return_def)

lemma parses_map: "parses p b x \<Longrightarrow> y = f x \<Longrightarrow> parses (p_bind p (\<lambda>x. p_return (f x))) b y"
  using parses_bind [of p b x "\<lambda>x. p_return (f x)" "[]" "f x"] parses_return [of "f x"] by simp

lemma parses_take: "length b = n \<Longrightarrow> parses (cu_take n) b b"
  by (auto simp: parses_def cu_take_def checked_add_def)

lemma parses_u32: "n < 2 ^ 32 \<Longrightarrow> parses cu_u32 (le_encode 4 n) (word_of_nat n)"
  unfolding cu_u32_def by (rule parses_map [OF parses_take]) (simp_all add: le_value_encode)

lemma parses_u64: "n < 2 ^ 64 \<Longrightarrow> parses cu_u64 (le_encode 8 n) (word_of_nat n)"
  unfolding cu_u64_def by (rule parses_map [OF parses_take]) (simp_all add: le_value_encode)

lemma parses_guard: "\<not> b \<Longrightarrow> parses p bs x \<Longrightarrow> parses (if b then q else p) bs x"
  by simp

lemma parses_string_len:
  "n \<le> max_string_len \<Longrightarrow> parses cu_string_len (le_encode 8 n) n"
proof -
  assume n: "n \<le> max_string_len"
  then have fits: "n < 2 ^ 64" by (simp add: max_string_len_def)
  then have "unat (word_of_nat n :: 64 word) = n" by (simp add: unat_of_nat)
  with n parses_bind [OF parses_u64 [OF fits], of "\<lambda>n. if unat n > max_string_len
      then p_fail (Malformed ''string length too large'') else p_return (unat n)" "[]" n] show ?thesis
    by (simp add: cu_string_len_def parses_return)
qed

lemma bytes_of_length [simp]: "length (bytes_of s) = length s"
  by (simp add: bytes_of_def)

lemma text_of_bytes [simp]: "text_of (bytes_of s) = s"
proof -
  have "char_of (unat (word_of_nat (of_char c) :: byte)) = c" for c
  proof -
    have "(of_char c :: nat) < 256" by simp
    then have "unat (word_of_nat (of_char c) :: byte) = of_char c" by (simp add: unat_of_nat)
    then show ?thesis by simp
  qed
  then show ?thesis by (simp add: text_of_def bytes_of_def comp_def)
qed

lemma parses_string: "wf_plain (GString s) \<Longrightarrow> parses cu_string (enc_string s) s"
  unfolding cu_string_def enc_string_def
  by (rule parses_bind [OF parses_string_len], simp)
     (rule parses_map [OF parses_take], simp_all)

lemma unat_u16_bound: "unat (w :: 16 word) < 256 ^ 2" using unsigned_less [of w] by simp
lemma unat_u32_bound: "unat (w :: 32 word) < 2 ^ 32" using unsigned_less [of w] by simp
lemma unat_u64_bound: "unat (w :: 64 word) < 2 ^ 64" using unsigned_less [of w] by simp

lemma parses_plain: "wf_plain v \<Longrightarrow> parses (read_plain (type_tag v)) (enc_plain v) v"
proof (cases v)
  case (GU16 w)
  have "parses (cu_take 2) (le_encode 2 (unat w)) (le_encode 2 (unat w))" by (rule parses_take) simp
  then have "parses (p_bind (cu_take 2) (\<lambda>b. p_return (GU16 (word_of_nat (le_value b))))) (le_encode 2 (unat w)) v"
    by (rule parses_map) (simp add: GU16 le_value_encode [OF unat_u16_bound])
  with GU16 show ?thesis by (simp add: read_plain_def)
next
  case (GI16 w)
  have "parses (cu_take 2) (le_encode 2 (unat w)) (le_encode 2 (unat w))" by (rule parses_take) simp
  then have "parses (p_bind (cu_take 2) (\<lambda>b. p_return (GI16 (word_of_nat (le_value b))))) (le_encode 2 (unat w)) v"
    by (rule parses_map) (simp add: GI16 le_value_encode [OF unat_u16_bound])
  with GI16 show ?thesis by (simp add: read_plain_def)
qed (auto simp: read_plain_def intro!: parses_map [OF parses_take] parses_map [OF parses_string]
    parses_map [OF parses_u32 [OF unat_u32_bound]] parses_map [OF parses_u64 [OF unat_u64_bound]])

lemma parses_times:
  "(\<And>v. v \<in> set vs \<Longrightarrow> parses p (enc v) (f v)) \<Longrightarrow> parses (p_times (length vs) p) (concat (map enc vs)) (map f vs)"
proof (induction vs)
  case (Cons v vs)
  have "parses (p_bind (p_times (length vs) p) (\<lambda>xs. p_return (f v # xs))) (concat (map enc vs)) (map f (v # vs))"
    by (rule parses_map [OF Cons.IH]) (use Cons.prems in auto)
  moreover have "parses p (enc v) (f v)" using Cons.prems by simp
  ultimately show ?case
    using parses_bind [of p "enc v" "f v" "\<lambda>x. p_bind (p_times (length vs) p) (\<lambda>xs. p_return (x # xs))"] by simp
qed (simp add: parses_return)

lemma type_tag_bound: "type_tag v \<le> 12"
  by (cases v) auto

lemma item_tag_bound: "item_tag v \<le> 12"
  by (cases v) (simp_all add: type_tag_bound)

lemma plain_not_array: "wf_plain v \<Longrightarrow> type_tag v \<noteq> 9"
  by (cases v) simp_all

text \<open>The head of an array, in front of any parser of its elements.\<close>

lemma parses_array_head:
  assumes "t \<le> 12" "t \<noteq> 9" "n \<le> max_array_len" "parses (q (word_of_nat t) (word_of_nat n)) bs x"
  shows "parses (p_bind cu_u32 (\<lambda>elem. if elem = 9 then p_fail e else p_bind cu_u64 (q elem))) (le_encode 4 t @ le_encode 8 n @ bs) x"
proof -
  have tb: "t < 2 ^ 32" and nb: "n < 2 ^ 64" using assms(1,3) by (simp_all add: max_array_len_def)
  then have "unat (word_of_nat t :: 32 word) \<noteq> 9" using assms(2) by (simp add: unat_of_nat)
  then have "(word_of_nat t :: 32 word) \<noteq> 9" by auto
  with parses_bind [of cu_u64 "le_encode 8 n" "word_of_nat n" "q (word_of_nat t)" bs x, OF parses_u64 [OF nb] assms(4)]
  have "parses (if word_of_nat t = (9 :: 32 word) then p_fail e else p_bind cu_u64 (q (word_of_nat t))) (le_encode 8 n @ bs) x" by simp
  then show ?thesis by (rule parses_bind [OF parses_u32 [OF tb]])
qed

lemma word_fits:
  "t \<le> 12 \<Longrightarrow> unat (word_of_nat t :: 32 word) = t" "n \<le> max_array_len \<Longrightarrow> unat (word_of_nat n :: 64 word) = n"
  by (simp_all add: unat_of_nat max_array_len_def)

lemma parses_value: "wf_value True v \<Longrightarrow> parses (read_value (item_tag v)) (enc_value v) (value_of v)"
proof (cases v)
  case (Single x)
  assume "wf_value True v"
  with Single show ?thesis using parses_plain [of x] plain_not_array [of x] by (simp add: read_value_def)
next
  case (Items t vs)
  assume "wf_value True v"
  then have wf: "t \<le> 12" "t \<noteq> 9" "length vs \<le> max_stored_array_len" "length vs \<le> max_array_len"
    "\<And>x. x \<in> set vs \<Longrightarrow> wf_plain x \<and> type_tag x = t"
    by (auto simp: Items max_stored_array_len_def max_array_len_def)
  have "parses (p_times (length vs) (read_plain t)) (concat (map enc_plain vs)) (map id vs)"
    using wf(5) parses_plain by (intro parses_times) force
  from parses_map [OF this, of "GArray vs" GArray]
  have items: "parses (p_bind (p_times (length vs) (read_plain t)) (\<lambda>items. p_return (GArray items))) (concat (map enc_plain vs)) (GArray vs)"
    by simp
  show ?thesis
    unfolding Items item_tag.simps enc_value.simps value_of.simps read_value_def
    by (simp only: not_True_eq_False if_False simp_thms, rule parses_array_head [OF wf(1,2,4)])
      (use items wf(3,4) in \<open>simp add: word_fits(1) [OF wf(1)] word_fits(2) [OF wf(4)]\<close>)
qed

lemma parses_skip_string: "length s \<le> max_string_len \<Longrightarrow> parses cu_skip_string (enc_string s) ()"
  unfolding cu_skip_string_def enc_string_def
  by (rule parses_bind [OF parses_string_len], simp) (rule parses_map [OF parses_take], simp_all)

lemma enc_plain_size: "wf_plain v \<Longrightarrow> scalar_size (type_tag v) = Some sz \<Longrightarrow> length (enc_plain v) = sz"
  by (cases v) (auto simp: scalar_size_def)

lemma tag_scalar_or_string: "t \<le> 12 \<Longrightarrow> t \<noteq> 9 \<Longrightarrow> t = 8 \<and> scalar_size t = None \<or> (\<exists>sz. scalar_size t = Some sz \<and> sz \<le> 8)"
  by (auto simp: scalar_size_def) arith

lemma string_tag: "type_tag v = 8 \<longleftrightarrow> (\<exists>s. v = GString s)"
  by (cases v) auto

text \<open>What follows the head of an array that is stepped over.\<close>

lemma parses_skip_items:
  assumes "t \<le> 12" "t \<noteq> 9" "length vs \<le> max_array_len" "\<And>x. x \<in> set vs \<Longrightarrow> wf_plain x \<and> type_tag x = t"
  shows "parses (case scalar_size t of
        Some sz \<Rightarrow> (case checked_mul (length vs) sz of
            None \<Rightarrow> p_fail e | Some bytes \<Rightarrow> p_bind (cu_take bytes) (\<lambda>_. p_return ()))
      | None \<Rightarrow> if t = 8 then p_bind (p_times (length vs) cu_skip_string) (\<lambda>_. p_return ()) else p_fail e')
    (concat (map enc_plain vs)) ()"
  using tag_scalar_or_string [OF assms(1,2)]
proof (elim disjE conjE exE)
  assume t: "t = 8" "scalar_size t = None"
  have "parses (p_times (length vs) cu_skip_string) (concat (map enc_plain vs)) (map (\<lambda>_. ()) vs)"
  proof (rule parses_times)
    fix v assume "v \<in> set vs"
    with assms(4) t obtain s where "v = GString s" "length s \<le> max_string_len" using string_tag by fastforce
    then show "parses cu_skip_string (enc_plain v) ()" by (simp add: parses_skip_string)
  qed
  from parses_map [OF this, of "()" "\<lambda>_. ()"] t show ?thesis by simp
next
  fix sz assume sz: "scalar_size t = Some sz" "sz \<le> 8"
  have "map (\<lambda>v. length (enc_plain v)) vs = map (\<lambda>_. sz) vs" using assms(4) enc_plain_size sz(1) by (intro map_cong) auto
  then have len: "length (concat (map enc_plain vs)) = length vs * sz"
    by (simp only: length_concat map_map comp_def sum_list_triv of_nat_id)
  have "length vs * sz \<le> max_array_len * 8" using assms(3) sz(2) by (intro mult_mono) simp_all
  then have "checked_mul (length vs) sz = Some (length vs * sz)" by (simp add: checked_mul_def max_array_len_def u64_max_def)
  with sz(1) parses_map [OF parses_take [OF len], of "()" "\<lambda>_. ()"] show ?thesis by simp
qed

lemma parses_skip: "wf_value False v \<Longrightarrow> parses (skip_value (item_tag v)) (enc_value v) ()"
proof (cases v)
  case (Single x)
  assume "wf_value False v"
  with Single have "parses (read_plain (type_tag x)) (enc_plain x) x" by (simp add: parses_plain)
  with Single show ?thesis by (auto simp: parses_def intro: skip_plain)
next
  case (Items t vs)
  assume "wf_value False v"
  then have wf: "t \<le> 12" "t \<noteq> 9" "length vs \<le> max_array_len" "\<And>x. x \<in> set vs \<Longrightarrow> wf_plain x \<and> type_tag x = t"
    by (auto simp: Items)
  have array: "skip_value 9 = p_bind cu_u32 (\<lambda>elem. if elem = 9 then p_fail (Malformed ''nested arrays are not allowed'')
      else p_bind cu_u64 (\<lambda>n. if unat n > max_array_len then p_fail (Malformed ''array length too large'')
        else case scalar_size (unat elem) of
            Some sz \<Rightarrow> (case checked_mul (unat n) sz of
                None \<Rightarrow> p_fail (Malformed ''length overflow'') | Some bytes \<Rightarrow> p_bind (cu_take bytes) (\<lambda>_. p_return ()))
          | None \<Rightarrow> if unat elem = 8 then p_bind (p_times (unat n) cu_skip_string) (\<lambda>_. p_return ())
              else p_fail (Malformed ''unknown array element type'')))"
    by (simp add: skip_value_def scalar_size_def [of 9])
  show ?thesis
    unfolding Items item_tag.simps enc_value.simps array
  proof (rule parses_array_head [OF wf(1-3)], unfold word_fits(1) [OF wf(1)] word_fits(2) [OF wf(3)], rule parses_guard)
    show "\<not> max_array_len < length vs" using wf(3) by simp
  qed (rule parses_skip_items [OF wf])
qed

lemma update_new: "k \<notin> fst ` set kv \<Longrightarrow> AList.update k v kv = kv @ [(k, v)]"
  by (induction kv) auto

definition wanted_of :: "string list \<Rightarrow> header_entry list \<Rightarrow> metadata" where
  "wanted_of wanted kvs = map (\<lambda>(k, v). (k, value_of v)) (filter (\<lambda>e. fst e \<in> set wanted) kvs)"

text \<open>Stepping over the parts of one entry.\<close>

lemma parses_step:
  assumes "parses p b x" "length pre + length (b @ bs) \<le> u64_max"
  shows "p_bind p q \<lparr>cu_buf = pre @ b @ bs @ rest, cu_pos = length pre\<rparr> =
         q x \<lparr>cu_buf = (pre @ b) @ bs @ rest, cu_pos = length (pre @ b)\<rparr>"
  using assms(1) [unfolded parses_def, rule_format, of pre "bs @ rest"] assms(2)
  by (simp add: p_bind_def)

lemma all_found:
  assumes "distinct wanted" "distinct (map fst kv)" "fst ` set kv \<subseteq> set wanted" "length kv = length wanted"
  shows "fst ` set kv = set wanted"
proof -
  have "card (fst ` set kv) = length kv" using assms(2) by (metis distinct_card length_map set_map)
  moreover have "card (set wanted) = length wanted" by (rule distinct_card [OF assms(1)])
  ultimately show ?thesis using assms(3,4) card_subset_eq by (metis List.finite_set)
qed

lemma parse_entries_encoded:
  assumes "list_all (wf_entry wanted) kvs" "distinct wanted" "distinct (map fst kv @ map fst kvs)" "fst ` set kv \<subseteq> set wanted"
    and "length pre + length (concat (map enc_entry kvs)) \<le> u64_max"
  shows "\<exists>c. parse_entries (length kvs) wanted kv
      \<lparr>cu_buf = pre @ concat (map enc_entry kvs) @ rest, cu_pos = length pre\<rparr> =
      Inr (kv @ wanted_of wanted kvs, c)"
  using assms
proof (induction kvs arbitrary: kv pre)
  case Nil
  then show ?case by (simp add: p_return_def wanted_of_def)
next
  case (Cons e kvs)
  obtain k v where e: "e = (k, v)" by force
  let ?tail = "concat (map enc_entry kvs)"
  let ?pre2 = "(pre @ enc_string k) @ le_encode 4 (item_tag v)"
  let ?pre3 = "?pre2 @ enc_value v"
  let ?go = "\<lambda>kv. parse_entries (length kvs) wanted kv
      \<lparr>cu_buf = ?pre3 @ ?tail @ rest, cu_pos = length ?pre3\<rparr>"
  from Cons.prems(1) e have wf: "wf_plain (GString k)" "wf_value (k \<in> set wanted) v" by (auto simp: wf_entry_def)
  have len: "length pre + length (enc_string k @ le_encode 4 (item_tag v) @ enc_value v @ ?tail) \<le> u64_max"
    using Cons.prems(5) by (simp add: e enc_entry_def [of "(k, v)"])
  have tb: "item_tag v < 2 ^ 32" using item_tag_bound [of v] by simp
  then have tw: "unat (word_of_nat (item_tag v) :: 32 word) = item_tag v" by (simp add: unat_of_nat)
  have start: "parse_entries (length (e # kvs)) wanted kv
      \<lparr>cu_buf = pre @ concat (map enc_entry (e # kvs)) @ rest, cu_pos = length pre\<rparr> =
    (if k \<in> set wanted then
       (let kv' = AList.update k (value_of v) kv in
        if length kv' = length wanted
        then Inr (kv', \<lparr>cu_buf = ?pre3 @ ?tail @ rest, cu_pos = length ?pre3\<rparr>) else ?go kv')
     else ?go kv)"
  proof -
    note key = parses_step [OF parses_string [OF wf(1)], of pre "le_encode 4 (item_tag v) @ enc_value v @ ?tail" _ rest, simplified]
      parses_step [OF parses_u32 [OF tb], of "pre @ enc_string k" "enc_value v @ ?tail" _ rest, simplified]
    show ?thesis
    proof (cases "k \<in> set wanted")
      case True
      with wf(2) have "wf_value True v" by simp
      with True len show ?thesis
        by (simp add: e enc_entry_def [of "(k, v)"] tw Let_def p_return_def key
          parses_step [OF parses_value, of v ?pre2 ?tail _ rest, simplified])
    next
      case False
      with wf(2) have "wf_value False v" by simp
      with False len show ?thesis
        by (simp add: e enc_entry_def [of "(k, v)"] tw key
          parses_step [OF parses_skip, of v ?pre2 ?tail _ rest, simplified])
    qed
  qed
  have k: "k \<notin> fst ` set kv" using Cons.prems(3) e by auto
  have len3: "length ?pre3 + length ?tail \<le> u64_max" using len by simp
  from Cons.prems(1) have wf': "list_all (wf_entry wanted) kvs" by simp
  show ?case
  proof (cases "k \<in> set wanted")
    case False
    have "\<exists>c. ?go kv = Inr (kv @ wanted_of wanted kvs, c)"
      by (rule Cons.IH [OF wf' Cons.prems(2) _ Cons.prems(4) len3]) (use Cons.prems(3) in auto)
    with False show ?thesis unfolding start by (simp add: e wanted_of_def)
  next
    case True
    let ?kv' = "kv @ [(k, value_of v)]"
    have d: "distinct (map fst ?kv' @ map fst kvs)" "fst ` set ?kv' \<subseteq> set wanted"
      using Cons.prems(3,4) True e by auto
    show ?thesis
    proof (cases "length ?kv' = length wanted")
      case True
      have "fst ` set ?kv' = set wanted"
        by (rule all_found [OF Cons.prems(2) _ d(2) True]) (use d(1) in simp)
      then have mem: "x \<in> fst ` set ?kv'" if "x \<in> set wanted" for x using that by blast
      have disj: "set (map fst ?kv') \<inter> set (map fst kvs) = {}"
        using d(1) unfolding distinct_append by (rule conjunct2 [OF conjunct2])
      have "fst x \<notin> fst ` set ?kv'" if "x \<in> set kvs" for x
        using disj imageI [OF that, of fst] unfolding set_map by blast
      with mem have "wanted_of wanted kvs = []"
        unfolding wanted_of_def map_is_Nil_conv filter_empty_conv by blast
      with True \<open>k \<in> set wanted\<close> show ?thesis unfolding start
        by (simp add: update_new [OF k] e wanted_of_def)
    next
      case False
      have "\<exists>c. ?go ?kv' = Inr (?kv' @ wanted_of wanted kvs, c)"
        by (rule Cons.IH [OF wf' Cons.prems(2) d len3])
      with False \<open>k \<in> set wanted\<close> show ?thesis unfolding start
        by (simp add: update_new [OF k] e wanted_of_def)
    qed
  qed
qed

text \<open>
  C20. A well-formed header is understood: for any entries with distinct keys, at most a million, of version 2 or 3,
  encoded in the file format with any tensor count and followed by any data, the parser returns exactly the entries
  whose keys were asked for, with their values, in file order. Well-formed means UTF-8 text within the length
  limit, arrays of one plain element type, those asked for of at most 4096 elements, the others of at most 16
  million; empty ones are allowed. Unwanted entries are stepped over, and stopping early once every wanted key is
  found loses nothing.
\<close>

theorem parse_encoded_header:
  assumes "version = 2 \<or> version = 3" "list_all (wf_entry wanted) kvs" "distinct (map fst kvs)" "distinct wanted"
    and "length kvs \<le> max_kv_count" "length (enc_header version tensors kvs) \<le> u64_max"
  shows "parse_header wanted (enc_header version tensors kvs @ rest) = Inr (wanted_of wanted kvs)"
proof -
  let ?m = "le_encode 4 (unat gguf_magic)" and ?v = "le_encode 4 (unat version)"
  let ?t = "le_encode 8 (unat tensors)" and ?n = "le_encode 8 (length kvs)"
  let ?kvs = "concat (map enc_entry kvs)"
  have nb: "length kvs < 2 ^ 64" using assms(5) by (simp add: max_kv_count_def)
  then have nw: "unat (word_of_nat (length kvs) :: 64 word) = length kvs" by (simp add: unat_of_nat)
  have len: "length (?m @ ?v @ ?t @ ?n @ ?kvs) \<le> u64_max" using assms(6) by (simp add: enc_header_def)
  obtain c where c: "parse_entries (length kvs) wanted []
      \<lparr>cu_buf = (?m @ ?v @ ?t @ ?n) @ ?kvs @ rest, cu_pos = length (?m @ ?v @ ?t @ ?n)\<rparr> =
      Inr (wanted_of wanted kvs, c)"
    using parse_entries_encoded [OF assms(2,4), of "[]" "?m @ ?v @ ?t @ ?n" rest] assms(3) len by auto
  have "header_parser wanted (cursor_new (enc_header version tensors kvs @ rest)) = Inr (wanted_of wanted kvs, c)"
    using assms(1,5) len c
    by (auto simp: header_parser_def cursor_new_def enc_header_def nw
      parses_step [OF parses_u32 [OF unat_u32_bound [of gguf_magic]], of "[]" "?v @ ?t @ ?n @ ?kvs" _ rest, simplified]
      parses_step [OF parses_u32 [OF unat_u32_bound [of version]], of ?m "?t @ ?n @ ?kvs" _ rest, simplified]
      parses_step [OF parses_u64 [OF unat_u64_bound [of tensors]], of "?m @ ?v" "?n @ ?kvs" _ rest, simplified]
      parses_step [OF parses_u64 [OF nb], of "?m @ ?v @ ?t" ?kvs _ rest, simplified])
  then show ?thesis by (simp add: parse_header_def)
qed

theorem parse_encoded_header_witness:
  "parse_header [''a'']
     (enc_header 3 0 [(''b'', Items 0 (replicate 5000 (GU8 1))), (''c'', Items 8 []), (''a'', Single (GString ''x''))] @ [1, 2])
   = Inr [(''a'', GString ''x'')]"
proof -
  let ?kvs = "[(''b'', Items 0 (replicate 5000 (GU8 1))), (''c'', Items 8 []), (''a'', Single (GString ''x''))]"
  have "length (concat (map enc_plain (replicate n (GU8 1)))) = n" for n by (induction n) simp_all
  then have "length (enc_header 3 0 ?kvs) \<le> u64_max"
    by (simp add: enc_header_def enc_entry_def enc_string_def u64_max_def)
  moreover have "list_all (wf_entry [''a'']) ?kvs"
    by (simp add: wf_entry_def bytes_of_def utf8_head_def max_string_len_def max_array_len_def)
  ultimately have "parse_header [''a''] (enc_header 3 0 ?kvs @ [1, 2]) = Inr (wanted_of [''a''] ?kvs)"
    by (intro parse_encoded_header) (simp_all add: max_kv_count_def)
  then show ?thesis by (simp add: wanted_of_def)
qed

subsection \<open>The id of a custom model\<close>

definition slug_char :: "char \<Rightarrow> bool" where
  "slug_char c \<longleftrightarrow> is_digit c \<or> (is_alpha c \<and> ascii_lower c = c) \<or> c = CHR ''-''"

fun no_double_dash :: "string \<Rightarrow> bool" where
  "no_double_dash (a # b # s) \<longleftrightarrow> \<not> (a = CHR ''-'' \<and> b = CHR ''-'') \<and> no_double_dash (b # s)"
| "no_double_dash _ \<longleftrightarrow> True"

lemma no_double_dash_snoc:
  "no_double_dash (s @ [c]) \<longleftrightarrow> no_double_dash s \<and> \<not> (s \<noteq> [] \<and> last s = CHR ''-'' \<and> c = CHR ''-'')"
  by (induction s rule: no_double_dash.induct) auto

lemma no_double_dash_snoc_Cons:
  "no_double_dash (a # s @ [c]) \<longleftrightarrow>
     no_double_dash (a # s) \<and> \<not> (last (a # s) = CHR ''-'' \<and> c = CHR ''-'')"
  using no_double_dash_snoc [of "a # s" c] by simp

definition slug_inv :: "string \<times> bool \<Rightarrow> bool" where
  "slug_inv st \<longleftrightarrow> list_all slug_char (fst st) \<and> no_double_dash (fst st)
     \<and> (fst st \<noteq> [] \<longrightarrow> hd (fst st) \<noteq> CHR ''-'' \<and> (snd st \<longleftrightarrow> last (fst st) = CHR ''-''))"

lemma dash_not_alnum: "\<not> is_alnum (CHR ''-'')"
  by (simp add: is_alnum_def is_alpha_def is_digit_def)

lemma slug_step_inv: "ascii_lower ch = ch \<Longrightarrow> slug_inv st \<Longrightarrow> slug_inv (slug_step ch st)"
  using dash_not_alnum
  by (cases st; cases "fst st")
     (auto simp: slug_inv_def slug_step_def slug_char_def is_alnum_def no_double_dash_snoc_Cons)

lemma slug_fold_inv:
  "list_all (\<lambda>c. ascii_lower c = c) s \<Longrightarrow> slug_inv st \<Longrightarrow> slug_inv (fold slug_step s st)"
  by (induction s arbitrary: st) (simp_all add: slug_step_inv)

lemma lowercase_lower: "list_all (\<lambda>c. ascii_lower c = c) (lowercase s)"
proof -
  have "map ascii_lower (lowercase s) = lowercase s"
    using lowercase_idem [of s] by (simp add: lowercase_def)
  then have "map ascii_lower (lowercase s) = map id (lowercase s)" by simp
  then show ?thesis unfolding map_eq_conv by (simp add: list_all_iff)
qed

lemma trim_dashes_prefix: "\<exists>ds. s = trim_dashes s @ ds"
proof -
  have "rev s = takeWhile (\<lambda>c. c = CHR ''-'') (rev s) @ dropWhile (\<lambda>c. c = CHR ''-'') (rev s)" by simp
  then have "s = trim_dashes s @ rev (takeWhile (\<lambda>c. c = CHR ''-'') (rev s))"
    unfolding trim_dashes_def by (metis rev_append rev_rev_ident)
  then show ?thesis by blast
qed

lemma trim_dashes_last: "trim_dashes s \<noteq> [] \<Longrightarrow> last (trim_dashes s) \<noteq> CHR ''-''"
  using hd_dropWhile [of "\<lambda>c. c = CHR ''-''" "rev s"] by (simp add: trim_dashes_def last_rev)

lemma no_double_dash_prefix: "no_double_dash (s @ t) \<Longrightarrow> no_double_dash s"
proof (induction t rule: rev_induct)
  case (snoc c t)
  then show ?case using no_double_dash_snoc [of "s @ t" c] by simp
qed simp

text \<open>
  The id of a custom model is always well formed: after its prefix comes a nonempty slug of
  lower-case letters, digits and single dashes that neither starts nor ends with a dash, then the
  first eight characters of the file's hash. So a display name, whatever its bytes, can never smuggle
  a path separator or an empty component into a model id.
\<close>

theorem custom_model_id_shape:
  "\<exists>slug. custom_model_id name sha = ''custom-'' @ slug @ ''-'' @ take 8 sha
     \<and> slug \<noteq> [] \<and> list_all slug_char slug \<and> no_double_dash slug
     \<and> hd slug \<noteq> CHR ''-'' \<and> last slug \<noteq> CHR ''-''"
proof -
  let ?raw = "fst (fold slug_step (lowercase name) ([], False))"
  have "slug_inv (fold slug_step (lowercase name) ([], False))"
    by (rule slug_fold_inv [OF lowercase_lower]) (simp add: slug_inv_def)
  then have raw: "list_all slug_char ?raw" "no_double_dash ?raw" "?raw \<noteq> [] \<longrightarrow> hd ?raw \<noteq> CHR ''-''"
    by (auto simp: slug_inv_def)
  obtain ds where ds: "?raw = trim_dashes ?raw @ ds" using trim_dashes_prefix by blast
  have trimmed: "list_all slug_char (trim_dashes ?raw)" "no_double_dash (trim_dashes ?raw)"
    using raw(1,2) ds by (metis list_all_append, metis no_double_dash_prefix)
  have head: "trim_dashes ?raw \<noteq> [] \<Longrightarrow> hd (trim_dashes ?raw) \<noteq> CHR ''-''"
    using raw(3) ds by (metis append_is_Nil_conv hd_append2)
  have "list_all slug_char ''model''" by (simp add: slug_char_def is_alpha_def ascii_lower_def)
  with trimmed head trim_dashes_last [of ?raw] show ?thesis
    by (intro exI [of _ "slug_of name"]) (simp add: custom_model_id_def slug_of_def Let_def)
qed

end
