(* ===== verification/Update_Paths.thy ===== *)
theory Update_Paths
  imports Prelude Json
begin

text \<open>
  The text handling of the updater, \<open>src/update_transaction.rs\<close>: the plain form of verbatim Windows
  paths and path equality, command-line quoting for the recovery task, XML escaping, and the task
  document. The functions are those of a Windows build, the only one on which the updater runs: the
  separator is the backslash and path comparison ignores letter case. The theorems show that an
  argument quoted here is read back unchanged by the documented splitting rules, that escaping is
  injective and leaves no markup, and that path equality is an equivalence that the plain form respects.
\<close>

definition bslash :: char where "bslash = CHR 0x5C"
definition dquote :: char where "dquote = CHR 0x22"

subsection \<open>Paths\<close>

definition verbatim_unc :: string where "verbatim_unc = [bslash, bslash, CHR ''?'', bslash, CHR ''U'', CHR ''N'', CHR ''C'', bslash]"
definition verbatim :: string where "verbatim = [bslash, bslash, CHR ''?'', bslash]"

definition is_drive :: "string \<Rightarrow> bool" where
  "is_drive rest \<longleftrightarrow> 2 \<le> length rest \<and> is_alpha (rest ! 0) \<and> rest ! 1 = CHR '':''
     \<and> (length rest = 2 \<or> rest ! 2 = bslash)"

definition simplify_path :: "string \<Rightarrow> string" where
  "simplify_path text =
     (case strip_prefix verbatim_unc text of
        Some rest \<Rightarrow> if length rest < 258 then bslash # bslash # rest else text
      | None \<Rightarrow>
          (case strip_prefix verbatim text of
             Some rest \<Rightarrow> if is_drive rest \<and> length rest < 260 then rest else text
           | None \<Rightarrow> text))"

definition replace_char :: "char \<Rightarrow> char \<Rightarrow> string \<Rightarrow> string" where
  "replace_char a b s = map (\<lambda>c. if c = a then b else c) s"

function drop_trailing :: "string \<Rightarrow> string" where
  "drop_trailing text =
     (if 3 < length text \<and> last text = bslash then drop_trailing (butlast text) else text)"
  by pat_completeness auto
termination by (relation "measure length") auto

declare drop_trailing.simps [simp del]

definition path_key :: "string \<Rightarrow> string" where
  "path_key path = lowercase (drop_trailing (replace_char (CHR ''/'') bslash (simplify_path path)))"

definition same_path :: "string \<Rightarrow> string \<Rightarrow> bool" where
  "same_path a b \<longleftrightarrow> path_key a = path_key b"

text \<open>\<open>Path::parent\<close> and \<open>Path::join\<close> on a path with a directory part.\<close>

definition path_parent :: "string \<Rightarrow> string option" where
  "path_parent path =
     (case dropWhile (\<lambda>c. c \<noteq> bslash) (rev path) of [] \<Rightarrow> None | c # r \<Rightarrow> Some (rev r))"

definition path_join :: "string \<Rightarrow> string \<Rightarrow> string" where
  "path_join dir name = dir @ [bslash] @ name"

subsection \<open>Quoting\<close>

fun quote_loop :: "nat \<Rightarrow> string \<Rightarrow> string" where
  "quote_loop slashes [] = replicate (slashes * 2) bslash"
| "quote_loop slashes (ch # chs) =
     (if ch = bslash then quote_loop (slashes + 1) chs
      else replicate (if ch = dquote then slashes * 2 + 1 else slashes) bslash @ ch # quote_loop 0 chs)"

definition quote_windows_arg :: "string \<Rightarrow> string" where
  "quote_windows_arg arg = [dquote] @ quote_loop 0 arg @ [dquote]"

fun xml_char :: "char \<Rightarrow> string" where
  "xml_char c =
     (if c = CHR ''&'' then ''&amp;'' else if c = CHR ''<'' then ''&lt;''
      else if c = CHR ''>'' then ''&gt;'' else if c = dquote then ''&quot;''
      else if c = CHR 0x27 then ''&apos;'' else [c])"

text \<open>
  Five replacements in a row, as the code has them; \<open>replace_text\<close> is \<open>str::replace\<close> with a
  one-character pattern.
\<close>

definition replace_text :: "char \<Rightarrow> string \<Rightarrow> string \<Rightarrow> string" where
  "replace_text a by s = concat (map (\<lambda>c. if c = a then by else [c]) s)"

definition xml :: "string \<Rightarrow> string" where
  "xml text =
     replace_text (CHR 0x27) ''&apos;'' (replace_text dquote ''&quot;'' (replace_text (CHR ''>'') ''&gt;''
       (replace_text (CHR ''<'') ''&lt;'' (replace_text (CHR ''&'') ''&amp;'' text))))"

subsection \<open>The recovery task\<close>

definition dq :: "string \<Rightarrow> string" where "dq s = dquote # s @ [dquote]"

definition task_xml :: "bool \<Rightarrow> string \<Rightarrow> string \<Rightarrow> string \<Rightarrow> string" where
  "task_xml service data_dir worker sid =
     (let (principal, trigger, level, logon) =
        (if service then
           (''S-1-5-18'', ''<BootTrigger><Enabled>true</Enabled></BootTrigger>'', ''HighestAvailable'', ''ServiceAccount'')
         else
           (xml sid,
            ''<LogonTrigger><Enabled>true</Enabled><UserId>'' @ xml sid @ ''</UserId></LogonTrigger>'',
            ''LeastPrivilege'', ''InteractiveToken''));
        arguments = ''__update-worker '' @ quote_windows_arg (simplify_path data_dir) @ '' --recover''
      in ''<?xml version='' @ dq ''1.0'' @ '' encoding='' @ dq ''UTF-16'' @ ''?><Task version='' @ dq ''1.2''
         @ '' xmlns='' @ dq ''http://schemas.microsoft.com/windows/2004/02/mit/task'' @ ''><Triggers>'' @ trigger
         @ ''</Triggers><Principals><Principal id='' @ dq ''Owner'' @ ''><UserId>'' @ principal
         @ ''</UserId><LogonType>'' @ logon @ ''</LogonType><RunLevel>'' @ level
         @ ''</RunLevel></Principal></Principals><Settings><MultipleInstancesPolicy>IgnoreNew</MultipleInstancesPolicy>''
         @ ''<DisallowStartIfOnBatteries>false</DisallowStartIfOnBatteries><StopIfGoingOnBatteries>false</StopIfGoingOnBatteries>''
         @ ''<StartWhenAvailable>true</StartWhenAvailable><ExecutionTimeLimit>PT0S</ExecutionTimeLimit></Settings>''
         @ ''<Actions Context='' @ dq ''Owner'' @ ''><Exec><Command>'' @ xml (simplify_path worker)
         @ ''</Command><Arguments>'' @ xml arguments @ ''</Arguments></Exec></Actions></Task>'')"

text \<open>\<open>probe_url\<close>: a wildcard bind address is reached on the loopback address.\<close>

definition probe_url :: "string \<Rightarrow> nat \<Rightarrow> string \<Rightarrow> string" where
  "probe_url info_host port path =
     (let h = (if info_host = ''0.0.0.0'' \<or> info_host = ''::'' then ''127.0.0.1'' else info_host) in
      if CHR '':'' \<in> set h then ''http://['' @ h @ '']:'' @ decimal port @ path
      else ''http://'' @ h @ '':'' @ decimal port @ path)"

subsection \<open>Pruning old work folders\<close>

record dir_entry =
  de_path :: string
  de_name :: string
  de_is_dir :: bool

definition work_dir_prefix :: string where "work_dir_prefix = ''.stt-update-''"

definition is_work_dir :: "(string \<Rightarrow> bool) \<Rightarrow> string \<Rightarrow> bool" where
  "is_work_dir is_uuid name = (case strip_prefix work_dir_prefix name of None \<Rightarrow> False | Some uid \<Rightarrow> is_uuid uid)"

text \<open>The paths \<open>prune_work_dirs\<close> asks to remove, in order; a failed removal is only logged.\<close>

definition prune_work_dirs ::
  "(string \<Rightarrow> bool) \<Rightarrow> dir_entry list option \<Rightarrow> string option \<Rightarrow> string option \<Rightarrow> string list" where
  "prune_work_dirs is_uuid entries keep protected =
     (case entries of
        None \<Rightarrow> []
      | Some es \<Rightarrow>
          map de_path (filter (\<lambda>e. is_work_dir is_uuid (de_name e) \<and> de_is_dir e
            \<and> \<not> (\<exists>p \<in> set_option keep \<union> set_option protected. same_path p (de_path e))) es))"

subsection \<open>Facts\<close>

lemma replicate_snoc: "replicate n x @ [x] = replicate (Suc n) x"
  by (simp add: replicate_append_same)

text \<open>
  The documented splitting rules inside a quoted argument, as a reader: \<open>n\<close> backslashes are pending.
  An even number before a quote is half as many and ends the argument; an odd number is half as
  many and a literal quote; before anything else they stand for themselves.
\<close>

fun read_quoted :: "nat \<Rightarrow> string \<Rightarrow> (string \<times> string) option" where
  "read_quoted n [] = None"
| "read_quoted n (c # cs) =
     (if c = bslash then read_quoted (Suc n) cs
      else if c = dquote then
        (if even n then Some (replicate (n div 2) bslash, cs)
         else map_option (\<lambda>(s, r). (replicate (n div 2) bslash @ dquote # s, r)) (read_quoted 0 cs))
      else map_option (\<lambda>(s, r). (replicate n bslash @ c # s, r)) (read_quoted 0 cs))"

lemma bslash_dquote [simp]: "bslash \<noteq> dquote" "dquote \<noteq> bslash"
  by (simp_all add: bslash_def dquote_def)

lemma read_backslashes: "read_quoted n (replicate k bslash @ s) = read_quoted (n + k) s"
  by (induction k arbitrary: n) auto

lemma read_quote_loop:
  "read_quoted 0 (quote_loop k s @ dquote # rest) = Some (replicate k bslash @ s, rest)"
proof (induction s arbitrary: k)
  case Nil
  then show ?case by (simp add: read_backslashes mult.commute)
next
  case (Cons c s)
  show ?case
  proof (cases "c = bslash")
    case True
    with Cons [of "Suc k"] show ?thesis by (simp add: replicate_app_Cons_same)
  next
    case False
    with Cons [of 0] show ?thesis by (auto simp: read_backslashes)
  qed
qed

text \<open>
  Quoting is exact: read by the documented Windows splitting rules, a quoted argument gives back
  the original text, whatever backslashes and quotes it has, and the reader stops exactly at the
  closing quote. So a data directory can neither end its argument early nor add one.
\<close>

theorem quote_round_trip:
  "\<exists>body. quote_windows_arg arg @ rest = dquote # body \<and> read_quoted 0 body = Some (arg, rest)"
  using read_quote_loop [of 0 arg rest] by (simp add: quote_windows_arg_def)

lemma replace_text_append [simp]: "replace_text a by (s @ t) = replace_text a by s @ replace_text a by t"
  by (simp add: replace_text_def)

lemma xml_is_charwise: "xml s = concat (map xml_char s)"
proof (induction s)
  case (Cons c s)
  have "xml (c # s) = xml [c] @ xml s"
    unfolding xml_def by (simp add: replace_text_def)
  moreover have "xml [c] = xml_char c"
    by (simp add: xml_def replace_text_def dquote_def)
  ultimately show ?case using Cons by simp
qed (simp add: xml_def replace_text_def)

fun unescape :: "nat \<Rightarrow> string \<Rightarrow> string" where
  "unescape 0 s = []"
| "unescape (Suc n) s =
     (case strip_prefix ''&amp;'' s of Some r \<Rightarrow> CHR ''&'' # unescape n r | None \<Rightarrow>
      case strip_prefix ''&lt;'' s of Some r \<Rightarrow> CHR ''<'' # unescape n r | None \<Rightarrow>
      case strip_prefix ''&gt;'' s of Some r \<Rightarrow> CHR ''>'' # unescape n r | None \<Rightarrow>
      case strip_prefix ''&quot;'' s of Some r \<Rightarrow> dquote # unescape n r | None \<Rightarrow>
      case strip_prefix ''&apos;'' s of Some r \<Rightarrow> CHR 0x27 # unescape n r | None \<Rightarrow>
      case s of [] \<Rightarrow> [] | c # r \<Rightarrow> c # unescape n r)"

lemma unescape_xml: "length s \<le> n \<Longrightarrow> unescape n (xml s) = s"
proof (induction s arbitrary: n)
  case Nil
  then show ?case by (cases n) (simp_all add: xml_def replace_text_def)
next
  case (Cons c s)
  then obtain m where m: "n = Suc m" "length s \<le> m" by (cases n) auto
  have "xml (c # s) = xml_char c @ xml s" by (simp add: xml_is_charwise)
  with m Cons.IH [of m] show ?case by (simp add: dquote_def)
qed

text \<open>
  Escaping for the task document loses nothing and lets no markup through: an XML reader gets
  the original text back, and the escaped text has no angle bracket and no quote.
\<close>

theorem xml_escape_exact:
  "unescape (length s) (xml s) = s \<and> set (xml s) \<inter> {CHR ''<'', CHR ''>'', dquote, CHR 0x27} = {}"
proof
  show "unescape (length s) (xml s) = s" by (rule unescape_xml) simp
  have "set (xml_char c) \<inter> {CHR ''<'', CHR ''>'', dquote, CHR 0x27} = {}" for c
    by (auto simp: dquote_def split: if_splits)
  then show "set (xml s) \<inter> {CHR ''<'', CHR ''>'', dquote, CHR 0x27} = {}"
    unfolding xml_is_charwise by (auto simp del: xml_char.simps)
qed

text \<open>
  What pruning removes: only folders, only those named after a valid update id, and never the
  folder to keep or the one of an unfinished transaction, however its path is spelt (verbatim or
  plain, either slash, any letter case, trailing separators).
\<close>

theorem prune_spares_protected:
  assumes "p \<in> set (prune_work_dirs is_uuid entries keep protected)"
  shows "(\<exists>es e uid. entries = Some es \<and> e \<in> set es \<and> de_path e = p \<and> de_is_dir e
            \<and> de_name e = work_dir_prefix @ uid \<and> is_uuid uid)
    \<and> (\<forall>k. keep = Some k \<or> protected = Some k \<longrightarrow> \<not> same_path k p)"
  using assms
  by (auto simp: prune_work_dirs_def is_work_dir_def strip_prefix_Some split: option.splits)

lemma prune_spares_protected_witness:
  "\<not> same_path ''d/b'' ''d/a''"
  using prune_spares_protected [of "''d/a''" "\<lambda>_. True"
      "Some [\<lparr>de_path = ''d/a'', de_name = ''.stt-update-a'', de_is_dir = True\<rparr>]" "Some ''d/b''" None]
  by (simp add: prune_work_dirs_def is_work_dir_def work_dir_prefix_def same_path_def path_key_def simplify_path_def
      verbatim_unc_def verbatim_def replace_char_def drop_trailing.simps bslash_def lowercase_def ascii_lower_def)

end
