(* ===== verification/Update_Transaction.thy ===== *)
theory Update_Transaction
  imports Update_Paths
begin

text \<open>
  The journalled updater of \<open>src/update_transaction.rs\<close>: the journal and its phases, the startup
  guard, and the worker that applies, validates, commits or rolls back an update.

  The worker is written over a small monad of effects on a world (the files it touches, the journal
  on disk, its own copy of the journal in memory, the server process). Every effect is one entry of
  a script that decides what happens to it: it succeeds, it fails (possibly leaving a torn file), or
  the machine stops there. Between effects a running server may change its database or exit, and a
  service manager may restart it when the startup guard lets it. A theorem for all scripts is
  therefore a theorem for all failures and all crash points.

  Contents of files are strings. SHA-256, UUID syntax, path canonicalization and what an SQLite
  checkpoint writes are not code of this repository: they are the fields of \<open>host\<close>, a parameter.
\<close>

type_synonym contents = string

record host =
  h_sha256 :: "contents \<Rightarrow> string"
  h_is_uuid :: "string \<Rightarrow> bool"
  h_canonical :: "string \<Rightarrow> string option"
  h_checkpoint :: "contents \<Rightarrow> contents option \<Rightarrow> contents"

subsection \<open>The journal\<close>

datatype phase = Prepared | Stopping | Snapshot | Replacing | Validating | RollingBack | Committed | Restored

definition terminal :: "phase \<Rightarrow> bool" where
  "terminal p \<longleftrightarrow> p = Committed \<or> p = Restored"

record journal =
  j_id :: string
  j_phase :: phase
  j_data_dir :: string
  j_work_dir :: string
  j_executable :: string
  j_service :: bool
  j_was_running :: bool
  j_ready_model :: "string option"
  j_old_version :: string
  j_new_version :: string
  j_api_level :: nat
  j_network_mode :: string
  j_old_sha256 :: string
  j_new_sha256 :: string
  j_database_existed :: bool
  j_database_sha256 :: "string option"
  j_ready_timeout_seconds :: nat
  j_task_name :: string
  j_task_removed :: bool
  j_armed :: bool
  j_error :: "string option"

datatype journal_file = Holds journal | Garbage

text \<open>\<open>read_journal\<close> of what is on disk: absent, readable, or damaged.\<close>

definition read_journal :: "journal_file option \<Rightarrow> string + journal option" where
  "read_journal f =
     (case f of None \<Rightarrow> Inr None | Some (Holds j) \<Rightarrow> Inr (Some j) | Some Garbage \<Rightarrow> Inl ''invalid journal'')"

definition pending :: "journal \<Rightarrow> bool" where
  "pending j \<longleftrightarrow> \<not> terminal (j_phase j) \<and> j_armed j"

definition maintenance :: "journal_file option \<Rightarrow> bool" where
  "maintenance f =
     (case read_journal f of Inr (Some j) \<Rightarrow> pending j | Inr None \<Rightarrow> False | Inl _ \<Rightarrow> True)"

text \<open>
  What a starting process brings to \<open>startup_guard\<close>: whether the data folder can be created, the value of
  \<open>STT_SERVER_UPDATE_TRANSACTION\<close> in its environment, whether it runs as a service, the path of its own executable
  if the system tells it, and the update lock: free or taken, or a file that cannot be opened.
\<close>

record startup_env =
  se_dir_ok :: bool
  se_transaction :: "string option"
  se_service_mode :: bool
  se_current_exe :: "string option"
  se_lock :: "bool option"

definition same_executable :: "host \<Rightarrow> startup_env \<Rightarrow> journal \<Rightarrow> string + bool" where
  "same_executable h env j =
     and_then (ok_or ''no executable path'' (se_current_exe env)) (\<lambda>exe.
     and_then (ok_or ''not found'' (h_canonical h exe)) (\<lambda>a.
     and_then (ok_or ''not found'' (h_canonical h (j_executable j))) (\<lambda>b. Inr (a = b))))"

definition update_lock :: "startup_env \<Rightarrow> string + unit" where
  "update_lock env =
     (case se_lock env of
        None \<Rightarrow> Inl ''I/O error''
      | Some free \<Rightarrow> if free then Inr () else Inl ''An update or startup is already in progress'')"

text \<open>
  \<open>startup_guard\<close> reads the journal twice, before and after taking the update lock; \<open>None\<close> as a
  result lets the process start without the lock.
\<close>

definition startup_guard ::
  "host \<Rightarrow> startup_env \<Rightarrow> journal_file option \<Rightarrow> journal_file option \<Rightarrow> string + unit option" where
  "startup_guard h env before after =
     (if \<not> se_dir_ok env then Inl ''I/O error''
      else and_then (read_journal before) (\<lambda>jo.
     let rest =
       and_then (update_lock env) (\<lambda>_.
       and_then (read_journal after) (\<lambda>jo'.
          if (case jo' of None \<Rightarrow> False | Some j \<Rightarrow> pending j) then Inl ''Update recovery is pending''
          else Inr (Some ())));
       blocked = Inl ''Update recovery is pending; normal startup is blocked until recovery completes''
     in case jo of
          None \<Rightarrow> rest
        | Some j \<Rightarrow>
            if pending j then
              if (j_phase j = Validating \<or> j_phase j = RollingBack)
                 \<and> (se_transaction env = Some (j_id j) \<or> (j_service j \<and> se_service_mode env))
              then and_then (same_executable h env j) (\<lambda>same. if same then Inr None else blocked)
              else blocked
            else rest))"

subsection \<open>The world and its effects\<close>

datatype artifact =
    Executable | Previous_exe | Candidate_exe | Recovery_exe | Retired_exe | Restore_exe
  | Snapshot_file | State_db | State_wal | State_shm | State_restore
  | Failed_db | Failed_wal | Failed_shm | Server_json | Staged_exe

datatype fault = Succeeds | Fails "contents option" | Crashes "contents option"

record event =
  ev_fault :: fault
  ev_db :: "(contents option \<times> contents option \<times> contents option) option"
  ev_dies :: bool
  ev_stops :: bool
  ev_starts :: bool
  ev_deadline :: bool
  ev_busy :: bool
  ev_body :: "json option"

record world =
  files :: "artifact \<Rightarrow> contents option"
  jfile :: "journal_file option"
  jtmp :: "journal_file option"
  jpublish :: "journal_file option"
  mem :: journal
  server :: "contents option"
  stop_requested :: bool
  lock_held :: bool
  tasks :: "string list"
  update_locked :: bool
  script :: "nat \<Rightarrow> event"
  now :: nat

datatype 'a outcome = Done 'a | Error string | Crashed

type_synonym 'a io = "world \<Rightarrow> 'a outcome \<times> world"

definition io_return :: "'a \<Rightarrow> 'a io" where "io_return x w = (Done x, w)"
definition io_error :: "string \<Rightarrow> 'a io" where "io_error e w = (Error e, w)"

definition io_bind :: "'a io \<Rightarrow> ('a \<Rightarrow> 'b io) \<Rightarrow> 'b io" where
  "io_bind m f w =
     (case m w of (Done x, w') \<Rightarrow> f x w' | (Error e, w') \<Rightarrow> (Error e, w') | (Crashed, w') \<Rightarrow> (Crashed, w'))"

definition io_then :: "'a io \<Rightarrow> 'b io \<Rightarrow> 'b io" where "io_then m n = io_bind m (\<lambda>_. n)"

text \<open>A failure as a value, for the places where the code inspects a result.\<close>

definition io_try :: "'a io \<Rightarrow> (string + 'a) io" where
  "io_try m w =
     (case m w of (Done x, w') \<Rightarrow> (Done (Inr x), w') | (Error e, w') \<Rightarrow> (Done (Inl e), w') | (Crashed, w') \<Rightarrow> (Crashed, w'))"

definition get_mem :: "journal io" where "get_mem w = (Done (mem w), w)"
definition set_mem :: "(journal \<Rightarrow> journal) \<Rightarrow> unit io" where "set_mem f w = (Done (), w\<lparr>mem := f (mem w)\<rparr>)"
definition file_exists :: "artifact \<Rightarrow> bool io" where "file_exists f w = (Done (files w f \<noteq> None), w)"

definition put_file :: "artifact \<Rightarrow> contents option \<Rightarrow> world \<Rightarrow> world" where
  "put_file f c w = w\<lparr>files := (files w)(f := c)\<rparr>"

text \<open>What the rest of the machine does between two effects.\<close>

definition service_restart_allowed :: "world \<Rightarrow> bool" where
  "service_restart_allowed w =
     (case jfile w of
        Some (Holds j) \<Rightarrow> j_service j \<and> pending j \<and> (j_phase j = Validating \<or> j_phase j = RollingBack)
      | _ \<Rightarrow> False)"

definition env_step :: "event \<Rightarrow> world \<Rightarrow> world" where
  "env_step e w =
     (if server w \<noteq> None then
        (let w1 = (case ev_db e of None \<Rightarrow> w
                   | Some (db, wal, shm) \<Rightarrow>
                       put_file State_shm shm (put_file State_wal wal (put_file State_db db w))) in
         if ev_dies e \<or> (stop_requested w1 \<and> ev_stops e)
         then w1\<lparr>server := None, stop_requested := False\<rparr> else w1)
      else if ev_starts e \<and> \<not> lock_held w \<and> service_restart_allowed w
      then w\<lparr>server := files w Executable\<rparr>
      else w)"

definition current :: "world \<Rightarrow> event" where "current w = script w (now w)"

definition tick :: "world \<Rightarrow> world" where
  "tick w = (env_step (current w) w)\<lparr>now := now w + 1\<rparr>"

definition effect :: "(contents option \<Rightarrow> world \<Rightarrow> world) \<Rightarrow> (world \<Rightarrow> string + 'a \<times> world) \<Rightarrow> 'a io" where
  "effect torn act w =
     (let e = current w; w1 = tick w in
      case ev_fault e of
        Succeeds \<Rightarrow> (case act w1 of Inl msg \<Rightarrow> (Error msg, w1) | Inr (x, w2) \<Rightarrow> (Done x, w2))
      | Fails c \<Rightarrow> (Error ''I/O error'', torn c w1)
      | Crashes c \<Rightarrow> (Crashed, torn c w1))"

definition no_trace :: "contents option \<Rightarrow> world \<Rightarrow> world" where "no_trace c w = w"

definition atomic_replace :: "artifact \<Rightarrow> artifact \<Rightarrow> unit io" where
  "atomic_replace src dst = effect no_trace (\<lambda>w.
     case files w src of
       None \<Rightarrow> Inl ''not found''
     | Some c \<Rightarrow> Inr ((), put_file dst (Some c) (put_file src None w)))"

definition copy_sync :: "artifact \<Rightarrow> artifact \<Rightarrow> unit io" where
  "copy_sync src dst = effect (put_file dst) (\<lambda>w.
     case files w src of None \<Rightarrow> Inl ''not found'' | Some c \<Rightarrow> Inr ((), put_file dst (Some c) w))"

definition remove_file :: "artifact \<Rightarrow> unit io" where
  "remove_file f = effect no_trace (\<lambda>w. Inr ((), put_file f None w))"

definition sha256_file :: "host \<Rightarrow> artifact \<Rightarrow> string io" where
  "sha256_file h f = effect no_trace (\<lambda>w.
     case files w f of None \<Rightarrow> Inl ''not found'' | Some c \<Rightarrow> Inr (h_sha256 h c, w))"

definition checked_hash :: "host \<Rightarrow> artifact \<Rightarrow> string \<Rightarrow> unit io" where
  "checked_hash h f expected = io_bind (sha256_file h f) (\<lambda>x.
     if x \<noteq> expected then io_error ''Backup/staged file hash mismatch'' else io_return ())"

text \<open>
  \<open>Journal::save\<close>: the journal goes to a temporary file, from there to a protected file in the data
  directory, which is renamed over the journal.
\<close>

definition save :: "unit io" where
  "save =
     io_then (effect (\<lambda>c w. w\<lparr>jtmp := Some Garbage\<rparr>) (\<lambda>w. Inr ((), w\<lparr>jtmp := Some (Holds (mem w))\<rparr>)))
     (io_then (effect no_trace (\<lambda>w. Inr ((), if jpublish w = None then w\<lparr>jpublish := Some Garbage\<rparr> else w)))
     (io_then (effect no_trace (\<lambda>w. Inr ((), w)))
     (io_then (effect (\<lambda>c w. w\<lparr>jpublish := Some Garbage\<rparr>) (\<lambda>w. Inr ((), w\<lparr>jpublish := jtmp w\<rparr>)))
     (effect no_trace (\<lambda>w. Inr ((), w\<lparr>jfile := jpublish w, jpublish := None\<rparr>))))))"

definition enter_phase :: "phase \<Rightarrow> journal \<Rightarrow> journal" where
  "enter_phase p j = (if terminal p then j\<lparr>j_phase := p, j_armed := False\<rparr> else j\<lparr>j_phase := p\<rparr>)"

definition advance :: "phase \<Rightarrow> unit io" where
  "advance p = io_then (set_mem (enter_phase p)) save"

subsection \<open>Stopping, starting and validating the server\<close>

text \<open>\<open>discovery::acquire_lock\<close>, as the question whether the server is down.\<close>

definition server_down :: "bool io" where
  "server_down w =
     (let e = current w; w1 = tick w in
      case ev_fault e of
        Succeeds \<Rightarrow> (Done (server w1 = None), w1)
      | Fails _ \<Rightarrow> (Done False, w1)
      | Crashes _ \<Rightarrow> (Crashed, w1))"

definition remove_server_json :: "unit io" where
  "remove_server_json w = (Done (), put_file Server_json None w)"

definition with_server_lock :: "unit io \<Rightarrow> unit io" where
  "with_server_lock body =
     io_bind server_down (\<lambda>free.
       if \<not> free then io_error ''server lock is held''
       else (\<lambda>w. case body (w\<lparr>lock_held := True\<rparr>) of (r, w') \<Rightarrow> (r, w'\<lparr>lock_held := False\<rparr>)))"

definition deadline_passed :: "bool io" where
  "deadline_passed w = (Done (ev_deadline (current w)), w)"

fun poll_stopped :: "nat \<Rightarrow> unit io" where
  "poll_stopped 0 = io_error ''Shutdown not confirmed; files and database were not restored''"
| "poll_stopped (Suc n) =
     io_bind server_down (\<lambda>down.
       if down then remove_server_json
       else io_bind deadline_passed (\<lambda>late.
         if late then io_error ''Shutdown not confirmed; files and database were not restored''
         else poll_stopped n))"

text \<open>Thirty seconds in steps of at least 100 ms.\<close>

definition stop_polls :: nat where "stop_polls = 301"

definition stop :: "unit io" where
  "stop =
     io_bind server_down (\<lambda>down.
       if down then remove_server_json
       else io_then (effect no_trace (\<lambda>w. Inr ((), w\<lparr>stop_requested := True\<rparr>))) (poll_stopped stop_polls))"

definition run_executable :: "world \<Rightarrow> world" where
  "run_executable w = (if server w = None then w\<lparr>server := files w Executable, stop_requested := False\<rparr> else w)"

text \<open>A start that reports a failure may nevertheless have started the server.\<close>

definition start :: "unit io" where
  "start = effect (\<lambda>c w. if c = None then w else run_executable w) (\<lambda>w.
     case files w Executable of None \<Rightarrow> Inl ''not found'' | Some c \<Rightarrow> Inr ((), run_executable w))"

definition validate_response :: "journal \<Rightarrow> json \<Rightarrow> bool \<Rightarrow> string + bool" where
  "validate_response j body rollback =
     (let expected = (if rollback then j_old_version j else j_new_version j) in
      if as_str (jindex body ''version'') \<noteq> Some expected then
        Inl ''Started executable reports the wrong version''
      else if unwrap_or 0 (as_u64 (jindex body ''api_level'')) < j_api_level j then
        Inl ''Candidate API level is incompatible''
      else if as_str (jindex body ''network_mode'') \<noteq> Some (j_network_mode j) then
        Inl ''Network policy changed during update''
      else if as_str (jindex body ''transaction'') \<noteq> Some (j_id j) then
        Inl ''Validation answered by a different server instance''
      else case j_ready_model j of
          None \<Rightarrow> Inr True
        | Some model \<Rightarrow>
            if as_str (jindex body ''ready_model'') \<noteq> Some model then
              if as_bool (jindex body ''loading'') = Some True then Inr False
              else Inl ''Previously ready model failed to load''
            else Inr True)"

text \<open>The validation request; only a running server answers it.\<close>

definition validation :: "json option io" where
  "validation w =
     (let e = current w; w1 = tick w in
      case ev_fault e of
        Succeeds \<Rightarrow> (Done (if server w1 = None then None else ev_body e), w1)
      | Fails _ \<Rightarrow> (Done None, w1)
      | Crashes _ \<Rightarrow> (Crashed, w1))"

fun poll_ready :: "bool \<Rightarrow> nat \<Rightarrow> unit io" where
  "poll_ready rollback 0 = io_error ''Timed out validating the updated server''"
| "poll_ready rollback (Suc n) =
     (let again = io_bind deadline_passed (\<lambda>late.
        if late then io_error ''Timed out validating the updated server'' else poll_ready rollback n) in
      io_bind validation (\<lambda>body. case body of
          None \<Rightarrow> again
        | Some b \<Rightarrow> io_bind get_mem (\<lambda>j.
            case validate_response j b rollback of
              Inl e \<Rightarrow> io_error e
            | Inr ok \<Rightarrow> if ok then io_return () else again)))"

text \<open>The configured number of seconds in steps of at least 200 ms.\<close>

definition wait_ready :: "bool \<Rightarrow> unit io" where
  "wait_ready rollback = io_bind get_mem (\<lambda>j. poll_ready rollback (5 * j_ready_timeout_seconds j + 1))"

subsection \<open>Database and binary\<close>

definition checkpoint :: "host \<Rightarrow> unit io" where
  "checkpoint h = (\<lambda>w. effect (\<lambda>c w. put_file State_db c w) (\<lambda>w1.
     case files w1 State_db of
       None \<Rightarrow> Inl ''not found''
     | Some db \<Rightarrow>
         if ev_busy (current w) then Inl ''Database checkpoint is busy''
         else Inr ((), put_file State_wal None (put_file State_db (Some (h_checkpoint h db (files w1 State_wal))) w1))) w)"

definition snapshot_database :: "host \<Rightarrow> unit io" where
  "snapshot_database h =
     io_bind (file_exists State_db) (\<lambda>existed.
     io_then (set_mem (\<lambda>j. j\<lparr>j_database_existed := existed\<rparr>))
     (io_then
       (if existed then
          io_then (checkpoint h)
          (io_then (copy_sync State_db Snapshot_file)
          (io_bind (sha256_file h Snapshot_file) (\<lambda>x. set_mem (\<lambda>j. j\<lparr>j_database_sha256 := Some x\<rparr>))))
        else io_return ())
     (advance Snapshot)))"

definition remove_if_present :: "artifact \<Rightarrow> unit io" where
  "remove_if_present f = io_bind (file_exists f) (\<lambda>b. if b then remove_file f else io_return ())"

definition move_if_present :: "artifact \<Rightarrow> artifact \<Rightarrow> unit io" where
  "move_if_present src dst =
     io_bind (file_exists src) (\<lambda>b. if b then atomic_replace src dst else io_return ())"

definition restore_database :: "host \<Rightarrow> unit io" where
  "restore_database h =
     io_bind get_mem (\<lambda>j.
       case j_database_sha256 j of
         Some x \<Rightarrow>
           io_then (checked_hash h Snapshot_file x)
           (io_then (remove_if_present State_wal)
           (io_then (remove_if_present State_shm)
           (io_then (copy_sync Snapshot_file State_restore)
           (atomic_replace State_restore State_db))))
       | None \<Rightarrow>
           if \<not> j_database_existed j then
             io_then (move_if_present State_db Failed_db)
             (io_then (move_if_present State_wal Failed_wal)
             (move_if_present State_shm Failed_shm))
           else io_return ())"

definition replace_binary :: "host \<Rightarrow> unit io" where
  "replace_binary h =
     io_bind get_mem (\<lambda>j.
     io_then (checked_hash h Candidate_exe (j_new_sha256 j))
     (io_then (checked_hash h Previous_exe (j_old_sha256 j))
     (io_then (move_if_present Executable Retired_exe)
     (atomic_replace Candidate_exe Executable))))"

definition restore_binary :: "host \<Rightarrow> unit io" where
  "restore_binary h =
     io_bind get_mem (\<lambda>j.
     io_then (checked_hash h Previous_exe (j_old_sha256 j))
     (io_then (copy_sync Previous_exe Restore_exe)
     (atomic_replace Restore_exe Executable)))"

subsection \<open>The worker\<close>

definition io_when :: "bool \<Rightarrow> unit io \<Rightarrow> unit io" where
  "io_when b m = (if b then m else io_return ())"

definition apply_update :: "host \<Rightarrow> unit io" where
  "apply_update h =
     io_then (advance Stopping)
     (io_then stop
     (io_then (with_server_lock
        (io_then (snapshot_database h)
        (io_then (advance Replacing)
        (io_then (replace_binary h) (advance Validating)))))
     (io_then start
     (io_then (wait_ready False)
     (io_then (io_bind get_mem (\<lambda>j. io_when (\<not> j_was_running j) stop))
     (advance Committed))))))"

definition rollback :: "host \<Rightarrow> unit io" where
  "rollback h =
     io_then (advance RollingBack)
     (io_then stop
     (io_then (with_server_lock (io_then (restore_binary h) (restore_database h)))
     (io_then (io_bind get_mem (\<lambda>j. io_when (j_was_running j) (io_then start (wait_ready True))))
     (advance Restored))))"

definition remove_task :: "string \<Rightarrow> unit io" where
  "remove_task name = effect no_trace (\<lambda>w. Inr ((), w\<lparr>tasks := removeAll name (tasks w)\<rparr>))"

definition cleanup :: "unit io" where
  "cleanup =
     io_bind get_mem (\<lambda>j.
       io_when (\<not> j_task_removed j)
         (io_then (remove_task (j_task_name j))
         (io_then (set_mem (\<lambda>j. j\<lparr>j_task_removed := True\<rparr>)) save)))"

definition canonicalize :: "host \<Rightarrow> string \<Rightarrow> string io" where
  "canonicalize h p = effect no_trace (\<lambda>w.
     case h_canonical h p of None \<Rightarrow> Inl ''not found'' | Some c \<Rightarrow> Inr (c, w))"

definition work_dir_ok :: "host \<Rightarrow> journal \<Rightarrow> string \<Rightarrow> bool" where
  "work_dir_ok h j parent \<longleftrightarrow>
     same_path (j_work_dir j) (path_join parent (''.stt-update-'' @ j_id j)) \<and> h_is_uuid h (j_id j)"

definition validate_journal :: "host \<Rightarrow> string \<Rightarrow> unit io" where
  "validate_journal h data_dir =
     io_bind get_mem (\<lambda>j.
     io_bind (canonicalize h (j_data_dir j)) (\<lambda>a.
     io_bind (canonicalize h data_dir) (\<lambda>b.
       if a \<noteq> b then io_error ''Journal data directory mismatch''
       else case path_parent (j_executable j) of
           None \<Rightarrow> io_error ''Executable has no directory''
         | Some parent \<Rightarrow>
             if \<not> work_dir_ok h j parent then io_error ''Invalid update artifact paths''
             else checked_hash h Recovery_exe (j_old_sha256 j))))"

definition set_error :: "string \<Rightarrow> unit io" where
  "set_error e = set_mem (\<lambda>j. j\<lparr>j_error := Some e\<rparr>)"

definition roll_back_after :: "host \<Rightarrow> string \<Rightarrow> unit io" where
  "roll_back_after h cause =
     io_then (set_error cause)
     (io_then save
     (io_bind (io_try (rollback h)) (\<lambda>r. case r of
         Inl recovery \<Rightarrow>
           (let msg = cause @ ''; recovery failed: '' @ recovery in
            io_then (set_error msg) (io_then save (io_error msg)))
       | Inr _ \<Rightarrow> io_then cleanup (io_error (cause @ ''; previous version restored'')))))"

definition load_journal :: "unit io" where
  "load_journal = effect no_trace (\<lambda>w.
     if update_locked w then Inl ''An update or startup is already in progress''
     else case read_journal (jfile w) of
         Inl e \<Rightarrow> Inl e
       | Inr None \<Rightarrow> Inl ''No update journal''
       | Inr (Some j) \<Rightarrow> Inr ((), w\<lparr>mem := j\<rparr>))"

definition abandon :: "string \<Rightarrow> unit io" where
  "abandon cause =
     io_bind get_mem (\<lambda>j.
       io_then (io_when (j_armed j \<and> j_phase j = Prepared)
         (io_then (set_mem (\<lambda>j. j\<lparr>j_error := Some (cause @ ''; update abandoned, nothing changed''), j_armed := False\<rparr>))
         (io_then (advance Restored) cleanup)))
       (io_error cause))"

definition run_worker :: "host \<Rightarrow> string \<Rightarrow> bool \<Rightarrow> unit io" where
  "run_worker h data_dir recover =
     io_then load_journal
     (io_bind (io_try (validate_journal h data_dir)) (\<lambda>v. case v of
         Inl cause \<Rightarrow> abandon cause
       | Inr _ \<Rightarrow>
           io_bind get_mem (\<lambda>j.
             if terminal (j_phase j) then cleanup
             else if \<not> j_armed j then io_then (advance Restored) cleanup
             else io_bind
               (if \<not> recover \<and> j_phase j = Prepared then io_try (apply_update h)
                else io_return (Inl ''Interrupted update; restoring previous version''))
               (\<lambda>result. case result of
                  Inl cause \<Rightarrow> roll_back_after h cause
                | Inr _ \<Rightarrow> cleanup))))"

end
