(* ===== verification/Update_Safety.thy ===== *)
theory Update_Safety
  imports Update_Transaction
begin

text \<open>
  What the updater guarantees, for every script of failures and crash points: the recovery material
  is never damaged, so that recovery stays possible however often it is interrupted; a transaction
  that ends as restored has the previous executable in place; and a recovery that nothing disturbs
  ends with the previous executable and database. The proofs use weakest preconditions of the
  effects (normal result, error, crash) and a frame predicate for the operations that leave the
  journal and the recovery material alone.
\<close>

subsection \<open>Weakest preconditions and frames\<close>

definition wp :: "'a io \<Rightarrow> ('a \<Rightarrow> world \<Rightarrow> bool) \<Rightarrow> (world \<Rightarrow> bool) \<Rightarrow> (world \<Rightarrow> bool) \<Rightarrow> world \<Rightarrow> bool" where
  "wp m Q E C w = (case m w of (Done x, w') \<Rightarrow> Q x w' | (Error e, w') \<Rightarrow> E w' | (Crashed, w') \<Rightarrow> C w')"

named_theorems wp_simps \<open>weakest preconditions of the combinators\<close>

lemma wp_bind [wp_simps]: "wp (io_bind m f) Q E C = wp m (\<lambda>x. wp (f x) Q E C) E C"
  by (rule ext) (auto simp: wp_def io_bind_def split: prod.splits outcome.splits)

lemma wp_then [wp_simps]: "wp (io_then m n) Q E C = wp m (\<lambda>_. wp n Q E C) E C"
  by (simp add: io_then_def wp_bind)

lemma wp_basic [wp_simps]:
  "wp (io_return x) Q E C = Q x"
  "wp (io_error e) Q E C = E"
  by (simp_all add: fun_eq_iff wp_def io_return_def io_error_def)

lemma wp_state [wp_simps]:
  "wp get_mem Qj E C = (\<lambda>w. Qj (mem w) w)"
  "wp (set_mem f) Qu E C = (\<lambda>w. Qu () (w\<lparr>mem := f (mem w)\<rparr>))"
  "wp (file_exists g) Qb E C = (\<lambda>w. Qb (files w g \<noteq> None) w)"
  by (simp_all add: fun_eq_iff wp_def get_mem_def set_mem_def file_exists_def)

lemma wp_mono:
  assumes "wp m Q E C w" "\<And>x w'. Q x w' \<Longrightarrow> Q' x w'" "\<And>w'. E w' \<Longrightarrow> E' w'" "\<And>w'. C w' \<Longrightarrow> C' w'"
  shows "wp m Q' E' C' w"
  using assms by (auto simp: wp_def split: prod.splits outcome.splits)

lemma wp_conj:
  assumes "wp m Q E C w" "wp m Q' E' C' w"
  shows "wp m (\<lambda>x w'. Q x w' \<and> Q' x w') (\<lambda>w'. E w' \<and> E' w') (\<lambda>w'. C w' \<and> C' w') w"
  using assms by (auto simp: wp_def split: prod.splits outcome.splits)

lemma wp_try:
  assumes "wp m (\<lambda>x. Q (Inr x)) (\<lambda>w'. \<forall>e. Q (Inl e) w') C w"
  shows "wp (io_try m) Q E C w"
  using assms by (auto simp: wp_def io_try_def split: prod.splits outcome.splits)

definition same :: "artifact set \<Rightarrow> world \<Rightarrow> world \<Rightarrow> bool" where
  "same F w w' \<longleftrightarrow> jfile w' = jfile w \<and> mem w' = mem w \<and> (\<forall>f \<in> F. files w' f = files w f)"

definition keeps :: "artifact set \<Rightarrow> 'a io \<Rightarrow> bool" where
  "keeps F m \<longleftrightarrow> (\<forall>w. same F w (snd (m w)))"

definition material :: "artifact set" where
  "material = {Previous_exe, Recovery_exe, Snapshot_file}"

named_theorems keeps_intros \<open>operations that leave the recovery material alone\<close>

lemma same_refl [simp]: "same F w w"
  by (simp add: same_def)

lemma same_trans: "same F w w' \<Longrightarrow> same F w' w'' \<Longrightarrow> same F w w''"
  by (simp add: same_def)

lemma same_mono: "same F w w' \<Longrightarrow> G \<subseteq> F \<Longrightarrow> same G w w'"
  by (auto simp: same_def)

lemma wp_keeps:
  assumes "keeps F m" "\<And>x w'. same F w w' \<Longrightarrow> Q x w'" "\<And>w'. same F w w' \<Longrightarrow> E w'" "\<And>w'. same F w w' \<Longrightarrow> C w'"
  shows "wp m Q E C w"
  using assms by (auto simp: wp_def keeps_def split: prod.splits outcome.splits) (metis snd_conv)+

abbreviation volatile :: "artifact set" where
  "volatile \<equiv> {State_db, State_wal, State_shm, Server_json}"

lemma same_put [simp]: "f \<notin> F \<Longrightarrow> same F w (put_file f c w') \<longleftrightarrow> same F w w'"
  by (auto simp: same_def put_file_def)

lemma env_step_same: "F \<inter> volatile = {} \<Longrightarrow> same F w (env_step e w)"
  by (auto simp: env_step_def same_def Let_def put_file_def split: option.splits)

lemma tick_same: "F \<inter> volatile = {} \<Longrightarrow> same F w (tick w)"
  using env_step_same [of F w "current w"] by (simp add: tick_def same_def)

lemma keeps_bind [keeps_intros]:
  assumes "keeps F m" "\<And>x. keeps F (f x)"
  shows "keeps F (io_bind m f)"
  unfolding keeps_def
proof
  fix w
  obtain r w' where m: "m w = (r, w')" by force
  with assms(1) have "same F w w'" unfolding keeps_def by (metis snd_conv)
  with m assms(2) show "same F w (snd (io_bind m f w))"
    by (cases r) (auto simp: io_bind_def keeps_def intro: same_trans)
qed

lemma keeps_then [keeps_intros]: "keeps F m \<Longrightarrow> keeps F n \<Longrightarrow> keeps F (io_then m n)"
  unfolding io_then_def by (intro keeps_intros)

lemma keeps_basic [keeps_intros]:
  "keeps F (io_return x)" "keeps F (io_error e)" "keeps F get_mem" "keeps F (file_exists f)"
  "keeps F deadline_passed"
  by (simp_all add: keeps_def io_return_def io_error_def get_mem_def file_exists_def deadline_passed_def)

lemma keeps_effect [keeps_intros]:
  assumes "F \<inter> volatile = {}" "\<And>c w. same F w (torn c w)" "\<And>w x w'. act w = Inr (x, w') \<Longrightarrow> same F w w'"
  shows "keeps F (effect torn act)"
  unfolding keeps_def
proof
  fix w
  have "same F w (tick w)" by (rule tick_same [OF assms(1)])
  with assms(2,3) show "same F w (snd (effect torn act w))"
    by (auto simp: effect_def Let_def split: fault.splits sum.splits intro: same_trans)
qed

lemma keeps_if [keeps_intros]: "(b \<Longrightarrow> keeps F m) \<Longrightarrow> (\<not> b \<Longrightarrow> keeps F n) \<Longrightarrow> keeps F (if b then m else n)"
  by simp

lemma keeps_option [keeps_intros]:
  "keeps F m \<Longrightarrow> (\<And>x. keeps F (n x)) \<Longrightarrow> keeps F (case o' of None \<Rightarrow> m | Some x \<Rightarrow> n x)"
  by (cases o') auto

lemma keeps_sum [keeps_intros]:
  "(\<And>x. keeps F (m x)) \<Longrightarrow> (\<And>x. keeps F (n x)) \<Longrightarrow> keeps F (case s of Inl x \<Rightarrow> m x | Inr x \<Rightarrow> n x)"
  by (cases s) auto

lemma keeps_queries [keeps_intros]:
  "F \<inter> volatile = {} \<Longrightarrow> keeps F server_down" "F \<inter> volatile = {} \<Longrightarrow> keeps F validation"
  "F \<inter> volatile = {} \<Longrightarrow> keeps F remove_server_json"
  by (auto simp: keeps_def server_down_def validation_def remove_server_json_def Let_def tick_same split: fault.splits)

lemma keeps_files [keeps_intros]:
  "F \<inter> volatile = {} \<Longrightarrow> src \<notin> F \<Longrightarrow> dst \<notin> F \<Longrightarrow> keeps F (atomic_replace src dst)"
  "F \<inter> volatile = {} \<Longrightarrow> dst \<notin> F \<Longrightarrow> keeps F (copy_sync src dst)"
  "F \<inter> volatile = {} \<Longrightarrow> f \<notin> F \<Longrightarrow> keeps F (remove_file f)"
  "F \<inter> volatile = {} \<Longrightarrow> keeps F (sha256_file h f)"
  unfolding atomic_replace_def copy_sync_def remove_file_def sha256_file_def
  by (intro keeps_intros; auto simp: no_trace_def split: option.splits)+

lemma keeps_more [keeps_intros]:
  "F \<inter> volatile = {} \<Longrightarrow> keeps F (checked_hash h f x)"
  "F \<inter> volatile = {} \<Longrightarrow> f \<notin> F \<Longrightarrow> keeps F (remove_if_present f)"
  "F \<inter> volatile = {} \<Longrightarrow> src \<notin> F \<Longrightarrow> dst \<notin> F \<Longrightarrow> keeps F (move_if_present src dst)"
  "F \<inter> volatile = {} \<Longrightarrow> keeps F (canonicalize h p)"
  "F \<inter> volatile = {} \<Longrightarrow> keeps F (remove_task name)"
  unfolding checked_hash_def remove_if_present_def move_if_present_def canonicalize_def remove_task_def
  by (intro keeps_intros; auto simp: no_trace_def same_def split: option.splits)+

lemma keeps_poll_stopped [keeps_intros]: "F \<inter> volatile = {} \<Longrightarrow> keeps F (poll_stopped n)"
  by (induction n) (auto intro!: keeps_intros)

lemma keeps_stop [keeps_intros]: "F \<inter> volatile = {} \<Longrightarrow> keeps F stop"
  unfolding stop_def by (intro keeps_intros; auto simp: no_trace_def same_def)

lemma keeps_start [keeps_intros]: "F \<inter> volatile = {} \<Longrightarrow> keeps F start"
  unfolding start_def run_executable_def
  by (intro keeps_intros; auto simp: same_def split: option.splits if_splits)

lemma keeps_poll_ready [keeps_intros]: "F \<inter> volatile = {} \<Longrightarrow> keeps F (poll_ready r n)"
proof (induction n)
  case (Suc n)
  then show ?case unfolding poll_ready.simps Let_def by (intro keeps_intros)
qed (auto intro: keeps_intros)

lemma keeps_wait_ready [keeps_intros]: "F \<inter> volatile = {} \<Longrightarrow> keeps F (wait_ready r)"
  unfolding wait_ready_def by (intro keeps_intros)

lemma keeps_when [keeps_intros]: "(b \<Longrightarrow> keeps F m) \<Longrightarrow> keeps F (io_when b m)"
  unfolding io_when_def by (auto intro: keeps_intros)

lemma keeps_restore_database [keeps_intros]:
  "F \<inter> (volatile \<union> {State_restore, Failed_db, Failed_wal, Failed_shm}) = {} \<Longrightarrow> keeps F (restore_database h)"
  unfolding restore_database_def by (intro keeps_intros; auto)

lemma keeps_restore_binary [keeps_intros]:
  "F \<inter> (volatile \<union> {Restore_exe, Executable}) = {} \<Longrightarrow> keeps F (restore_binary h)"
  unfolding restore_binary_def by (intro keeps_intros; auto)

lemma keeps_replace_binary [keeps_intros]:
  "F \<inter> (volatile \<union> {Candidate_exe, Retired_exe, Executable}) = {} \<Longrightarrow> keeps F (replace_binary h)"
  unfolding replace_binary_def by (intro keeps_intros; auto)

lemma keeps_validate_journal [keeps_intros]: "F \<inter> volatile = {} \<Longrightarrow> keeps F (validate_journal h d)"
  unfolding validate_journal_def by (intro keeps_intros)

subsection \<open>The invariant of a transaction\<close>

definition has_hash :: "host \<Rightarrow> world \<Rightarrow> artifact \<Rightarrow> string \<Rightarrow> bool" where
  "has_hash h w f x \<longleftrightarrow> (\<exists>c. files w f = Some c \<and> h_sha256 h c = x)"

text \<open>What never changes in the journal of one transaction.\<close>

definition static :: "journal \<Rightarrow> journal" where
  "static j = j\<lparr>j_phase := Prepared, j_database_existed := False, j_database_sha256 := None,
     j_task_removed := False, j_armed := False, j_error := None\<rparr>"

text \<open>
  What the journal promises of the files: the copy of the previous executable and the worker are
  intact, so is a recorded database snapshot, and the installed executable is the one the phase
  says. With \<open>strict\<close> an unfinished transaction is always armed; without it, one that is rolling
  back may not be.
\<close>

definition jr_ok :: "host \<Rightarrow> bool \<Rightarrow> journal \<Rightarrow> journal \<Rightarrow> world \<Rightarrow> bool" where
  "jr_ok h strict s j w \<longleftrightarrow>
     static j = s
     \<and> has_hash h w Previous_exe (j_old_sha256 s) \<and> has_hash h w Recovery_exe (j_old_sha256 s)
     \<and> (\<forall>x. j_database_sha256 j = Some x \<longrightarrow> has_hash h w Snapshot_file x)
     \<and> (j_phase j \<in> {Prepared, Stopping} \<longrightarrow> j_database_sha256 j = None)
     \<and> (j_phase j \<in> {Prepared, Stopping, Snapshot, Restored} \<longrightarrow> has_hash h w Executable (j_old_sha256 s))
     \<and> (j_phase j = Committed \<longrightarrow> has_hash h w Executable (j_new_sha256 s))
     \<and> (\<not> terminal (j_phase j) \<and> \<not> j_armed j \<longrightarrow> \<not> strict \<and> j_phase j = RollingBack)"

definition disk_ok :: "host \<Rightarrow> bool \<Rightarrow> journal \<Rightarrow> world \<Rightarrow> bool" where
  "disk_ok h strict s w \<longleftrightarrow> (\<exists>j. jfile w = Some (Holds j) \<and> jr_ok h strict s j w)"

definition tx_inv :: "host \<Rightarrow> bool \<Rightarrow> journal \<Rightarrow> world \<Rightarrow> bool" where
  "tx_inv h strict s w \<longleftrightarrow> disk_ok h strict s w \<and> jr_ok h strict s (mem w) w"

definition synced :: "world \<Rightarrow> bool" where
  "synced w \<longleftrightarrow> jfile w = Some (Holds (mem w))"

abbreviation core :: "artifact set" where
  "core \<equiv> {Executable, Previous_exe, Recovery_exe, Snapshot_file}"

lemma jr_ok_files:
  "(\<And>f. f \<in> core \<Longrightarrow> files w' f = files w f) \<Longrightarrow> jr_ok h a s j w' = jr_ok h a s j w"
  by (simp add: jr_ok_def has_hash_def)

lemma same_jr_ok: "same core w w' \<Longrightarrow> jr_ok h a s j w' = jr_ok h a s j w"
  by (rule jr_ok_files) (auto simp: same_def)

lemma same_disk_ok: "same core w w' \<Longrightarrow> disk_ok h a s w' = disk_ok h a s w"
  using same_jr_ok [of w w'] by (simp add: disk_ok_def same_def)

lemma same_inv: "same core w w' \<Longrightarrow> tx_inv h a s w' = tx_inv h a s w"
  using same_disk_ok [of w w'] same_jr_ok [of w w'] by (simp add: tx_inv_def same_def)

lemma same_synced: "same F w w' \<Longrightarrow> synced w' = synced w"
  by (simp add: synced_def same_def)

lemma inv_disk: "tx_inv h a s w \<Longrightarrow> disk_ok h a s w"
  by (simp add: tx_inv_def)

lemma jr_ok_relax: "jr_ok h True s j w \<Longrightarrow> jr_ok h a s j w"
  by (auto simp: jr_ok_def)

lemma disk_ok_relax: "disk_ok h True s w \<Longrightarrow> disk_ok h a s w"
  by (auto simp: disk_ok_def intro: jr_ok_relax)

lemma inv_relax: "tx_inv h True s w \<Longrightarrow> tx_inv h a s w"
  by (auto simp: tx_inv_def intro: jr_ok_relax disk_ok_relax)

lemma synced_inv: "synced w \<Longrightarrow> jr_ok h a s (mem w) w \<Longrightarrow> tx_inv h a s w"
  by (auto simp: tx_inv_def disk_ok_def synced_def)

text \<open>Saving replaces the journal on disk by the one in memory, or leaves it.\<close>

definition same_files :: "world \<Rightarrow> world \<Rightarrow> bool" where
  "same_files w w' \<longleftrightarrow> mem w' = mem w \<and> (\<forall>f. f \<notin> volatile \<longrightarrow> files w' f = files w f)"

lemma tick_keeps:
  "jfile (tick w) = jfile w" "mem (tick w) = mem w" "jtmp (tick w) = jtmp w" "jpublish (tick w) = jpublish w"
  "f \<notin> volatile \<Longrightarrow> files (tick w) f = files w f"
  by (auto simp: tick_def env_step_def put_file_def Let_def split: option.splits)

lemma wp_effect:
  assumes "\<And>x w'. act (tick w) = Inr (x, w') \<Longrightarrow> Q x w'"
    and "\<And>msg. act (tick w) = Inl msg \<Longrightarrow> E (tick w)"
    and "\<And>c. E (torn c (tick w))" "\<And>c. C (torn c (tick w))"
  shows "wp (effect torn act) Q E C w"
  using assms by (auto simp: wp_def effect_def Let_def split: fault.splits sum.splits prod.splits)

lemma wp_effect_ok:
  assumes "Q () (f (tick w))" "\<And>c. E (torn c (tick w))" "\<And>c. C (torn c (tick w))"
  shows "wp (effect torn (\<lambda>w. Inr ((), f w))) Q E C w"
  by (rule wp_effect) (use assms in auto)

lemma wp_save:
  assumes "\<And>w'. same_files w w' \<Longrightarrow> jfile w' = Some (Holds (mem w)) \<Longrightarrow> Q () w'"
    and "\<And>w'. same_files w w' \<Longrightarrow> jfile w' = jfile w \<Longrightarrow> E w' \<and> C w'"
  shows "wp save Q E C w"
proof -
  have e: "E w'" "C w'" if "same_files w w'" "jfile w' = jfile w" for w'
    using assms(2) [OF that] by simp_all
  show ?thesis
    unfolding save_def wp_simps
    by (intro wp_effect_ok conjI allI assms(1) e) (simp_all add: no_trace_def same_files_def tick_keeps)
qed

lemma wp_atomic_replace:
  assumes "\<And>c. files (tick w) src = Some c \<Longrightarrow> Q () (put_file dst (Some c) (put_file src None (tick w)))"
    and "E (tick w)" "C (tick w)"
  shows "wp (atomic_replace src dst) Q E C w"
  unfolding atomic_replace_def
  by (rule wp_effect) (use assms in \<open>auto simp: no_trace_def split: option.splits\<close>)

lemma wp_copy_sync:
  assumes "\<And>c. files (tick w) src = Some c \<Longrightarrow> Q () (put_file dst (Some c) (tick w))"
    and "E (tick w)" "\<And>c. E (put_file dst c (tick w))" "\<And>c. C (put_file dst c (tick w))"
  shows "wp (copy_sync src dst) Q E C w"
  unfolding copy_sync_def
  by (rule wp_effect) (use assms in \<open>auto split: option.splits\<close>)

lemma wp_sha256_file:
  assumes "\<And>x. has_hash h (tick w) f x \<Longrightarrow> Q x (tick w)" and "E (tick w)" "C (tick w)"
  shows "wp (sha256_file h f) Q E C w"
  unfolding sha256_file_def
  by (rule wp_effect) (use assms in \<open>auto simp: no_trace_def has_hash_def split: option.splits\<close>)

lemma wp_checked_hash:
  assumes "has_hash h (tick w) f x \<Longrightarrow> Q () (tick w)" and "E (tick w)" "C (tick w)"
  shows "wp (checked_hash h f x) Q E C w"
  unfolding checked_hash_def wp_simps
  by (rule wp_sha256_file) (use assms in \<open>auto simp: wp_basic\<close>)

lemma wp_server_lock:
  assumes "wp server_down (\<lambda>free w1. if free
        then wp body (\<lambda>x w'. Q x (w'\<lparr>lock_held := False\<rparr>)) (\<lambda>w'. E (w'\<lparr>lock_held := False\<rparr>))
          (\<lambda>w'. C (w'\<lparr>lock_held := False\<rparr>)) (w1\<lparr>lock_held := True\<rparr>)
        else E w1) E C w"
  shows "wp (with_server_lock body) Q E C w"
proof -
  have "wp (\<lambda>w. case body (w\<lparr>lock_held := True\<rparr>) of (r, w') \<Rightarrow> (r, w'\<lparr>lock_held := False\<rparr>)) Q E C w1 =
      wp body (\<lambda>x w'. Q x (w'\<lparr>lock_held := False\<rparr>)) (\<lambda>w'. E (w'\<lparr>lock_held := False\<rparr>))
        (\<lambda>w'. C (w'\<lparr>lock_held := False\<rparr>)) (w1\<lparr>lock_held := True\<rparr>)" for w1
    by (auto simp: wp_def split: prod.splits outcome.splits)
  with assms show ?thesis
    unfolding with_server_lock_def wp_simps
    by (rule_tac wp_mono [OF assms]) (auto simp: wp_basic split: if_splits)
qed

lemma core_volatile: "core \<inter> volatile = {}" "material \<inter> volatile = {}"
  by (auto simp: material_def)

lemma same_files_jr_ok: "same_files w w' \<Longrightarrow> jr_ok h a s j w' = jr_ok h a s j w"
  by (rule jr_ok_files) (auto simp: same_files_def)

lemma wp_save_inv:
  assumes "tx_inv h a s w"
    and "\<And>w'. tx_inv h a s w' \<Longrightarrow> synced w' \<Longrightarrow> same_files w w' \<Longrightarrow> Q () w'"
    and "\<And>w'. tx_inv h a s w' \<Longrightarrow> same_files w w' \<Longrightarrow> E w'"
    and "\<And>w'. disk_ok h a s w' \<Longrightarrow> C w'"
  shows "wp save Q E C w"
proof (rule wp_save)
  fix w' assume sf: "same_files w w'"
  then have m: "mem w' = mem w" by (simp add: same_files_def)
  have j: "jr_ok h a s j w' = jr_ok h a s j w" for j by (rule same_files_jr_ok [OF sf])
  {
    assume "jfile w' = Some (Holds (mem w))"
    with assms(1) m j have "tx_inv h a s w'" "synced w'" by (auto simp: tx_inv_def disk_ok_def synced_def)
    with assms(2) sf show "Q () w'" by simp
  }
  assume "jfile w' = jfile w"
  with assms(1) m j have "tx_inv h a s w'" by (simp add: tx_inv_def disk_ok_def)
  with assms(3,4) sf show "E w' \<and> C w'" by (simp add: tx_inv_def)
qed

lemma wp_advance:
  assumes "disk_ok h a s w" "jr_ok h a s (enter_phase p (mem w)) w"
    and "\<And>w'. tx_inv h a s w' \<Longrightarrow> synced w' \<Longrightarrow> mem w' = enter_phase p (mem w) \<Longrightarrow>
            (\<forall>f. f \<notin> volatile \<longrightarrow> files w' f = files w f) \<Longrightarrow> Q () w'"
    and "\<And>w'. tx_inv h a s w' \<Longrightarrow> mem w' = enter_phase p (mem w) \<Longrightarrow> E w'"
    and "\<And>w'. disk_ok h a s w' \<Longrightarrow> C w'"
  shows "wp (advance p) Q E C w"
  unfolding advance_def wp_simps
proof (rule wp_save_inv)
  let ?w = "w\<lparr>mem := enter_phase p (mem w)\<rparr>"
  have j: "jr_ok h a s j ?w = jr_ok h a s j w" for j by (rule jr_ok_files) simp
  with assms(1,2) show "tx_inv h a s ?w" by (simp add: tx_inv_def disk_ok_def)
qed (use assms(3-5) in \<open>auto simp: same_files_def\<close>)

lemma wp_restore_binary:
  assumes "\<And>w'. same material w w' \<Longrightarrow> has_hash h w' Executable (j_old_sha256 (mem w)) \<Longrightarrow> Q () w'"
    and "\<And>w'. same material w w' \<Longrightarrow> E w' \<and> C w'"
  shows "wp (restore_binary h) Q E C w"
proof -
  have t: "same material w w' \<Longrightarrow> same material w (tick w')" for w'
    by (rule same_trans [OF _ tick_same [OF core_volatile(2)]])
  have E: "E w'" "C w'" if "same material w w'" for w' using assms(2) [OF that] by simp_all
  show ?thesis
    unfolding restore_binary_def wp_simps
    by (intro wp_checked_hash wp_copy_sync wp_atomic_replace E t same_refl assms(1))
       (auto simp: material_def t [unfolded material_def] has_hash_def put_file_def tick_keeps same_def)
qed

text \<open>Rolling back, from any state in which the invariant holds.\<close>

definition rolling :: "host \<Rightarrow> bool \<Rightarrow> journal \<Rightarrow> world \<Rightarrow> bool" where
  "rolling h a s w \<longleftrightarrow> synced w \<and> j_phase (mem w) = RollingBack \<and> jr_ok h a s (mem w) w"

lemma rolling_same: "same material w w' \<Longrightarrow> rolling h a s w \<Longrightarrow> rolling h a s w'"
  by (auto simp: rolling_def synced_def same_def jr_ok_def has_hash_def material_def)

lemma rolling_inv: "rolling h a s w \<Longrightarrow> tx_inv h a s w \<and> disk_ok h a s w"
  by (auto simp: rolling_def synced_inv inv_disk)

lemma rolling_lock [simp]: "rolling h a s (w\<lparr>lock_held := b\<rparr>) = rolling h a s w"
  by (simp add: rolling_def synced_def jr_ok_def has_hash_def)

lemma has_hash_lock [simp]: "has_hash h (w\<lparr>lock_held := b\<rparr>) f x = has_hash h w f x"
  by (simp add: has_hash_def)

lemma same_core_material: "same core w w' \<Longrightarrow> same material w w'"
  by (rule same_mono) (auto simp: material_def)

lemma same_core_hash: "same core w w' \<Longrightarrow> has_hash h w Executable x \<Longrightarrow> has_hash h w' Executable x"
  by (simp add: same_def has_hash_def)

definition rolled :: "host \<Rightarrow> bool \<Rightarrow> journal \<Rightarrow> world \<Rightarrow> bool" where
  "rolled h a s w \<longleftrightarrow> rolling h a s w \<and> has_hash h w Executable (j_old_sha256 s)"

lemma rolled_same: "same core w w' \<Longrightarrow> rolled h a s w \<Longrightarrow> rolled h a s w'"
  using rolling_same [OF same_core_material] same_core_hash by (auto simp: rolled_def)

lemma rolled_inv: "rolled h a s w \<Longrightarrow> tx_inv h a s w \<and> disk_ok h a s w"
  by (simp add: rolled_def rolling_inv)

lemma rolled_lock [simp]: "rolled h a s (w\<lparr>lock_held := b\<rparr>) = rolled h a s w"
  by (simp add: rolled_def)

lemma static_hashes: "j_old_sha256 (static j) = j_old_sha256 j" "j_new_sha256 (static j) = j_new_sha256 j"
  by (simp_all add: static_def)

lemma static_old:
  assumes "jr_ok h a s j w"
  shows "j_old_sha256 j = j_old_sha256 s \<and> j_new_sha256 j = j_new_sha256 s"
proof -
  from assms have "static j = s" unfolding jr_ok_def by (rule conjunct1)
  then show ?thesis using static_hashes by metis
qed

lemma wp_rollback:
  assumes "tx_inv h a s w" "a \<longrightarrow> j_armed (mem w)"
  shows "wp (rollback h) (\<lambda>_ w'. tx_inv h a s w' \<and> synced w' \<and> j_phase (mem w') = Restored) (tx_inv h a s) (disk_ok h a s) w"
    (is "wp _ ?Q ?E ?C w")
  unfolding rollback_def wp_simps
proof (rule wp_advance)
  show "disk_ok h a s w" using assms(1) by (rule inv_disk)
  show "jr_ok h a s (enter_phase RollingBack (mem w)) w"
    using assms by (auto simp: tx_inv_def jr_ok_def enter_phase_def terminal_def static_def)
  fix w1 assume 1: "tx_inv h a s w1" "synced w1" "mem w1 = enter_phase RollingBack (mem w)"
  then have r1: "rolling h a s w1" by (simp add: rolling_def tx_inv_def enter_phase_def terminal_def)
  have kc: "rolling h a s w' \<Longrightarrow> same core w' w'' \<Longrightarrow> rolling h a s w''" for w' w''
    using rolling_same same_core_material by blast
  note err = rolling_inv rolled_inv
  show "wp stop (\<lambda>_. wp (with_server_lock (io_then (restore_binary h) (restore_database h)))
      (\<lambda>_ w. wp (io_when (j_was_running (mem w)) (io_then start (wait_ready True)))
        (\<lambda>_. wp (advance Restored) ?Q ?E ?C) ?E ?C w) ?E ?C) ?E ?C w1"
  proof (rule wp_keeps [OF keeps_stop [OF core_volatile(1)]])
    fix w2 assume "same core w1 w2"
    then have r2: "rolling h a s w2" using kc r1 by blast
    show "wp (with_server_lock (io_then (restore_binary h) (restore_database h)))
      (\<lambda>_ w. wp (io_when (j_was_running (mem w)) (io_then start (wait_ready True)))
        (\<lambda>_. wp (advance Restored) ?Q ?E ?C) ?E ?C w) ?E ?C w2"
    proof (rule wp_mono)
      show "wp (with_server_lock (io_then (restore_binary h) (restore_database h)))
        (\<lambda>_. rolled h a s) (rolling h a s) (rolling h a s) w2"
      proof (rule wp_server_lock, rule wp_keeps [OF keeps_queries(1) [OF core_volatile(1)]])
        fix free w3 assume "same core w2 w3"
        then have r3: "rolling h a s w3" using kc r2 by blast
        then have old: "j_old_sha256 (mem w3) = j_old_sha256 s"
          using static_old by (auto simp: rolling_def)
        have "wp (restore_binary h) (\<lambda>_. wp (restore_database h) (\<lambda>_. rolled h a s) (rolling h a s) (rolling h a s))
            (rolling h a s) (rolling h a s) (w3\<lparr>lock_held := True\<rparr>)"
        proof (rule wp_restore_binary)
          fix w4 assume 4: "same material (w3\<lparr>lock_held := True\<rparr>) w4"
          then have r4: "rolling h a s w4" using rolling_same r3 by simp
          { assume "has_hash h w4 Executable (j_old_sha256 (mem (w3\<lparr>lock_held := True\<rparr>)))"
            with r4 old have r: "rolled h a s w4" by (simp add: rolled_def)
            have k: "keeps core (restore_database h)" by (rule keeps_restore_database) auto
            show "wp (restore_database h) (\<lambda>_. rolled h a s) (rolling h a s) (rolling h a s) w4"
              by (rule wp_keeps [OF k]) (use rolled_same [OF _ r] in \<open>auto simp: rolled_def\<close>) }
          show "rolling h a s w4 \<and> rolling h a s w4" using r4 by simp
        qed
        then show "if free then wp (io_then (restore_binary h) (restore_database h))
            (\<lambda>x w'. rolled h a s (w'\<lparr>lock_held := False\<rparr>)) (\<lambda>w'. rolling h a s (w'\<lparr>lock_held := False\<rparr>))
            (\<lambda>w'. rolling h a s (w'\<lparr>lock_held := False\<rparr>)) (w3\<lparr>lock_held := True\<rparr>) else rolling h a s w3"
          using r3 by (simp add: wp_simps)
      qed (use r2 kc in blast)+
      fix w5 assume r5: "rolled h a s w5"
      show "wp (io_when (j_was_running (mem w5)) (io_then start (wait_ready True)))
        (\<lambda>_. wp (advance Restored) ?Q ?E ?C) ?E ?C w5"
      proof (rule wp_keeps)
        show "keeps core (io_when (j_was_running (mem w5)) (io_then start (wait_ready True)))"
          by (intro keeps_intros core_volatile)
        fix w6 assume "same core w5 w6"
        then have r6: "rolled h a s w6" using r5 rolled_same by blast
        show "wp (advance Restored) ?Q ?E ?C w6"
        proof (rule wp_advance)
          show "disk_ok h a s w6" using r6 rolled_inv by blast
          show "jr_ok h a s (enter_phase Restored (mem w6)) w6"
            using r6 by (auto simp: rolled_def rolling_def jr_ok_def enter_phase_def terminal_def static_def)
        qed (auto simp: enter_phase_def terminal_def)
      qed (use r5 rolled_same rolled_inv in blast)+
    qed (use rolling_inv in blast)+
  qed (use r1 kc rolling_inv in blast)+
qed auto

lemma jr_ok_notes [simp]:
  "jr_ok h a s (j\<lparr>j_error := x\<rparr>) w = jr_ok h a s j w"
  "jr_ok h a s (j\<lparr>j_task_removed := b\<rparr>) w = jr_ok h a s j w"
  "jr_ok h a s j (w\<lparr>mem := m\<rparr>) = jr_ok h a s j w"
  by (simp_all add: jr_ok_def static_def has_hash_def)

lemma inv_notes [simp]:
  "tx_inv h a s (w\<lparr>mem := (mem w)\<lparr>j_error := x\<rparr>\<rparr>) = tx_inv h a s w"
  "tx_inv h a s (w\<lparr>mem := (mem w)\<lparr>j_task_removed := b\<rparr>\<rparr>) = tx_inv h a s w"
  by (simp_all add: tx_inv_def disk_ok_def)

lemma wp_cleanup:
  assumes "tx_inv h a s w"
    and "\<And>w'. tx_inv h a s w' \<Longrightarrow> j_phase (mem w') = j_phase (mem w) \<Longrightarrow> Q () w'"
    and "\<And>w'. tx_inv h a s w' \<Longrightarrow> E w'" "\<And>w'. disk_ok h a s w' \<Longrightarrow> C w'"
  shows "wp cleanup Q E C w"
proof (cases "j_task_removed (mem w)")
  case True
  with assms(1,2) show ?thesis unfolding cleanup_def wp_simps by (simp add: io_when_def wp_basic)
next
  case False
  have k: "keeps core (remove_task (j_task_name (mem w)))" by (rule keeps_more(5) [OF core_volatile(1)])
  have "wp (remove_task (j_task_name (mem w))) (\<lambda>_ w. wp save Q E C (w\<lparr>mem := (mem w)\<lparr>j_task_removed := True\<rparr>\<rparr>)) E C w"
  proof (rule wp_keeps [OF k])
    fix w' assume sm: "same core w w'"
    then have "tx_inv h a s (w'\<lparr>mem := (mem w')\<lparr>j_task_removed := True\<rparr>\<rparr>)" using assms(1) same_inv by simp
    then show "wp save Q E C (w'\<lparr>mem := (mem w')\<lparr>j_task_removed := True\<rparr>\<rparr>)"
      by (rule wp_save_inv) (use assms(2-4) sm in \<open>auto simp: same_files_def same_def\<close>)
  next
    fix w' assume "same core w w'"
    then have "tx_inv h a s w'" using assms(1) same_inv by simp
    then show "E w'" "C w'" using assms(3,4) inv_disk by blast+
  qed
  with False show ?thesis unfolding cleanup_def wp_simps by (simp add: io_when_def wp_simps)
qed

text \<open>After a failed or interrupted update: never a normal result, and the invariant holds again.\<close>

lemma wp_roll_back_after:
  assumes "tx_inv h a s w" "a \<longrightarrow> j_armed (mem w)"
  shows "wp (roll_back_after h cause) (\<lambda>_ _. False) (tx_inv h a s) (disk_ok h a s) w"
  unfolding roll_back_after_def set_error_def Let_def wp_simps
proof (rule wp_save_inv)
  let ?w = "w\<lparr>mem := (mem w)\<lparr>j_error := Some cause\<rparr>\<rparr>"
  show "tx_inv h a s ?w" using assms(1) by simp
  fix w1 assume 1: "tx_inv h a s w1" "same_files ?w w1"
  then have "a \<longrightarrow> j_armed (mem w1)" using assms(2) by (simp add: same_files_def)
  with 1(1) have roll: "wp (rollback h) (\<lambda>_ w'. tx_inv h a s w' \<and> synced w' \<and> j_phase (mem w') = Restored) (tx_inv h a s) (disk_ok h a s) w1"
    by (rule wp_rollback)
  show "wp (io_try (rollback h)) (\<lambda>x. wp (case x of
          Inl recovery \<Rightarrow> io_then (set_mem (\<lambda>j. j\<lparr>j_error := Some (cause @ ''; recovery failed: '' @ recovery)\<rparr>))
            (io_then save (io_error (cause @ ''; recovery failed: '' @ recovery)))
        | Inr _ \<Rightarrow> io_then cleanup (io_error (cause @ ''; previous version restored''))) (\<lambda>_ _. False) (tx_inv h a s) (disk_ok h a s))
      (tx_inv h a s) (disk_ok h a s) w1"
  proof (rule wp_try, rule wp_mono [OF roll])
    fix w2 assume 2: "tx_inv h a s w2"
    show "\<forall>e. wp (case Inl e of
          Inl recovery \<Rightarrow> io_then (set_mem (\<lambda>j. j\<lparr>j_error := Some (cause @ ''; recovery failed: '' @ recovery)\<rparr>))
            (io_then save (io_error (cause @ ''; recovery failed: '' @ recovery)))
        | Inr _ \<Rightarrow> io_then cleanup (io_error (cause @ ''; previous version restored''))) (\<lambda>_ _. False) (tx_inv h a s) (disk_ok h a s) w2"
      unfolding sum.case wp_simps
      by (intro allI wp_save_inv [where h = h and a = a and s = s]) (use 2 in auto)
  next
    fix x w2 assume "tx_inv h a s w2 \<and> synced w2 \<and> j_phase (mem w2) = Restored"
    then show "wp (case Inr x of
          Inl recovery \<Rightarrow> io_then (set_mem (\<lambda>j. j\<lparr>j_error := Some (cause @ ''; recovery failed: '' @ recovery)\<rparr>))
            (io_then save (io_error (cause @ ''; recovery failed: '' @ recovery)))
        | Inr _ \<Rightarrow> io_then cleanup (io_error (cause @ ''; previous version restored''))) (\<lambda>_ _. False) (tx_inv h a s) (disk_ok h a s) w2"
      unfolding sum.case wp_simps
      by (intro wp_cleanup [where h = h and a = a and s = s]) auto
  qed auto
qed auto

text \<open>Applying: the state after each durable phase.\<close>

definition in_phase :: "host \<Rightarrow> journal \<Rightarrow> phase \<Rightarrow> world \<Rightarrow> bool" where
  "in_phase h s p w \<longleftrightarrow> synced w \<and> j_phase (mem w) = p \<and> jr_ok h True s (mem w) w"

lemma in_phase_inv: "in_phase h s p w \<Longrightarrow> tx_inv h True s w \<and> disk_ok h True s w"
  by (auto simp: in_phase_def synced_inv inv_disk)

lemma in_phase_same: "same core w w' \<Longrightarrow> in_phase h s p w \<Longrightarrow> in_phase h s p w'"
  using same_jr_ok [of w w'] by (auto simp: in_phase_def same_synced same_def synced_def)

lemma has_hash_same: "same F w w' \<Longrightarrow> f \<in> F \<Longrightarrow> has_hash h w' f x = has_hash h w f x"
  by (simp add: same_def has_hash_def)

lemma jr_ok_material:
  assumes "same material w w'" "j_phase j = Replacing \<or> j_phase j = Validating \<or> j_phase j = RollingBack"
  shows "jr_ok h a s j w' = jr_ok h a s j w"
proof -
  have "has_hash h w' f x = has_hash h w f x" if "f \<in> material" for f x
    by (rule has_hash_same [OF assms(1) that])
  then show ?thesis using assms(2) by (elim disjE) (simp_all add: jr_ok_def material_def)
qed

lemma in_phase_material:
  assumes "same material w w'" "p \<in> {Replacing, Validating, RollingBack}" "in_phase h s p w"
  shows "in_phase h s p w'"
proof -
  have "mem w' = mem w" "synced w' = synced w" using assms(1) same_synced by (auto simp: same_def)
  with assms(2,3) jr_ok_material [OF assms(1)] show ?thesis by (auto simp: in_phase_def)
qed

lemma in_phase_lock [simp]: "in_phase h s p (w\<lparr>lock_held := b\<rparr>) = in_phase h s p w"
  by (simp add: in_phase_def synced_def jr_ok_def has_hash_def)

lemma in_phase_advance:
  assumes "in_phase h s p w" "jr_ok h True s (enter_phase p' (mem w)) w"
    and "\<And>w'. in_phase h s p' w' \<Longrightarrow> (\<forall>f. f \<notin> volatile \<longrightarrow> files w' f = files w f) \<Longrightarrow> Q () w'"
    and "\<And>w'. tx_inv h True s w' \<Longrightarrow> E w'" "\<And>w'. disk_ok h True s w' \<Longrightarrow> C w'"
  shows "wp (advance p') Q E C w"
proof (rule wp_advance)
  show "disk_ok h True s w" using assms(1) in_phase_inv by blast
  fix w' assume "tx_inv h True s w'" "synced w'" "mem w' = enter_phase p' (mem w)"
    and f: "\<forall>f. f \<notin> volatile \<longrightarrow> files w' f = files w f"
  then have "in_phase h s p' w'" by (simp add: in_phase_def tx_inv_def enter_phase_def)
  with f assms(3) show "Q () w'" by blast
qed (use assms in auto)

definition unsnapped :: "host \<Rightarrow> journal \<Rightarrow> world \<Rightarrow> bool" where
  "unsnapped h s w \<longleftrightarrow>
     (\<exists>j. jfile w = Some (Holds j) \<and> j_phase j = Stopping \<and> jr_ok h True s j w)
     \<and> j_phase (mem w) = Stopping \<and> jr_ok h True s (mem w) w"

lemma jr_ok_stopping:
  assumes "same {Executable, Previous_exe, Recovery_exe} w w'" "j_phase j = Stopping"
  shows "jr_ok h a s j w \<Longrightarrow> jr_ok h a s j w'"
proof -
  have "has_hash h w' f x = has_hash h w f x" if "f \<in> {Executable, Previous_exe, Recovery_exe}" for f x
    by (rule has_hash_same [OF assms(1) that])
  then show "jr_ok h a s j w \<Longrightarrow> jr_ok h a s j w'" using assms(2) by (simp add: jr_ok_def)
qed

lemma jr_ok_snapped:
  assumes "jr_ok h a s j w" "j_phase j = Stopping" "\<And>y. x = Some y \<Longrightarrow> has_hash h w Snapshot_file y"
  shows "jr_ok h a s (enter_phase Snapshot (j\<lparr>j_database_sha256 := x\<rparr>)) w"
  using assms by (simp add: jr_ok_def enter_phase_def terminal_def static_def)

lemma unsnapped_same:
  assumes "same {Executable, Previous_exe, Recovery_exe} w w'" "unsnapped h s w"
  shows "unsnapped h s w'"
proof -
  have "mem w' = mem w" "jfile w' = jfile w" using assms(1) by (simp_all add: same_def)
  with assms(2) jr_ok_stopping [OF assms(1)] show ?thesis unfolding unsnapped_def by auto
qed

lemma unsnapped_inv: "unsnapped h s w \<Longrightarrow> tx_inv h True s w \<and> disk_ok h True s w"
  by (auto simp: unsnapped_def tx_inv_def disk_ok_def)

lemma keeps_checkpoint: "F \<inter> volatile = {} \<Longrightarrow> keeps F (checkpoint h)"
proof -
  assume F: "F \<inter> volatile = {}"
  have "keeps F (effect (\<lambda>c w. put_file State_db c w) (\<lambda>w1.
     case files w1 State_db of
       None \<Rightarrow> Inl ''not found''
     | Some db \<Rightarrow>
         if b then Inl ''Database checkpoint is busy''
         else Inr ((), put_file State_wal None (put_file State_db (Some (h_checkpoint h db (files w1 State_wal))) w1))))" for b
    by (rule keeps_effect [OF F]) (use F in \<open>auto split: option.splits if_splits\<close>)
  then show ?thesis by (auto simp: keeps_def checkpoint_def)
qed

lemma wp_snapshot_database:
  assumes "in_phase h s Stopping w"
    and "\<And>w'. in_phase h s Snapshot w' \<Longrightarrow> Q () w'"
    and "\<And>w'. tx_inv h True s w' \<Longrightarrow> E w'" "\<And>w'. disk_ok h True s w' \<Longrightarrow> C w'"
  shows "wp (snapshot_database h) Q E C w"
proof -
  let ?G = "{Executable, Previous_exe, Recovery_exe}"
  let ?w = "w\<lparr>mem := (mem w)\<lparr>j_database_existed := files w State_db \<noteq> None\<rparr>\<rparr>"
  have G: "?G \<inter> volatile = {}" by auto
  have u: "unsnapped h s ?w"
    using assms(1) by (auto simp: unsnapped_def in_phase_def synced_def jr_ok_def has_hash_def static_def)
  have E: "E w'" "C w'" if "unsnapped h s w'" for w' using unsnapped_inv [OF that] assms(3,4) by blast+
  have adv: "wp (advance Snapshot) Q E C (w'\<lparr>mem := (mem w')\<lparr>j_database_sha256 := x\<rparr>\<rparr>)"
    if u': "unsnapped h s w'" and x: "\<And>y. x = Some y \<Longrightarrow> has_hash h w' Snapshot_file y" for w' x
  proof (rule wp_advance)
    show "disk_ok h True s (w'\<lparr>mem := (mem w')\<lparr>j_database_sha256 := x\<rparr>\<rparr>)"
      using u' unsnapped_inv by (auto simp: disk_ok_def)
    show "jr_ok h True s (enter_phase Snapshot (mem (w'\<lparr>mem := (mem w')\<lparr>j_database_sha256 := x\<rparr>\<rparr>)))
        (w'\<lparr>mem := (mem w')\<lparr>j_database_sha256 := x\<rparr>\<rparr>)"
      using jr_ok_snapped [of h True s "mem w'" w' x] u' x by (simp add: unsnapped_def)
    fix w'' assume "tx_inv h True s w''" "synced w''"
      "mem w'' = enter_phase Snapshot (mem (w'\<lparr>mem := (mem w')\<lparr>j_database_sha256 := x\<rparr>\<rparr>))"
    then show "Q () w''" using assms(2) by (simp add: in_phase_def tx_inv_def enter_phase_def terminal_def)
  qed (use assms(3,4) in auto)
  show ?thesis
  proof (cases "files w State_db = None")
    case True
    from u have "j_database_sha256 (mem ?w) = None" by (auto simp: unsnapped_def jr_ok_def)
    then have "?w\<lparr>mem := (mem ?w)\<lparr>j_database_sha256 := None\<rparr>\<rparr> = ?w" by simp
    with adv [OF u, of None] True show ?thesis unfolding snapshot_database_def wp_simps by (simp add: wp_simps)
  next
    case False
    have "wp (checkpoint h) (\<lambda>_. wp (copy_sync State_db Snapshot_file) (\<lambda>_. wp (sha256_file h Snapshot_file)
        (\<lambda>x w. wp (advance Snapshot) Q E C (w\<lparr>mem := (mem w)\<lparr>j_database_sha256 := Some x\<rparr>\<rparr>)) E C) E C) E C ?w"
    proof (rule wp_keeps [OF keeps_checkpoint [OF G]])
      fix w1 assume "same ?G ?w w1"
      then have u1: "unsnapped h s w1" using unsnapped_same u by blast
      show "wp (copy_sync State_db Snapshot_file) (\<lambda>_. wp (sha256_file h Snapshot_file)
        (\<lambda>x w. wp (advance Snapshot) Q E C (w\<lparr>mem := (mem w)\<lparr>j_database_sha256 := Some x\<rparr>\<rparr>)) E C) E C w1"
      proof (rule wp_keeps [OF keeps_files(2) [OF G]])
        fix w2 assume "same ?G w1 w2"
        then have u2: "unsnapped h s w2" using unsnapped_same u1 by blast
        then have u3: "unsnapped h s (tick w2)" using unsnapped_same [OF tick_same [OF G]] by blast
        show "wp (sha256_file h Snapshot_file)
          (\<lambda>x w. wp (advance Snapshot) Q E C (w\<lparr>mem := (mem w)\<lparr>j_database_sha256 := Some x\<rparr>\<rparr>)) E C w2"
          by (rule wp_sha256_file) (use adv [OF u3] E [OF u3] in auto)
      qed (use u1 unsnapped_same E in \<open>blast | simp\<close>)+
    qed (use u unsnapped_same E in blast)+
    with False show ?thesis unfolding snapshot_database_def wp_simps by (simp add: wp_simps)
  qed
qed

lemma wp_replace_binary:
  assumes "\<And>w'. same material w w' \<Longrightarrow> has_hash h w' Executable (j_new_sha256 (mem w)) \<Longrightarrow> Q () w'"
    and "\<And>w'. same material w w' \<Longrightarrow> E w' \<and> C w'"
  shows "wp (replace_binary h) Q E C w"
proof -
  let ?F = "insert Candidate_exe material"
  have F: "?F \<inter> volatile = {}" by (auto simp: material_def)
  have t: "same ?F w w' \<Longrightarrow> same ?F w (tick w')" for w' by (rule same_trans [OF _ tick_same [OF F]])
  have E: "E w'" "C w'" if "same ?F w w'" for w' using assms(2) [of w'] same_mono [OF that, of material] by auto
  have last: "wp (atomic_replace Candidate_exe Executable) Q E C w'"
    if sm: "same ?F w w'" and hash: "has_hash h w Candidate_exe (j_new_sha256 (mem w))" for w'
  proof (rule wp_atomic_replace)
    have sm': "same ?F w (tick w')" by (rule t [OF sm])
    with E show "E (tick w')" "C (tick w')" by blast+
    fix c assume c: "files (tick w') Candidate_exe = Some c"
    show "Q () (put_file Executable (Some c) (put_file Candidate_exe None (tick w')))"
      using sm' hash c by (intro assms(1)) (auto simp: same_def material_def put_file_def has_hash_def)
  qed
  have "wp (checked_hash h Candidate_exe (j_new_sha256 (mem w))) (\<lambda>_. wp (checked_hash h Previous_exe (j_old_sha256 (mem w)))
      (\<lambda>_. wp (move_if_present Executable Retired_exe) (\<lambda>_. wp (atomic_replace Candidate_exe Executable) Q E C) E C) E C) E C w"
  proof (rule wp_checked_hash)
    have s0: "same ?F w (tick w)" by (rule t) simp
    with E show "E (tick w)" "C (tick w)" by blast+
    assume "has_hash h (tick w) Candidate_exe (j_new_sha256 (mem w))"
    then have hash: "has_hash h w Candidate_exe (j_new_sha256 (mem w))" using s0 by (simp add: has_hash_def same_def)
    have k: "keeps ?F (move_if_present Executable Retired_exe)"
      by (rule keeps_more(3) [OF F]) (auto simp: material_def)
    show "wp (checked_hash h Previous_exe (j_old_sha256 (mem w)))
      (\<lambda>_. wp (move_if_present Executable Retired_exe) (\<lambda>_. wp (atomic_replace Candidate_exe Executable) Q E C) E C) E C (tick w)"
    proof (rule wp_keeps [OF keeps_more(1) [OF F]])
      fix w2 assume "same ?F (tick w) w2"
      then have s2: "same ?F w w2" using s0 same_trans by blast
      show "wp (move_if_present Executable Retired_exe) (\<lambda>_. wp (atomic_replace Candidate_exe Executable) Q E C) E C w2"
        by (rule wp_keeps [OF k]) (use s2 same_trans last hash E in blast)+
    qed (use s0 same_trans E in blast)+
  qed
  then show ?thesis unfolding replace_binary_def wp_simps .
qed

text \<open>The candidate is in place and may be validated and committed.\<close>

definition candidate_live :: "host \<Rightarrow> journal \<Rightarrow> world \<Rightarrow> bool" where
  "candidate_live h s w \<longleftrightarrow> in_phase h s Validating w \<and> has_hash h w Executable (j_new_sha256 s)"

lemma candidate_live_same: "same core w w' \<Longrightarrow> candidate_live h s w \<Longrightarrow> candidate_live h s w'"
  using in_phase_same [of w w'] same_core_hash [of w w'] by (auto simp: candidate_live_def)

lemma candidate_live_inv: "candidate_live h s w \<Longrightarrow> tx_inv h True s w \<and> disk_ok h True s w"
  using in_phase_inv by (auto simp: candidate_live_def)

lemma in_phase_jr: "in_phase h s p w \<Longrightarrow> jr_ok h True s (mem w) w \<and> j_phase (mem w) = p \<and> (\<not> terminal p \<longrightarrow> j_armed (mem w))"
  by (auto simp: in_phase_def jr_ok_def)

lemma jr_ok_later:
  assumes "jr_ok h True s j w" "j_armed j" "p \<in> {Stopping, Replacing, Validating}"
    "p = Stopping \<longrightarrow> j_phase j = Prepared"
  shows "jr_ok h True s (enter_phase p j) w"
  using assms by (auto simp: jr_ok_def enter_phase_def terminal_def static_def)

lemma wp_install_step:
  assumes "in_phase h s Stopping w"
  shows "wp (io_then (snapshot_database h) (io_then (advance Replacing) (io_then (replace_binary h) (advance Validating))))
    (\<lambda>_. candidate_live h s) (tx_inv h True s) (disk_ok h True s) w"
  unfolding wp_simps
proof (rule wp_snapshot_database [OF assms])
  fix w1 assume 1: "in_phase h s Snapshot w1"
  then have p1: "j_phase (mem w1) = Snapshot" "j_armed (mem w1)" "jr_ok h True s (mem w1) w1"
    using in_phase_jr [OF 1] by (auto simp: terminal_def)
  show "wp (advance Replacing) (\<lambda>_. wp (replace_binary h) (\<lambda>_. wp (advance Validating) (\<lambda>_. candidate_live h s)
      (tx_inv h True s) (disk_ok h True s)) (tx_inv h True s) (disk_ok h True s)) (tx_inv h True s) (disk_ok h True s) w1"
  proof (rule in_phase_advance [OF 1])
    show "jr_ok h True s (enter_phase Replacing (mem w1)) w1" by (rule jr_ok_later) (use p1 in auto)
    fix w2 assume 2: "in_phase h s Replacing w2"
    then have new: "j_new_sha256 (mem w2) = j_new_sha256 s" using static_old by (auto simp: in_phase_def)
    have keep: "in_phase h s Replacing w3" if "same material w2 w3" for w3
      by (rule in_phase_material [OF that _ 2]) simp
    show "wp (replace_binary h) (\<lambda>_. wp (advance Validating) (\<lambda>_. candidate_live h s)
      (tx_inv h True s) (disk_ok h True s)) (tx_inv h True s) (disk_ok h True s) w2"
    proof (rule wp_replace_binary)
      fix w3 assume sm: "same material w2 w3"
      have 3: "in_phase h s Replacing w3" by (rule keep [OF sm])
      { assume "has_hash h w3 Executable (j_new_sha256 (mem w2))"
        then have hash: "has_hash h w3 Executable (j_new_sha256 s)" using new by simp
        from in_phase_jr [OF 3] have p3: "j_phase (mem w3) = Replacing" "j_armed (mem w3)" "jr_ok h True s (mem w3) w3"
          by (auto simp: terminal_def)
        show "wp (advance Validating) (\<lambda>_. candidate_live h s) (tx_inv h True s) (disk_ok h True s) w3"
        proof (rule in_phase_advance [OF 3])
          show "jr_ok h True s (enter_phase Validating (mem w3)) w3" by (rule jr_ok_later) (use p3 in auto)
          fix w4 assume "in_phase h s Validating w4" "\<forall>f. f \<notin> volatile \<longrightarrow> files w4 f = files w3 f"
          with hash show "candidate_live h s w4" by (simp add: candidate_live_def has_hash_def)
        qed auto }
      show "tx_inv h True s w3 \<and> disk_ok h True s w3" using 3 in_phase_inv by blast
    qed
  qed auto
qed auto

lemma wp_locked:
  assumes "keeps core (server_down)" "P w" "\<And>w w'. same core w w' \<Longrightarrow> P w \<Longrightarrow> P w'"
    and "\<And>w b. P (w\<lparr>lock_held := b\<rparr>) = P w"
    and "\<And>w b. Q () (w\<lparr>lock_held := b\<rparr>) = Q () w" "\<And>w b. E (w\<lparr>lock_held := b\<rparr>) = E w" "\<And>w b. C (w\<lparr>lock_held := b\<rparr>) = C w"
    and "\<And>w. P w \<Longrightarrow> wp body Q E C w" "\<And>w. P w \<Longrightarrow> E w \<and> C w"
  shows "wp (with_server_lock body) Q E C w"
proof (rule wp_server_lock, rule wp_keeps [OF assms(1)])
  fix free w' assume "same core w w'"
  then have P: "P w'" using assms(2,3) by blast
  then have "wp body Q E C (w'\<lparr>lock_held := True\<rparr>)" using assms(4,8) by blast
  then have "wp body (\<lambda>x w'. Q x (w'\<lparr>lock_held := False\<rparr>)) (\<lambda>w'. E (w'\<lparr>lock_held := False\<rparr>))
      (\<lambda>w'. C (w'\<lparr>lock_held := False\<rparr>)) (w'\<lparr>lock_held := True\<rparr>)"
    by (rule wp_mono) (use assms(5-7) in auto)
  then show "if free then wp body (\<lambda>x w'. Q x (w'\<lparr>lock_held := False\<rparr>)) (\<lambda>w'. E (w'\<lparr>lock_held := False\<rparr>))
      (\<lambda>w'. C (w'\<lparr>lock_held := False\<rparr>)) (w'\<lparr>lock_held := True\<rparr>) else E w'"
    using P assms(9) by simp
qed (use assms(2,3,9) in blast)+

lemma inv_lock [simp]: "tx_inv h a s (w\<lparr>lock_held := b\<rparr>) = tx_inv h a s w" "disk_ok h a s (w\<lparr>lock_held := b\<rparr>) = disk_ok h a s w"
  by (simp_all add: tx_inv_def disk_ok_def jr_ok_def has_hash_def)

lemma candidate_live_lock [simp]: "candidate_live h s (w\<lparr>lock_held := b\<rparr>) = candidate_live h s w"
  by (simp add: candidate_live_def)

lemma wp_apply:
  assumes "in_phase h s Prepared w"
  shows "wp (apply_update h) (\<lambda>_ w'. tx_inv h True s w') (tx_inv h True s) (disk_ok h True s) w" (is "wp _ ?Q ?E ?C w")
  unfolding apply_update_def wp_simps
proof (rule in_phase_advance [OF assms])
  from in_phase_jr [OF assms] have p: "j_phase (mem w) = Prepared" "j_armed (mem w)" "jr_ok h True s (mem w) w"
    by (auto simp: terminal_def)
  show "jr_ok h True s (enter_phase Stopping (mem w)) w" by (rule jr_ok_later) (use p in auto)
  fix w1 assume 1: "in_phase h s Stopping w1"
  let ?commit = "\<lambda>w. wp (io_when (\<not> j_was_running (mem w)) stop) (\<lambda>_. wp (advance Committed) ?Q ?E ?C) ?E ?C w"
  let ?live = "\<lambda>w. wp start (\<lambda>_. wp (wait_ready False) (\<lambda>_. ?commit) ?E ?C) ?E ?C w"
  have commit: "wp (advance Committed) ?Q ?E ?C w'" if "candidate_live h s w'" for w'
  proof (rule wp_advance)
    show "disk_ok h True s w'" using that candidate_live_inv by blast
    show "jr_ok h True s (enter_phase Committed (mem w')) w'"
      using that by (auto simp: candidate_live_def in_phase_def jr_ok_def enter_phase_def terminal_def static_def)
  qed auto
  have stopped: "?commit w'" if "candidate_live h s w'" for w'
  proof (rule wp_keeps)
    show "keeps core (io_when (\<not> j_was_running (mem w')) stop)" by (intro keeps_intros core_volatile)
  qed (use that candidate_live_same commit candidate_live_inv in blast)+
  have live: "?live w'" if "candidate_live h s w'" for w'
  proof (rule wp_keeps [OF keeps_start [OF core_volatile(1)]])
    fix w'' assume "same core w' w''"
    then have c: "candidate_live h s w''" using that candidate_live_same by blast
    show "wp (wait_ready False) (\<lambda>_. ?commit) ?E ?C w''"
      by (rule wp_keeps [OF keeps_wait_ready [OF core_volatile(1)]])
         (use c candidate_live_same stopped candidate_live_inv in blast)+
  qed (use that candidate_live_same candidate_live_inv in blast)+
  show "wp stop (\<lambda>_. wp (with_server_lock (io_then (snapshot_database h) (io_then (advance Replacing)
      (io_then (replace_binary h) (advance Validating))))) (\<lambda>_. ?live) ?E ?C) ?E ?C w1"
  proof (rule wp_keeps [OF keeps_stop [OF core_volatile(1)]])
    fix w2 assume "same core w1 w2"
    then have 2: "in_phase h s Stopping w2" using 1 in_phase_same by blast
    have "wp (with_server_lock (io_then (snapshot_database h) (io_then (advance Replacing)
      (io_then (replace_binary h) (advance Validating))))) (\<lambda>_. candidate_live h s) ?E ?C w2"
      by (rule wp_locked [where P = "in_phase h s Stopping"])
         (use 2 in_phase_same wp_install_step in_phase_inv keeps_queries(1) [OF core_volatile(1)] in \<open>auto | blast\<close>)
    then show "wp (with_server_lock (io_then (snapshot_database h) (io_then (advance Replacing)
      (io_then (replace_binary h) (advance Validating))))) (\<lambda>_. ?live) ?E ?C w2"
      by (rule wp_mono) (use live in auto)
  qed (use 1 in_phase_same in_phase_inv in blast)+
qed auto

subsection \<open>Beginning to commit\<close>

text \<open>
  All of an update but its last step, the recording of the commit; and the first runs that get there: they read a
  prepared, armed journal, find it valid, and do all of that without an error or a stop.
\<close>

definition forward :: "host \<Rightarrow> unit io" where
  "forward h =
     io_then (advance Stopping)
     (io_then stop
     (io_then (with_server_lock
        (io_then (snapshot_database h)
        (io_then (advance Replacing)
        (io_then (replace_binary h) (advance Validating)))))
     (io_then start
     (io_then (wait_ready False)
     (io_bind get_mem (\<lambda>j. io_when (\<not> j_was_running j) stop))))))"

definition commit_begun :: "host \<Rightarrow> string \<Rightarrow> world \<Rightarrow> bool" where
  "commit_begun h d w \<longleftrightarrow>
     fst (io_then load_journal
       (io_bind (io_try (validate_journal h d)) (\<lambda>v. case v of
           Inl cause \<Rightarrow> io_error cause
         | Inr _ \<Rightarrow> io_bind get_mem (\<lambda>j.
             if j_phase j = Prepared \<and> j_armed j then forward h else io_error ''not prepared''))) w) = Done ()"

lemma io_bind_assoc: "io_bind (io_bind m f) g = io_bind m (\<lambda>x. io_bind (f x) g)"
  by (rule ext) (simp add: io_bind_def split: prod.split outcome.split)

lemma apply_update_forward: "apply_update h = io_then (forward h) (advance Committed)"
  by (simp add: apply_update_def forward_def io_then_def io_bind_assoc)

text \<open>Nothing before the commit disarms the journal in memory.\<close>

definition stays_armed :: "'a io \<Rightarrow> bool" where
  "stays_armed m \<longleftrightarrow> (\<forall>w. j_armed (mem w) \<longrightarrow> j_armed (mem (snd (m w))))"

lemma armed_keeps: "keeps {} m \<Longrightarrow> stays_armed m"
  by (simp add: keeps_def stays_armed_def same_def)

lemma armed_bind: "stays_armed m \<Longrightarrow> (\<And>x. stays_armed (f x)) \<Longrightarrow> stays_armed (io_bind m f)"
  unfolding stays_armed_def io_bind_def by (auto split: prod.split outcome.split)

lemma armed_then: "stays_armed m \<Longrightarrow> stays_armed n \<Longrightarrow> stays_armed (io_then m n)"
  by (simp add: io_then_def armed_bind)

lemma armed_effect:
  assumes "\<And>c w. mem (torn c w) = mem w" "\<And>w x w'. act w = Inr (x, w') \<Longrightarrow> mem w' = mem w"
  shows "stays_armed (effect torn act)"
  using assms by (auto simp: stays_armed_def effect_def Let_def tick_keeps split: fault.splits sum.splits)

lemma armed_set: "(\<And>j. j_armed j \<Longrightarrow> j_armed (f j)) \<Longrightarrow> stays_armed (set_mem f)"
  by (simp add: stays_armed_def set_mem_def)

lemma armed_save: "stays_armed save"
  unfolding save_def by (intro armed_then armed_effect) (auto simp: no_trace_def)

lemma armed_advance: "\<not> terminal p \<Longrightarrow> stays_armed (advance p)"
  unfolding advance_def by (intro armed_then armed_set armed_save) (simp add: enter_phase_def)

lemma armed_lock:
  assumes "stays_armed body"
  shows "stays_armed (with_server_lock body)"
proof -
  have "stays_armed (\<lambda>w. case body (w\<lparr>lock_held := True\<rparr>) of (r, w') \<Rightarrow> (r, w'\<lparr>lock_held := False\<rparr>))"
    unfolding stays_armed_def split_def
  proof (intro allI impI)
    fix w :: world assume "j_armed (mem w)"
    then have "j_armed (mem (w\<lparr>lock_held := True\<rparr>))" by simp
    with assms have "j_armed (mem (snd (body (w\<lparr>lock_held := True\<rparr>))))" unfolding stays_armed_def by blast
    then show "j_armed (mem (snd (fst (body (w\<lparr>lock_held := True\<rparr>)), (snd (body (w\<lparr>lock_held := True\<rparr>)))\<lparr>lock_held := False\<rparr>)))" by simp
  qed
  moreover have "stays_armed server_down" by (rule armed_keeps [OF keeps_queries(1)]) simp
  moreover have "stays_armed (io_error e :: unit io)" for e by (rule armed_keeps [OF keeps_basic(2)])
  ultimately show ?thesis unfolding with_server_lock_def by (intro armed_bind) simp_all
qed

lemma armed_snapshot: "stays_armed (snapshot_database h)"
proof -
  have "stays_armed (checkpoint h)" by (rule armed_keeps [OF keeps_checkpoint]) simp
  moreover have "stays_armed (copy_sync State_db Snapshot_file)" "stays_armed (sha256_file h Snapshot_file)"
    by (rule armed_keeps, rule keeps_files; simp)+
  moreover have "stays_armed (io_return ())" "stays_armed (file_exists State_db)" by (rule armed_keeps, rule keeps_basic)+
  moreover have "stays_armed (set_mem (\<lambda>j. j\<lparr>j_database_existed := b\<rparr>))" "stays_armed (set_mem (\<lambda>j. j\<lparr>j_database_sha256 := x\<rparr>))"
    for b x by (rule armed_set, simp)+
  moreover have "stays_armed (advance Snapshot)" by (rule armed_advance) (simp add: terminal_def)
  ultimately show ?thesis unfolding snapshot_database_def by (intro armed_bind armed_then) (simp_all add: armed_bind armed_then)
qed

lemma armed_forward: "stays_armed (forward h)"
proof -
  have "stays_armed (advance p)" if "p \<in> {Stopping, Replacing, Validating}" for p
    using that by (intro armed_advance) (auto simp: terminal_def)
  moreover have "stays_armed stop" "stays_armed start" "stays_armed (wait_ready b)" "stays_armed (replace_binary h)" for b
    by (rule armed_keeps, (rule keeps_stop keeps_start keeps_wait_ready keeps_replace_binary), simp)+
  moreover from this(1) have "stays_armed (io_bind get_mem (\<lambda>j. io_when (\<not> j_was_running j) stop))"
    by (intro armed_bind armed_keeps [OF keeps_basic(3)]) (simp add: io_when_def armed_keeps [OF keeps_basic(1)])
  ultimately show ?thesis unfolding forward_def by (intro armed_then armed_lock armed_snapshot) simp_all
qed

subsection \<open>Every run of the worker\<close>

lemma wp_load_journal:
  assumes "disk_ok h a s w" "\<And>w'. synced w' \<Longrightarrow> jr_ok h a s (mem w') w' \<Longrightarrow> Q () w'"
    and "\<And>w'. disk_ok h a s w' \<Longrightarrow> E w' \<and> C w'"
  shows "wp load_journal Q E C w"
proof -
  have t: "disk_ok h a s (tick w)" using assms(1) same_disk_ok [OF tick_same [OF core_volatile(1)]] by simp
  then obtain j where j: "jfile (tick w) = Some (Holds j)" "jr_ok h a s j (tick w)" by (auto simp: disk_ok_def)
  show ?thesis
    unfolding load_journal_def
    by (rule wp_effect)
       (use t j assms(2) [of "(tick w)\<lparr>mem := j\<rparr>"] assms(3) in
         \<open>auto simp: no_trace_def read_journal_def synced_def split: if_splits\<close>)
qed

lemma wp_abandon:
  assumes "synced w" "jr_ok h a s (mem w) w"
  shows "wp (abandon cause) (\<lambda>_. disk_ok h a s) (disk_ok h a s) (disk_ok h a s) w"
proof -
  have i: "tx_inv h a s w" by (rule synced_inv [OF assms])
  show ?thesis
  proof (cases "j_armed (mem w) \<and> j_phase (mem w) = Prepared")
    case False
    then show ?thesis using inv_disk [OF i]
      unfolding abandon_def wp_simps by (simp only: io_when_def if_False wp_simps)
  next
    case True
    let ?m = "(mem w)\<lparr>j_error := Some (cause @ ''; update abandoned, nothing changed''), j_armed := False\<rparr>"
    let ?w = "w\<lparr>mem := ?m\<rparr>"
    have "wp (advance Restored) (\<lambda>_. wp cleanup (\<lambda>_. disk_ok h a s) (disk_ok h a s) (disk_ok h a s))
        (disk_ok h a s) (disk_ok h a s) ?w"
    proof (rule wp_advance [where a = a and s = s and h = h])
      show "disk_ok h a s ?w" using inv_disk [OF i] by (simp add: disk_ok_def)
      show "jr_ok h a s (enter_phase Restored (mem ?w)) ?w"
        using assms(2) True by (auto simp: jr_ok_def enter_phase_def terminal_def static_def has_hash_def)
      fix w' assume "tx_inv h a s w'"
      then show "wp cleanup (\<lambda>_. disk_ok h a s) (disk_ok h a s) (disk_ok h a s) w'"
        by (rule wp_cleanup) (auto intro: inv_disk)
    qed (auto intro: inv_disk)
    with True show ?thesis
      unfolding abandon_def wp_simps by (simp only: io_when_def if_True wp_simps simp_thms)
  qed
qed

lemma wp_finish:
  assumes "tx_inv h a s w"
  shows "wp cleanup (\<lambda>_. disk_ok h a s) (disk_ok h a s) (disk_ok h a s) w"
  by (rule wp_cleanup [OF assms]) (auto intro: inv_disk)

text \<open>
  The update itself, for a run whose forward part does not end normally: an error leaves the journal armed.
\<close>

lemma wp_apply_armed:
  assumes "in_phase h s Prepared w" "wp (forward h) (\<lambda>_ _. False) (\<lambda>_. True) (\<lambda>_. True) w"
  shows "wp (apply_update h) (\<lambda>_ _. False) (\<lambda>w'. tx_inv h True s w' \<and> j_armed (mem w')) (disk_ok h True s) w"
proof -
  have "j_armed (mem w)" using in_phase_jr [OF assms(1)] by (simp add: terminal_def)
  with armed_forward [of h] have "wp (forward h) (\<lambda>_ w'. j_armed (mem w')) (\<lambda>w'. j_armed (mem w')) (\<lambda>_. True) w"
    by (auto simp: wp_def stays_armed_def split: prod.split outcome.split)
  from wp_conj [OF this assms(2)]
  have "wp (apply_update h) (\<lambda>_ _. False) (\<lambda>w'. j_armed (mem w')) (\<lambda>_. True) w"
    unfolding apply_update_forward wp_then by (rule wp_mono) auto
  from wp_mono [OF wp_conj [OF wp_apply [OF assms(1)] this]] show ?thesis by auto
qed

text \<open>
  Every run, strict in what it leaves (an unfinished transaction stays armed) if it is a recovery or does not
  begin to commit.
\<close>

definition worker_step_from :: "host \<Rightarrow> bool \<Rightarrow> unit io" where
  "worker_step_from h recover =
     io_bind get_mem (\<lambda>j.
       if terminal (j_phase j) then cleanup
       else if \<not> j_armed j then io_then (advance Restored) cleanup
       else io_bind (if \<not> recover \<and> j_phase j = Prepared then io_try (apply_update h)
           else io_return (Inl ''Interrupted update; restoring previous version''))
         (\<lambda>result. case result of Inl cause \<Rightarrow> roll_back_after h cause | Inr _ \<Rightarrow> cleanup))"

lemma run_worker_steps:
  "run_worker h d recover =
     io_then load_journal (io_bind (io_try (validate_journal h d))
       (\<lambda>v. case v of Inl cause \<Rightarrow> abandon cause | Inr _ \<Rightarrow> worker_step_from h recover))"
  by (simp only: run_worker_def worker_step_from_def)

lemma wp_worker_step_from:
  assumes "synced w" "jr_ok h True s (mem w) w"
    and nc: "a \<Longrightarrow> \<not> recover \<Longrightarrow> j_phase (mem w) = Prepared \<Longrightarrow> wp (forward h) (\<lambda>_ _. False) (\<lambda>_. True) (\<lambda>_. True) w"
  shows "wp (worker_step_from h recover) (\<lambda>_. disk_ok h a s) (disk_ok h a s) (disk_ok h a s) w" (is "wp _ ?Q ?D ?D w")
proof -
  have i: "tx_inv h True s w" by (rule synced_inv [OF assms(1,2)])
  consider "terminal (j_phase (mem w))" | "\<not> terminal (j_phase (mem w))" "j_armed (mem w)"
    using assms(2) by (auto simp: jr_ok_def)
  then show ?thesis
  proof cases
    case 1
    have "wp cleanup ?Q ?D ?D w" by (rule wp_finish [OF inv_relax [OF i]])
    with 1 show ?thesis unfolding worker_step_from_def wp_bind wp_state by simp
  next
    case armed: 2
    have undo: "wp (roll_back_after h cause) ?Q ?D ?D w'" if "tx_inv h True s w'" "a \<longrightarrow> j_armed (mem w')" for cause w'
      by (rule wp_mono [OF wp_roll_back_after [OF inv_relax [OF that(1)] that(2)]]) (auto intro: inv_disk)
    show ?thesis
    proof (cases "\<not> recover \<and> j_phase (mem w) = Prepared")
      case False
      have "wp (roll_back_after h ''Interrupted update; restoring previous version'') ?Q ?D ?D w"
        by (rule undo [OF i]) (use armed in simp)
      with armed False show ?thesis
        unfolding worker_step_from_def wp_bind wp_state by (simp only: if_False if_True wp_simps sum.case simp_thms)
    next
      case True
      then have phase: "in_phase h s Prepared w" using assms by (simp add: in_phase_def)
      have "wp (apply_update h) (\<lambda>_. tx_inv h True s) (\<lambda>w'. tx_inv h True s w' \<and> (a \<longrightarrow> j_armed (mem w'))) (disk_ok h True s) w"
      proof (cases a)
        case a: True
        show ?thesis by (rule wp_mono [OF wp_apply_armed [OF phase nc]]) (use a True in auto)
      qed (use wp_apply [OF phase] in simp)
      then have "wp (io_try (apply_update h)) (\<lambda>r. wp (case r of Inl cause \<Rightarrow> roll_back_after h cause | Inr _ \<Rightarrow> cleanup) ?Q ?D ?D) ?D ?D w"
        by (intro wp_try, elim wp_mono) (use undo wp_finish inv_relax disk_ok_relax in auto)
      with armed True show ?thesis
        unfolding worker_step_from_def wp_bind wp_state by (simp only: if_False if_True wp_simps simp_thms)
    qed
  qed
qed

lemma not_commit_begun:
  "\<not> commit_begun h d w \<longleftrightarrow>
     wp load_journal (\<lambda>_. wp (io_try (validate_journal h d)) (\<lambda>v w'. case v of Inl cause \<Rightarrow> True
       | Inr _ \<Rightarrow> j_phase (mem w') = Prepared \<longrightarrow> j_armed (mem w') \<longrightarrow> wp (forward h) (\<lambda>_ _. False) (\<lambda>_. True) (\<lambda>_. True) w')
       (\<lambda>_. True) (\<lambda>_. True)) (\<lambda>_. True) (\<lambda>_. True) w"
  by (auto simp: commit_begun_def wp_def io_then_def io_bind_def io_try_def get_mem_def io_error_def
      split: prod.split outcome.split sum.split)

lemma wp_run_worker:
  assumes "disk_ok h True s w" and nc: "a \<longrightarrow> recover \<or> \<not> commit_begun h d w"
  shows "wp (run_worker h d recover) (\<lambda>_. disk_ok h a s) (disk_ok h a s) (disk_ok h a s) w" (is "wp _ ?Q ?D ?D w")
proof -
  let ?ok = "\<lambda>w'. synced w' \<and> jr_ok h True s (mem w') w'"
  let ?nc = "\<lambda>w'. a \<longrightarrow> \<not> recover \<longrightarrow> j_phase (mem w') = Prepared \<longrightarrow> j_armed (mem w') \<longrightarrow>
    wp (forward h) (\<lambda>_ _. False) (\<lambda>_. True) (\<lambda>_. True) w'"
  let ?ncv = "\<lambda>(v :: string + unit) w'. case v of Inl cause \<Rightarrow> True | Inr _ \<Rightarrow> ?nc w'"
  have relax: "disk_ok h True s w' \<Longrightarrow> ?D w'" for w' by (rule disk_ok_relax)
  have "wp load_journal (\<lambda>_. ?ok) (disk_ok h True s) (disk_ok h True s) w" by (rule wp_load_journal [OF assms(1)]) auto
  moreover have "wp load_journal (\<lambda>_. wp (io_try (validate_journal h d)) ?ncv (\<lambda>_. True) (\<lambda>_. True)) (\<lambda>_. True) (\<lambda>_. True) w"
  proof (cases "a \<and> \<not> recover")
    case True
    then have flags: "a = True" "recover = False" by simp_all
    from nc have "\<not> commit_begun h d w" by (simp add: flags)
    then show ?thesis unfolding not_commit_begun flags simp_thms .
  qed (auto simp: wp_def split: prod.split outcome.split sum.split)
  ultimately show ?thesis
    unfolding run_worker_steps wp_then wp_bind
  proof (rule wp_mono [OF wp_conj])
    fix w1 assume 1: "?ok w1 \<and> wp (io_try (validate_journal h d)) ?ncv (\<lambda>_. True) (\<lambda>_. True) w1"
    have keep: "?ok w'" if "same core w1 w'" for w'
      using 1 same_synced [OF that] same_jr_ok [OF that] that by (simp add: same_def)
    have "wp (io_try (validate_journal h d)) (\<lambda>_. ?ok) ?ok ?ok w1"
      by (rule wp_try, rule wp_keeps [OF keeps_validate_journal [OF core_volatile(1)]]) (use keep in blast)+
    from wp_conj [OF this conjunct2 [OF 1]]
    show "wp (io_try (validate_journal h d)) (\<lambda>v. wp (case v of Inl cause \<Rightarrow> abandon cause | Inr _ \<Rightarrow> worker_step_from h recover) ?Q ?D ?D) ?D ?D w1"
    proof (rule wp_mono)
      fix v w2 assume 2: "?ok w2 \<and> ?ncv v w2"
      show "wp (case v of Inl cause \<Rightarrow> abandon cause | Inr _ \<Rightarrow> worker_step_from h recover) ?Q ?D ?D w2"
      proof (cases v)
        case (Inl cause)
        from 2 have "wp (abandon cause) (\<lambda>_. disk_ok h True s) (disk_ok h True s) (disk_ok h True s) w2" by (intro wp_abandon) auto
        with Inl show ?thesis by (auto elim: wp_mono intro: relax)
      next
        case (Inr u)
        have "wp (worker_step_from h recover) ?Q ?D ?D w2"
          by (rule wp_worker_step_from) (use 2 Inr in \<open>auto simp: jr_ok_def terminal_def\<close>)
        with Inr show ?thesis by simp
      qed
    qed (use synced_inv inv_disk relax in blast)+
  qed (use relax in blast)+
qed

lemma run_worker_disk:
  assumes "disk_ok h True s w" "a \<longrightarrow> recover \<or> \<not> commit_begun h d w"
  shows "disk_ok h a s (snd (run_worker h d recover w))"
  using wp_run_worker [OF assms] by (auto simp: wp_def split: prod.splits outcome.splits)

subsection \<open>An undisturbed recovery\<close>

definition calm_event :: "journal \<Rightarrow> event \<Rightarrow> bool" where
  "calm_event j e \<longleftrightarrow> ev_fault e = Succeeds \<and> ev_db e = None \<and> \<not> ev_dies e \<and> ev_stops e \<and> \<not> ev_starts e
     \<and> (\<exists>b. ev_body e = Some b \<and> validate_response j b True = Inr True)"

definition steady :: "journal \<Rightarrow> journal \<Rightarrow> (artifact \<Rightarrow> contents option) \<Rightarrow> journal_file option \<Rightarrow> contents option \<Rightarrow> string list \<Rightarrow> world \<Rightarrow> bool" where
  "steady s j fs jf sv ts w \<longleftrightarrow> (\<forall>n. calm_event s (script w n)) \<and> mem w = j \<and> files w = fs \<and> jfile w = jf
     \<and> server w = sv \<and> (sv = None \<or> \<not> stop_requested w) \<and> tasks w = ts \<and> \<not> update_locked w"

lemma calm_current: "steady s j fs jf sv ts w \<Longrightarrow> calm_event s (current w)"
  by (simp add: steady_def current_def)

lemma calm_tick: "steady s j fs jf sv ts w \<Longrightarrow> steady s j fs jf sv ts (tick w)"
  using calm_current [of s j fs jf sv ts w]
  by (auto simp: steady_def tick_def env_step_def calm_event_def)

lemma wp_calm_effect:
  assumes "steady s j fs jf sv ts w" "act (tick w) = Inr (x, w')" "Q x w'"
  shows "wp (effect torn act) Q E C w"
  using calm_current [OF assms(1)] assms(2,3) by (simp add: wp_def effect_def Let_def calm_event_def)

lemma calm_save:
  assumes "steady s j fs jf sv ts w" "\<And>w'. steady s j fs (Some (Holds j)) sv ts w' \<Longrightarrow> Q () w'"
  shows "wp save Q E C w"
  unfolding save_def wp_simps
proof (rule wp_calm_effect [OF assms(1)], rule refl)
  let ?a = "(tick w)\<lparr>jtmp := Some (Holds (mem (tick w)))\<rparr>"
  have a: "steady s j fs jf sv ts ?a" "jtmp ?a = Some (Holds j)" using calm_tick [OF assms(1)] by (simp_all add: steady_def)
  show "wp (effect no_trace (\<lambda>w. Inr ((), if jpublish w = None then w\<lparr>jpublish := Some Garbage\<rparr> else w)))
     (\<lambda>_. wp (effect no_trace (\<lambda>w. Inr ((), w))) (\<lambda>_. wp (effect (\<lambda>c w. w\<lparr>jpublish := Some Garbage\<rparr>) (\<lambda>w. Inr ((), w\<lparr>jpublish := jtmp w\<rparr>)))
       (\<lambda>_. wp (effect no_trace (\<lambda>w. Inr ((), w\<lparr>jfile := jpublish w, jpublish := None\<rparr>))) Q E C) E C) E C) E C ?a"
  proof (rule wp_calm_effect [OF a(1)], rule refl)
    let ?b = "if jpublish (tick ?a) = None then (tick ?a)\<lparr>jpublish := Some Garbage\<rparr> else tick ?a"
    have b: "steady s j fs jf sv ts ?b" "jtmp ?b = Some (Holds j)"
      using calm_tick [OF a(1)] a(2) by (auto simp: steady_def tick_keeps)
    show "wp (effect no_trace (\<lambda>w. Inr ((), w))) (\<lambda>_. wp (effect (\<lambda>c w. w\<lparr>jpublish := Some Garbage\<rparr>) (\<lambda>w. Inr ((), w\<lparr>jpublish := jtmp w\<rparr>)))
       (\<lambda>_. wp (effect no_trace (\<lambda>w. Inr ((), w\<lparr>jfile := jpublish w, jpublish := None\<rparr>))) Q E C) E C) E C ?b"
    proof (rule wp_calm_effect [OF b(1)], rule refl)
      let ?c = "tick ?b"
      have c: "steady s j fs jf sv ts ?c" "jtmp ?c = Some (Holds j)"
        using calm_tick [OF b(1)] b(2) by (simp_all only: tick_keeps)
      show "wp (effect (\<lambda>c w. w\<lparr>jpublish := Some Garbage\<rparr>) (\<lambda>w. Inr ((), w\<lparr>jpublish := jtmp w\<rparr>)))
       (\<lambda>_. wp (effect no_trace (\<lambda>w. Inr ((), w\<lparr>jfile := jpublish w, jpublish := None\<rparr>))) Q E C) E C ?c"
      proof (rule wp_calm_effect [OF c(1)], rule refl)
        let ?d = "(tick ?c)\<lparr>jpublish := jtmp (tick ?c)\<rparr>"
        have d: "steady s j fs jf sv ts ?d" "jpublish ?d = Some (Holds j)"
          using calm_tick [OF c(1)] c(2) by (simp_all add: steady_def tick_keeps)
        show "wp (effect no_trace (\<lambda>w. Inr ((), w\<lparr>jfile := jpublish w, jpublish := None\<rparr>))) Q E C ?d"
          by (rule wp_calm_effect [OF d(1)], rule refl, rule assms(2))
             (use calm_tick [OF d(1)] d(2) in \<open>simp add: steady_def tick_keeps\<close>)
      qed
    qed
  qed
qed

lemma steady_mem: "steady s j fs jf sv ts w \<Longrightarrow> steady s (f j) fs jf sv ts (w\<lparr>mem := f (mem w)\<rparr>)"
  by (simp add: steady_def)

lemma steady_put: "steady s j fs jf sv ts w \<Longrightarrow> steady s j (fs(f := c)) jf sv ts (put_file f c w)"
  by (simp add: steady_def put_file_def)

lemma calm_advance:
  assumes "steady s j fs jf sv ts w"
    "\<And>w'. steady s (enter_phase p j) fs (Some (Holds (enter_phase p j))) sv ts w' \<Longrightarrow> Q () w'"
  shows "wp (advance p) Q E C w"
  unfolding advance_def wp_simps by (rule calm_save [OF steady_mem [OF assms(1), of "enter_phase p"]], rule assms(2))

lemma calm_replace:
  assumes "steady s j fs jf sv ts w" "fs src = Some c"
    "\<And>w'. steady s j (fs(src := None, dst := Some c)) jf sv ts w' \<Longrightarrow> Q () w'"
  shows "wp (atomic_replace src dst) Q E C w"
proof -
  have t: "steady s j fs jf sv ts (tick w)" by (rule calm_tick [OF assms(1)])
  show ?thesis
    unfolding atomic_replace_def
    by (rule wp_calm_effect [OF assms(1), where x = "()" and w' = "put_file dst (Some c) (put_file src None (tick w))"])
       (use t assms(2) in \<open>simp add: steady_def\<close>, rule assms(3), rule steady_put, rule steady_put, rule t)
qed

lemma calm_copy:
  assumes "steady s j fs jf sv ts w" "fs src = Some c"
    "\<And>w'. steady s j (fs(dst := Some c)) jf sv ts w' \<Longrightarrow> Q () w'"
  shows "wp (copy_sync src dst) Q E C w"
proof -
  have t: "steady s j fs jf sv ts (tick w)" by (rule calm_tick [OF assms(1)])
  show ?thesis
    unfolding copy_sync_def
    by (rule wp_calm_effect [OF assms(1), where x = "()" and w' = "put_file dst (Some c) (tick w)"])
       (use t assms(2) in \<open>simp add: steady_def\<close>, rule assms(3), rule steady_put, rule t)
qed

lemma calm_remove_if_present:
  assumes "steady s j fs jf sv ts w" "\<And>w'. steady s j (fs(f := None)) jf sv ts w' \<Longrightarrow> Q () w'"
  shows "wp (remove_if_present f) Q E C w"
proof (cases "fs f = None")
  case True
  then have "fs(f := None) = fs" by auto
  then show ?thesis using assms True unfolding remove_if_present_def wp_simps by (simp add: steady_def wp_basic)
next
  case False
  have "wp (remove_file f) Q E C w"
    unfolding remove_file_def
    by (rule wp_calm_effect [OF assms(1)], rule refl, rule assms(2), rule steady_put, rule calm_tick [OF assms(1)])
  with False assms(1) show ?thesis unfolding remove_if_present_def wp_simps by (simp add: steady_def)
qed

lemma calm_move_if_present:
  assumes "steady s j fs jf sv ts w" "\<And>w' fs'. steady s j fs' jf sv ts w' \<Longrightarrow> fs' src = None \<Longrightarrow>
      (\<forall>f. f \<noteq> src \<longrightarrow> f \<noteq> dst \<longrightarrow> fs' f = fs f) \<Longrightarrow> Q () w'" "src \<noteq> dst"
  shows "wp (move_if_present src dst) Q E C w"
proof (cases "fs src")
  case None
  then show ?thesis using assms(1) assms(2) [OF assms(1)] unfolding move_if_present_def wp_simps
    by (simp add: steady_def wp_basic)
next
  case (Some c)
  have "wp (atomic_replace src dst) Q E C w"
    by (rule calm_replace [OF assms(1) Some]) (use assms(2,3) in auto)
  with Some assms(1) show ?thesis unfolding move_if_present_def wp_simps by (simp add: steady_def)
qed

lemma calm_checked_hash:
  assumes "steady s j fs jf sv ts w" "fs f = Some c" "h_sha256 h c = x" "\<And>w'. steady s j fs jf sv ts w' \<Longrightarrow> Q () w'"
  shows "wp (checked_hash h f x) Q E C w"
proof -
  have t: "steady s j fs jf sv ts (tick w)" by (rule calm_tick [OF assms(1)])
  show ?thesis
    unfolding checked_hash_def wp_simps sha256_file_def
    by (rule wp_calm_effect [OF assms(1), where x = x and w' = "tick w"])
       (use t assms(2-4) in \<open>auto simp: steady_def wp_basic\<close>)
qed

lemma wp_calm_down:
  assumes "steady s j fs jf sv ts w" "\<And>w'. steady s j fs jf sv ts w' \<Longrightarrow> Q (sv = None) w'"
  shows "wp server_down Q E C w"
  using calm_current [OF assms(1)] calm_tick [OF assms(1)] assms(2) [OF calm_tick [OF assms(1)]]
  by (simp add: wp_def server_down_def Let_def calm_event_def steady_def)

text \<open>A server that was asked to stop is down at the first poll.\<close>

lemma calm_poll_stopped:
  assumes "steady s j fs jf sv ts w" "\<And>w'. steady s j (fs(Server_json := None)) jf None ts w' \<Longrightarrow> Q () w'"
  shows "wp (poll_stopped (Suc n)) Q E C (w\<lparr>stop_requested := True\<rparr>)"
proof -
  let ?w = "w\<lparr>stop_requested := True\<rparr>"
  have e: "calm_event s (current ?w)" using calm_current [OF assms(1)] by (simp add: current_def)
  then have down: "steady s j fs jf None ts (tick ?w)"
    using assms(1) by (auto simp: steady_def tick_def env_step_def calm_event_def)
  then have "server (tick ?w) = None" by (simp add: steady_def)
  with e have "wp server_down Q' E C ?w = Q' True (tick ?w)" for Q'
    by (simp add: wp_def server_down_def Let_def calm_event_def)
  with assms(2) steady_put [OF down] show ?thesis
    by (simp add: wp_simps) (simp add: wp_def remove_server_json_def)
qed

lemma calm_stop:
  assumes "steady s j fs jf sv ts w" "\<And>w'. steady s j (fs(Server_json := None)) jf None ts w' \<Longrightarrow> Q () w'"
  shows "wp stop Q E C w"
  unfolding stop_def wp_simps
proof (rule wp_calm_down [OF assms(1)])
  fix w1 assume 1: "steady s j fs jf sv ts w1"
  show "wp (if sv = None then remove_server_json
      else io_then (effect no_trace (\<lambda>w. Inr ((), w\<lparr>stop_requested := True\<rparr>))) (poll_stopped stop_polls)) Q E C w1"
  proof (cases "sv = None")
    case True
    with 1 steady_put [of s j fs jf None ts w1 Server_json None] assms(2) show ?thesis
      by (simp add: wp_def remove_server_json_def)
  next
    case False
    have "wp (effect no_trace (\<lambda>w. Inr ((), w\<lparr>stop_requested := True\<rparr>))) (\<lambda>_. wp (poll_stopped (Suc 300)) Q E C) E C w1"
      by (rule wp_calm_effect [OF 1], rule refl, rule calm_poll_stopped [OF calm_tick [OF 1]], rule assms(2))
    with False show ?thesis by (simp only: if_False wp_simps stop_polls_def, simp)
  qed
qed

lemma calm_start:
  assumes "steady s j fs jf None ts w" "fs Executable = Some c"
    "\<And>w'. steady s j fs jf (Some c) ts w' \<Longrightarrow> Q () w'"
  shows "wp start Q E C w"
proof -
  have t: "steady s j fs jf None ts (tick w)" by (rule calm_tick [OF assms(1)])
  show ?thesis
    unfolding start_def
    by (rule wp_calm_effect [OF assms(1), where x = "()" and w' = "run_executable (tick w)"])
       (use t assms(2) in \<open>simp add: steady_def\<close>, rule assms(3),
        use t assms(2) in \<open>simp add: steady_def run_executable_def\<close>)
qed

lemma validate_static: "validate_response (static j) b r = validate_response j b r"
  by (simp add: validate_response_def static_def)

lemma calm_wait_ready:
  assumes "steady (static j) j fs jf (Some c) ts w" "\<And>w'. steady (static j) j fs jf (Some c) ts w' \<Longrightarrow> Q () w'"
  shows "wp (wait_ready True) Q E C w"
proof -
  have t: "steady (static j) j fs jf (Some c) ts (tick w)" by (rule calm_tick [OF assms(1)])
  from calm_current [OF assms(1)] obtain b where b: "ev_body (current w) = Some b"
    "validate_response (static j) b True = Inr True" "ev_fault (current w) = Succeeds"
    by (auto simp: calm_event_def)
  have v: "wp validation Q' E C w = Q' (Some b) (tick w)" for Q'
    using t b by (simp add: wp_def validation_def Let_def steady_def)
  have "wp (poll_ready True (Suc n)) Q E C w" for n
    using t b(2) assms(2) [OF t] unfolding poll_ready.simps Let_def wp_simps v
    by (simp add: wp_simps steady_def validate_static)
  then show ?thesis using assms(1) unfolding wait_ready_def wp_simps by simp
qed

lemma calm_lock:
  assumes "steady s j fs jf None ts w"
    "\<And>w'. steady s j fs jf None ts w' \<Longrightarrow>
       wp body (\<lambda>_ w''. \<exists>fs'. steady s j fs' jf None ts w'' \<and> R fs') (\<lambda>_. False) (\<lambda>_. False) w'"
    "\<And>w' fs'. steady s j fs' jf None ts w' \<Longrightarrow> R fs' \<Longrightarrow> Q () w'"
  shows "wp (with_server_lock body) Q E C w"
proof (rule wp_server_lock, rule wp_calm_down [OF assms(1)])
  fix w' assume "steady s j fs jf None ts w'"
  then have "steady s j fs jf None ts (w'\<lparr>lock_held := True\<rparr>)" by (simp add: steady_def)
  from assms(2) [OF this] have "wp body (\<lambda>x w'. Q x (w'\<lparr>lock_held := False\<rparr>)) (\<lambda>w'. E (w'\<lparr>lock_held := False\<rparr>))
      (\<lambda>w'. C (w'\<lparr>lock_held := False\<rparr>)) (w'\<lparr>lock_held := True\<rparr>)"
  proof (rule wp_mono)
    fix x w'' assume "\<exists>fs'. steady s j fs' jf None ts w'' \<and> R fs'"
    then obtain fs' where "steady s j fs' jf None ts (w''\<lparr>lock_held := False\<rparr>)" "R fs'"
      by (auto simp: steady_def)
    then show "Q x (w''\<lparr>lock_held := False\<rparr>)" using assms(3) by simp
  qed auto
  then show "if None = (None :: contents option) then wp body (\<lambda>x w'. Q x (w'\<lparr>lock_held := False\<rparr>)) (\<lambda>w'. E (w'\<lparr>lock_held := False\<rparr>))
      (\<lambda>w'. C (w'\<lparr>lock_held := False\<rparr>)) (w'\<lparr>lock_held := True\<rparr>) else E w'" by simp
qed

definition db_restored :: "journal \<Rightarrow> (artifact \<Rightarrow> contents option) \<Rightarrow> (artifact \<Rightarrow> contents option) \<Rightarrow> bool" where
  "db_restored j before after \<longleftrightarrow>
     (case j_database_sha256 j of
        Some x \<Rightarrow> after State_db = before Snapshot_file \<and> after State_wal = None \<and> after State_shm = None
      | None \<Rightarrow>
          if j_database_existed j then \<forall>f \<in> {State_db, State_wal, State_shm}. after f = before f
          else \<forall>f \<in> {State_db, State_wal, State_shm}. after f = None)"

definition restored_files :: "journal \<Rightarrow> (artifact \<Rightarrow> contents option) \<Rightarrow> (artifact \<Rightarrow> contents option) \<Rightarrow> bool" where
  "restored_files j before after \<longleftrightarrow> after Executable = before Previous_exe \<and> db_restored j before after"

lemma calm_restore_database:
  assumes "steady s j fs jf sv ts w"
    "\<And>x. j_database_sha256 j = Some x \<Longrightarrow> \<exists>c. fs Snapshot_file = Some c \<and> h_sha256 h c = x"
  shows "wp (restore_database h) (\<lambda>_ w'. \<exists>fs'. steady s j fs' jf sv ts w' \<and> db_restored j fs fs' \<and> fs' Executable = fs Executable)
    E C w"
proof -
  have m: "mem w = j" using assms(1) by (simp add: steady_def)
  show ?thesis
  proof (cases "j_database_sha256 j")
    case (Some x)
    with assms(2) obtain c where c: "fs Snapshot_file = Some c" "h_sha256 h c = x" by auto
    show ?thesis
      unfolding restore_database_def wp_simps m Some option.case
      by (rule calm_checked_hash [OF assms(1) c], rule calm_remove_if_present, assumption,
          rule calm_remove_if_present, assumption, rule calm_copy, assumption, (simp add: c),
          rule calm_replace, assumption, simp, rule exI, rule conjI, assumption)
         (simp add: db_restored_def Some c)
  next
    case None
    show ?thesis
    proof (cases "j_database_existed j")
      case True
      with None assms(1) show ?thesis
        unfolding restore_database_def wp_simps m None option.case if_P
        by (simp add: wp_simps, intro exI [of _ fs]) (simp add: wp_simps db_restored_def None)
    next
      case False
      have "wp (io_then (move_if_present State_db Failed_db) (io_then (move_if_present State_wal Failed_wal)
          (move_if_present State_shm Failed_shm)))
        (\<lambda>_ w'. \<exists>fs'. steady s j fs' jf sv ts w' \<and> db_restored j fs fs' \<and> fs' Executable = fs Executable) E C w"
        unfolding wp_simps
        by (rule calm_move_if_present [OF assms(1)], rule calm_move_if_present, assumption,
            rule calm_move_if_present, assumption, rule exI, rule conjI, assumption)
           (simp_all add: db_restored_def None False)
      with False show ?thesis unfolding restore_database_def wp_simps m None option.case by (simp add: wp_simps)
    qed
  qed
qed

lemma calm_restore_binary:
  assumes "steady s j fs jf sv ts w" "fs Previous_exe = Some c" "h_sha256 h c = j_old_sha256 j"
    "\<And>w'. steady s j (fs(Restore_exe := None, Executable := Some c)) jf sv ts w' \<Longrightarrow> Q () w'"
  shows "wp (restore_binary h) Q E C w"
proof -
  have m: "mem w = j" using assms(1) by (simp add: steady_def)
  show ?thesis
    unfolding restore_binary_def wp_simps m
    by (rule calm_checked_hash [OF assms(1-3)], rule calm_copy, assumption, rule assms(2),
        rule calm_replace, assumption, simp, rule assms(4)) simp
qed

lemma steady_files: "steady s j fs jf sv ts w \<Longrightarrow> fs = files w"
  by (simp add: steady_def)

definition backed_up :: "host \<Rightarrow> journal \<Rightarrow> (artifact \<Rightarrow> contents option) \<Rightarrow> bool" where
  "backed_up h j fs \<longleftrightarrow>
     (\<exists>c. fs Previous_exe = Some c \<and> h_sha256 h c = j_old_sha256 j)
     \<and> (\<exists>c. fs Recovery_exe = Some c \<and> h_sha256 h c = j_old_sha256 j)
     \<and> (\<forall>x. j_database_sha256 j = Some x \<longrightarrow> (\<exists>c. fs Snapshot_file = Some c \<and> h_sha256 h c = x))"

lemma jr_ok_backed_up: "jr_ok h a s j w \<Longrightarrow> backed_up h j (files w)"
  using static_old [of h a s j w] by (auto simp: jr_ok_def backed_up_def has_hash_def)

lemma db_restored_note [simp]:
  "db_restored (enter_phase p j) = db_restored j" "db_restored (j\<lparr>j_error := e\<rparr>) = db_restored j"
  "db_restored (j\<lparr>j_task_removed := b\<rparr>) = db_restored j"
  by (simp_all add: fun_eq_iff db_restored_def enter_phase_def)

lemma enter_phase_fields [simp]:
  "j_was_running (enter_phase p j) = j_was_running j" "static (enter_phase p j) = static j"
  "j_phase (enter_phase p j) = p" "j_old_sha256 (enter_phase p j) = j_old_sha256 j"
  "j_database_sha256 (enter_phase p j) = j_database_sha256 j" "static (j\<lparr>j_error := e\<rparr>) = static j"
  "j_database_existed (enter_phase p j) = j_database_existed j"
  "j_task_removed (enter_phase p j) = j_task_removed j" "j_task_name (enter_phase p j) = j_task_name j"
  "terminal p \<Longrightarrow> \<not> j_armed (enter_phase p j)"
  by (simp_all add: enter_phase_def static_def)

lemma calm_rollback:
  assumes st: "steady (static j) j fs jf sv ts w" and b: "backed_up h j fs"
    and Q: "\<And>w' fs'. steady (static j) (enter_phase Restored (enter_phase RollingBack j)) fs'
        (Some (Holds (enter_phase Restored (enter_phase RollingBack j))))
        (if j_was_running j then fs' Executable else None) ts w' \<Longrightarrow> restored_files j fs fs' \<Longrightarrow> Q () w'"
  shows "wp (rollback h) Q E C w"
proof -
  let ?r = "enter_phase RollingBack j" and ?fs1 = "fs(Server_json := None)"
  obtain c where c: "fs Previous_exe = Some c" "h_sha256 h c = j_old_sha256 j" using b by (auto simp: backed_up_def)
  let ?fs2 = "?fs1(Restore_exe := None, Executable := Some c)"
  let ?R = "\<lambda>fs'. db_restored ?r ?fs2 fs' \<and> fs' Executable = ?fs2 Executable"
  have R: "restored_files j fs fs' \<and> fs' Executable = Some c" if "?R fs'" for fs'
  proof -
    have "db_restored j fs fs'"
      using that by (simp add: db_restored_def split: option.splits)
    with that c show ?thesis by (simp add: restored_files_def)
  qed
  show ?thesis
    unfolding rollback_def wp_simps
  proof (rule calm_advance [OF st], rule calm_stop, assumption)
    fix w1 assume 1: "steady (static j) ?r ?fs1 (Some (Holds ?r)) None ts w1"
    show "wp (with_server_lock (io_then (restore_binary h) (restore_database h)))
        (\<lambda>_ w. wp (io_when (j_was_running (mem w)) (io_then start (wait_ready True))) (\<lambda>_. wp (advance Restored) Q E C) E C w) E C w1"
    proof (rule calm_lock [where R = ?R, OF 1])
      fix w2 assume "steady (static j) ?r ?fs1 (Some (Holds ?r)) None ts w2"
      then show "wp (io_then (restore_binary h) (restore_database h))
        (\<lambda>_ w''. \<exists>fs'. steady (static j) ?r fs' (Some (Holds ?r)) None ts w'' \<and> ?R fs') (\<lambda>_. False) (\<lambda>_. False) w2"
        unfolding wp_simps
      proof (rule calm_restore_binary)
        show "?fs1 Previous_exe = Some c" using c by simp
        fix w3 assume 3: "steady (static j) ?r ?fs2 (Some (Holds ?r)) None ts w3"
        show "wp (restore_database h) (\<lambda>_ w''. \<exists>fs'. steady (static j) ?r fs' (Some (Holds ?r)) None ts w'' \<and> ?R fs')
            (\<lambda>_. False) (\<lambda>_. False) w3"
          by (rule calm_restore_database [OF 3]) (use b in \<open>simp add: backed_up_def\<close>)
      qed (simp add: c)
    next
      fix w4 fs' assume 4: "steady (static j) ?r fs' (Some (Holds ?r)) None ts w4" "?R fs'"
      have m: "mem w4 = ?r" using 4(1) by (simp add: steady_def)
      show "wp (io_when (j_was_running (mem w4)) (io_then start (wait_ready True))) (\<lambda>_. wp (advance Restored) Q E C) E C w4"
      proof (cases "j_was_running j")
        case False
        have "wp (advance Restored) Q E C w4"
          by (rule calm_advance [OF 4(1)], rule Q) (use False R [OF 4(2)] in auto)
        with False m show ?thesis by (simp add: io_when_def wp_simps)
      next
        case True
        have "wp start (\<lambda>_. wp (wait_ready True) (\<lambda>_. wp (advance Restored) Q E C) E C) E C w4"
        proof (rule calm_start [OF 4(1)])
          show "fs' Executable = Some c" using R [OF 4(2)] by simp
          fix w5 assume "steady (static j) ?r fs' (Some (Holds ?r)) (Some c) ts w5"
          then have 5: "steady (static ?r) ?r fs' (Some (Holds ?r)) (Some c) ts w5" by simp
          show "wp (wait_ready True) (\<lambda>_. wp (advance Restored) Q E C) E C w5"
          proof (rule calm_wait_ready [OF 5])
            fix w6 assume "steady (static ?r) ?r fs' (Some (Holds ?r)) (Some c) ts w6"
            then have 6: "steady (static j) ?r fs' (Some (Holds ?r)) (Some c) ts w6" by simp
            show "wp (advance Restored) Q E C w6"
              by (rule calm_advance [OF 6], rule Q) (use True R [OF 4(2)] in auto)
          qed
        qed
        with True m show ?thesis by (simp add: io_when_def wp_simps)
      qed
    qed
  qed
qed

definition journal_valid :: "host \<Rightarrow> string \<Rightarrow> journal \<Rightarrow> bool" where
  "journal_valid h d j \<longleftrightarrow>
     (\<exists>c. h_canonical h (j_data_dir j) = Some c \<and> h_canonical h d = Some c)
     \<and> (\<exists>parent. path_parent (j_executable j) = Some parent \<and> work_dir_ok h j parent)"

lemma calm_validate:
  assumes st: "steady s j fs jf sv ts w" and v: "journal_valid h d j" and b: "backed_up h j fs"
    and Q: "\<And>w'. steady s j fs jf sv ts w' \<Longrightarrow> Q () w'"
  shows "wp (validate_journal h d) Q E C w"
proof -
  obtain c parent where v': "h_canonical h (j_data_dir j) = Some c" "h_canonical h d = Some c"
    "path_parent (j_executable j) = Some parent" "work_dir_ok h j parent" using v by (auto simp: journal_valid_def)
  obtain r where r: "fs Recovery_exe = Some r" "h_sha256 h r = j_old_sha256 j" using b by (auto simp: backed_up_def)
  have canon: "wp (canonicalize h p) Q' E C w'" if "steady s j fs jf sv ts w'" "h_canonical h p = Some c" "Q' c (tick w')" for p Q' w'
    unfolding canonicalize_def by (rule wp_calm_effect [OF that(1)]) (use that in simp_all)
  have m: "mem w = j" using st by (simp add: steady_def)
  show ?thesis
    unfolding validate_journal_def wp_simps m
  proof (rule canon [OF st v'(1)], rule canon [OF calm_tick [OF st] v'(2)])
    have "wp (checked_hash h Recovery_exe (j_old_sha256 j)) Q E C (tick (tick w))"
      by (rule calm_checked_hash [OF calm_tick [OF calm_tick [OF st]] r], rule Q)
    with v' show "wp (if c \<noteq> c then io_error ''Journal data directory mismatch''
        else case path_parent (j_executable j) of None \<Rightarrow> io_error ''Executable has no directory''
          | Some parent \<Rightarrow> if \<not> work_dir_ok h j parent then io_error ''Invalid update artifact paths''
              else checked_hash h Recovery_exe (j_old_sha256 j)) Q E C (tick (tick w))" by simp
  qed
qed

definition fully_restored :: "journal \<Rightarrow> (artifact \<Rightarrow> contents option) \<Rightarrow> world \<Rightarrow> bool" where
  "fully_restored j before w \<longleftrightarrow>
     (\<exists>j'. jfile w = Some (Holds j') \<and> j_phase j' = Restored \<and> \<not> j_armed j')
     \<and> restored_files j before (files w)
     \<and> server w = (if j_was_running j then files w Executable else None)
     \<and> (\<not> j_task_removed j \<longrightarrow> j_task_name j \<notin> set (tasks w))"

lemma calm_cleanup:
  assumes st: "steady s j fs (Some (Holds j)) sv ts w"
    and Q: "\<And>w' j' ts'. steady s j' fs (Some (Holds j')) sv ts' w' \<Longrightarrow> j_phase j' = j_phase j \<Longrightarrow> j_armed j' = j_armed j
        \<Longrightarrow> (\<not> j_task_removed j \<longrightarrow> j_task_name j \<notin> set ts') \<Longrightarrow> Q () w'"
  shows "wp cleanup Q E C w"
proof -
  have m: "mem w = j" using st by (simp add: steady_def)
  show ?thesis
  proof (cases "j_task_removed j")
    case True
    then show ?thesis using Q [OF st] unfolding cleanup_def wp_simps m by (simp add: io_when_def wp_simps)
  next
    case False
    let ?j = "j\<lparr>j_task_removed := True\<rparr>" and ?ts = "removeAll (j_task_name j) ts"
    have "wp (remove_task (j_task_name j)) (\<lambda>_ w. wp save Q E C (w\<lparr>mem := (mem w)\<lparr>j_task_removed := True\<rparr>\<rparr>)) E C w"
      unfolding remove_task_def
    proof (rule wp_calm_effect [OF st], rule refl)
      let ?w = "(tick w)\<lparr>tasks := removeAll (j_task_name j) (tasks (tick w))\<rparr>"
      have "steady s ?j fs (Some (Holds j)) sv ?ts (?w\<lparr>mem := (mem ?w)\<lparr>j_task_removed := True\<rparr>\<rparr>)"
        using calm_tick [OF st] by (simp add: steady_def)
      then show "wp save Q E C (?w\<lparr>mem := (mem ?w)\<lparr>j_task_removed := True\<rparr>\<rparr>)"
        by (rule calm_save) (rule Q [where j' = ?j and ts' = ?ts], auto)
    qed
    with False show ?thesis unfolding cleanup_def wp_simps m by (simp add: io_when_def wp_simps)
  qed
qed

lemma calm_roll_back_after:
  assumes st: "steady (static j) j fs jf sv ts w" and b: "backed_up h j fs"
  shows "wp (roll_back_after h cause) (\<lambda>_ _. False) (fully_restored j fs) (\<lambda>_. False) w"
  unfolding roll_back_after_def set_error_def Let_def wp_simps
proof (rule calm_save [OF steady_mem [OF st, of "\<lambda>j. j\<lparr>j_error := Some cause\<rparr>"]])
  let ?j = "j\<lparr>j_error := Some cause\<rparr>"
  let ?e = "enter_phase Restored (enter_phase RollingBack ?j)"
  fix w1 assume "steady (static j) ?j fs (Some (Holds ?j)) sv ts w1"
  then have 1: "steady (static ?j) ?j fs (Some (Holds ?j)) sv ts w1" by simp
  have b': "backed_up h ?j fs" using b by (simp add: backed_up_def)
  let ?k = "\<lambda>x :: string + unit. wp (case x of
          Inl recovery \<Rightarrow> io_then (set_mem (\<lambda>j. j\<lparr>j_error := Some (cause @ ''; recovery failed: '' @ recovery)\<rparr>))
            (io_then save (io_error (cause @ ''; recovery failed: '' @ recovery)))
        | Inr _ \<Rightarrow> io_then cleanup (io_error (cause @ ''; previous version restored''))) (\<lambda>_ :: unit. \<lambda>_. False) (fully_restored j fs) (\<lambda>_. False)"
  show "wp (io_try (rollback h)) ?k (fully_restored j fs) (\<lambda>_. False) w1"
  proof (rule wp_try, rule calm_rollback [OF 1 b'])
    fix w2 fs' assume 2: "steady (static ?j) ?e fs' (Some (Holds ?e)) (if j_was_running ?j then fs' Executable else None) ts w2"
      and r: "restored_files ?j fs fs'"
    have r': "restored_files j fs fs'" using r by (simp add: restored_files_def)
    show "?k (Inr ()) w2"
      unfolding sum.case wp_simps
    proof (rule calm_cleanup [OF 2])
      fix w3 j' ts' assume 3: "steady (static ?j) j' fs' (Some (Holds j')) (if j_was_running ?j then fs' Executable else None) ts' w3"
        "j_phase j' = j_phase ?e" "j_armed j' = j_armed ?e" "\<not> j_task_removed ?e \<longrightarrow> j_task_name ?e \<notin> set ts'"
      then show "fully_restored j fs w3"
        using r' by (auto simp: fully_restored_def steady_def terminal_def)
    qed
  qed
qed

lemma calm_run_worker:
  assumes calm: "\<And>n. calm_event (static j) (script w n)" and "\<not> update_locked w"
    and "server w = None \<or> \<not> stop_requested w"
    and jf: "jfile w = Some (Holds j)" and ok: "backed_up h j (files w)" and v: "journal_valid h d j"
    and step: "\<And>w'. steady (static j) j (files w) (Some (Holds j)) (server w) (tasks w) w' \<Longrightarrow> wp (worker_step_from h recover) Q E C w'"
  shows "wp (run_worker h d recover) Q E C w"
proof -
  have st0: "steady (static j) (mem w) (files w) (jfile w) (server w) (tasks w) w"
    using assms(1-3) by (simp add: steady_def)
  let ?w1 = "(tick w)\<lparr>mem := j\<rparr>"
  have st1: "steady (static j) j (files w) (Some (Holds j)) (server w) (tasks w) ?w1"
    using calm_tick [OF st0] jf by (simp add: steady_def)
  show ?thesis
    unfolding run_worker_steps wp_then load_journal_def
  proof (rule wp_calm_effect [OF st0, where x = "()" and w' = ?w1])
    show "(if update_locked (tick w) then Inl ''An update or startup is already in progress''
     else case read_journal (jfile (tick w)) of
         Inl e \<Rightarrow> Inl e
       | Inr None \<Rightarrow> Inl ''No update journal''
       | Inr (Some j) \<Rightarrow> Inr ((), (tick w)\<lparr>mem := j\<rparr>)) = Inr ((), ?w1)"
      using calm_tick [OF st0] jf by (simp add: steady_def read_journal_def)
    show "wp (io_bind (io_try (validate_journal h d)) (\<lambda>v. case v of Inl cause \<Rightarrow> abandon cause
        | Inr _ \<Rightarrow> worker_step_from h recover)) Q E C ?w1"
      unfolding wp_bind by (rule wp_try, rule calm_validate [OF st1 v ok]) (simp add: step)
  qed
qed

lemma calm_recovery:
  assumes calm: "\<And>n. calm_event (static j) (script w n)" and "\<not> update_locked w"
    and "server w = None \<or> \<not> stop_requested w"
    and jf: "jfile w = Some (Holds j)" and p: "pending j" and ok: "backed_up h j (files w)" and v: "journal_valid h d j"
  shows "wp (run_worker h d True) (\<lambda>_ _. False) (fully_restored j (files w)) (\<lambda>_. False) w"
proof (rule calm_run_worker [OF assms(1-4) ok v])
  fix w' assume st: "steady (static j) j (files w) (Some (Holds j)) (server w) (tasks w) w'"
  then have "mem w' = j" by (simp add: steady_def)
  with calm_roll_back_after [OF st ok] p
  show "wp (worker_step_from h True) (\<lambda>_ _. False) (fully_restored j (files w)) (\<lambda>_. False) w'"
    by (simp add: worker_step_from_def wp_simps pending_def)
qed

text \<open>An undisturbed run of the worker on an unfinished journal that is not armed: it is closed, nothing else happens.\<close>

lemma calm_unarmed:
  assumes calm: "\<And>n. calm_event (static j) (script w n)" and "\<not> update_locked w"
    and "server w = None \<or> \<not> stop_requested w"
    and jf: "jfile w = Some (Holds j)" and p: "\<not> terminal (j_phase j)" "\<not> j_armed j"
    and ok: "backed_up h j (files w)" and v: "journal_valid h d j"
  shows "wp (run_worker h d recover)
    (\<lambda>_ w'. files w' = files w \<and> (\<exists>j'. jfile w' = Some (Holds j') \<and> j_phase j' = Restored)) (\<lambda>_. False) (\<lambda>_. False) w"
    (is "wp _ ?Q ?F ?F w")
proof (rule calm_run_worker [OF assms(1-4) ok v])
  fix w1 assume st: "steady (static j) j (files w) (Some (Holds j)) (server w) (tasks w) w1"
  let ?e = "enter_phase Restored j"
  have "wp (io_then (advance Restored) cleanup) ?Q ?F ?F w1"
    unfolding wp_simps
  proof (rule calm_advance [OF st], rule calm_cleanup)
    fix w2 j' ts'
    assume "steady (static j) j' (files w) (Some (Holds j')) (server w) ts' w2" "j_phase j' = j_phase ?e"
    then show "?Q () w2" by (simp add: steady_def enter_phase_def terminal_def)
  qed
  moreover have "mem w1 = j" using st by (simp add: steady_def)
  ultimately show "wp (worker_step_from h recover) ?Q ?F ?F w1" using p by (simp add: worker_step_from_def wp_bind wp_state)
qed

end
