(* ===== verification/Update_Prepare.thy ===== *)
theory Update_Prepare
  imports Update_Safety
begin

text \<open>
  Preparing an update, \<open>prepare_with_id\<close> of \<open>src/update_transaction.rs\<close>: the checks, the copies of
  the running executable, the verified download and the journal. What it reads from the machine
  (paths, free space, launch metadata, the verified download) is the record \<open>surroundings\<close>. The
  theorems state that a successful preparation establishes the invariant the worker starts from, and
  that one that fails or is cut off leaves the installed executable alone and blocks nothing.
\<close>

record launch =
  la_executable :: string
  la_service :: bool
  la_host :: "string option"
  la_network :: "string option"

datatype launch_file = No_launch_file | Bad_launch_file | Launch_file launch

record surroundings =
  su_id :: string
  su_current_exe :: string
  su_data_dir :: string
  su_server_launch :: "launch option"
  su_last_launch :: launch_file
  su_exe_size :: nat
  su_release_version :: string
  su_release_size :: "nat option"
  su_work_space :: nat
  su_data_space :: nat
  su_db_size :: nat
  su_download :: "string + contents"
  su_current_version :: string
  su_api_level :: nat
  su_timeout :: nat
  su_bind_host :: "string option"
  su_saved_mode :: "string option"

text \<open>\<open>saved_network_mode\<close>, over what the settings table holds (no table reads as no value).\<close>

definition saved_network_mode :: "surroundings \<Rightarrow> launch \<Rightarrow> string" where
  "saved_network_mode su la =
     (if la_host la \<noteq> None \<or> su_bind_host su \<noteq> None then ''custom''
      else unwrap_or ''local'' (or_else (la_network la) (su_saved_mode su)))"

definition required_space :: "surroundings \<Rightarrow> nat" where
  "required_space su =
     saturating_add (saturating_add (saturating_mul (su_exe_size su) 4)
       (unwrap_or (su_exe_size su) (su_release_size su))) (64 * 1024 * 1024)"

definition space_check :: "surroundings \<Rightarrow> string + unit" where
  "space_check su =
     (if su_work_space su < required_space su then
        Inl ''Insufficient space beside executable for safe update''
      else if su_data_space su < saturating_add (saturating_mul (su_db_size su) 2) (16 * 1024 * 1024)
          \<or> su_work_space su < saturating_add (required_space su) (su_db_size su) then
        Inl ''Insufficient space for database rollback snapshot''
      else Inr ())"

definition choose_launch :: "surroundings \<Rightarrow> bool \<Rightarrow> string \<Rightarrow> string + launch" where
  "choose_launch su was_running executable =
     (if was_running then
        ok_or ''Running server lacks launch metadata; restart it with this version before updating'' (su_server_launch su)
      else case su_last_launch su of
          Launch_file la \<Rightarrow> Inr la
        | No_launch_file \<Rightarrow> Inr \<lparr>la_executable = executable, la_service = False, la_host = None, la_network = None\<rparr>
        | Bad_launch_file \<Rightarrow> Inl ''invalid launch file'')"

definition io_lift :: "string + 'a \<Rightarrow> 'a io" where
  "io_lift r = (case r of Inl e \<Rightarrow> io_error e | Inr x \<Rightarrow> io_return x)"

text \<open>A query or a change outside the modelled files, which may fail.\<close>

definition io_step :: "unit io" where "io_step = effect no_trace (\<lambda>w. Inr ((), w))"

definition finish_previous :: "unit io" where
  "finish_previous =
     io_bind (effect no_trace (\<lambda>w. map_sum id (\<lambda>jo. (jo, w)) (read_journal (jfile w)))) (\<lambda>jo. case jo of
         None \<Rightarrow> io_return ()
       | Some old \<Rightarrow>
           if pending old then io_error ''Previous update requires recovery before another update''
           else io_then (set_mem (\<lambda>_. old)) cleanup)"

definition check_baseline :: "bool \<Rightarrow> json option io" where
  "check_baseline was_running =
     (if \<not> was_running then io_return None
      else io_bind validation (\<lambda>b. case b of
          None \<Rightarrow> io_error ''validation failed''
        | Some body \<Rightarrow>
            if unwrap_or 1 (as_u64 (jindex body ''active_operations'')) \<noteq> 0
            then io_error ''Finish or cancel model operations before updating''
            else io_return (Some body)))"

definition make_artifacts :: "surroundings \<Rightarrow> unit io" where
  "make_artifacts su =
     io_then io_step
     (io_then io_step
     (io_then (io_lift (space_check su))
     (io_then (io_bind (io_lift (su_download su)) (\<lambda>c. effect (put_file Staged_exe) (\<lambda>w. Inr ((), put_file Staged_exe (Some c) w))))
     (io_then (atomic_replace Staged_exe Candidate_exe)
     (io_then (copy_sync Executable Previous_exe)
     (copy_sync Executable Recovery_exe))))))"

definition network_mode_of :: "surroundings \<Rightarrow> launch \<Rightarrow> json option \<Rightarrow> string + string" where
  "network_mode_of su la baseline =
     (case baseline of
        Some body \<Rightarrow> ok_or ''Missing network policy'' (as_str (jindex body ''network_mode''))
      | None \<Rightarrow> Inr (saved_network_mode su la))"

definition new_journal ::
  "surroundings \<Rightarrow> string \<Rightarrow> string \<Rightarrow> string \<Rightarrow> launch \<Rightarrow> bool \<Rightarrow> json option \<Rightarrow> string \<Rightarrow> string \<Rightarrow> bool \<Rightarrow> journal" where
  "new_journal su data_dir executable work_dir la was_running baseline mode old_sha existed =
     \<lparr>j_id = su_id su, j_phase = Prepared, j_data_dir = data_dir, j_work_dir = work_dir,
      j_executable = executable, j_service = la_service la, j_was_running = was_running,
      j_ready_model = Option.bind baseline (\<lambda>b. as_str (jindex b ''ready_model'')),
      j_old_version = su_current_version su, j_new_version = su_release_version su,
      j_api_level = su_api_level su, j_network_mode = mode, j_old_sha256 = old_sha, j_new_sha256 = [],
      j_database_existed = existed, j_database_sha256 = None, j_ready_timeout_seconds = su_timeout su,
      j_task_name = ''OpenVibeSTT-Recovery-'' @ su_id su, j_task_removed = False, j_armed = False, j_error = None\<rparr>"

definition register_task :: "string \<Rightarrow> unit io" where
  "register_task name = effect (\<lambda>c w. if c = None then w else w\<lparr>tasks := name # tasks w\<rparr>)
     (\<lambda>w. Inr ((), w\<lparr>tasks := name # tasks w\<rparr>))"

definition arm :: "unit io" where
  "arm =
     io_bind get_mem (\<lambda>j.
     io_bind (io_try (register_task (j_task_name j))) (\<lambda>r. case r of
         Inl e \<Rightarrow>
           (let msg = ''Recovery task registration failed: '' @ e in
            io_then (set_mem (\<lambda>j. j\<lparr>j_error := Some msg\<rparr>))
            (io_then (advance Restored) (io_error msg)))
       | Inr _ \<Rightarrow> io_then (set_mem (\<lambda>j. j\<lparr>j_armed := True\<rparr>)) save))"

text \<open>The data lock is held from the moment the server is found stopped to the end.\<close>

definition holding_lock :: "bool \<Rightarrow> unit io \<Rightarrow> unit io" where
  "holding_lock b body w =
     (if b then (case body (w\<lparr>lock_held := True\<rparr>) of (r, w') \<Rightarrow> (r, w'\<lparr>lock_held := False\<rparr>)) else body w)"

definition prepare_locked :: "host \<Rightarrow> surroundings \<Rightarrow> string \<Rightarrow> string \<Rightarrow> bool \<Rightarrow> unit io" where
  "prepare_locked h su executable data_dir was_running =
     io_bind (io_lift (choose_launch su was_running executable)) (\<lambda>la.
     io_bind (canonicalize h (la_executable la)) (\<lambda>launch_exe.
       if \<not> same_path launch_exe executable then io_error ''Executable does not own this data directory''
       else
         io_bind (check_baseline was_running) (\<lambda>baseline.
         io_bind (io_lift (ok_or ''Executable has no directory'' (path_parent executable))) (\<lambda>parent.
         io_then (make_artifacts su)
         (io_bind (io_lift (network_mode_of su la baseline)) (\<lambda>mode.
         io_bind (sha256_file h Executable) (\<lambda>old_sha.
         io_bind (file_exists State_db) (\<lambda>existed.
         io_then (set_mem (\<lambda>_. new_journal su data_dir executable
           (path_join parent (''.stt-update-'' @ su_id su)) la was_running baseline mode old_sha existed))
         (io_bind (sha256_file h Candidate_exe) (\<lambda>new_sha.
         io_then (set_mem (\<lambda>j. j\<lparr>j_new_sha256 := new_sha\<rparr>))
         (io_then save (io_then io_step arm)))))))))))) "

definition prepare_with_id :: "host \<Rightarrow> surroundings \<Rightarrow> unit io" where
  "prepare_with_id h su =
     io_then finish_previous
     (io_bind (canonicalize h (su_current_exe su)) (\<lambda>e.
     io_bind (canonicalize h (su_data_dir su)) (\<lambda>d.
     io_bind server_down (\<lambda>down.
       holding_lock down (prepare_locked h su (simplify_path e) (simplify_path d) (\<not> down))))))"

subsection \<open>Nothing is pending until the journal is armed\<close>

definition idle :: "contents option \<Rightarrow> world \<Rightarrow> bool" where
  "idle exe w \<longleftrightarrow> files w Executable = exe \<and> (\<forall>j. jfile w = Some (Holds j) \<longrightarrow> \<not> pending j)"

lemma idle_same: "same F w w' \<Longrightarrow> Executable \<in> F \<Longrightarrow> idle exe w \<Longrightarrow> idle exe w'"
  by (simp add: idle_def same_def)

lemma idle_updates [simp]:
  "idle exe (w\<lparr>mem := m\<rparr>) = idle exe w" "idle exe (w\<lparr>lock_held := b\<rparr>) = idle exe w"
  "idle exe (w\<lparr>tasks := ts\<rparr>) = idle exe w"
  "f \<noteq> Executable \<Longrightarrow> idle exe (put_file f c w) = idle exe w"
  by (simp_all add: idle_def put_file_def)

lemma idle_tick: "idle exe w \<Longrightarrow> idle exe (tick w)"
  by (simp add: idle_def tick_keeps)

lemma wp_idle_keeps:
  assumes "keeps F m" "Executable \<in> F" "idle exe w" "\<And>x w'. same F w w' \<Longrightarrow> idle exe w' \<Longrightarrow> Q x w'"
  shows "wp m Q (idle exe) (idle exe) w"
  by (rule wp_keeps [OF assms(1)]) (use idle_same [OF _ assms(2,3)] assms(4) in auto)

lemma wp_idle_save:
  assumes "idle exe w" "\<not> pending (mem w)"
    and "\<And>w'. idle exe w' \<Longrightarrow> same_files w w' \<Longrightarrow> synced w' \<Longrightarrow> Q () w'"
  shows "wp save Q (idle exe) (idle exe) w"
proof (rule wp_save)
  fix w' assume sf: "same_files w w'"
  { assume "jfile w' = Some (Holds (mem w))"
    with sf assms show "Q () w'" by (simp add: idle_def same_files_def synced_def) }
  assume "jfile w' = jfile w"
  with sf assms(1) show "idle exe w' \<and> idle exe w'" by (simp add: idle_def same_files_def)
qed

lemma wp_lift [wp_simps]: "wp (io_lift r) Q E C = (case r of Inl e \<Rightarrow> E | Inr x \<Rightarrow> Q x)"
  by (simp add: io_lift_def wp_basic split: sum.splits)

lemma keeps_lift [keeps_intros]: "keeps F (io_lift r)"
  by (auto simp: io_lift_def intro: keeps_intros split: sum.splits)

lemma keeps_step [keeps_intros]: "F \<inter> volatile = {} \<Longrightarrow> keeps F io_step"
  unfolding io_step_def by (intro keeps_intros) (auto simp: no_trace_def)

lemma keeps_baseline [keeps_intros]: "F \<inter> volatile = {} \<Longrightarrow> keeps F (check_baseline b)"
  unfolding check_baseline_def by (intro keeps_intros)

lemma wp_finish_previous:
  assumes start: "files w Executable = exe"
    and Q: "\<And>w'. idle exe w' \<Longrightarrow> Q () w'"
    and E: "\<And>w'. idle exe w' \<or> files w' Executable = exe \<and> jfile w' = jfile w \<Longrightarrow> E w' \<and> C w'"
  shows "wp finish_previous Q E C w"
  unfolding finish_previous_def wp_bind
proof (rule wp_effect)
  have t: "files (tick w) Executable = exe" "jfile (tick w) = jfile w" using start by (simp_all add: tick_keeps)
  show "E (tick w)" using E [of "tick w"] t by simp
  show "E (no_trace c (tick w))" "C (no_trace c (tick w))" for c using E [of "tick w"] t by (simp_all add: no_trace_def)
  fix jo w' assume "map_sum id (\<lambda>jo. (jo, tick w)) (read_journal (jfile (tick w))) = Inr (jo, w')"
  then have r: "read_journal (jfile w) = Inr jo" "w' = tick w" using t(2) by (cases "read_journal (jfile w)"; auto)+
  show "wp (case jo of None \<Rightarrow> io_return () | Some old \<Rightarrow>
      if pending old then io_error ''Previous update requires recovery before another update''
      else io_then (set_mem (\<lambda>_. old)) cleanup) Q E C w'"
  proof (cases jo)
    case None
    with r t have "idle exe w'" by (auto simp: idle_def read_journal_def split: option.splits journal_file.splits)
    with None Q show ?thesis by (simp add: wp_simps)
  next
    case (Some old)
    have jf: "jfile w = Some (Holds old)"
      using r(1) Some by (auto simp: read_journal_def split: option.splits journal_file.splits)
    show ?thesis
    proof (cases "pending old")
      case True
      with Some r t E show ?thesis by (simp add: wp_simps)
    next
      case False
      with jf r t have i: "idle exe (w'\<lparr>mem := old\<rparr>)" by (simp add: idle_def)
      have EC: "wp cleanup Q (idle exe) (idle exe) (w'\<lparr>mem := old\<rparr>)"
      proof (cases "j_task_removed old")
        case True
        with i Q show ?thesis unfolding cleanup_def wp_simps by (simp add: io_when_def wp_simps)
      next
        case rem: False
        let ?F = "{Executable}"
        have "wp (remove_task (j_task_name old)) (\<lambda>_ w. wp save Q (idle exe) (idle exe) (w\<lparr>mem := (mem w)\<lparr>j_task_removed := True\<rparr>\<rparr>))
            (idle exe) (idle exe) (w'\<lparr>mem := old\<rparr>)"
        proof (rule wp_idle_keeps [where F = ?F])
          show "keeps ?F (remove_task (j_task_name old))" by (rule keeps_more(5)) auto
          fix w'' assume "same ?F (w'\<lparr>mem := old\<rparr>) w''" "idle exe w''"
          then show "wp save Q (idle exe) (idle exe) (w''\<lparr>mem := (mem w'')\<lparr>j_task_removed := True\<rparr>\<rparr>)"
            by (intro wp_idle_save) (use False Q in \<open>simp_all add: same_def pending_def\<close>)
        qed (use i in auto)
        with rem show ?thesis unfolding cleanup_def wp_simps by (simp add: io_when_def wp_simps)
      qed
      have "wp cleanup Q E C (w'\<lparr>mem := old\<rparr>)" by (rule wp_mono [OF EC]) (use E in blast)+
      with Some False show ?thesis by (simp add: wp_simps)
    qed
  qed
qed

text \<open>The artifacts: both copies are the installed executable.\<close>

definition copied :: "contents option \<Rightarrow> world \<Rightarrow> bool" where
  "copied exe w \<longleftrightarrow> exe \<noteq> None \<and> files w Executable = exe \<and> files w Previous_exe = exe \<and> files w Recovery_exe = exe"

lemma wp_make_artifacts:
  assumes i: "idle exe w" and Q: "\<And>w'. idle exe w' \<Longrightarrow> copied exe w' \<Longrightarrow> Q () w'"
  shows "wp (make_artifacts su) Q (idle exe) (idle exe) w"
proof -
  have F: "{Executable} \<inter> volatile = {}" by auto
  have copy: "wp (copy_sync Executable f) Q' (idle exe) (idle exe) w'"
    if "idle exe w'" "f \<noteq> Executable"
      "\<And>w'' c. exe = Some c \<Longrightarrow> idle exe w'' \<Longrightarrow> files w'' f = Some c \<Longrightarrow>
          (\<forall>g. g \<noteq> f \<longrightarrow> g \<notin> volatile \<longrightarrow> files w'' g = files w' g) \<Longrightarrow> Q' () w''" for f Q' w'
  proof (rule wp_copy_sync)
    have t: "idle exe (tick w')" using that(1) by (rule idle_tick)
    then show "idle exe (tick w')" "idle exe (put_file f c (tick w'))" "idle exe (put_file f c (tick w'))" for c
      using that(2) by simp_all
    fix c assume "files (tick w') Executable = Some c"
    then have "exe = Some c" using t by (simp add: idle_def)
    then show "Q' () (put_file f (Some c) (tick w'))"
      using t that(2) by (intro that(3)) (auto simp: put_file_def tick_keeps idle_def)
  qed
  have step: "wp io_step Q' (idle exe) (idle exe) w'" if "idle exe w'" "\<And>w''. idle exe w'' \<Longrightarrow> Q' () w''" for Q' w'
    by (rule wp_idle_keeps [OF keeps_step [OF F]]) (use that in auto)
  have two: "wp (copy_sync Executable Previous_exe) (\<lambda>_. wp (copy_sync Executable Recovery_exe) Q (idle exe) (idle exe))
      (idle exe) (idle exe) w'" if "idle exe w'" for w'
  proof (rule copy [OF that])
    fix w2 c assume 2: "exe = Some c" "idle exe w2" "files w2 Previous_exe = Some c"
    show "wp (copy_sync Executable Recovery_exe) Q (idle exe) (idle exe) w2"
    proof (rule copy [OF 2(2)])
      fix w3 c' assume 3: "exe = Some c'" "idle exe w3" "files w3 Recovery_exe = Some c'"
        "\<forall>g. g \<noteq> Recovery_exe \<longrightarrow> g \<notin> volatile \<longrightarrow> files w3 g = files w2 g"
      then have "copied exe w3" using 2 by (simp add: copied_def idle_def)
      with 3 Q show "Q () w3" by blast
    qed simp
  qed simp
  have rep: "wp (atomic_replace Staged_exe Candidate_exe) (\<lambda>_. wp (copy_sync Executable Previous_exe)
      (\<lambda>_. wp (copy_sync Executable Recovery_exe) Q (idle exe) (idle exe)) (idle exe) (idle exe)) (idle exe) (idle exe) w'"
    if "idle exe w'" for w'
    by (rule wp_idle_keeps [where F = "{Executable}"]) (use that two in \<open>auto intro!: keeps_files\<close>)
  have down: "wp (io_bind (io_lift (su_download su)) (\<lambda>c. effect (put_file Staged_exe) (\<lambda>w. Inr ((), put_file Staged_exe (Some c) w))))
      (\<lambda>_. wp (atomic_replace Staged_exe Candidate_exe) (\<lambda>_. wp (copy_sync Executable Previous_exe)
        (\<lambda>_. wp (copy_sync Executable Recovery_exe) Q (idle exe) (idle exe)) (idle exe) (idle exe)) (idle exe) (idle exe))
      (idle exe) (idle exe) w'"
    if "idle exe w'" for w'
  proof (rule wp_idle_keeps [where F = "{Executable}"])
    show "keeps {Executable} (io_bind (io_lift (su_download su)) (\<lambda>c. effect (put_file Staged_exe) (\<lambda>w. Inr ((), put_file Staged_exe (Some c) w))))"
      by (intro keeps_intros) auto
  qed (use that rep in auto)
  have space: "wp (io_lift (space_check su)) Q' (idle exe) (idle exe) w'" if "idle exe w'" "\<And>w''. idle exe w'' \<Longrightarrow> Q' () w''" for Q' w'
    by (rule wp_idle_keeps [OF keeps_lift]) (use that in auto)
  show ?thesis
    unfolding make_artifacts_def wp_then by (intro step i space down)
qed

definition staged :: "host \<Rightarrow> contents option \<Rightarrow> world \<Rightarrow> bool" where
  "staged h exe w \<longleftrightarrow> idle exe w \<and> copied exe w \<and> \<not> j_armed (mem w) \<and> j_phase (mem w) = Prepared
     \<and> j_database_sha256 (mem w) = None \<and> (\<exists>c. exe = Some c \<and> h_sha256 h c = j_old_sha256 (mem w))"

definition prepared :: "host \<Rightarrow> contents option \<Rightarrow> world \<Rightarrow> bool" where
  "prepared h exe w \<longleftrightarrow> files w Executable = exe \<and> synced w \<and> pending (mem w) \<and> j_phase (mem w) = Prepared
     \<and> jr_ok h True (static (mem w)) (mem w) w"

lemma staged_same: "same {Executable, Previous_exe, Recovery_exe} w w' \<Longrightarrow> staged h exe w \<Longrightarrow> staged h exe w'"
  by (simp add: staged_def idle_def copied_def same_def)

lemma staged_files: "same_files w w' \<Longrightarrow> idle exe w' \<Longrightarrow> staged h exe w \<Longrightarrow> staged h exe w'"
  by (simp add: staged_def copied_def same_files_def)

lemma keeps_register [keeps_intros]: "F \<inter> volatile = {} \<Longrightarrow> keeps F (register_task t)"
  unfolding register_task_def by (rule keeps_effect) (auto simp: same_def)

lemma static_fields:
  "j_old_sha256 (static j) = j_old_sha256 j" "static (j\<lparr>j_armed := b\<rparr>) = static j"
  by (simp_all add: static_def)

lemma wp_arm:
  assumes st: "staged h exe w" and Q: "\<And>w'. prepared h exe w' \<Longrightarrow> Q () w'"
  shows "wp arm Q (idle exe) (idle exe) w"
  unfolding arm_def wp_bind wp_state
proof (rule wp_try, rule wp_keeps [OF keeps_register [where F = "{Executable, Previous_exe, Recovery_exe}"]])
  let ?k = "\<lambda>r. wp (case r of
         Inl e \<Rightarrow>
           (let msg = ''Recovery task registration failed: '' @ e in
            io_then (set_mem (\<lambda>j. j\<lparr>j_error := Some msg\<rparr>))
            (io_then (advance Restored) (io_error msg)))
       | Inr _ \<Rightarrow> io_then (set_mem (\<lambda>j. j\<lparr>j_armed := True\<rparr>)) save) Q (idle exe) (idle exe)"
  fix w' assume sm: "same {Executable, Previous_exe, Recovery_exe} w w'"
  have s': "staged h exe w'" by (rule staged_same [OF sm st])
  then have i: "idle exe w'" by (simp add: staged_def)
  then show "idle exe w'" .
  show "\<forall>e. ?k (Inl e) w'"
  proof
    fix e
    let ?w = "w'\<lparr>mem := (mem w')\<lparr>j_error := Some (''Recovery task registration failed: '' @ e)\<rparr>\<rparr>"
    have "wp save (\<lambda>_. idle exe) (idle exe) (idle exe) (?w\<lparr>mem := enter_phase Restored (mem ?w)\<rparr>)"
      by (rule wp_idle_save) (use i in \<open>simp_all add: pending_def enter_phase_def terminal_def\<close>)
    then show "?k (Inl e) w'" by (simp add: Let_def wp_simps advance_def)
  qed
  { fix x
    let ?w = "w'\<lparr>mem := (mem w')\<lparr>j_armed := True\<rparr>\<rparr>"
    have "wp save Q (idle exe) (idle exe) ?w"
    proof (rule wp_save)
      fix w'' assume sf: "same_files ?w w''"
      { assume "jfile w'' = Some (Holds (mem ?w))"
        with sf s' have "prepared h exe w''"
          by (auto simp: prepared_def staged_def synced_def same_files_def pending_def terminal_def copied_def
              jr_ok_def has_hash_def static_fields)
        then show "Q () w''" by (rule Q) }
      assume "jfile w'' = jfile ?w"
      with sf i show "idle exe w'' \<and> idle exe w''" by (simp add: idle_def same_files_def)
    qed
    then show "?k (Inr x) w'" by (simp add: wp_simps) }
qed auto

lemma wp_prepare_locked:
  assumes i: "idle exe w" and Q: "\<And>w'. prepared h exe w' \<Longrightarrow> Q () w'"
  shows "wp (prepare_locked h su executable d was_running) Q (idle exe) (idle exe) w"
proof -
  let ?X = "{Executable}"
  have X: "?X \<inter> volatile = {}" by auto
  have lift: "wp (io_lift r) Q' (idle exe) (idle exe) w'" if "idle exe w'" "\<And>x. Q' x w'" for r :: "string + 'x" and Q' w'
    using that by (auto simp: wp_simps split: sum.splits)
  have finish: "wp save (\<lambda>_. wp (io_then io_step arm) Q (idle exe) (idle exe)) (idle exe) (idle exe) w'"
    if s: "staged h exe w'" for w'
  proof (rule wp_idle_save)
    show "idle exe w'" "\<not> pending (mem w')" using s by (simp_all add: staged_def pending_def)
    fix w2 assume "idle exe w2" "same_files w' w2"
    then have s2: "staged h exe w2" using staged_files s by blast
    have "wp io_step (\<lambda>_. wp arm Q (idle exe) (idle exe)) (idle exe) (idle exe) w2"
    proof (rule wp_keeps [OF keeps_step [where F = "{Executable, Previous_exe, Recovery_exe}"]])
      fix w3 assume "same {Executable, Previous_exe, Recovery_exe} w2 w3"
      then have s3: "staged h exe w3" using staged_same s2 by blast
      show "wp arm Q (idle exe) (idle exe) w3" by (rule wp_arm [OF s3], rule Q)
      from s3 show "idle exe w3" by (simp add: staged_def)
    next
      fix w3 assume "same {Executable, Previous_exe, Recovery_exe} w2 w3"
      then show "idle exe w3" using staged_same s2 by (auto simp: staged_def)
    qed auto
    then show "wp (io_then io_step arm) Q (idle exe) (idle exe) w2" by (simp add: wp_simps)
  qed
  have hashes: "wp (sha256_file h Executable) (\<lambda>old_sha. wp (io_bind (file_exists State_db) (\<lambda>existed.
         io_then (set_mem (\<lambda>_. new_journal su d executable work la was_running baseline mode old_sha existed))
         (io_bind (sha256_file h Candidate_exe) (\<lambda>new_sha.
         io_then (set_mem (\<lambda>j. j\<lparr>j_new_sha256 := new_sha\<rparr>)) (io_then save (io_then io_step arm)))))) Q (idle exe) (idle exe))
      (idle exe) (idle exe) w'"
    if w': "idle exe w'" "copied exe w'" for w' work la baseline mode
  proof (rule wp_sha256_file)
    have t: "idle exe (tick w')" "copied exe (tick w')" using w' idle_tick by (auto simp: copied_def tick_keeps)
    show "idle exe (tick w')" "idle exe (tick w')" by (rule t)+
    fix old_sha assume hash: "has_hash h (tick w') Executable old_sha"
    let ?j = "new_journal su d executable work la was_running baseline mode old_sha (files (tick w') State_db \<noteq> None)"
    have "wp (sha256_file h Candidate_exe) (\<lambda>new_sha w. wp save (\<lambda>_. wp (io_then io_step arm) Q (idle exe) (idle exe))
        (idle exe) (idle exe) (w\<lparr>mem := (mem w)\<lparr>j_new_sha256 := new_sha\<rparr>\<rparr>)) (idle exe) (idle exe) ((tick w')\<lparr>mem := ?j\<rparr>)"
    proof (rule wp_sha256_file)
      let ?w = "tick ((tick w')\<lparr>mem := ?j\<rparr>)"
      show i2: "idle exe ?w" by (rule idle_tick) (use t in simp)
      then show "idle exe ?w" .
      fix new_sha
      have "staged h exe (?w\<lparr>mem := (mem ?w)\<lparr>j_new_sha256 := new_sha\<rparr>\<rparr>)"
        using t hash i2 by (auto simp: staged_def copied_def tick_keeps new_journal_def has_hash_def)
      then show "wp save (\<lambda>_. wp (io_then io_step arm) Q (idle exe) (idle exe)) (idle exe) (idle exe)
          (?w\<lparr>mem := (mem ?w)\<lparr>j_new_sha256 := new_sha\<rparr>\<rparr>)" by (rule finish)
    qed
    then show "wp (io_bind (file_exists State_db) (\<lambda>existed.
         io_then (set_mem (\<lambda>_. new_journal su d executable work la was_running baseline mode old_sha existed))
         (io_bind (sha256_file h Candidate_exe) (\<lambda>new_sha.
         io_then (set_mem (\<lambda>j. j\<lparr>j_new_sha256 := new_sha\<rparr>)) (io_then save (io_then io_step arm)))))) Q (idle exe) (idle exe) (tick w')"
      by (simp add: wp_simps)
  qed
  show ?thesis
    unfolding prepare_locked_def wp_bind
  proof (rule lift [OF i], rule wp_idle_keeps [OF keeps_more(4) [OF X] _ i])
    fix la x w1 assume i1: "idle exe w1"
    show "wp (if \<not> same_path x executable then io_error ''Executable does not own this data directory''
       else
         io_bind (check_baseline was_running) (\<lambda>baseline.
         io_bind (io_lift (ok_or ''Executable has no directory'' (path_parent executable))) (\<lambda>parent.
         io_then (make_artifacts su)
         (io_bind (io_lift (network_mode_of su la baseline)) (\<lambda>mode.
         io_bind (sha256_file h Executable) (\<lambda>old_sha.
         io_bind (file_exists State_db) (\<lambda>existed.
         io_then (set_mem (\<lambda>_. new_journal su d executable
           (path_join parent (''.stt-update-'' @ su_id su)) la was_running baseline mode old_sha existed))
         (io_bind (sha256_file h Candidate_exe) (\<lambda>new_sha.
         io_then (set_mem (\<lambda>j. j\<lparr>j_new_sha256 := new_sha\<rparr>))
         (io_then save (io_then io_step arm))))))))))) Q (idle exe) (idle exe) w1"
    proof (cases "same_path x executable")
      case False
      with i1 show ?thesis by (simp add: wp_simps)
    next
      case True
      have "wp (check_baseline was_running) (\<lambda>baseline. wp (io_bind (io_lift (ok_or ''Executable has no directory'' (path_parent executable))) (\<lambda>parent.
         io_then (make_artifacts su)
         (io_bind (io_lift (network_mode_of su la baseline)) (\<lambda>mode.
         io_bind (sha256_file h Executable) (\<lambda>old_sha.
         io_bind (file_exists State_db) (\<lambda>existed.
         io_then (set_mem (\<lambda>_. new_journal su d executable
           (path_join parent (''.stt-update-'' @ su_id su)) la was_running baseline mode old_sha existed))
         (io_bind (sha256_file h Candidate_exe) (\<lambda>new_sha.
         io_then (set_mem (\<lambda>j. j\<lparr>j_new_sha256 := new_sha\<rparr>))
         (io_then save (io_then io_step arm)))))))))) Q (idle exe) (idle exe)) (idle exe) (idle exe) w1"
        unfolding wp_bind [of "io_lift _"] wp_then [of "make_artifacts su"] wp_bind [of "sha256_file h Executable"]
        by (rule wp_idle_keeps [OF keeps_baseline [OF X] _ i1], simp, rule lift, assumption,
            rule wp_make_artifacts, assumption, rule lift, assumption, rule hashes)
      with True show ?thesis by (simp add: wp_bind)
    qed
  qed simp
qed

lemma wp_holding_lock:
  assumes "\<And>w b. Q () (w\<lparr>lock_held := b\<rparr>) = Q () w" "\<And>w b. E (w\<lparr>lock_held := b\<rparr>) = E w"
    "\<And>w b. C (w\<lparr>lock_held := b\<rparr>) = C w" "\<And>w'. w' = w \<or> w' = w\<lparr>lock_held := True\<rparr> \<Longrightarrow> wp body Q E C w'"
  shows "wp (holding_lock b body) Q E C w"
  using assms(4) [of w] assms(4) [of "w\<lparr>lock_held := True\<rparr>"] assms(1-3)
  by (auto simp: wp_def holding_lock_def split: prod.splits outcome.splits)

lemma prepared_lock [simp]: "prepared h exe (w\<lparr>lock_held := b\<rparr>) = prepared h exe w"
  by (simp add: prepared_def synced_def jr_ok_def has_hash_def)

definition untouched :: "contents option \<Rightarrow> journal_file option \<Rightarrow> world \<Rightarrow> bool" where
  "untouched exe jf w \<longleftrightarrow> files w Executable = exe \<and> (jfile w = jf \<or> (\<forall>j. jfile w = Some (Holds j) \<longrightarrow> \<not> pending j))"

lemma wp_prepare:
  "wp (prepare_with_id h su) (\<lambda>_. prepared h (files w Executable)) (untouched (files w Executable) (jfile w))
     (untouched (files w Executable) (jfile w)) w"
proof -
  let ?exe = "files w Executable"
  let ?U = "untouched ?exe (jfile w)"
  have u: "idle ?exe w' \<Longrightarrow> ?U w'" for w' by (simp add: idle_def untouched_def)
  have X: "{Executable} \<inter> volatile = {}" by auto
  have inner: "wp (io_bind (canonicalize h (su_current_exe su)) (\<lambda>e.
     io_bind (canonicalize h (su_data_dir su)) (\<lambda>d.
     io_bind server_down (\<lambda>down.
       holding_lock down (prepare_locked h su (simplify_path e) (simplify_path d) (\<not> down))))))
       (\<lambda>_. prepared h ?exe) (idle ?exe) (idle ?exe) w'" if "idle ?exe w'" for w'
    unfolding wp_bind
    by (rule wp_idle_keeps [OF keeps_more(4) [OF X] _ that], simp,
        rule wp_idle_keeps [OF keeps_more(4) [OF X]], simp, assumption,
        rule wp_idle_keeps [OF keeps_queries(1) [OF X]], simp, assumption,
        rule wp_holding_lock) (auto intro: wp_prepare_locked)
  show ?thesis
    unfolding prepare_with_id_def wp_then
  proof (rule wp_finish_previous [where exe = ?exe, OF refl])
    fix w' assume "idle ?exe w'"
    then show "wp (io_bind (canonicalize h (su_current_exe su)) (\<lambda>e.
     io_bind (canonicalize h (su_data_dir su)) (\<lambda>d.
     io_bind server_down (\<lambda>down.
       holding_lock down (prepare_locked h su (simplify_path e) (simplify_path d) (\<not> down))))))
       (\<lambda>_. prepared h ?exe) ?U ?U w'"
      by (rule wp_mono [OF inner]) (use u in auto)
  next
    fix w' assume "idle ?exe w' \<or> files w' Executable = ?exe \<and> jfile w' = jfile w"
    then show "?U w' \<and> ?U w'" using u by (auto simp: untouched_def)
  qed
qed

end
