(* ===== verification/Update_Properties.thy ===== *)
theory Update_Properties
  imports Update_Prepare "HOL-Library.Code_Target_Nat"
begin

text \<open>
  The properties of the updater, and a run in which one failed write of the journal makes a later
  recovery declare an unrestored installation restored.
\<close>

subsection \<open>A sample installation\<close>

definition sample_host :: host where
  "sample_host = \<lparr>h_sha256 = id, h_is_uuid = (\<lambda>_. True), h_canonical = Some, h_checkpoint = (\<lambda>db wal. db)\<rparr>"

definition sample_journal :: journal where
  "sample_journal = \<lparr>j_id = ''u'', j_phase = Prepared, j_data_dir = ''data'',
     j_work_dir = path_join ''app'' ''.stt-update-u'', j_executable = path_join ''app'' ''stt.exe'',
     j_service = False, j_was_running = False, j_ready_model = None, j_old_version = ''1'', j_new_version = ''2'',
     j_api_level = 1, j_network_mode = ''local'', j_old_sha256 = ''old'', j_new_sha256 = ''new'',
     j_database_existed = False, j_database_sha256 = None, j_ready_timeout_seconds = 0,
     j_task_name = ''t'', j_task_removed = False, j_armed = True, j_error = None\<rparr>"

definition validation_body :: "string \<Rightarrow> json" where
  "validation_body version = JObj [(''version'', JStr version), (''api_level'', JInt 1),
     (''network_mode'', JStr ''local''), (''transaction'', JStr ''u'')]"

definition sample_event :: "fault \<Rightarrow> string \<Rightarrow> event" where
  "sample_event f version = \<lparr>ev_fault = f, ev_db = None, ev_dies = False, ev_stops = True, ev_starts = False,
     ev_deadline = False, ev_busy = False, ev_body = Some (validation_body version)\<rparr>"

definition sample_files :: "contents \<Rightarrow> artifact \<Rightarrow> contents option" where
  "sample_files exe = (\<lambda>_. None)(Executable := Some exe, Previous_exe := Some ''old'',
     Recovery_exe := Some ''old'', Candidate_exe := Some ''new'')"

definition sample_world :: "journal \<Rightarrow> contents \<Rightarrow> (nat \<Rightarrow> event) \<Rightarrow> world" where
  "sample_world j exe scr = \<lparr>files = sample_files exe, jfile = Some (Holds j), jtmp = None, jpublish = None,
     mem = j, server = None, stop_requested = False, lock_held = False, tasks = [''t''],
     update_locked = False, script = scr, now = 0\<rparr>"

definition rebooted :: "world \<Rightarrow> world \<Rightarrow> bool" where
  "rebooted w w' \<longleftrightarrow> jfile w' = jfile w \<and> (\<forall>f. f \<notin> volatile \<longrightarrow> files w' f = files w f)"

definition interrupted_journal :: journal where
  "interrupted_journal = sample_journal\<lparr>j_phase := Replacing\<rparr>"

lemma sample_ok: "disk_ok sample_host True (static sample_journal) (sample_world sample_journal ''old'' scr)"
  by (simp add: disk_ok_def sample_world_def jr_ok_def has_hash_def sample_files_def sample_host_def
      sample_journal_def static_def terminal_def)

lemma interrupted_ok: "disk_ok sample_host True (static sample_journal) (sample_world interrupted_journal exe scr)"
  by (simp add: disk_ok_def sample_world_def jr_ok_def has_hash_def sample_files_def sample_host_def
      sample_journal_def interrupted_journal_def static_def terminal_def)

lemma sample_calm: "calm_event (static sample_journal) (sample_event Succeeds ''1'')"
  by (simp add: calm_event_def sample_event_def validate_response_def validation_body_def sample_journal_def
      static_def jindex_def u64_max_def)

lemma sample_valid: "journal_valid sample_host ''data'' (static sample_journal)"
  by (simp add: journal_valid_def sample_host_def sample_journal_def static_def work_dir_ok_def path_join_def
      path_parent_def bslash_def same_path_def)

subsection \<open>Crash safety\<close>

text \<open>
  C14. Whatever fails and wherever the machine stops during a run of the worker, the journal on disk
  afterwards still belongs to this transaction and tells the truth: the copies of the previous
  executable and of the worker are intact, so is every recorded snapshot, a transaction marked
  restored has the previous executable installed, one marked committed has the new one, and an
  unfinished one is still armed for recovery, except possibly one whose rollback was recorded by a
  first run that had done everything up to the recording of the commit without an error.
\<close>

theorem worker_run_is_crash_safe:
  assumes "disk_ok h True s w"
  shows "\<exists>j. jfile (snd (run_worker h d recover w)) = Some (Holds j) \<and> static j = s
    \<and> has_hash h (snd (run_worker h d recover w)) Previous_exe (j_old_sha256 s)
    \<and> has_hash h (snd (run_worker h d recover w)) Recovery_exe (j_old_sha256 s)
    \<and> (\<forall>x. j_database_sha256 j = Some x \<longrightarrow> has_hash h (snd (run_worker h d recover w)) Snapshot_file x)
    \<and> (j_phase j = Restored \<longrightarrow> has_hash h (snd (run_worker h d recover w)) Executable (j_old_sha256 s))
    \<and> (j_phase j = Committed \<longrightarrow> has_hash h (snd (run_worker h d recover w)) Executable (j_new_sha256 s))
    \<and> (\<not> terminal (j_phase j) \<longrightarrow> j_armed j \<or> (\<not> recover \<and> j_phase j = RollingBack \<and> commit_begun h d w))"
proof -
  let ?a = "recover \<or> \<not> commit_begun h d w"
  obtain j where "jfile (snd (run_worker h d recover w)) = Some (Holds j)"
    "jr_ok h ?a s j (snd (run_worker h d recover w))"
    using run_worker_disk [OF assms, of ?a recover d] by (auto simp: disk_ok_def)
  then show ?thesis by (intro exI [of _ j]) (auto simp: jr_ok_def)
qed

lemma worker_run_is_crash_safe_witness:
  "has_hash sample_host (snd (run_worker sample_host ''data'' False
      (sample_world sample_journal ''old'' (\<lambda>n. sample_event (if n = 24 then Crashes None else Succeeds) ''2''))))
    Previous_exe ''old''"
  using worker_run_is_crash_safe [OF sample_ok, of "''data''" False
      "\<lambda>n. sample_event (if n = 24 then Crashes None else Succeeds) ''2''"]
  by (auto simp: sample_journal_def static_def)

inductive interrupted :: "host \<Rightarrow> string \<Rightarrow> world \<Rightarrow> world \<Rightarrow> bool" for h d where
  none: "interrupted h d w w"
| again: "interrupted h d w\<^sub>0 w \<Longrightarrow> rebooted (snd (run_worker h d True w)) w' \<Longrightarrow> interrupted h d w\<^sub>0 w'"

lemma rebooted_disk: "rebooted w w' \<Longrightarrow> disk_ok h a s w \<Longrightarrow> disk_ok h a s w'"
proof -
  assume r: "rebooted w w'" and d: "disk_ok h a s w"
  have "jr_ok h a s j w' = jr_ok h a s j w" for j by (rule jr_ok_files) (use r in \<open>auto simp: rebooted_def\<close>)
  with r d show ?thesis by (simp add: disk_ok_def rebooted_def)
qed

lemma interrupted_disk: "interrupted h d w\<^sub>0 w \<Longrightarrow> disk_ok h True s w\<^sub>0 \<Longrightarrow> disk_ok h True s w"
proof (induction rule: interrupted.induct)
  case (again w\<^sub>0 w w')
  then show ?case using rebooted_disk run_worker_disk [of h s w True True d] by blast
qed simp

lemma journal_valid_static: "journal_valid h d (static j) = journal_valid h d j"
  by (simp add: journal_valid_def work_dir_ok_def static_def)

text \<open>
  C15. Recovery survives being interrupted: after any number of recovery runs that failed or were cut
  off anywhere, with reboots in between, either the transaction is already finished with the
  executable it claims, or one run that is not disturbed ends it: the journal says restored, the
  previous executable is installed, the database is that of the snapshot (or untouched when none was
  taken, or gone when there was none), the server runs again exactly if it ran before, and the
  recovery task is removed.
\<close>

theorem recovery_survives_interruption:
  assumes "disk_ok h True s w\<^sub>0" "interrupted h d w\<^sub>0 w" "journal_valid h d s"
    and "\<forall>n. calm_event s (script w n)" "\<not> update_locked w" "\<not> stop_requested w"
  shows "\<exists>j. jfile w = Some (Holds j) \<and>
    (if terminal (j_phase j)
     then has_hash h w Executable (if j_phase j = Restored then j_old_sha256 s else j_new_sha256 s)
     else (\<exists>e. fst (run_worker h d True w) = Error e)
       \<and> fully_restored j (files w) (snd (run_worker h d True w))
       \<and> has_hash h (snd (run_worker h d True w)) Executable (j_old_sha256 s))"
proof -
  obtain j where j: "jfile w = Some (Holds j)" "jr_ok h True s j w"
    using interrupted_disk [OF assms(2,1)] by (auto simp: disk_ok_def)
  have st: "static j = s" using j(2) by (simp add: jr_ok_def)
  show ?thesis
  proof (cases "terminal (j_phase j)")
    case True
    with j show ?thesis by (intro exI [of _ j]) (auto simp: jr_ok_def terminal_def)
  next
    case False
    then have p: "pending j" using j(2) by (auto simp: pending_def jr_ok_def)
    have v: "journal_valid h d j" using assms(3) st journal_valid_static by metis
    have "wp (run_worker h d True) (\<lambda>_ _. False) (fully_restored j (files w)) (\<lambda>_. False) w"
      by (rule calm_recovery) (use assms(4-6) st j p v jr_ok_backed_up in auto)
    then obtain e w' where e: "run_worker h d True w = (Error e, w')" "fully_restored j (files w) w'"
      by (auto simp: wp_def split: prod.splits outcome.splits)
    obtain c where "files w Previous_exe = Some c" "h_sha256 h c = j_old_sha256 j"
      using jr_ok_backed_up [OF j(2)] by (auto simp: backed_up_def)
    with e(2) static_old [OF j(2)] have "has_hash h w' Executable (j_old_sha256 s)"
      by (simp add: has_hash_def fully_restored_def restored_files_def)
    with e j(1) False show ?thesis by simp
  qed
qed

lemma recovery_survives_interruption_witness:
  "\<exists>e. fst (run_worker sample_host ''data'' True
      (sample_world interrupted_journal ''new'' (\<lambda>_. sample_event Succeeds ''1''))) = Error e"
proof -
  let ?w = "sample_world interrupted_journal ''new'' (\<lambda>_. sample_event Succeeds ''1'')"
  have "\<exists>j. jfile ?w = Some (Holds j) \<and>
    (if terminal (j_phase j)
     then has_hash sample_host ?w Executable (if j_phase j = Restored then j_old_sha256 (static sample_journal) else j_new_sha256 (static sample_journal))
     else (\<exists>e. fst (run_worker sample_host ''data'' True ?w) = Error e)
       \<and> fully_restored j (files ?w) (snd (run_worker sample_host ''data'' True ?w))
       \<and> has_hash sample_host (snd (run_worker sample_host ''data'' True ?w)) Executable (j_old_sha256 (static sample_journal)))"
    by (rule recovery_survives_interruption [OF interrupted_ok interrupted.none sample_valid])
       (use sample_calm in \<open>simp_all add: sample_world_def\<close>)
  then show ?thesis
    by (simp add: sample_world_def interrupted_journal_def sample_journal_def terminal_def)
qed

subsection \<open>A gap in the protection\<close>

text \<open>
  The script of the failing run: the first write of the journal that should record the commit fails,
  and the machine stops right after the rollback has recorded its start.
\<close>

definition unlucky_script :: "nat \<Rightarrow> event" where
  "unlucky_script n =
     sample_event (if n = 35 then Fails None else if n = 46 then Crashes None else Succeeds) ''2''"

definition after_crash :: world where
  "after_crash = snd (run_worker sample_host ''data'' False (sample_world sample_journal ''old'' unlucky_script))"

definition next_recovery :: world where
  "next_recovery = after_crash\<lparr>server := None, script := (\<lambda>_. sample_event Succeeds ''1'')\<rparr>"

text \<open>
  C16. A gap in the protection: an unfinished transaction whose journal is not armed is no obstacle to a normal
  start, although its backups are intact, and the next undisturbed run of the worker closes it as restored without
  touching any file. The witness is a run that leads there: recording the commit disarms the journal in memory
  before it is written; the write fails, the rollback that follows records its start unarmed, and the machine
  stops. Recovery then declares the previous version restored while the new executable is installed.
\<close>

theorem commit_write_failure_defeats_recovery:
  assumes "jfile w = Some (Holds j)" "\<not> terminal (j_phase j)" "\<not> j_armed j"
    and "journal_valid h d j" "backed_up h j (files w)"
    and "\<And>n. calm_event (static j) (script w n)" "\<not> update_locked w" "server w = None"
    and "se_dir_ok env" "se_lock env = Some True"
  shows "startup_guard h env (jfile w) (jfile w) = Inr (Some ())
    \<and> fst (run_worker h d recover w) = Done ()
    \<and> (\<exists>j'. jfile (snd (run_worker h d recover w)) = Some (Holds j') \<and> j_phase j' = Restored)
    \<and> files (snd (run_worker h d recover w)) = files w"
proof -
  have "wp (run_worker h d recover)
    (\<lambda>_ w'. files w' = files w \<and> (\<exists>j'. jfile w' = Some (Holds j') \<and> j_phase j' = Restored)) (\<lambda>_. False) (\<lambda>_. False) w"
    by (rule calm_unarmed) (use assms in auto)
  then obtain w' where "run_worker h d recover w = (Done (), w')" "files w' = files w"
    "\<exists>j'. jfile w' = Some (Holds j') \<and> j_phase j' = Restored"
    by (auto simp: wp_def split: prod.splits outcome.splits)
  with assms show ?thesis by (simp add: startup_guard_def read_journal_def pending_def update_lock_def)
qed

definition manual_start :: startup_env where
  "manual_start = \<lparr>se_dir_ok = True, se_transaction = None, se_service_mode = False,
     se_current_exe = Some (path_join ''app'' ''stt.exe''), se_lock = Some True\<rparr>"

definition unarmed_journal :: journal where
  "unarmed_journal = sample_journal\<lparr>j_phase := RollingBack, j_armed := False, j_error := Some ''I/O error''\<rparr>"

lemma unlucky_run:
  "jfile after_crash = Some (Holds unarmed_journal)" "files after_crash Executable = Some ''new''"
  "files after_crash Previous_exe = Some ''old''" "files after_crash Recovery_exe = Some ''old''" "\<not> update_locked after_crash"
  by code_simp+

theorem commit_write_failure_defeats_recovery_witness:
  "after_crash = snd (run_worker sample_host ''data'' False (sample_world sample_journal ''old'' unlucky_script))
   \<and> startup_guard sample_host manual_start (jfile after_crash) (jfile after_crash) = Inr (Some ())
   \<and> (\<exists>j'. jfile (snd (run_worker sample_host ''data'' True next_recovery)) = Some (Holds j') \<and> j_phase j' = Restored)
   \<and> files (snd (run_worker sample_host ''data'' True next_recovery)) Executable = Some ''new''"
proof -
  have next_run: "jfile next_recovery = Some (Holds unarmed_journal)" "files next_recovery = files after_crash"
    "script next_recovery n = sample_event Succeeds ''1''" "\<not> update_locked next_recovery" "server next_recovery = None" for n
    using unlucky_run by (simp_all add: next_recovery_def)
  have j: "static unarmed_journal = static sample_journal" "\<not> terminal (j_phase unarmed_journal)" "\<not> j_armed unarmed_journal"
    by (simp_all add: unarmed_journal_def sample_journal_def static_def terminal_def)
  have backups: "backed_up sample_host unarmed_journal (files next_recovery)"
    using unlucky_run by (simp add: backed_up_def next_run(2) unarmed_journal_def sample_journal_def sample_host_def)
  have valid: "journal_valid sample_host ''data'' unarmed_journal"
    using sample_valid journal_valid_static [of sample_host "''data''" unarmed_journal] j(1) by simp
  have calm: "calm_event (static unarmed_journal) (script next_recovery n)" for n using sample_calm by (simp add: j(1) next_run(3))
  have env: "se_dir_ok manual_start" "se_lock manual_start = Some True" by (simp_all add: manual_start_def)
  from commit_write_failure_defeats_recovery [OF next_run(1) j(2,3) valid backups calm next_run(4,5) env, where recover = True]
  show ?thesis using unlucky_run(1,2) next_run(1,2) by (simp add: after_crash_def)
qed

subsection \<open>Startup and validation\<close>

text \<open>
  C18. Who may start, exactly. With the update lock: a process that gets it and that saw, both before and after
  taking it, a journal that is absent or readable and has no pending transaction, so the server it starts is
  not in maintenance. Without the lock: while a pending transaction is validating or rolling back, a process whose
  environment names that very transaction, or that runs as the service the transaction recorded, and whose own
  executable resolves to the same path as the recorded one. A damaged journal lets nobody in, nor does a path that
  cannot be resolved.
\<close>

theorem startup_guard_sound:
  "(startup_guard h env before after = Inr (Some ()) \<longleftrightarrow>
      se_dir_ok env \<and> se_lock env = Some True \<and> \<not> maintenance before \<and> \<not> maintenance after)
   \<and> (startup_guard h env before after = Inr None \<longleftrightarrow>
      se_dir_ok env \<and> maintenance before \<and>
      (\<exists>j exe c. before = Some (Holds j) \<and> (j_phase j = Validating \<or> j_phase j = RollingBack)
         \<and> (se_transaction env = Some (j_id j) \<or> j_service j \<and> se_service_mode env)
         \<and> se_current_exe env = Some exe \<and> h_canonical h exe = Some c \<and> h_canonical h (j_executable j) = Some c))"
proof (cases before)
  case None
  then show ?thesis
    by (auto simp: startup_guard_def maintenance_def read_journal_def update_lock_def outcome_simps
        split: option.splits journal_file.splits if_splits)
next
  case (Some f)
  show ?thesis
  proof (cases f)
    case Garbage
    with Some show ?thesis by (auto simp: startup_guard_def maintenance_def read_journal_def outcome_simps)
  next
    case (Holds j)
    show ?thesis
    proof (cases "pending j")
      case True
      with Some Holds show ?thesis
        by (auto simp: startup_guard_def maintenance_def read_journal_def same_executable_def outcome_simps Let_def
            split: if_splits option.splits)
    next
      case False
      with Some Holds show ?thesis
        by (auto simp: startup_guard_def maintenance_def read_journal_def update_lock_def outcome_simps Let_def
            split: option.splits journal_file.splits if_splits)
    qed
  qed
qed

theorem startup_guard_sound_witness:
  "startup_guard sample_host manual_start None None = Inr (Some ())
   \<and> startup_guard sample_host (manual_start\<lparr>se_transaction := Some ''u''\<rparr>)
       (Some (Holds (sample_journal\<lparr>j_phase := Validating\<rparr>))) (Some Garbage) = Inr None
   \<and> startup_guard sample_host (manual_start\<lparr>se_transaction := Some ''v''\<rparr>)
       (Some (Holds (sample_journal\<lparr>j_phase := Validating\<rparr>))) None \<noteq> Inr None"
  unfolding conjunct1 [OF startup_guard_sound] conjunct2 [OF startup_guard_sound]
  by (simp add: manual_start_def sample_journal_def sample_host_def maintenance_def read_journal_def pending_def terminal_def)

text \<open>
  What validation accepts: exactly an answer from the started transaction itself that reports the
  expected version (the previous one when rolling back), an API level that is not lower, an unchanged
  network mode, and the model that was ready before, if there was one. It asks to wait only while that
  model is still loading.
\<close>

theorem validation_accepts_exactly:
  "(validate_response j body rb = Inr ok) \<longleftrightarrow>
     as_str (jindex body ''version'') = Some (if rb then j_old_version j else j_new_version j)
     \<and> j_api_level j \<le> unwrap_or 0 (as_u64 (jindex body ''api_level''))
     \<and> as_str (jindex body ''network_mode'') = Some (j_network_mode j)
     \<and> as_str (jindex body ''transaction'') = Some (j_id j)
     \<and> (if ok then j_ready_model j = None \<or> as_str (jindex body ''ready_model'') = j_ready_model j
        else j_ready_model j \<noteq> None \<and> as_str (jindex body ''ready_model'') \<noteq> j_ready_model j
          \<and> as_bool (jindex body ''loading'') = Some True)"
  by (cases "j_ready_model j"; cases ok) (auto simp: validate_response_def Let_def)

subsection \<open>Preparing and then updating\<close>

text \<open>
  C17. Preparation is all or nothing: when it succeeds the journal on disk is armed and fresh and the
  worker's invariant holds with the executable that was installed; when it fails or the machine stops
  anywhere in it, the installed executable is unchanged and no pending transaction was left (an older
  one that was pending is left as it was), so startup is not blocked by an update that never began.
\<close>

theorem prepare_all_or_nothing:
  "case prepare_with_id h su w of
     (Done _, w') \<Rightarrow> files w' Executable = files w Executable
       \<and> (\<exists>j. jfile w' = Some (Holds j) \<and> pending j \<and> j_phase j = Prepared \<and> disk_ok h True (static j) w')
   | (Error e, w') \<Rightarrow> untouched (files w Executable) (jfile w) w'
   | (Crashed, w') \<Rightarrow> untouched (files w Executable) (jfile w) w'"
  using wp_prepare [of h su w]
  by (auto simp: wp_def prepared_def synced_def disk_ok_def split: prod.splits outcome.splits)

definition sample_surroundings :: surroundings where
  "sample_surroundings = \<lparr>su_id = ''u'', su_current_exe = path_join ''app'' ''stt.exe'', su_data_dir = ''data'',
     su_server_launch = None, su_last_launch = No_launch_file, su_exe_size = 3, su_release_version = ''2'',
     su_release_size = None, su_work_space = 2 ^ 30, su_data_space = 2 ^ 30, su_db_size = 0,
     su_download = Inr ''new'', su_current_version = ''1'', su_api_level = 1, su_timeout = 0,
     su_bind_host = None, su_saved_mode = None\<rparr>"

definition fresh_world :: world where
  "fresh_world = (sample_world sample_journal ''old'' (\<lambda>_. sample_event Succeeds ''2''))\<lparr>jfile := None\<rparr>"

text \<open>
  An update never loses the previous version: after a successful preparation and any reboot, a run
  of the worker with any failures and any crash point keeps an intact copy of the executable that was
  installed before, and if the journal ends as restored, that executable is installed again.
\<close>

theorem update_keeps_previous_version:
  assumes "prepare_with_id h su w = (Done (), w1)" "files w Executable = Some old" "rebooted w1 w2"
  shows "\<exists>j. jfile (snd (run_worker h d recover w2)) = Some (Holds j)
    \<and> has_hash h (snd (run_worker h d recover w2)) Previous_exe (h_sha256 h old)
    \<and> (j_phase j = Restored \<longrightarrow> has_hash h (snd (run_worker h d recover w2)) Executable (h_sha256 h old))"
proof -
  have "prepared h (files w Executable) w1" using wp_prepare [of h su w] assms(1) by (simp add: wp_def)
  then have j: "jfile w1 = Some (Holds (mem w1))" "files w1 Executable = Some old" "j_phase (mem w1) = Prepared"
    "jr_ok h True (static (mem w1)) (mem w1) w1"
    using assms(2) by (auto simp: prepared_def synced_def)
  from j(2-4) have old: "j_old_sha256 (static (mem w1)) = h_sha256 h old" by (simp add: jr_ok_def has_hash_def)
  have "disk_ok h True (static (mem w1)) w1" using j by (auto simp: disk_ok_def)
  then have "disk_ok h True (static (mem w1)) w2" using rebooted_disk assms(3) by blast
  from run_worker_disk [OF this, of False recover d] show ?thesis
    unfolding disk_ok_def jr_ok_def old by blast
qed

lemma sample_prepare:
  "prepare_with_id sample_host sample_surroundings fresh_world =
     (Done (), snd (prepare_with_id sample_host sample_surroundings fresh_world))"
proof -
  have "fst (prepare_with_id sample_host sample_surroundings fresh_world) = Done ()" by code_simp
  then show ?thesis by (metis prod.collapse)
qed

lemma update_keeps_previous_version_witness:
  "has_hash sample_host (snd (run_worker sample_host ''data'' False
      (snd (prepare_with_id sample_host sample_surroundings fresh_world)))) Previous_exe ''old''"
proof -
  have old: "files fresh_world Executable = Some ''old''" "h_sha256 sample_host ''old'' = ''old''"
    by (simp_all add: fresh_world_def sample_world_def sample_files_def sample_host_def)
  have same: "rebooted w w" for w by (simp add: rebooted_def)
  show ?thesis
    using update_keeps_previous_version [OF sample_prepare old(1) same, of "''data''" False] old(2) by auto
qed

end
