(* ===== verification/Inference_Queue.thy ===== *)
theory Inference_Queue
  imports Errors
begin

text \<open>
  \<open>src/queue.rs\<close>: the single inference slot with its two waiting lists, and the live-stream slot
  with its model lease. A waiter is its id; whether its receiver still exists is the state of its
  oneshot channel, which the system state of \<open>qstep\<close> keeps next to the queue, because a waiter may
  vanish between any two critical sections. One \<open>qstep\<close> is one critical section of the mutex (or
  one channel operation) by any of the concurrent requests.
\<close>

datatype priority = Normal | Interactive

datatype queue_error = QueueFull | QueueTimeout | StreamActive

definition parse_priority :: "string \<Rightarrow> priority option" where
  "parse_priority v =
     (if v = ''normal'' then Some Normal else if v = ''interactive'' then Some Interactive else None)"

record qstate =
  busy :: bool
  next_id :: nat
  interactive :: "nat list"
  normal :: "nat list"

definition empty_queue :: qstate where
  "empty_queue = \<lparr>busy = False, next_id = 0, interactive = [], normal = []\<rparr>"

definition waiting :: "qstate \<Rightarrow> nat" where
  "waiting q = length (interactive q) + length (normal q)"

definition next_waiter :: "qstate \<Rightarrow> (nat \<times> qstate) option" where
  "next_waiter q =
     (case interactive q of
        w # ws \<Rightarrow> Some (w, q\<lparr>interactive := ws\<rparr>)
      | [] \<Rightarrow> (case normal q of w # ws \<Rightarrow> Some (w, q\<lparr>normal := ws\<rparr>) | [] \<Rightarrow> None))"

definition remove_waiter :: "nat \<Rightarrow> qstate \<Rightarrow> qstate" where
  "remove_waiter i q =
     q\<lparr>interactive := filter (\<lambda>w. w \<noteq> i) (interactive q), normal := filter (\<lambda>w. w \<noteq> i) (normal q)\<rparr>"

lemma next_waiter_less: "next_waiter q = Some (w, q') \<Longrightarrow> waiting q' < waiting q"
  by (auto simp: next_waiter_def waiting_def split: list.splits)

text \<open>
  Dropping the permit: offer the slot to the next waiter until one still has its receiver; free
  the slot when nobody is left. The result names the waiter that was granted the slot.
\<close>

function release :: "(nat \<Rightarrow> bool) \<Rightarrow> qstate \<Rightarrow> nat option \<times> qstate" where
  "release live q =
     (case next_waiter q of
        None \<Rightarrow> (None, q\<lparr>busy := False\<rparr>)
      | Some (w, q') \<Rightarrow> if live w then (Some w, q') else release live q')"
  by pat_completeness auto
termination
  by (relation "measure (\<lambda>(live, q). waiting q)") (auto dest: next_waiter_less)

declare release.simps [simp del]

definition permit_drop :: "bool \<Rightarrow> (nat \<Rightarrow> bool) \<Rightarrow> qstate \<Rightarrow> nat option \<times> qstate" where
  "permit_drop owns_slot live q = (if \<not> owns_slot then (None, q) else release live q)"

datatype entry = Acquired | Rejected queue_error | Queued nat

text \<open>The critical section of \<open>acquire\<close>.\<close>

definition acquire_enter :: "priority \<Rightarrow> nat option \<Rightarrow> qstate \<Rightarrow> entry \<times> qstate" where
  "acquire_enter prio max_waiting q =
     (if \<not> busy q then (Acquired, q\<lparr>busy := True\<rparr>)
      else if (case max_waiting of None \<Rightarrow> False | Some m \<Rightarrow> m \<le> waiting q)
      then (Rejected QueueFull, q)
      else
        let i = next_id q; q = q\<lparr>next_id := i + 1\<rparr> in
        (Queued i,
         case prio of
           Interactive \<Rightarrow> q\<lparr>interactive := interactive q @ [i]\<rparr>
         | Normal \<Rightarrow> q\<lparr>normal := normal q @ [i]\<rparr>))"

text \<open>
  What a queued request sees of its oneshot channel when its wait ends, and the result it gives
  its caller: the granted permit, or a timeout (a closed channel is mapped to a timeout too).
\<close>

datatype wait_end = Permit_received | Deadline_passed | Sender_dropped

fun acquire_result :: "nat \<Rightarrow> wait_end \<Rightarrow> queue_error + nat" where
  "acquire_result elapsed_ms Permit_received = Inr elapsed_ms"
| "acquire_result elapsed_ms Deadline_passed = Inl QueueTimeout"
| "acquire_result elapsed_ms Sender_dropped = Inl QueueTimeout"

subsection \<open>The interface its clients rely on\<close>

definition service_order :: "qstate \<Rightarrow> nat list" where
  "service_order q = interactive q @ normal q"

text \<open>The waiters in front of one.\<close>

definition ahead :: "nat \<Rightarrow> nat list \<Rightarrow> nat" where
  "ahead w ws = length (takeWhile (\<lambda>v. v \<noteq> w) ws)"

lemma ahead_simps [simp]: "ahead w [] = 0" "ahead w (v # vs) = (if v = w then 0 else Suc (ahead w vs))"
  by (simp_all add: ahead_def)

lemma ahead_filter: "v \<noteq> w \<Longrightarrow> ahead w (filter (\<lambda>u. u \<noteq> v) ws) \<le> ahead w ws"
  by (induction ws) auto

lemma find_or_ahead:
  "w \<in> set ws \<Longrightarrow> live w \<Longrightarrow> List.find live ws = Some w
     \<or> w \<in> set (tl (dropWhile (\<lambda>v. \<not> live v) ws)) \<and> ahead w (tl (dropWhile (\<lambda>v. \<not> live v) ws)) < ahead w ws"
  by (induction ws) auto

locale permit_queue =
  fixes enter :: "priority \<Rightarrow> nat option \<Rightarrow> 'q \<Rightarrow> entry \<times> 'q"
    and give :: "(nat \<Rightarrow> bool) \<Rightarrow> 'q \<Rightarrow> nat option \<times> 'q"
    and leave :: "nat \<Rightarrow> 'q \<Rightarrow> 'q"
    and order_of :: "'q \<Rightarrow> nat list"
    and taken :: "'q \<Rightarrow> bool"
  assumes give_target: "fst (give live q) = List.find live (order_of q)"
    and give_order: "order_of (snd (give live q)) = tl (dropWhile (\<lambda>w. \<not> live w) (order_of q))"
    and give_taken: "taken (snd (give live q)) \<longleftrightarrow> taken q \<and> fst (give live q) \<noteq> None"
    and enter_taken: "taken q \<Longrightarrow> fst (enter p m q) \<noteq> Acquired \<and> taken (snd (enter p m q))"
    and enter_free: "\<not> taken q \<Longrightarrow> fst (enter p m q) = Acquired \<and> taken (snd (enter p m q))"
    and leave_order: "order_of (leave i q) = filter (\<lambda>w. w \<noteq> i) (order_of q)"
    and leave_taken: "taken (leave i q) = taken q"
begin

text \<open>
  A release grants a waiter whose receiver is alive the slot or serves one ahead of it; another's departure
  moves it back never.
\<close>

lemma give_progress:
  assumes "w \<in> set (order_of q)" "live w"
  shows "fst (give live q) = Some w
    \<or> w \<in> set (order_of (snd (give live q))) \<and> ahead w (order_of (snd (give live q))) < ahead w (order_of q)"
  using assms find_or_ahead [of w "order_of q" live] by (simp add: give_target give_order)

lemma leave_progress:
  assumes "w \<in> set (order_of q)" "v \<noteq> w"
  shows "w \<in> set (order_of (leave v q))" "ahead w (order_of (leave v q)) \<le> ahead w (order_of q)"
  using assms ahead_filter [of v w "order_of q"] by (simp_all add: leave_order)

text \<open>A waiter that leaves never receives the slot, and the others keep their relative order.\<close>

lemma left_never_served: "fst (give live (leave i q)) \<noteq> Some i"
  by (auto simp: give_target leave_order dest: find_Some_set)

lemma no_overtaking:
  assumes "taken q" "fst (give live q) = Some w" "order_of q = xs @ w # ys" "w \<notin> set xs"
  shows "\<forall>x \<in> set xs. \<not> live x"
  using assms(2-4) by (auto simp: give_target dest: find_skips)

end

lemma next_waiter_None: "next_waiter q = None \<longleftrightarrow> service_order q = []"
  by (auto simp: next_waiter_def service_order_def split: list.splits)

lemma next_waiter_Some:
  "next_waiter q = Some (w, q') \<Longrightarrow>
     service_order q = w # service_order q' \<and> busy q' = busy q \<and> next_id q' = next_id q"
  by (auto simp: next_waiter_def service_order_def split: list.splits)

lemma release_spec:
  "fst (release live q) = List.find live (service_order q)
   \<and> service_order (snd (release live q)) = tl (dropWhile (\<lambda>w. \<not> live w) (service_order q))
   \<and> busy (snd (release live q)) = (busy q \<and> fst (release live q) \<noteq> None)
   \<and> next_id (snd (release live q)) = next_id q"
proof (induction live q rule: release.induct)
  case (1 live q)
  show ?case
  proof (cases "next_waiter q")
    case None
    then have "service_order q = []" by (simp add: next_waiter_None)
    with None show ?thesis by (simp add: release.simps [of live q]) (simp add: service_order_def)
  next
    case (Some a)
    then obtain w q' where s: "next_waiter q = Some (w, q')" by (cases a) auto
    note nw = next_waiter_Some [OF s]
    show ?thesis
      using nw 1 [OF s refl] by (cases "live w") (simp_all add: release.simps [of live q] s)
  qed
qed

lemma acquire_enter_busy:
  "busy q \<Longrightarrow> fst (acquire_enter p m q) \<noteq> Acquired \<and> busy (snd (acquire_enter p m q))"
  by (auto simp: acquire_enter_def Let_def split: priority.splits)

lemma acquire_enter_free:
  "\<not> busy q \<Longrightarrow> acquire_enter p m q = (Acquired, q\<lparr>busy := True\<rparr>)"
  by (simp add: acquire_enter_def)

lemma remove_waiter_order: "service_order (remove_waiter i q) = filter (\<lambda>w. w \<noteq> i) (service_order q)"
  by (simp add: remove_waiter_def service_order_def)

lemma remove_waiter_busy [simp]:
  "busy (remove_waiter i q) = busy q" "next_id (remove_waiter i q) = next_id q"
  by (simp_all add: remove_waiter_def)

interpretation slot: permit_queue acquire_enter release remove_waiter service_order busy
  by unfold_locales
     (auto simp: release_spec acquire_enter_busy acquire_enter_free remove_waiter_order
        remove_waiter_busy)

subsection \<open>Concurrent requests\<close>

text \<open>
  The oneshot channel of a waiter: \<open>Absent\<close> before it joins, \<open>Open\<close> while its receiver waits,
  \<open>Granted\<close> when the permit is in the channel, \<open>Closed\<close> once the receiver is gone (it returned,
  timed out or its request was dropped). \<open>held\<close> counts the armed permits owned by requests.
\<close>

datatype channel = Absent | Open | Granted | Closed

record sys =
  queue :: qstate
  chan :: "nat \<Rightarrow> channel"
  held :: nat

definition initial_sys :: sys where
  "initial_sys = \<lparr>queue = empty_queue, chan = (\<lambda>_. Absent), held = 0\<rparr>"

definition give_slot :: "sys \<Rightarrow> sys" where
  "give_slot s =
     (let (granted, q') = release (\<lambda>i. chan s i = Open) (queue s)
      in s\<lparr>queue := q',
           chan := (case granted of None \<Rightarrow> chan s | Some w \<Rightarrow> (chan s)(w := Granted))\<rparr>)"

inductive qstep :: "sys \<Rightarrow> sys \<Rightarrow> bool" where
  enter_free: "acquire_enter p m (queue s) = (Acquired, q') \<Longrightarrow>
     qstep s (s\<lparr>queue := q', held := held s + 1\<rparr>)"
| enter_full: "acquire_enter p m (queue s) = (Rejected e, q') \<Longrightarrow> qstep s (s\<lparr>queue := q'\<rparr>)"
| enter_queue: "acquire_enter p m (queue s) = (Queued i, q') \<Longrightarrow>
     qstep s (s\<lparr>queue := q', chan := (chan s)(i := Open)\<rparr>)"
| drop_permit: "held s > 0 \<Longrightarrow> qstep s (give_slot (s\<lparr>held := held s - 1\<rparr>))"
| receive: "chan s i = Granted \<Longrightarrow>
     qstep s (s\<lparr>chan := (chan s)(i := Closed), held := held s + 1\<rparr>)"
| give_up: "chan s i = Open \<Longrightarrow> qstep s (s\<lparr>chan := (chan s)(i := Closed)\<rparr>)"
| give_up_granted: "chan s i = Granted \<Longrightarrow> qstep s (give_slot (s\<lparr>chan := (chan s)(i := Closed)\<rparr>))"
| drop_entry: "chan s i = Closed \<Longrightarrow> qstep s (s\<lparr>queue := remove_waiter i (queue s)\<rparr>)"

inductive reachable :: "sys \<Rightarrow> bool" where
  initial: "reachable initial_sys"
| step: "reachable s \<Longrightarrow> qstep s t \<Longrightarrow> reachable t"

text \<open>
  The invariant. Exactly one armed permit exists while the slot is busy, in a request or in one
  channel, and none otherwise; only waiters of a busy slot are listed; ids are distinct, below the
  counter and in arrival order; and every request still waiting is listed.
\<close>

definition one_permit :: "sys \<Rightarrow> bool" where
  "one_permit s \<longleftrightarrow>
     (if busy (queue s)
      then (held s = 1 \<and> (\<forall>i. chan s i \<noteq> Granted)) \<or> (held s = 0 \<and> (\<exists>!i. chan s i = Granted))
      else held s = 0 \<and> (\<forall>i. chan s i \<noteq> Granted))"

definition queue_wf :: "qstate \<Rightarrow> bool" where
  "queue_wf q \<longleftrightarrow>
     (service_order q \<noteq> [] \<longrightarrow> busy q) \<and> distinct (service_order q)
     \<and> (\<forall>i \<in> set (service_order q). i < next_id q)
     \<and> sorted_wrt (<) (interactive q) \<and> sorted_wrt (<) (normal q)"

definition listed_ok :: "sys \<Rightarrow> bool" where
  "listed_ok s \<longleftrightarrow>
     (\<forall>i \<in> set (service_order (queue s)). chan s i = Open \<or> chan s i = Closed)
     \<and> (\<forall>i. chan s i = Open \<longrightarrow> i \<in> set (service_order (queue s)))
     \<and> (\<forall>i \<ge> next_id (queue s). chan s i = Absent)"

definition sys_inv :: "sys \<Rightarrow> bool" where
  "sys_inv s \<longleftrightarrow> one_permit s \<and> queue_wf (queue s) \<and> listed_ok s"

lemmas inv_defs = sys_inv_def one_permit_def queue_wf_def listed_ok_def

lemma sys_inv_initial: "sys_inv initial_sys"
  by (simp add: inv_defs initial_sys_def empty_queue_def service_order_def)

lemma release_lists:
  "\<exists>xs ys. interactive (snd (release live q)) = drop xs (interactive q)
     \<and> normal (snd (release live q)) = drop ys (normal q)"
proof (induction live q rule: release.induct)
  case (1 live q)
  show ?case
  proof (cases "next_waiter q")
    case None
    then show ?thesis
      by (simp add: release.simps [of live q]) (metis drop0)
  next
    case (Some a)
    then obtain w q' where s: "next_waiter q = Some (w, q')" by (cases a) auto
    then have lists: "\<exists>xs ys. interactive q' = drop xs (interactive q) \<and> normal q' = drop ys (normal q)"
      unfolding next_waiter_def
      by (auto split: list.splits intro: exI [of _ "Suc 0"] exI [of _ 0])
    show ?thesis
    proof (cases "live w")
      case True
      with lists show ?thesis by (simp add: release.simps [of live q] s)
    next
      case False
      with 1 [OF s refl] lists show ?thesis
        by (simp add: release.simps [of live q] s) (metis drop_drop)
    qed
  qed
qed

lemma release_wf:
  assumes "queue_wf q"
  shows "queue_wf (snd (release live q))"
proof -
  obtain a b where ab: "interactive (snd (release live q)) = drop a (interactive q)"
    "normal (snd (release live q)) = drop b (normal q)" using release_lists by blast
  have sub: "set (service_order (snd (release live q))) \<subseteq> set (service_order q)"
    using ab by (auto simp: service_order_def dest: in_set_dropD)
  have dist: "distinct (service_order (snd (release live q)))"
    using assms ab by (auto simp: service_order_def queue_wf_def dest: in_set_dropD)
  have srt: "sorted_wrt (<) (interactive (snd (release live q)))" "sorted_wrt (<) (normal (snd (release live q)))"
    using assms ab by (simp_all add: queue_wf_def sorted_wrt_drop)
  have b: "service_order (snd (release live q)) \<noteq> [] \<longrightarrow> busy (snd (release live q))"
  proof
    assume ne: "service_order (snd (release live q)) \<noteq> []"
    then have "tl (dropWhile (\<lambda>w. \<not> live w) (service_order q)) \<noteq> []"
      by (simp add: release_spec)
    then have "dropWhile (\<lambda>w. \<not> live w) (service_order q) \<noteq> []" by (metis list.sel(2))
    then have "fst (release live q) \<noteq> None"
      by (metis dropWhile_eq_Nil_conv find_None_all release_spec)
    moreover have "busy q" using assms ne sub by (force simp: queue_wf_def)
    ultimately show "busy (snd (release live q))" by (metis release_spec)
  qed
  from sub dist srt b assms release_spec [of live q] show ?thesis by (auto simp: queue_wf_def)
qed

text \<open>Passing the slot on, from a state in which it has just been given up.\<close>

definition slot_free_to_give :: "sys \<Rightarrow> bool" where
  "slot_free_to_give s \<longleftrightarrow> busy (queue s) \<and> held s = 0 \<and> (\<forall>i. chan s i \<noteq> Granted)
     \<and> queue_wf (queue s) \<and> listed_ok s"

lemma give_slot_inv:
  assumes s: "slot_free_to_give s"
  shows "sys_inv (give_slot s)"
proof -
  let ?live = "\<lambda>i. chan s i = Open"
  obtain g q' where r: "release ?live (queue s) = (g, q')" by (cases "release ?live (queue s)")
  have g: "g = List.find ?live (service_order (queue s))"
    and ord: "service_order q' = tl (dropWhile (\<lambda>w. \<not> ?live w) (service_order (queue s)))"
    and bsy: "busy q' \<longleftrightarrow> g \<noteq> None" and nid: "next_id q' = next_id (queue s)"
    using release_spec [of ?live "queue s"] s by (auto simp: r slot_free_to_give_def)
  have wf: "queue_wf q'" using release_wf [of "queue s" ?live] s by (simp add: r slot_free_to_give_def)
  show ?thesis
  proof (cases g)
    case None
    with g have "\<forall>i \<in> set (service_order (queue s)). chan s i \<noteq> Open"
      using find_None_all [of ?live "service_order (queue s)"] by simp
    then have "\<forall>i. chan s i \<noteq> Open" using s by (auto simp: slot_free_to_give_def listed_ok_def)
    moreover have "service_order q' = []" using wf bsy None by (simp add: queue_wf_def)
    moreover have "give_slot s = s\<lparr>queue := q'\<rparr>" using None by (simp add: give_slot_def r)
    ultimately show ?thesis
      using None s wf bsy nid
      by (simp add: slot_free_to_give_def sys_inv_def one_permit_def listed_ok_def)
  next
    case (Some w)
    with g have w: "w \<in> set (service_order (queue s))" "chan s w = Open"
      using find_Some_set [of ?live "service_order (queue s)" w] by simp_all
    from find_dropWhile [OF g [symmetric, unfolded Some]] ord obtain us vs where
      split: "service_order (queue s) = us @ w # vs" "service_order q' = vs"
        "\<forall>u \<in> set us. chan s u \<noteq> Open" by auto
    have dist: "distinct (us @ w # vs)"
      using s split(1) by (simp add: slot_free_to_give_def queue_wf_def)
    have "listed_ok (give_slot s)"
      using s Some split dist nid w
      by (auto simp: give_slot_def r slot_free_to_give_def listed_ok_def)
    moreover have "one_permit (give_slot s)"
      using s Some bsy by (auto simp: give_slot_def r slot_free_to_give_def one_permit_def)
    moreover have "queue (give_slot s) = q'" by (simp add: give_slot_def r)
    ultimately show ?thesis using wf by (simp add: sys_inv_def)
  qed
qed

lemma acquire_enter_shape:
  "busy q \<Longrightarrow>
     acquire_enter p m q = (Rejected QueueFull, q)
   \<or> (p = Interactive \<and> acquire_enter p m q = (Queued (next_id q),
       q\<lparr>next_id := next_id q + 1, interactive := interactive q @ [next_id q]\<rparr>))
   \<or> (p = Normal \<and> acquire_enter p m q = (Queued (next_id q),
       q\<lparr>next_id := next_id q + 1, normal := normal q @ [next_id q]\<rparr>))"
  by (cases p; cases m) (auto simp: acquire_enter_def Let_def)

lemma enter_wf:
  assumes "queue_wf q" "busy q"
  shows "queue_wf (snd (acquire_enter p m q))"
proof -
  have "\<forall>i \<in> set (interactive q) \<union> set (normal q). i < next_id q"
    using assms by (auto simp: queue_wf_def service_order_def)
  then have lt: "\<And>i. i \<in> set (interactive q) \<Longrightarrow> i < next_id q" "\<And>i. i \<in> set (normal q) \<Longrightarrow> i < next_id q"
    by auto
  consider "snd (acquire_enter p m q) = q"
    | "snd (acquire_enter p m q) = q\<lparr>next_id := next_id q + 1, interactive := interactive q @ [next_id q]\<rparr>"
    | "snd (acquire_enter p m q) = q\<lparr>next_id := next_id q + 1, normal := normal q @ [next_id q]\<rparr>"
    using acquire_enter_shape [OF assms(2), of p m] by auto
  then show ?thesis
    using assms lt
    by cases (auto simp: queue_wf_def service_order_def sorted_wrt_append less_Suc_eq)
qed

lemma one_permit_cong:
  assumes "busy (queue t) = busy (queue s)" "held t = held s" "\<And>j. chan t j = Granted \<longleftrightarrow> chan s j = Granted"
  shows "one_permit t = one_permit s"
  using assms by (simp add: one_permit_def)

lemma sys_inv_below: "sys_inv s \<Longrightarrow> chan s i \<noteq> Absent \<Longrightarrow> i < next_id (queue s)"
  by (meson listed_ok_def not_le sys_inv_def)

lemma qstep_inv: "qstep s t \<Longrightarrow> sys_inv s \<Longrightarrow> sys_inv t"
proof (induction rule: qstep.induct)
  case (enter_free p m s q')
  then have "\<not> busy (queue s)" using acquire_enter_busy by (metis fst_conv)
  with enter_free show ?case
    by (auto simp: inv_defs acquire_enter_free service_order_def)
next
  case (enter_full p m s e q')
  then have "q' = queue s" by (auto simp: acquire_enter_def Let_def split: if_splits)
  with enter_full show ?case by simp
next
  case (enter_queue p m s i q')
  then have b: "busy (queue s)" using acquire_enter_free by (metis Pair_inject entry.distinct(3))
  have wf: "queue_wf q'" using enter_wf [of "queue s" p m] enter_queue b by (simp add: sys_inv_def)
  have i: "i = next_id (queue s)" "next_id q' = next_id (queue s) + 1" "busy q'"
    "set (service_order q') = insert i (set (service_order (queue s)))"
    using enter_queue(1) b
    by (auto simp: acquire_enter_def Let_def service_order_def split: if_splits priority.splits)
  from enter_queue(2) have ab: "chan s i = Absent" by (simp add: i(1) sys_inv_def listed_ok_def)
  have "one_permit (s\<lparr>queue := q', chan := (chan s)(i := Open)\<rparr>) = one_permit s"
    using i(3) b ab by (intro one_permit_cong) auto
  moreover have "listed_ok (s\<lparr>queue := q', chan := (chan s)(i := Open)\<rparr>)"
    using enter_queue(2) i by (auto simp: sys_inv_def listed_ok_def)
  ultimately show ?case using enter_queue(2) wf by (simp add: sys_inv_def)
next
  case (drop_permit s)
  then show ?case
    by (intro give_slot_inv) (auto simp: slot_free_to_give_def inv_defs split: if_splits)
next
  case (receive s i)
  have "i \<notin> set (service_order (queue s))" "i < next_id (queue s)"
    using receive sys_inv_below [of s i] by (auto simp: inv_defs)
  with receive show ?case by (auto simp: inv_defs split: if_splits)
next
  case (give_up s i)
  have "one_permit (s\<lparr>chan := (chan s)(i := Closed)\<rparr>) = one_permit s"
    using give_up by (intro one_permit_cong) auto
  with give_up sys_inv_below [of s i] show ?case by (auto simp: sys_inv_def listed_ok_def)
next
  case (give_up_granted s i)
  have "i \<notin> set (service_order (queue s))" "i < next_id (queue s)"
    using give_up_granted sys_inv_below [of s i] by (auto simp: inv_defs)
  with give_up_granted show ?case
    by (intro give_slot_inv) (auto simp: slot_free_to_give_def inv_defs split: if_splits)
next
  case (drop_entry s i)
  have "one_permit (s\<lparr>queue := remove_waiter i (queue s)\<rparr>) = one_permit s"
    by (intro one_permit_cong) auto
  moreover have "queue_wf (remove_waiter i (queue s))"
    using drop_entry
    by (auto simp: sys_inv_def queue_wf_def remove_waiter_order filter_empty_conv)
       (simp_all add: remove_waiter_def sorted_wrt_filter)
  ultimately show ?case
    using drop_entry by (auto simp: sys_inv_def listed_ok_def remove_waiter_order)
qed

lemma reachable_inv: "reachable s \<Longrightarrow> sys_inv s"
  by (induction rule: reachable.induct) (auto intro: sys_inv_initial qstep_inv)

subsection \<open>The live-stream slot and its lease\<close>

text \<open>
  The semaphore's single permit is free, held by a \<open>StreamSlot\<close>, or held by one whose \<open>drop\<close>
  has run its body (clearing the lease) and not yet its fields (releasing the permit).
\<close>

datatype slot_phase = Free | Held | Dropping

record stream_slot =
  phase :: slot_phase
  lease :: "string option"

definition initial_slot :: stream_slot where
  "initial_slot = \<lparr>phase = Free, lease = None\<rparr>"

definition try_acquire_stream :: "stream_slot \<Rightarrow> stream_slot option" where
  "try_acquire_stream st = (if phase st = Free then Some (st\<lparr>phase := Held\<rparr>) else None)"

definition lease_model :: "string \<Rightarrow> stream_slot \<Rightarrow> stream_slot" where
  "lease_model m st = st\<lparr>lease := Some m\<rparr>"

definition slot_drop_body :: "stream_slot \<Rightarrow> stream_slot" where
  "slot_drop_body st = st\<lparr>lease := None, phase := Dropping\<rparr>"

definition slot_drop_fields :: "stream_slot \<Rightarrow> stream_slot" where
  "slot_drop_fields st = st\<lparr>phase := Free\<rparr>"

definition streams_on :: "string option \<Rightarrow> string \<Rightarrow> bool" where
  "streams_on leased m \<longleftrightarrow> leased = Some m"

inductive stream_step :: "stream_slot \<Rightarrow> stream_slot \<Rightarrow> bool" where
  claim: "try_acquire_stream st = Some st' \<Longrightarrow> stream_step st st'"
| lease: "phase st = Held \<Longrightarrow> stream_step st (lease_model m st)"
| drop_body: "phase st = Held \<Longrightarrow> stream_step st (slot_drop_body st)"
| drop_fields: "phase st = Dropping \<Longrightarrow> stream_step st (slot_drop_fields st)"

inductive_cases stream_stepE: "stream_step st st'"

lemma stream_step_lease:
  "stream_step st st' \<Longrightarrow> (lease st \<noteq> None \<longrightarrow> phase st = Held) \<Longrightarrow> (lease st' \<noteq> None \<longrightarrow> phase st' = Held)"
  by (auto elim!: stream_stepE simp: try_acquire_stream_def lease_model_def slot_drop_body_def
        slot_drop_fields_def split: if_splits)

text \<open>
  Waiting for a stream to release a model: the lease values the waiting request observes, each
  with the milliseconds since the request began. A poll looks at the lease first and at the
  deadline second; no further observation means the request is still pending.
\<close>

fun wait_for_release :: "string \<Rightarrow> nat option \<Rightarrow> (nat \<times> string option) list \<Rightarrow> (queue_error + unit) option" where
  "wait_for_release m deadline [] = None"
| "wait_for_release m deadline ((t, leased) # rest) =
     (if \<not> streams_on leased m then Some (Inr ())
      else if (case deadline of None \<Rightarrow> False | Some d \<Rightarrow> d \<le> t) then Some (Inl StreamActive)
      else wait_for_release m deadline rest)"

text \<open>
  One pass of the loop of \<open>acquire_for_model\<close>: the observed leases, how the wait in the queue
  ended, the time at which it ended, and the lease the final check reads.
\<close>

record round =
  seen :: "(nat \<times> string option) list"
  queued_end :: "queue_error + nat"
  ended_at :: nat
  checked :: "string option"

fun acquire_for_model :: "string \<Rightarrow> nat option \<Rightarrow> round list \<Rightarrow> (queue_error + nat) option" where
  "acquire_for_model m deadline [] = None"
| "acquire_for_model m deadline (r # rs) =
     (case wait_for_release m deadline (seen r) of
        None \<Rightarrow> None
      | Some (Inl e) \<Rightarrow> Some (Inl e)
      | Some (Inr _) \<Rightarrow>
          (case queued_end r of
             Inl e \<Rightarrow> Some (Inl e)
           | Inr _ \<Rightarrow>
               if \<not> streams_on (checked r) m then Some (Inr (ended_at r))
               else acquire_for_model m deadline rs))"

lemma wait_for_release_active:
  "wait_for_release m deadline obs = Some (Inl e) \<Longrightarrow>
     e = StreamActive \<and> (\<exists>d t. deadline = Some d \<and> d \<le> t \<and> (t, Some m) \<in> set obs)"
  by (induction m deadline obs rule: wait_for_release.induct)
     (auto simp: streams_on_def split: if_splits option.splits)

lemma acquire_for_model_Inr:
  "acquire_for_model m deadline rs = Some (Inr t) \<Longrightarrow>
     \<exists>r \<in> set rs. ended_at r = t \<and> checked r \<noteq> Some m \<and> (\<exists>w. queued_end r = Inr w)"
  by (induction m deadline rs rule: acquire_for_model.induct)
     (auto simp: streams_on_def split: option.splits sum.splits if_splits)

lemma acquire_for_model_StreamActive:
  "acquire_for_model m deadline rs = Some (Inl StreamActive) \<Longrightarrow>
   \<forall>r \<in> set rs. queued_end r \<noteq> Inl StreamActive \<Longrightarrow>
     \<exists>r \<in> set rs. \<exists>d t. deadline = Some d \<and> d \<le> t \<and> (t, Some m) \<in> set (seen r)"
proof (induction m deadline rs rule: acquire_for_model.induct)
  case (2 m deadline r rs)
  show ?case
  proof (cases "wait_for_release m deadline (seen r)")
    case None
    with 2 show ?thesis by simp
  next
    case (Some x)
    then show ?thesis
      using 2 wait_for_release_active [of m deadline "seen r"]
      by (cases x) (force split: sum.splits if_splits)+
  qed
qed simp

subsection \<open>Properties\<close>

text \<open>
  C10. Mutual exclusion of the inference slot under every interleaving of joining, waiting, timing
  out, cancelling and releasing: at most one armed permit exists, whether a request holds it or it
  is still in one waiter's channel, and the slot is marked busy exactly while one does.
\<close>

theorem at_most_one_permit:
  assumes "reachable s"
  shows "held s \<le> 1 \<and> (held s = 1 \<longrightarrow> (\<forall>i. chan s i \<noteq> Granted))
    \<and> (\<forall>i j. chan s i = Granted \<longrightarrow> chan s j = Granted \<longrightarrow> i = j)
    \<and> (busy (queue s) \<longleftrightarrow> held s = 1 \<or> (\<exists>j. chan s j = Granted))"
  using reachable_inv [OF assms] by (auto simp: sys_inv_def one_permit_def split: if_splits)

definition one_running :: sys where
  "one_running = initial_sys\<lparr>queue := empty_queue\<lparr>busy := True\<rparr>, held := 1\<rparr>"

lemma one_running_reachable: "reachable one_running"
proof (rule reachable.step [OF reachable.initial])
  have "acquire_enter Normal None (queue initial_sys) = (Acquired, empty_queue\<lparr>busy := True\<rparr>)"
    by (simp add: acquire_enter_def initial_sys_def empty_queue_def)
  from enter_free [OF this] show "qstep initial_sys one_running"
    by (simp add: one_running_def initial_sys_def)
qed

definition one_waiting :: sys where
  "one_waiting = one_running\<lparr>queue := \<lparr>busy = True, next_id = 1, interactive = [], normal = [0]\<rparr>,
                             chan := (\<lambda>_. Absent)(0 := Open)\<rparr>"

lemma one_waiting_reachable: "reachable one_waiting"
proof (rule reachable.step [OF one_running_reachable])
  have "acquire_enter Normal None (queue one_running)
      = (Queued 0, \<lparr>busy = True, next_id = 1, interactive = [], normal = [0]\<rparr>)"
    by (simp add: acquire_enter_def one_running_def initial_sys_def empty_queue_def)
  from enter_queue [OF this] show "qstep one_running one_waiting"
    by (simp add: one_waiting_def one_running_def initial_sys_def)
qed

theorem at_most_one_permit_witness: "reachable one_waiting \<and> held one_waiting = 1 \<and> busy (queue one_waiting)"
  using at_most_one_permit [OF one_waiting_reachable] one_waiting_reachable
  by (simp add: one_waiting_def one_running_def)

text \<open>
  No lost wake-up: whenever some request still waits for its turn, its entry is in a waiting
  list, the slot is taken, and a permit exists whose release will hand the slot on.
\<close>

theorem no_lost_wakeup:
  assumes "reachable s" and "chan s i = Open"
  shows "i \<in> set (service_order (queue s)) \<and> busy (queue s) \<and> (held s = 1 \<or> (\<exists>j. chan s j = Granted))"
proof -
  from reachable_inv [OF assms(1)] have inv: "sys_inv s" .
  with assms(2) have "i \<in> set (service_order (queue s))" by (auto simp: sys_inv_def listed_ok_def)
  with inv show ?thesis by (auto simp: sys_inv_def queue_wf_def one_permit_def split: if_splits)
qed

theorem no_lost_wakeup_witness: "0 \<in> set (service_order (queue one_waiting)) \<and> held one_waiting = 1"
proof -
  have "chan one_waiting 0 = Open" by (simp add: one_waiting_def)
  from no_lost_wakeup [OF one_waiting_reachable this] show ?thesis
    by (simp add: one_waiting_def one_running_def)
qed

text \<open>
  Whom a released slot goes to: a waiter whose receiver is alive; an interactive one whenever
  any interactive waiter is alive; and within its class the one that joined first.
\<close>

theorem release_priority_order:
  assumes "reachable s" and "release live (queue s) = (Some w, q')"
  shows "live w \<and> w \<in> set (service_order (queue s))
    \<and> (\<forall>x \<in> set (interactive (queue s)). live x \<longrightarrow> w \<in> set (interactive (queue s)) \<and> w \<le> x)
    \<and> (\<forall>x \<in> set (normal (queue s)). live x \<longrightarrow> w \<in> set (normal (queue s)) \<longrightarrow> w \<le> x)"
proof -
  let ?q = "queue s"
  have wf: "queue_wf ?q" using reachable_inv [OF assms(1)] by (simp add: sys_inv_def)
  have f: "List.find live (service_order ?q) = Some w"
    using release_spec [of live ?q] assms(2) by simp
  from find_dropWhile [OF f] obtain us vs where
    sp: "service_order ?q = us @ w # vs" "\<forall>u \<in> set us. \<not> live u" "live w" by auto
  have first: "\<And>x. x \<in> set (service_order ?q) \<Longrightarrow> live x \<Longrightarrow> x = w \<or> x \<in> set vs"
    using sp by auto
  have dist: "distinct (us @ w # vs)" using wf sp(1) by (simp add: queue_wf_def)
  have srt: "sorted_wrt (<) (interactive ?q)" "sorted_wrt (<) (normal ?q)"
    using wf by (simp_all add: queue_wf_def)
  note so = sp(1) [unfolded service_order_def]
  have in_class: "w \<le> x" if "x \<in> set (service_order ?q)" "live x"
    "(x \<in> set (interactive ?q) \<and> w \<in> set (interactive ?q)) \<or> (x \<in> set (normal ?q) \<and> w \<in> set (normal ?q))" for x
    using first [OF that(1,2)] append_split_sorted [OF so srt dist _ that(3)] by auto
  have inter: "w \<in> set (interactive ?q)" if "x \<in> set (interactive ?q)" "live x" for x
    using find_append_first [OF f [unfolded service_order_def] that] .
  have "\<forall>x \<in> set (interactive ?q). live x \<longrightarrow> w \<in> set (interactive ?q) \<and> w \<le> x"
    using inter in_class by (simp add: service_order_def)
  moreover have "\<forall>x \<in> set (normal ?q). live x \<longrightarrow> w \<in> set (normal ?q) \<longrightarrow> w \<le> x"
    using in_class by (simp add: service_order_def)
  ultimately show ?thesis using sp by simp
qed

definition two_waiting :: sys where
  "two_waiting = one_waiting\<lparr>queue := \<lparr>busy = True, next_id = 2, interactive = [1], normal = [0]\<rparr>,
                             chan := (\<lambda>_. Absent)(0 := Open, 1 := Open)\<rparr>"

lemma two_waiting_reachable: "reachable two_waiting"
proof (rule reachable.step [OF one_waiting_reachable])
  have "acquire_enter Interactive (Some 8) (queue one_waiting)
      = (Queued 1, \<lparr>busy = True, next_id = 2, interactive = [1], normal = [0]\<rparr>)"
    by (simp add: acquire_enter_def one_waiting_def waiting_def)
  from enter_queue [OF this] show "qstep one_waiting two_waiting"
    by (simp add: one_waiting_def two_waiting_def)
qed

theorem release_priority_order_witness:
  "release (\<lambda>_. True) (queue two_waiting)
     = (Some 1, \<lparr>busy = True, next_id = 2, interactive = [], normal = [0]\<rparr>)
   \<and> (1::nat) \<in> set (service_order (queue two_waiting))"
proof -
  have r: "release (\<lambda>_. True) (queue two_waiting)
      = (Some 1, \<lparr>busy = True, next_id = 2, interactive = [], normal = [0]\<rparr>)"
    by (simp add: release.simps two_waiting_def next_waiter_def)
  from release_priority_order [OF two_waiting_reachable r] r show ?thesis by simp
qed

text \<open>
  What happens while a request waits and nobody joins: others leave, having timed out or been dropped, and the
  slot is released again and again, each time with the receivers that are alive then. The result lists whom each
  release has served.
\<close>

datatype wait_event = Leaves nat | Releases "nat \<Rightarrow> bool"

fun serve :: "wait_event list \<Rightarrow> qstate \<Rightarrow> nat option list" where
  "serve [] q = []"
| "serve (Leaves v # es) q = serve es (remove_waiter v q)"
| "serve (Releases live # es) q = (case release live q of (granted, q') \<Rightarrow> granted # serve es q')"

text \<open>
  C11. Waiting is bounded by the waiters ahead. While nobody joins, a request with \<open>k\<close> others ahead of it in the
  service order (interactive requests before normal ones, each in arrival order) that neither leaves nor loses its
  receiver is served at the latest by the release number \<open>k + 1\<close>, whichever others leave or are found gone in
  the meantime.
\<close>

theorem waiter_served_in_turn:
  assumes "w \<in> set (service_order q)" "Leaves w \<notin> set es" "\<And>live. Releases live \<in> set es \<Longrightarrow> live w"
    and "ahead w (service_order q) < length (serve es q)"
  shows "\<exists>n \<le> ahead w (service_order q). serve es q ! n = Some w"
  using assms
proof (induction es q rule: serve.induct)
  case (2 v es q)
  then have "v \<noteq> w" by auto
  from slot.leave_progress [OF 2(2) this] 2(3-5) 2(1)
  obtain n where "n \<le> ahead w (service_order (remove_waiter v q))" "serve es (remove_waiter v q) ! n = Some w" by auto
  with slot.leave_progress(2) [OF 2(2) \<open>v \<noteq> w\<close>] show ?case by (intro exI [of _ n]) simp
next
  case (3 live es q)
  obtain g q' where r: "release live q = (g, q')" by (cases "release live q")
  have "live w" by (rule 3(4)) simp
  from slot.give_progress [where w = w and q = q and live = live, OF 3(2) this] r
  consider "g = Some w" | "w \<in> set (service_order q')" "ahead w (service_order q') < ahead w (service_order q)" by auto
  then show ?case
  proof cases
    case 1
    with r show ?thesis by (intro exI [of _ 0]) simp
  next
    case 2
    with 3(3-5) r obtain n where "n \<le> ahead w (service_order q')" "serve es q' ! n = Some w"
      using 3(1) [OF r [symmetric] 2(1)] by auto
    with 2(2) r show ?thesis by (intro exI [of _ "Suc n"]) simp
  qed
qed simp

theorem waiter_served_in_turn_witness:
  "\<exists>n \<le> 1. serve [Leaves 7, Releases (\<lambda>_. True), Releases (\<lambda>v. v = 0)] (queue two_waiting) ! n = Some 0"
proof -
  let ?es = "[Leaves 7, Releases (\<lambda>_. True), Releases (\<lambda>v. v = 0)]"
  have "ahead 0 (service_order (queue two_waiting)) = 1" "0 \<in> set (service_order (queue two_waiting))"
    by (simp_all add: two_waiting_def service_order_def)
  moreover have "length (serve ?es (queue two_waiting)) = 2" by (simp split: prod.split)
  ultimately show ?thesis using waiter_served_in_turn [of 0 "queue two_waiting" ?es] by fastforce
qed

text \<open>
  Admission: a free slot is taken at once without touching the waiting lists; a busy slot is
  never taken by a newcomer; the request is refused exactly when the configured bound of waiters
  is already reached, and then nothing changes; otherwise it joins the end of its class.
\<close>

theorem acquire_admission:
  "acquire_enter p m q =
     (if \<not> busy q then (Acquired, q\<lparr>busy := True\<rparr>)
      else if \<exists>bound. m = Some bound \<and> bound \<le> waiting q then (Rejected QueueFull, q)
      else (Queued (next_id q),
            if p = Interactive
            then q\<lparr>next_id := next_id q + 1, interactive := interactive q @ [next_id q]\<rparr>
            else q\<lparr>next_id := next_id q + 1, normal := normal q @ [next_id q]\<rparr>))
   \<and> (case m of None \<Rightarrow> True | Some bound \<Rightarrow> waiting (snd (acquire_enter p m q)) \<le> max bound (waiting q))"
  by (cases p; cases m) (auto simp: acquire_enter_def Let_def waiting_def)

text \<open>
  A batch run never starts on a model a live stream holds: when \<open>acquire_for_model\<close> returns a
  permit, the last lease it read was not for its model; and it fails with \<open>StreamActive\<close> only when
  a stream was seen holding that model at or after the request's deadline.
\<close>

theorem batch_waits_for_stream:
  "(\<forall>t. acquire_for_model m deadline rs = Some (Inr t) \<longrightarrow>
      (\<exists>r \<in> set rs. ended_at r = t \<and> checked r \<noteq> Some m \<and> (\<exists>w. queued_end r = Inr w)))
   \<and> ((\<forall>r \<in> set rs. queued_end r \<noteq> Inl StreamActive) \<longrightarrow>
      acquire_for_model m deadline rs = Some (Inl StreamActive) \<longrightarrow>
      (\<exists>r \<in> set rs. \<exists>d t. deadline = Some d \<and> d \<le> t \<and> (t, Some m) \<in> set (seen r)))"
  using acquire_for_model_Inr acquire_for_model_StreamActive by blast

theorem batch_waits_for_stream_witness:
  "acquire_for_model ''m'' (Some 50)
     [\<lparr>seen = [(0, Some ''m''), (60, Some ''m'')], queued_end = Inr 0, ended_at = 0, checked = None\<rparr>]
     = Some (Inl StreamActive)
   \<and> (\<exists>t. t \<ge> 50 \<and> (t, Some ''m'') \<in> set [(0::nat, Some ''m''), (60, Some ''m'')])"
proof -
  let ?r = "\<lparr>seen = [(0, Some ''m''), (60, Some ''m'')], queued_end = Inr 0, ended_at = 0, checked = None\<rparr> :: round"
  have a: "acquire_for_model ''m'' (Some 50) [?r] = Some (Inl StreamActive)"
    by (simp add: streams_on_def)
  moreover have "\<forall>r \<in> set [?r]. queued_end r \<noteq> Inl StreamActive" by simp
  ultimately have "\<exists>r \<in> set [?r]. \<exists>d t. Some (50::nat) = Some d \<and> d \<le> t \<and> (t, Some ''m'') \<in> set (seen r)"
    using conjunct2 [OF batch_waits_for_stream [of "''m''" "Some 50" "[?r]"]] by blast
  with a show ?thesis by auto
qed

end
