(* ===== verification/Capabilities.thy ===== *)
theory Capabilities
  imports Catalog
begin

text \<open>
  \<open>src/capabilities.rs\<close> and the capability views of \<open>src/catalog.rs\<close>: what a catalog entry claims
  about a model before it is loaded, what the loaded model really supports, the JSON matrices that
  report both, and the list of controls on which they disagree. The engine's model is a record of
  the answers its accessors give.
\<close>

datatype timestamp_granularity = TsNone | TsSegment | TsWord | TsToken

fun ts_as_str :: "timestamp_granularity \<Rightarrow> string" where
  "ts_as_str TsNone = ''none''"
| "ts_as_str TsSegment = ''segment''"
| "ts_as_str TsWord = ''word''"
| "ts_as_str TsToken = ''token''"

record loaded_caps =
  arch :: string
  languages :: "string list"
  translate_target_languages :: "string list"
  supports_translate :: bool
  supports_language_detect :: bool
  max_timestamp_kind :: timestamp_granularity
  feature_initial_prompt_flag :: bool
  whisper_ext_accepted :: "bool option"
  prompt_max_tokens :: "nat option"
  timestamp_granularity_rejected :: bool
  supports_streaming :: bool
  supports_spec_decode :: bool
  supports_pnc :: bool
  supports_itn :: bool
  supports_cancellation :: bool
  supports_long_form :: bool
  native_sample_rate :: int

definition engine_only_controls :: "string list" where
  "engine_only_controls =
     [''punctuation'', ''itn'', ''cancellation'', ''long_form'', ''spec_decode'', ''native_sample_rate'']"

definition unverified_control :: json where
  "unverified_control =
     JObj [(''status'', JStr ''unknown''), (''reason'', JStr ''unverified''), (''evidence'', JStr ''catalog_claim'')]"

definition add_unverified_engine_controls :: "json \<Rightarrow> json" where
  "add_unverified_engine_controls matrix =
     foldl (\<lambda>m control. jset control unverified_control m) matrix engine_only_controls"

subsection \<open>Reading a loaded model\<close>

datatype timestamp_kind = KNone | KAuto | KSegment | KWord | KToken

datatype feature = InitialPrompt | Pnc | Itn | Cancellation | LongForm

record engine_model =
  em_arch :: string
  em_languages :: "string list"
  em_translate_targets :: "string list"
  em_translate :: bool
  em_language_detect :: bool
  em_timestamp_kind :: timestamp_kind
  em_streaming :: bool
  em_spec_decode :: bool
  em_native_sample_rate :: int
  em_supports :: "feature \<Rightarrow> bool"
  em_accepts_whisper_run :: bool

definition from_model :: "engine_model \<Rightarrow> loaded_caps" where
  "from_model m =
     \<lparr>arch = em_arch m,
      languages = em_languages m,
      translate_target_languages = em_translate_targets m,
      supports_translate = em_translate m,
      supports_language_detect = em_language_detect m,
      max_timestamp_kind =
        (case em_timestamp_kind m of
           KNone \<Rightarrow> TsNone | KAuto \<Rightarrow> TsNone | KSegment \<Rightarrow> TsSegment | KWord \<Rightarrow> TsWord | KToken \<Rightarrow> TsToken),
      feature_initial_prompt_flag = em_supports m InitialPrompt,
      whisper_ext_accepted = Some (em_accepts_whisper_run m),
      prompt_max_tokens = None,
      timestamp_granularity_rejected = False,
      supports_streaming = em_streaming m,
      supports_spec_decode = em_spec_decode m,
      supports_pnc = em_supports m Pnc,
      supports_itn = em_supports m Itn,
      supports_cancellation = em_supports m Cancellation,
      supports_long_form = em_supports m LongForm,
      native_sample_rate = em_native_sample_rate m\<rparr>"

definition whisper_gate :: "loaded_caps \<Rightarrow> bool" where
  "whisper_gate c = (if arch c \<noteq> ''whisper'' then False else unwrap_or True (whisper_ext_accepted c))"

subsection \<open>The effective view\<close>

definition supports_language_hint :: "loaded_caps \<Rightarrow> bool" where
  "supports_language_hint c \<longleftrightarrow> arch c \<noteq> ''granite'' \<and> languages c \<noteq> []"

definition offers_translation_target :: "loaded_caps \<Rightarrow> string \<Rightarrow> bool" where
  "offers_translation_target c target =
     (if translate_target_languages c = [] then target = ''en''
      else target \<in> set (translate_target_languages c))"

definition supports_segment_timestamps :: "loaded_caps \<Rightarrow> bool" where
  "supports_segment_timestamps c \<longleftrightarrow> max_timestamp_kind c \<noteq> TsNone"

definition supports_word_timestamps :: "loaded_caps \<Rightarrow> bool" where
  "supports_word_timestamps c \<longleftrightarrow> max_timestamp_kind c \<in> {TsWord, TsToken}"

definition mark_timestamp_granularity_rejected :: "loaded_caps \<Rightarrow> loaded_caps" where
  "mark_timestamp_granularity_rejected c = c\<lparr>timestamp_granularity_rejected := True\<rparr>"

datatype control_status = Supported | NotSupported | Unknown

record control_capability =
  cc_status :: control_status
  cc_reason :: "string option"
  cc_evidence :: string
  cc_mechanism :: "string option"
  cc_scope :: "string option"
  cc_extra :: json

fun status_str :: "control_status \<Rightarrow> string" where
  "status_str Supported = ''supported''"
| "status_str NotSupported = ''unsupported''"
| "status_str Unknown = ''unknown''"

definition set_opt :: "string \<Rightarrow> string option \<Rightarrow> json \<Rightarrow> json" where
  "set_opt k x v = (case x of None \<Rightarrow> v | Some s \<Rightarrow> jset k (JStr s) v)"

definition control_to_json :: "control_capability \<Rightarrow> json" where
  "control_to_json c =
     (let v = JObj [(''status'', JStr (status_str (cc_status c))), (''evidence'', JStr (cc_evidence c))];
          v = set_opt ''reason'' (cc_reason c) v;
          v = set_opt ''mechanism'' (cc_mechanism c) v;
          v = set_opt ''scope'' (cc_scope c) v
      in case cc_extra c of
           JObj kvs \<Rightarrow> foldl (\<lambda>v (k, x). jset k x v) v kvs
         | _ \<Rightarrow> v)"

definition loaded_control :: "bool \<Rightarrow> string option \<Rightarrow> string option \<Rightarrow> json \<Rightarrow> control_capability" where
  "loaded_control ok mechanism scope extra =
     \<lparr>cc_status = (if ok then Supported else NotSupported),
      cc_reason = (if ok then None else Some ''model_lacks''),
      cc_evidence = ''loaded_model'', cc_mechanism = mechanism, cc_scope = scope, cc_extra = extra\<rparr>"

definition jstrs :: "string list \<Rightarrow> json" where "jstrs xs = JArr (map JStr xs)"

definition timestamp_control :: "loaded_caps \<Rightarrow> control_capability" where
  "timestamp_control c =
     (if timestamp_granularity_rejected c then
        \<lparr>cc_status = NotSupported, cc_reason = Some ''run_rejected'', cc_evidence = ''run_rejected'',
         cc_mechanism = None, cc_scope = None,
         cc_extra = JObj [(''max'', JStr (ts_as_str (max_timestamp_kind c)))]\<rparr>
      else if max_timestamp_kind c = TsNone then
        loaded_control False None None (JObj [(''max'', JStr (ts_as_str TsNone))])
      else
        loaded_control True None None (JObj [(''max'', JStr (ts_as_str (max_timestamp_kind c)))]))"

definition sample_rate_control :: "loaded_caps \<Rightarrow> control_capability" where
  "sample_rate_control c =
     (if native_sample_rate c > 0 then
        loaded_control True None None (JObj [(''hz'', JInt (native_sample_rate c))])
      else
        \<lparr>cc_status = Unknown, cc_reason = Some ''not_reported'', cc_evidence = ''loaded_model'',
         cc_mechanism = None, cc_scope = None, cc_extra = JNull\<rparr>)"

definition effective_controls :: "loaded_caps \<Rightarrow> (string \<times> control_capability) list" where
  "effective_controls c =
     (let whisper_ok = whisper_gate c;
          translation_ok = supports_translate c;
          feature = (\<lambda>ok. loaded_control ok None None JNull)
      in
      [(''prompt'', loaded_control whisper_ok (Some ''whisper_initial_prompt'') None
          (JObj [(''max_tokens'', jopt (\<lambda>n. JInt (int n)) (prompt_max_tokens c))])),
       (''temperature'', loaded_control whisper_ok (Some ''whisper_initial_prompt'') None (JObj [])),
       (''language_hint'', loaded_control (supports_language_hint c) (Some ''run_option'') (Some ''request'')
          (JObj [(''languages'', jstrs (languages c))])),
       (''language_detect'', loaded_control (supports_language_detect c) None None (JObj [])),
       (''translation'', loaded_control translation_ok (Some ''task_translate'') None
          (JObj [(''target_languages'',
             if translation_ok \<and> translate_target_languages c = [] then JNull
             else jstrs (translate_target_languages c))])),
       (''timestamp_granularity'', timestamp_control c),
       (''streaming'', loaded_control (supports_streaming c) None None
          (JObj [(''model_claim'', JBool (supports_streaming c))])),
       (''punctuation'', feature (supports_pnc c)),
       (''itn'', feature (supports_itn c)),
       (''cancellation'', feature (supports_cancellation c)),
       (''long_form'', feature (supports_long_form c)),
       (''spec_decode'', feature (supports_spec_decode c)),
       (''native_sample_rate'', sample_rate_control c)])"

definition effective_to_json :: "loaded_caps \<Rightarrow> json" where
  "effective_to_json c =
     JObj (map (\<lambda>(k, cap). (k, control_to_json cap)) (effective_controls c) @
       [(''response_formats'', JObj [(''json'', JStr ''supported''), (''text'', JStr ''supported''),
           (''verbose_json'', JStr ''supported''), (''srt'', JStr ''unsupported''), (''vtt'', JStr ''unsupported'')]),
        (''feature_initial_prompt_flag'', JBool (feature_initial_prompt_flag c)),
        (''whisper_ext_accepted'', jopt JBool (whisper_ext_accepted c)),
        (''arch'', JStr (arch c))])"

subsection \<open>The catalog view\<close>

definition claim :: "bool \<Rightarrow> json \<Rightarrow> bool \<Rightarrow> json" where
  "claim claimed model_claim arch_ruled_out =
     (if arch_ruled_out \<or> \<not> claimed then
        JObj [(''status'', JStr ''unsupported''),
              (''reason'', JStr (if \<not> claimed then ''model_lacks'' else ''not_implemented'')),
              (''evidence'', JStr ''catalog_claim''), (''model_claim'', model_claim)]
      else
        JObj [(''status'', JStr ''unknown''), (''reason'', JStr ''unverified''),
              (''evidence'', JStr ''catalog_claim''), (''model_claim'', model_claim)])"

definition capability_matrix :: "catalog_model \<Rightarrow> json" where
  "capability_matrix m =
     (let caps = cm_capabilities m;
          multi_language = length (cm_languages m) > 1;
          has_timestamps = cl_timestamps caps \<noteq> ''none'';
          is_whisper_arch = cm_architecture m = ''whisper'';
          translation = jset ''target_languages'' (if cl_translate caps then JNull else JArr [])
                          (claim (cl_translate caps) (JBool (cl_translate caps)) False);
          matrix = JObj
            [(''prompt'', claim is_whisper_arch JNull (\<not> is_whisper_arch)),
             (''temperature'', claim is_whisper_arch JNull (\<not> is_whisper_arch)),
             (''language_hint'', claim (multi_language \<and> cm_architecture m \<noteq> ''granite'')
                (jstrs (cm_languages m)) False),
             (''language_detect'', claim (cl_lang_detect caps) (JBool (cl_lang_detect caps)) False),
             (''translation'', translation),
             (''timestamp_granularity'', claim has_timestamps (JStr (cl_timestamps caps)) False),
             (''streaming'', claim (cl_streaming caps) (JBool (cl_streaming caps)) False),
             (''response_formats'', JObj [(''json'', JStr ''supported''), (''text'', JStr ''supported''),
                (''verbose_json'', JStr ''unknown'')])]
      in add_unverified_engine_controls matrix)"

definition catalog_view :: "catalog_model \<Rightarrow> json" where "catalog_view m = capability_matrix m"

definition jnat :: "nat \<Rightarrow> json" where "jnat n = JInt (int n)"

definition model_view :: "catalog_model \<Rightarrow> string option \<Rightarrow> json" where
  "model_view m installed_quant =
     JObj [(''id'', JStr (cm_slug m)), (''name'', JStr (cm_name m)), (''upstream_id'', JStr (cm_id m)),
       (''revision'', JStr (cm_revision m)), (''architecture'', JStr (cm_architecture m)),
       (''family'', JStr (cm_family m)), (''license'', JStr (cm_license m)),
       (''languages'', jstrs (cm_languages m)),
       (''model_capabilities'', JObj [(''streaming'', JBool (cl_streaming (cm_capabilities m))),
          (''translate'', JBool (cl_translate (cm_capabilities m))),
          (''lang_detect'', JBool (cl_lang_detect (cm_capabilities m))),
          (''timestamps'', JStr (cl_timestamps (cm_capabilities m)))]),
       (''effective_capabilities'', capability_matrix m),
       (''default_quant'', JStr (cm_default_quant m)),
       (''files'', JArr (map (\<lambda>f. JObj [(''filename'', JStr (cf_filename f)), (''quant'', JStr (cf_quant f)),
          (''size_bytes'', jnat (cf_size_bytes f)), (''sha256'', JStr (cf_sha256 f))]) (cm_files m))),
       (''speed_score'', jopt jnat (cm_speed_score m)), (''accuracy_score'', jopt jnat (cm_accuracy_score m)),
       (''benchmark_source'', JStr ''Handy catalog generated 2026-08-17; scores are derived display values, not local measurements''),
       (''recommended_rank'', jopt jnat (cm_recommended_rank m)),
       (''downloaded'', JBool (installed_quant \<noteq> None)), (''installed_quant'', jopt JStr installed_quant),
       (''installable'', JBool True)]"

subsection \<open>Disagreements\<close>

definition status_of :: "json \<Rightarrow> string \<Rightarrow> string option" where
  "status_of matrix control =
     Option.bind (Option.bind (jget control matrix) (jget ''status'')) as_str"

definition compared_controls :: "string list" where
  "compared_controls = [''prompt'', ''temperature'', ''language_hint'', ''language_detect'',
     ''translation'', ''timestamp_granularity'', ''streaming'']"

definition mismatch_of :: "json \<Rightarrow> json \<Rightarrow> string \<Rightarrow> json option" where
  "mismatch_of cat_json eff_json control =
     (case (status_of cat_json control, status_of eff_json control) of
        (Some cat, Some eff) \<Rightarrow>
          if cat \<noteq> ''unknown'' \<and> cat \<noteq> eff
          then Some (JObj [(''control'', JStr control), (''catalog'', JStr cat), (''effective'', JStr eff)])
          else None
      | _ \<Rightarrow> None)"

definition catalog_mismatch :: "catalog_model \<Rightarrow> loaded_caps \<Rightarrow> json list" where
  "catalog_mismatch m c =
     List.map_filter (mismatch_of (catalog_view m) (effective_to_json c)) compared_controls"

subsection \<open>Properties\<close>

lemma status_of_control:
  "cc_extra c = JNull \<or> cc_extra c = JObj [] \<or> (\<exists>k x. cc_extra c = JObj [(k, x)] \<and> k \<noteq> ''status'') \<Longrightarrow>
     jget ''status'' (control_to_json c) = Some (JStr (status_str (cc_status c)))"
  by (auto simp: control_to_json_def set_opt_def Let_def split: option.splits)

lemma effective_status [json_simps]:
  "status_of (effective_to_json c) ''prompt'' = Some (if whisper_gate c then ''supported'' else ''unsupported'')"
  "status_of (effective_to_json c) ''temperature'' = Some (if whisper_gate c then ''supported'' else ''unsupported'')"
  "status_of (effective_to_json c) ''language_hint'' =
     Some (if supports_language_hint c then ''supported'' else ''unsupported'')"
  "status_of (effective_to_json c) ''language_detect'' =
     Some (if supports_language_detect c then ''supported'' else ''unsupported'')"
  "status_of (effective_to_json c) ''translation'' =
     Some (if supports_translate c then ''supported'' else ''unsupported'')"
  "status_of (effective_to_json c) ''timestamp_granularity'' =
     Some (if \<not> timestamp_granularity_rejected c \<and> supports_segment_timestamps c then ''supported'' else ''unsupported'')"
  "status_of (effective_to_json c) ''streaming'' =
     Some (if supports_streaming c then ''supported'' else ''unsupported'')"
  by (simp_all add: status_of_def effective_to_json_def effective_controls_def Let_def
        status_of_control loaded_control_def timestamp_control_def supports_segment_timestamps_def)

lemma claim_status: "jget ''status'' (claim b x r) = Some (JStr (if b \<and> \<not> r then ''unknown'' else ''unsupported''))"
  by (auto simp: claim_def)

lemma claim_obj: "\<exists>kvs. claim b x r = JObj kvs"
  by (simp add: claim_def)

lemma catalog_status [json_simps]:
  "status_of (capability_matrix m) ''prompt'' =
     Some (if cm_architecture m = ''whisper'' then ''unknown'' else ''unsupported'')"
  "status_of (capability_matrix m) ''temperature'' =
     Some (if cm_architecture m = ''whisper'' then ''unknown'' else ''unsupported'')"
  "status_of (capability_matrix m) ''language_hint'' =
     Some (if length (cm_languages m) > 1 \<and> cm_architecture m \<noteq> ''granite'' then ''unknown'' else ''unsupported'')"
  "status_of (capability_matrix m) ''language_detect'' =
     Some (if cl_lang_detect (cm_capabilities m) then ''unknown'' else ''unsupported'')"
  "status_of (capability_matrix m) ''translation'' =
     Some (if cl_translate (cm_capabilities m) then ''unknown'' else ''unsupported'')"
  "status_of (capability_matrix m) ''timestamp_granularity'' =
     Some (if cl_timestamps (cm_capabilities m) \<noteq> ''none'' then ''unknown'' else ''unsupported'')"
  "status_of (capability_matrix m) ''streaming'' =
     Some (if cl_streaming (cm_capabilities m) then ''unknown'' else ''unsupported'')"
  by (simp_all add: status_of_def capability_matrix_def Let_def add_unverified_engine_controls_def
        engine_only_controls_def claim_status)
     (simp_all add: claim_def)

lemma engine_only_unknown:
  "control \<in> set engine_only_controls \<Longrightarrow> status_of (capability_matrix m) control = Some ''unknown''"
  by (auto simp: status_of_def capability_matrix_def Let_def add_unverified_engine_controls_def
        engine_only_controls_def unverified_control_def)

lemma map_filter_map:
  "(\<And>x. x \<in> set xs \<Longrightarrow> f x = (if P x then Some (g x) else None)) \<Longrightarrow>
     List.map_filter f xs = map g (filter P xs)"
  by (induction xs) (simp_all add: List.map_filter_simps)

lemma catalog_statuses:
  "control \<in> set compared_controls \<Longrightarrow>
     status_of (capability_matrix m) control \<in> {Some ''unknown'', Some ''unsupported''}"
  by (auto simp: compared_controls_def catalog_status split: if_splits)

lemma effective_statuses:
  "control \<in> set compared_controls \<Longrightarrow>
     status_of (effective_to_json c) control \<in> {Some ''supported'', Some ''unsupported''}"
  by (auto simp: compared_controls_def effective_status split: if_splits)

lemma mismatch_exact:
  assumes "control \<in> set compared_controls"
  shows "mismatch_of (capability_matrix m) (effective_to_json c) control =
     (if status_of (capability_matrix m) control = Some ''unsupported''
         \<and> status_of (effective_to_json c) control = Some ''supported''
      then Some (JObj [(''control'', JStr control), (''catalog'', JStr ''unsupported''),
                       (''effective'', JStr ''supported'')]) else None)"
  using catalog_statuses [OF assms, of m] effective_statuses [OF assms, of c]
  by (auto simp: mismatch_of_def)

text \<open>
  The unverified catalog view never claims support: every control of it is reported unknown or
  unsupported, and unsupported only when the entry does not claim the feature or the feature is
  not wired for its architecture.
\<close>

theorem catalog_view_never_claims:
  assumes "control \<in> set (compared_controls @ engine_only_controls)"
  shows "status_of (catalog_view m) control \<in> {Some ''unknown'', Some ''unsupported''}"
proof (cases "control \<in> set engine_only_controls")
  case True
  then show ?thesis by (simp add: catalog_view_def engine_only_unknown)
next
  case False
  with assms have "control \<in> set compared_controls" by simp
  then show ?thesis by (auto simp: catalog_view_def dest: catalog_statuses)
qed

theorem catalog_view_never_claims_witness:
  "status_of (catalog_view sample_model) ''prompt'' \<in> {Some ''unknown'', Some ''unsupported''}
   \<and> status_of (catalog_view sample_model) ''streaming'' = Some ''unsupported''"
proof -
  have "''prompt'' \<in> set (compared_controls @ engine_only_controls)" by (simp add: compared_controls_def)
  from catalog_view_never_claims [OF this, of sample_model] show ?thesis
    by (simp add: catalog_view_def catalog_status sample_model_def)
qed

text \<open>
  The mismatch report lists, once each and with both statuses, exactly the controls that the
  catalog rules out and the loaded model supports; an unverified catalog claim is never one.
\<close>

theorem catalog_mismatch_exact:
  "catalog_mismatch m c =
     map (\<lambda>control. JObj [(''control'', JStr control), (''catalog'', JStr ''unsupported''),
                           (''effective'', JStr ''supported'')])
       (filter (\<lambda>control. status_of (catalog_view m) control = Some ''unsupported''
                        \<and> status_of (effective_to_json c) control = Some ''supported'')
          compared_controls)"
  unfolding catalog_mismatch_def
  by (rule map_filter_map) (auto simp: mismatch_exact catalog_view_def)

end
