(* ===== verification/Run_Plan.thy ===== *)
theory Run_Plan
  imports Capabilities Floats
begin

text \<open>
  \<open>src/run_plan.rs\<close>: from a parsed request and the loaded model's capabilities to the plan of a
  run, or the error that refuses it; the translation of a plan to engine options; and the decision
  to retry a run without timestamps.
\<close>

datatype endpoint = Transcriptions | Translations
datatype planned_task = Transcribe | Translate
datatype response_format = FmtJson | FmtText | FmtVerboseJson

definition parse_response_format :: "string \<Rightarrow> response_format option" where
  "parse_response_format raw =
     (if raw = ''json'' then Some FmtJson
      else if raw = ''text'' then Some FmtText
      else if raw = ''verbose_json'' then Some FmtVerboseJson
      else None)"

record parsed_request =
  rq_language :: "string option"
  rq_prompt :: "string option"
  rq_temperature :: "f32 option"
  rq_response_format :: "string option"
  rq_timestamp_granularities :: "string list"
  rq_target_language :: "string option"

record plan =
  pl_language :: "string option"
  pl_task :: planned_task
  pl_target_language :: "string option"
  pl_initial_prompt :: "string option"
  pl_temperature :: "f32 option"
  pl_timestamps :: timestamp_granularity
  pl_response_format :: response_format
  pl_language_hint_applied :: bool
  pl_language_hint_provided :: bool
  pl_applied_language :: "string option"
  pl_language_evidence_hint :: "string option"
  pl_timestamps_explicit :: bool

subsection \<open>Engine options\<close>

record whisper_run_options =
  wo_initial_prompt :: "string option"
  wo_temperature :: "f32 option"

record run_options =
  ro_task :: planned_task
  ro_timestamps :: timestamp_kind
  ro_language :: "string option"
  ro_target_language :: "string option"
  ro_family :: "whisper_run_options option"

definition to_run_options :: "plan \<Rightarrow> run_options" where
  "to_run_options p =
     \<lparr>ro_task = pl_task p,
      ro_timestamps =
        (case pl_timestamps p of
           TsNone \<Rightarrow> KNone | TsSegment \<Rightarrow> KSegment | TsWord \<Rightarrow> KWord | TsToken \<Rightarrow> KToken),
      ro_language = pl_language p,
      ro_target_language = pl_target_language p,
      ro_family =
        (if pl_initial_prompt p \<noteq> None \<or> pl_temperature p \<noteq> None
         then Some \<lparr>wo_initial_prompt = pl_initial_prompt p, wo_temperature = pl_temperature p\<rparr>
         else None)\<rparr>"

subsection \<open>Languages\<close>

definition normalize_cjk_language :: "string \<Rightarrow> string" where
  "normalize_cjk_language l = (if l = ''zh-Hans'' \<or> l = ''zh-Hant'' then ''zh'' else l)"

definition base_language :: "string \<Rightarrow> string" where
  "base_language l = hd (split_on (\<lambda>c. c = CHR ''-'' \<or> c = CHR ''_'') l)"

definition canonical_language_code :: "string \<Rightarrow> string" where
  "canonical_language_code l =
     (let base = base_language l in
      if base = ''nb'' then ''no'' else if base = ''fil'' then ''tl'' else base)"

definition match_language_hint :: "string \<Rightarrow> string list \<Rightarrow> string option" where
  "match_language_hint requested supported =
     (let normalized = normalize_cjk_language (lowercase requested);
          exact = List.find (\<lambda>l. base_language l = base_language normalized) supported;
          alias = List.find (\<lambda>l. canonical_language_code l = canonical_language_code normalized) supported
      in or_else exact alias)"

definition fallback_language :: "string list \<Rightarrow> bool \<Rightarrow> string option" where
  "fallback_language supported detects =
     (if supported = [] then None
      else if detects then None
      else case List.find (\<lambda>l. base_language l = ''en'') supported of
             Some en \<Rightarrow> Some en
           | None \<Rightarrow> Some (supported ! 0))"

record resolved_language =
  rl_language :: "string option"
  rl_applied :: bool
  rl_provided :: bool
  rl_applied_language :: "string option"
  rl_evidence :: "string option"

definition has_language_hint :: "string option \<Rightarrow> bool" where
  "has_language_hint requested =
     (case requested of
        None \<Rightarrow> False
      | Some raw \<Rightarrow> trim raw \<noteq> [] \<and> \<not> eq_ignore_case (trim raw) ''auto'')"

definition resolve_language :: "string option \<Rightarrow> loaded_caps \<Rightarrow> resolved_language" where
  "resolve_language requested c =
     (let supported = languages c;
          has_hint = has_language_hint requested;
          matched = (if has_hint then match_language_hint (trim (the requested)) supported else None)
      in case matched of
           Some l \<Rightarrow> \<lparr>rl_language = Some l, rl_applied = True, rl_provided = True,
                      rl_applied_language = Some l, rl_evidence = Some ''user_selected''\<rparr>
         | None \<Rightarrow>
             (case fallback_language supported (supports_language_detect c) of
                None \<Rightarrow> \<lparr>rl_language = None, rl_applied = False, rl_provided = has_hint,
                         rl_applied_language = None, rl_evidence = None\<rparr>
              | Some l \<Rightarrow> \<lparr>rl_language = Some l, rl_applied = False, rl_provided = has_hint,
                           rl_applied_language = Some l, rl_evidence = Some ''model_constrained''\<rparr>))"

subsection \<open>Planning\<close>

definition unsupported_capability :: "string \<Rightarrow> api_error" where
  "unsupported_capability m = api_error_new 422 ''unsupported_capability'' m"

definition plan_prompt ::
  "parsed_request \<Rightarrow> loaded_caps \<Rightarrow> (string \<Rightarrow> nat option) option \<Rightarrow> api_error + string option" where
  "plan_prompt rq c tokenize =
     (let has_prompt = (case rq_prompt rq of None \<Rightarrow> False | Some p \<Rightarrow> p \<noteq> []) in
      if has_prompt \<and> \<not> whisper_gate c then
        Inl (unsupported_capability (''This model does not support '' @ quoted ''prompt''))
      else if has_prompt then
        let prompt = the (rq_prompt rq);
            actual = Option.bind tokenize (\<lambda>tok. tok prompt)
        in case (prompt_max_tokens c, actual) of
             (Some limit, Some actual) \<Rightarrow>
               if actual > limit then
                 Inl (with_details
                   (JObj [(''limit'', jnat limit), (''actual'', jnat actual), (''unit'', JStr ''tokens'')])
                   (api_error_new 422 ''prompt_too_long'' ''The prompt exceeds this model's prompt token limit''))
               else Inr (Some prompt)
           | _ \<Rightarrow> Inr (Some prompt)
      else Inr None)"

definition plan_temperature :: "parsed_request \<Rightarrow> loaded_caps \<Rightarrow> api_error + f32 option" where
  "plan_temperature rq c =
     (case rq_temperature rq of
        None \<Rightarrow> Inr None
      | Some t \<Rightarrow>
          if \<not> f32_within 0 1 t then
            Inl (api_error_new 400 ''invalid_temperature'' ''temperature must be between 0.0 and 1.0'')
          else if \<not> whisper_gate c then
            Inl (unsupported_capability (''This model does not support '' @ quoted ''temperature''))
          else Inr (Some t))"

definition plan_response_format :: "parsed_request \<Rightarrow> api_error + response_format" where
  "plan_response_format rq =
     (case rq_response_format rq of
        None \<Rightarrow> Inr FmtJson
      | Some raw \<Rightarrow> ok_or (unsupported_capability (''response_format '' @ quoted raw @ '' is not supported''))
                      (parse_response_format raw))"

definition plan_timestamps ::
  "parsed_request \<Rightarrow> loaded_caps \<Rightarrow> response_format \<Rightarrow> api_error + timestamp_granularity \<times> bool" where
  "plan_timestamps rq c fmt =
     (let word_requested = ''word'' \<in> set (rq_timestamp_granularities rq);
          segment_requested = ''segment'' \<in> set (rq_timestamp_granularities rq)
      in case fmt of
           FmtVerboseJson \<Rightarrow>
             if word_requested then
               if \<not> supports_word_timestamps c then
                 Inl (unsupported_capability ''This model does not support word-level timestamps'')
               else Inr (TsWord, True)
             else if segment_requested then
               if \<not> supports_segment_timestamps c then
                 Inl (unsupported_capability ''This model does not support timestamps'')
               else Inr (TsSegment, True)
             else if supports_segment_timestamps c then Inr (TsSegment, False)
             else Inr (TsNone, False)
         | _ \<Rightarrow> Inr (TsNone, False))"

definition requested_target :: "parsed_request \<Rightarrow> string" where
  "requested_target rq =
     (case rq_target_language rq of
        None \<Rightarrow> ''en''
      | Some t \<Rightarrow> if trim t \<noteq> [] then trim t else ''en'')"

definition plan_task ::
  "parsed_request \<Rightarrow> loaded_caps \<Rightarrow> endpoint \<Rightarrow> string option \<Rightarrow> api_error + planned_task \<times> string option" where
  "plan_task rq c ep applied_language =
     (case ep of
        Transcriptions \<Rightarrow> Inr (Transcribe, None)
      | Translations \<Rightarrow>
          if \<not> supports_translate c then
            Inl (unsupported_capability ''This model does not support translation'')
          else
            let target = requested_target rq;
                source_language =
                  or_else applied_language (if length (languages c) = 1 then Some (languages c ! 0) else None);
                source_is_target =
                  (case source_language of
                     None \<Rightarrow> False
                   | Some source \<Rightarrow> canonical_language_code source = canonical_language_code target)
            in if source_is_target then Inr (Transcribe, None)
               else if \<not> offers_translation_target c target then
                 Inl (with_details
                   (JObj [(''target_language'', JStr target),
                          (''target_languages'', jstrs (translate_target_languages c))])
                   (api_error_new 422 ''unsupported_target_language''
                      (''This model cannot translate into '' @ quoted target)))
               else Inr (Translate, Some target))"

definition make_plan ::
  "parsed_request \<Rightarrow> loaded_caps \<Rightarrow> endpoint \<Rightarrow> (string \<Rightarrow> nat option) option \<Rightarrow> api_error + plan" where
  "make_plan rq c ep tokenize =
     (let rl = resolve_language (rq_language rq) c in
      and_then (plan_prompt rq c tokenize) (\<lambda>initial_prompt.
      and_then (plan_temperature rq c) (\<lambda>temperature.
      and_then (plan_response_format rq) (\<lambda>fmt.
      and_then (plan_timestamps rq c fmt) (\<lambda>(timestamps, explicit).
      and_then (plan_task rq c ep (rl_applied_language rl)) (\<lambda>(task, target_language).
        Inr \<lparr>pl_language = rl_language rl, pl_task = task, pl_target_language = target_language,
             pl_initial_prompt = initial_prompt, pl_temperature = temperature,
             pl_timestamps = timestamps, pl_response_format = fmt,
             pl_language_hint_applied = rl_applied rl, pl_language_hint_provided = rl_provided rl,
             pl_applied_language = rl_applied_language rl, pl_language_evidence_hint = rl_evidence rl,
             pl_timestamps_explicit = explicit\<rparr>))))))"

definition should_retry_without_timestamps ::
  "response_format \<Rightarrow> timestamp_granularity \<Rightarrow> bool \<Rightarrow> string \<Rightarrow> bool" where
  "should_retry_without_timestamps fmt ts explicit error_code \<longleftrightarrow>
     fmt = FmtVerboseJson \<and> ts = TsSegment \<and> \<not> explicit \<and> error_code = ''engine_unsupported''"

subsection \<open>Lemmas\<close>

lemma match_language_hint_member: "match_language_hint r ls = Some l \<Longrightarrow> l \<in> set ls"
  by (auto simp: match_language_hint_def Let_def outcome_simps dest: find_Some_set)

lemma match_language_hint_canonical:
  assumes "match_language_hint r ls = Some l"
  shows "canonical_language_code l = canonical_language_code (normalize_cjk_language (lowercase r))"
  using assms
  by (auto simp: match_language_hint_def Let_def outcome_simps canonical_language_code_def
           dest!: find_Some_set)



lemma resolve_language_consistent:
  "rl_applied_language (resolve_language rq c) = rl_language (resolve_language rq c)
   \<and> (rl_applied (resolve_language rq c) \<longrightarrow> rl_provided (resolve_language rq c))
   \<and> rl_provided (resolve_language rq c) = has_language_hint rq"
  by (auto simp: resolve_language_def Let_def split: option.splits if_splits)

lemma resolve_language_none:
  "rl_language (resolve_language rq c) = None \<Longrightarrow> languages c = [] \<or> supports_language_detect c"
  by (auto simp: resolve_language_def fallback_language_def Let_def split: option.splits if_splits)


lemma plan_prompt_None: "plan_prompt rq c tok = Inr None \<Longrightarrow> rq_prompt rq = None \<or> rq_prompt rq = Some []"
  by (auto simp: plan_prompt_def Let_def split: option.splits if_splits prod.splits)




lemma make_plan_Inr:
  assumes "make_plan rq c ep tok = Inr p"
  shows "plan_prompt rq c tok = Inr (pl_initial_prompt p)"
    and "plan_temperature rq c = Inr (pl_temperature p)"
    and "plan_response_format rq = Inr (pl_response_format p)"
    and "plan_timestamps rq c (pl_response_format p) = Inr (pl_timestamps p, pl_timestamps_explicit p)"
    and "plan_task rq c ep (pl_applied_language p) = Inr (pl_task p, pl_target_language p)"
    and "pl_language p = rl_language (resolve_language (rq_language rq) c)"
    and "pl_applied_language p = rl_applied_language (resolve_language (rq_language rq) c)"
    and "pl_language_hint_applied p = rl_applied (resolve_language (rq_language rq) c)"
    and "pl_language_hint_provided p = rl_provided (resolve_language (rq_language rq) c)"
    and "pl_language_evidence_hint p = rl_evidence (resolve_language (rq_language rq) c)"
  using assms by (auto simp: make_plan_def Let_def outcome_simps split: prod.splits)

subsection \<open>Properties\<close>




definition sample_caps :: loaded_caps where
  "sample_caps = \<lparr>arch = ''whisper'', languages = [''en'', ''de''], translate_target_languages = [],
     supports_translate = True, supports_language_detect = True, max_timestamp_kind = TsSegment,
     feature_initial_prompt_flag = True, whisper_ext_accepted = Some True, prompt_max_tokens = Some 4,
     timestamp_granularity_rejected = False, supports_streaming = False, supports_spec_decode = False,
     supports_pnc = False, supports_itn = False, supports_cancellation = True, supports_long_form = True,
     native_sample_rate = 16000\<rparr>"

definition sample_request :: parsed_request where
  "sample_request = \<lparr>rq_language = Some ''de-AT'', rq_prompt = Some ''hi'', rq_temperature = Some (Fin (1 / 2)),
     rq_response_format = Some ''verbose_json'', rq_timestamp_granularities = [], rq_target_language = None\<rparr>"

definition sample_plan :: plan where
  "sample_plan = \<lparr>pl_language = Some ''de'', pl_task = Translate, pl_target_language = Some ''en'',
     pl_initial_prompt = Some ''hi'', pl_temperature = Some (Fin (1 / 2)), pl_timestamps = TsSegment,
     pl_response_format = FmtVerboseJson, pl_language_hint_applied = True, pl_language_hint_provided = True,
     pl_applied_language = Some ''de'', pl_language_evidence_hint = Some ''user_selected'',
     pl_timestamps_explicit = False\<rparr>"

lemma sample_language:
  "resolve_language (Some ''de-AT'') sample_caps =
     \<lparr>rl_language = Some ''de'', rl_applied = True, rl_provided = True,
      rl_applied_language = Some ''de'', rl_evidence = Some ''user_selected''\<rparr>"
  by code_simp

lemma sample_task:
  "plan_task sample_request sample_caps Translations (Some ''de'') = Inr (Translate, Some ''en'')"
  by code_simp

lemma sample_plan_ok: "make_plan sample_request sample_caps Translations (Some (\<lambda>s. Some 1)) = Inr sample_plan"
proof -
  have "plan_prompt sample_request sample_caps (Some (\<lambda>s. Some 1)) = Inr (Some ''hi'')"
    by (simp add: plan_prompt_def sample_request_def sample_caps_def whisper_gate_def)
  moreover have "plan_temperature sample_request sample_caps = Inr (Some (Fin (1 / 2)))"
    by (simp add: plan_temperature_def sample_request_def sample_caps_def whisper_gate_def f32_within_def)
  moreover have "plan_response_format sample_request = Inr FmtVerboseJson"
    by (simp add: plan_response_format_def sample_request_def parse_response_format_def)
  moreover have "plan_timestamps sample_request sample_caps FmtVerboseJson = Inr (TsSegment, False)"
    by (simp add: plan_timestamps_def sample_request_def sample_caps_def supports_segment_timestamps_def)
  moreover have "rq_language sample_request = Some ''de-AT''" by (simp add: sample_request_def)
  ultimately show ?thesis
    by (simp add: make_plan_def Let_def sample_language sample_task sample_plan_def)
qed





lemma resolve_ignores_arch: "resolve_language h (c\<lparr>arch := ar\<rparr>) = resolve_language h c"
  by (simp add: resolve_language_def Let_def cong: option.case_cong)



text \<open>The hint of a granite model: reported as unsupported, planned and reported as applied.\<close>

lemma granite_hint_applied:
  "status_of (effective_to_json (sample_caps\<lparr>arch := ''granite''\<rparr>)) ''language_hint'' = Some ''unsupported''
   \<and> rl_applied (resolve_language (Some ''de-AT'') (sample_caps\<lparr>arch := ''granite''\<rparr>))
   \<and> rl_evidence (resolve_language (Some ''de-AT'') (sample_caps\<lparr>arch := ''granite''\<rparr>)) = Some ''user_selected''"
  by (simp add: effective_status supports_language_hint_def resolve_ignores_arch sample_language)


text \<open>
  A language hint is never an error: whatever the hint, a transcription request fails with the
  same error or not at all; the hint is honoured only with a language of the model that has the
  hint's canonical code; and autodetection is planned only on a model that can detect languages or
  lists none.
\<close>

theorem language_hint_never_fails:
  "(make_plan (rq\<lparr>rq_language := l\<rparr>) c Transcriptions tok = Inl e)
     = (make_plan rq c Transcriptions tok = Inl e)
   \<and> (rl_applied (resolve_language l c) \<longrightarrow>
        (\<exists>raw m. l = Some raw \<and> rl_language (resolve_language l c) = Some m \<and> m \<in> set (languages c)
           \<and> canonical_language_code m
             = canonical_language_code (normalize_cjk_language (lowercase (trim raw)))))
   \<and> (rl_language (resolve_language l c) = None \<longrightarrow> languages c = [] \<or> supports_language_detect c)"
proof (intro conjI impI)
  show "(make_plan (rq\<lparr>rq_language := l\<rparr>) c Transcriptions tok = Inl e)
     = (make_plan rq c Transcriptions tok = Inl e)"
    by (simp add: make_plan_def Let_def outcome_simps plan_task_def plan_prompt_def plan_temperature_def
          plan_response_format_def plan_timestamps_def split: prod.splits)
next
  assume a: "rl_applied (resolve_language l c)"
  then obtain raw m where raw: "l = Some raw" "has_language_hint l"
    and m: "match_language_hint (trim raw) (languages c) = Some m"
    and r: "rl_language (resolve_language l c) = Some m"
    by (auto simp: resolve_language_def has_language_hint_def Let_def split: option.splits if_splits)
  with match_language_hint_member [OF m] match_language_hint_canonical [OF m]
  show "\<exists>raw m. l = Some raw \<and> rl_language (resolve_language l c) = Some m \<and> m \<in> set (languages c)
           \<and> canonical_language_code m
             = canonical_language_code (normalize_cjk_language (lowercase (trim raw)))"
    by blast
next
  assume "rl_language (resolve_language l c) = None"
  then show "languages c = [] \<or> supports_language_detect c" by (rule resolve_language_none)
qed

theorem language_hint_never_fails_witness:
  "rl_applied (resolve_language (Some ''de-AT'') sample_caps)
   \<and> (\<exists>m. rl_language (resolve_language (Some ''de-AT'') sample_caps) = Some m \<and> m \<in> set (languages sample_caps))"
proof -
  have a: "rl_applied (resolve_language (Some ''de-AT'') sample_caps)" by (simp add: sample_language)
  from conjunct1 [OF conjunct2 [OF language_hint_never_fails
    [where l = "Some ''de-AT''" and rq = sample_request and c = sample_caps]]] a
  show ?thesis by blast
qed

text \<open>
  The silent retry without timestamps happens only for a run whose segment timestamps the
  planner chose by itself: the request named neither word nor segment granularity, the format is
  verbose, the engine was asked for segments, and it answered that it does not support them.
\<close>

theorem retry_only_defaulted_timestamps:
  assumes "make_plan rq c ep tok = Inr p"
    and "should_retry_without_timestamps (pl_response_format p) (pl_timestamps p)
           (pl_timestamps_explicit p) (code (map_engine_error err))"
  shows "''word'' \<notin> set (rq_timestamp_granularities rq) \<and> ''segment'' \<notin> set (rq_timestamp_granularities rq)
    \<and> rq_response_format rq = Some ''verbose_json''
    \<and> ro_timestamps (to_run_options p) = KSegment \<and> (\<exists>m. err = Unsupported m)"
proof -
  note mp = make_plan_Inr [OF assms(1)]
  from assms(2) have r: "pl_response_format p = FmtVerboseJson" "pl_timestamps p = TsSegment"
    "\<not> pl_timestamps_explicit p" "code (map_engine_error err) = ''engine_unsupported''"
    by (auto simp: should_retry_without_timestamps_def)
  from r mp(3) have "rq_response_format rq = Some ''verbose_json''"
    by (auto simp: plan_response_format_def parse_response_format_def outcome_simps split: option.splits if_splits)
  moreover from r mp(4) have "''word'' \<notin> set (rq_timestamp_granularities rq)
      \<and> ''segment'' \<notin> set (rq_timestamp_granularities rq)"
    by (auto simp: plan_timestamps_def Let_def split: if_splits)
  moreover have "ro_timestamps (to_run_options p) = KSegment" using r by (simp add: to_run_options_def)
  ultimately show ?thesis using r unsupported_code_iff by blast
qed

theorem retry_only_defaulted_timestamps_witness:
  "should_retry_without_timestamps (pl_response_format sample_plan) (pl_timestamps sample_plan)
     (pl_timestamps_explicit sample_plan) (code (map_engine_error (Unsupported ''no'')))
   \<and> ro_timestamps (to_run_options sample_plan) = KSegment"
proof -
  have r: "should_retry_without_timestamps (pl_response_format sample_plan) (pl_timestamps sample_plan)
     (pl_timestamps_explicit sample_plan) (code (map_engine_error (Unsupported ''no'')))"
    by (simp add: should_retry_without_timestamps_def sample_plan_def)
  from retry_only_defaulted_timestamps [OF sample_plan_ok r] r show ?thesis by blast
qed

end
