(* ===== verification/Response_Format.thy ===== *)
theory Response_Format
  imports Run_Plan
begin

text \<open>
  \<open>src/format.rs\<close>: the body of a finished transcription in the planned format, its diagnostics,
  and the evidence reported for the language. A millisecond count over 1000, and a sample count
  over 16000, are the doubles nearest to the quotients.
\<close>

datatype language_evidence =
  TranslatedToEnglish | UserSelected | ModelConstrained | ModelDetected | EvidenceUnknown

fun evidence_str :: "language_evidence \<Rightarrow> string" where
  "evidence_str TranslatedToEnglish = ''translated_to_english''"
| "evidence_str UserSelected = ''user_selected''"
| "evidence_str ModelConstrained = ''model_constrained''"
| "evidence_str ModelDetected = ''model_detected''"
| "evidence_str EvidenceUnknown = ''unknown''"

definition resolve_evidence :: "string option \<Rightarrow> bool \<Rightarrow> language_evidence" where
  "resolve_evidence plan_evidence engine_detected =
     (if plan_evidence = Some ''translated_to_english'' then TranslatedToEnglish
      else if plan_evidence = Some ''user_selected'' then UserSelected
      else if plan_evidence = Some ''model_constrained'' then ModelConstrained
      else if engine_detected then ModelDetected
      else EvidenceUnknown)"

record diagnostics_extra =
  dx_queue_wait_ms :: nat
  dx_inference_ms :: nat
  dx_audio_ms :: nat
  dx_model :: string
  dx_backend :: string
  dx_fallback_reason :: "string option"
  dx_mel_ms :: rat
  dx_encode_ms :: rat
  dx_decode_ms :: rat
  dx_truncated :: bool
  dx_prompt_applied :: bool
  dx_language_hint_applied :: "bool option"
  dx_applied_language :: "string option"
  dx_language_evidence :: language_evidence
  dx_timestamps_unavailable :: bool
  dx_target_language :: "string option"

definition diagnostics_json :: "diagnostics_extra \<Rightarrow> json" where
  "diagnostics_json x =
     (let v = JObj
        [(''queue_wait_ms'', jnat (dx_queue_wait_ms x)),
         (''inference_ms'', jnat (dx_inference_ms x)),
         (''audio_ms'', jnat (dx_audio_ms x)),
         (''model'', JStr (dx_model x)),
         (''backend'', JStr (dx_backend x)),
         (''fallback_reason'', jopt JStr (dx_fallback_reason x)),
         (''language_evidence'', JStr (evidence_str (dx_language_evidence x))),
         (''prompt_applied'', JBool (dx_prompt_applied x)),
         (''engine_timings'', JObj [(''mel_ms'', JFloat (dx_mel_ms x)),
            (''encode_ms'', JFloat (dx_encode_ms x)), (''decode_ms'', JFloat (dx_decode_ms x))])];
          v = (case dx_language_hint_applied x of None \<Rightarrow> v
               | Some applied \<Rightarrow> jset ''language_hint_applied'' (JBool applied) v);
          v = set_opt ''applied_language'' (dx_applied_language x) v;
          v = set_opt ''target_language'' (dx_target_language x) v;
          v = (if dx_truncated x then jset ''truncated'' (JBool True) v else v)
      in if dx_timestamps_unavailable x then jset ''timestamps_unavailable'' (JBool True) v else v)"

datatype formatted = Json json | PlainText string

definition seconds_of_ms :: "int \<Rightarrow> json" where
  "seconds_of_ms ms = JFloat (f64_div (of_int ms) 1000)"

definition segment_json :: "nat \<Rightarrow> int \<Rightarrow> int \<Rightarrow> string \<Rightarrow> json" where
  "segment_json i t0 t1 txt =
     JObj [(''id'', jnat i), (''start'', seconds_of_ms t0), (''end'', seconds_of_ms t1), (''text'', JStr txt)]"

definition word_json :: "timed_text \<Rightarrow> json" where
  "word_json w =
     JObj [(''word'', JStr (tt_text w)), (''start'', seconds_of_ms (t0_ms w)), (''end'', seconds_of_ms (t1_ms w))]"

definition response_segments :: "transcript \<Rightarrow> plan \<Rightarrow> json list" where
  "response_segments t p =
     (if tr_segments t \<noteq> [] then
        map (\<lambda>(i, seg). segment_json i (t0_ms seg) (t1_ms seg) (tt_text seg)) (enumerate 0 (tr_segments t))
      else if pl_timestamps p \<noteq> TsNone \<and> tr_tokens t \<noteq> [] then
        [segment_json 0 (t0_ms (hd (tr_tokens t))) (t1_ms (last (tr_tokens t))) (tr_text t)]
      else [])"

definition response_words :: "transcript \<Rightarrow> json list" where
  "response_words t = (if tr_words t \<noteq> [] then map word_json (tr_words t) else map word_json (tr_tokens t))"

definition format_response :: "transcript \<Rightarrow> plan \<Rightarrow> nat \<Rightarrow> diagnostics_extra \<Rightarrow> formatted" where
  "format_response t p samples x =
     (let diagnostics = diagnostics_json x in
      case pl_response_format p of
        FmtJson \<Rightarrow> Json (JObj [(''text'', JStr (tr_text t)), (''x_diagnostics'', diagnostics)])
      | FmtText \<Rightarrow> PlainText (tr_text t)
      | FmtVerboseJson \<Rightarrow>
          let language = or_else (dx_applied_language x) (tr_language t);
              body = JObj
                [(''task'', JStr (case pl_task p of Transcribe \<Rightarrow> ''transcribe'' | Translate \<Rightarrow> ''translate'')),
                 (''duration'', JFloat (f64_div (of_nat samples) 16000)),
                 (''text'', JStr (tr_text t)),
                 (''segments'', JArr (response_segments t p)),
                 (''x_diagnostics'', diagnostics)];
              body = set_opt ''language'' language body
          in Json (if pl_timestamps p = TsWord then jset ''words'' (JArr (response_words t)) body else body))"

subsection \<open>Properties\<close>

definition is_obj :: "json \<Rightarrow> bool" where "is_obj v \<longleftrightarrow> (\<exists>kvs. v = JObj kvs)"

lemma is_obj_simps:
  "is_obj (JObj kvs)" "is_obj v \<Longrightarrow> is_obj (jset k x v)" "is_obj v \<Longrightarrow> is_obj (set_opt k y v)"
  "is_obj v \<Longrightarrow> is_obj (if b then jset k x v else v)" "is_obj v \<Longrightarrow> is_obj (case z of None \<Rightarrow> v | Some a \<Rightarrow> jset k (f a) v)"
  by (auto simp: is_obj_def set_opt_def split: option.splits)

lemma jget_obj:
  "is_obj v \<Longrightarrow> jget k (jset k' x v) = (if k = k' then Some x else jget k v)"
  "is_obj v \<Longrightarrow> jget k (set_opt k' y v) = (if k = k' then or_else (map_option JStr y) (jget k v) else jget k v)"
  "is_obj v \<Longrightarrow> jget k (if b then jset k' x v else v) = (if k = k' \<and> b then Some x else jget k v)"
  "is_obj v \<Longrightarrow> jget k (case z of None \<Rightarrow> v | Some a \<Rightarrow> jset k' (f a) v) =
     (if k = k' then or_else (map_option f z) (jget k v) else jget k v)"
  by (auto simp: is_obj_def set_opt_def split: option.splits)

lemma diagnostics_obj: "\<exists>kvs. diagnostics_json x = JObj kvs"
  unfolding is_obj_def [symmetric] diagnostics_json_def Let_def by (intro is_obj_simps)

lemma or_else_end: "or_else x None = x"
  by (cases x) simp_all

lemma diagnostics_get [json_simps]:
  "jget ''language_hint_applied'' (diagnostics_json x) = map_option JBool (dx_language_hint_applied x)"
  "jget ''applied_language'' (diagnostics_json x) = map_option JStr (dx_applied_language x)"
  "jget ''target_language'' (diagnostics_json x) = map_option JStr (dx_target_language x)"
  "jget ''truncated'' (diagnostics_json x) = (if dx_truncated x then Some (JBool True) else None)"
  "jget ''timestamps_unavailable'' (diagnostics_json x)
     = (if dx_timestamps_unavailable x then Some (JBool True) else None)"
  "jget ''model'' (diagnostics_json x) = Some (JStr (dx_model x))"
  unfolding diagnostics_json_def Let_def by (simp_all add: jget_obj is_obj_simps or_else_end del: jset.simps jget.simps(1)) (simp_all add: or_else_end)

lemma verbose_body:
  assumes "pl_response_format p = FmtVerboseJson"
  obtains v where "format_response t p n x = Json v"
    "jget ''text'' v = Some (JStr (tr_text t))"
    "jget ''segments'' v = Some (JArr (response_segments t p))"
    "jget ''words'' v = (if pl_timestamps p = TsWord then Some (JArr (response_words t)) else None)"
    "jget ''x_diagnostics'' v = Some (diagnostics_json x)"
    "jget ''language'' v = map_option JStr (or_else (dx_applied_language x) (tr_language t))"
  using assms by (simp add: format_response_def Let_def set_opt_def split: option.splits if_splits)

lemma response_segments_length:
  "length (response_segments t p) =
     (if tr_segments t \<noteq> [] then length (tr_segments t)
      else if pl_timestamps p \<noteq> TsNone \<and> tr_tokens t \<noteq> [] then 1 else 0)"
  by (simp add: response_segments_def)

lemma response_segments_id:
  "i < length (response_segments t p) \<Longrightarrow> jget ''id'' (response_segments t p ! i) = Some (jnat i)"
  by (auto simp: response_segments_def segment_json_def nth_enumerate_eq split: if_splits)

text \<open>
  The verbose body: the segment ids count from 0, there is one segment per engine segment, and
  when the engine timed only tokens a planned timestamp run still reports one segment; words appear
  exactly when word timestamps were planned, one per engine word or else one per token.
\<close>

theorem verbose_segments_and_words:
  assumes "pl_response_format p = FmtVerboseJson"
  shows "\<exists>v segs. format_response t p n x = Json v \<and> jget ''segments'' v = Some (JArr segs)
    \<and> (\<forall>i < length segs. jget ''id'' (segs ! i) = Some (jnat i))
    \<and> length segs = (if tr_segments t \<noteq> [] then length (tr_segments t)
                      else if pl_timestamps p \<noteq> TsNone \<and> tr_tokens t \<noteq> [] then 1 else 0)
    \<and> (jget ''words'' v \<noteq> None \<longleftrightarrow> pl_timestamps p = TsWord)
    \<and> (\<forall>ws. jget ''words'' v = Some (JArr ws) \<longrightarrow>
          length ws = (if tr_words t \<noteq> [] then length (tr_words t) else length (tr_tokens t)))"
proof -
  from assms obtain v where v: "format_response t p n x = Json v"
    "jget ''segments'' v = Some (JArr (response_segments t p))"
    "jget ''words'' v = (if pl_timestamps p = TsWord then Some (JArr (response_words t)) else None)"
    by (rule verbose_body)
  then show ?thesis
    by (intro exI [of _ v] exI [of _ "response_segments t p"])
       (simp add: response_segments_length response_segments_id response_words_def)
qed

definition sample_extra :: diagnostics_extra where
  "sample_extra = \<lparr>dx_queue_wait_ms = 1, dx_inference_ms = 2, dx_audio_ms = 3, dx_model = ''m'', dx_backend = ''cpu'',
     dx_fallback_reason = None, dx_mel_ms = 1, dx_encode_ms = 2, dx_decode_ms = 3, dx_truncated = False,
     dx_prompt_applied = True, dx_language_hint_applied = Some True, dx_applied_language = Some ''de'',
     dx_language_evidence = UserSelected, dx_timestamps_unavailable = False, dx_target_language = Some ''en''\<rparr>"

definition token_transcript :: transcript where
  "token_transcript = \<lparr>tr_text = ''a b'', tr_language = None, tr_segments = [], tr_words = [],
     tr_tokens = [\<lparr>t0_ms = 0, t1_ms = 500, tt_text = ''a''\<rparr>, \<lparr>t0_ms = 500, t1_ms = 1500, tt_text = ''b''\<rparr>]\<rparr>"

theorem verbose_segments_and_words_witness:
  "\<exists>v segs. format_response token_transcript sample_plan 24000 sample_extra = Json v
     \<and> jget ''segments'' v = Some (JArr segs) \<and> length segs = 1 \<and> jget ''words'' v = None"
proof -
  have f: "pl_response_format sample_plan = FmtVerboseJson" by (simp add: sample_plan_def)
  from verbose_segments_and_words [OF f, of token_transcript 24000 sample_extra]
  show ?thesis by (auto simp: token_transcript_def sample_plan_def)
qed

text \<open>
  The evidence reported for the language of any planned run: it names the user exactly when
  the plan applied the user's hint; and no plan, not even one that translates, reports
  \<open>translated_to_english\<close>.
\<close>

theorem evidence_of_planned_run:
  assumes "make_plan rq c ep tok = Inr p"
  shows "(resolve_evidence (pl_language_evidence_hint p) detected = UserSelected \<longleftrightarrow> pl_language_hint_applied p)
    \<and> resolve_evidence (pl_language_evidence_hint p) detected \<noteq> TranslatedToEnglish
    \<and> (resolve_evidence (pl_language_evidence_hint p) detected \<in> {ModelDetected, EvidenceUnknown}
        \<longleftrightarrow> pl_language p = None)"
proof -
  note mp = make_plan_Inr [OF assms]
  show ?thesis
    unfolding mp(6) mp(8) mp(10)
    by (auto simp: resolve_language_def resolve_evidence_def Let_def split: option.splits if_splits)
qed

theorem evidence_of_planned_run_witness:
  "pl_task sample_plan = Translate
   \<and> resolve_evidence (pl_language_evidence_hint sample_plan) True = UserSelected
   \<and> resolve_evidence (pl_language_evidence_hint sample_plan) True \<noteq> TranslatedToEnglish"
  using evidence_of_planned_run [OF sample_plan_ok, of True] by (simp add: sample_plan_def)

text \<open>
  The diagnostics report a fact exactly when there is one: whether the language hint was
  applied only if a hint was sent, the translation target only if the run translated, the
  truncation and the missing timestamps only when they happened; and the plain formats carry the
  transcript's text unchanged.
\<close>

theorem diagnostics_keys_exact:
  "(jget ''language_hint_applied'' (diagnostics_json x) = map_option JBool (dx_language_hint_applied x))
   \<and> (jget ''target_language'' (diagnostics_json x) = map_option JStr (dx_target_language x))
   \<and> (jget ''truncated'' (diagnostics_json x) = Some (JBool True) \<longleftrightarrow> dx_truncated x)
   \<and> (jget ''timestamps_unavailable'' (diagnostics_json x) = Some (JBool True) \<longleftrightarrow> dx_timestamps_unavailable x)
   \<and> format_response t (p\<lparr>pl_response_format := FmtText\<rparr>) n x = PlainText (tr_text t)
   \<and> format_response t (p\<lparr>pl_response_format := FmtJson\<rparr>) n x
       = Json (JObj [(''text'', JStr (tr_text t)), (''x_diagnostics'', diagnostics_json x)])"
  by (simp add: diagnostics_get format_response_def)

end
