(* ===== verification/Network.thy ===== *)
theory Network
  imports Auth Store "HOL-Library.Code_Target_Nat"
begin

text \<open>
  \<open>src/network.rs\<close> and the network part of \<open>src/api.rs\<close>: IP addresses as the standard library parses
  them, the network modes and the live report, the two detectors over the output of the commands they
  run, the gate in front of every route, the shutdown route, and the address a server binds.
\<close>

subsection \<open>Addresses\<close>

datatype ip_addr = V4 byte byte byte byte | V6 "nat list"

text \<open>
  The reader of \<open>std::net\<close>: at most \<open>digits\<close> digits of a number below the bound, and, if leading
  zeros are not allowed, no zero before another digit.
\<close>

definition hex_value :: "char \<Rightarrow> nat option" where
  "hex_value c =
     (let n = of_char c :: nat in
      if 48 \<le> n \<and> n \<le> 57 then Some (n - 48)
      else if 97 \<le> n \<and> n \<le> 102 then Some (n - 87)
      else if 65 \<le> n \<and> n \<le> 70 then Some (n - 55) else None)"

fun radix_value :: "nat \<Rightarrow> nat \<Rightarrow> string \<Rightarrow> nat" where
  "radix_value radix acc [] = acc"
| "radix_value radix acc (c # cs) = radix_value radix (radix * acc + unwrap_or 0 (hex_value c)) cs"

definition radix_digit :: "nat \<Rightarrow> char \<Rightarrow> bool" where
  "radix_digit radix c \<longleftrightarrow> (case hex_value c of None \<Rightarrow> False | Some v \<Rightarrow> v < radix)"

definition read_number :: "nat \<Rightarrow> nat \<Rightarrow> nat \<Rightarrow> bool \<Rightarrow> string \<Rightarrow> (nat \<times> string) option" where
  "read_number radix digits bound zero_prefix s =
     (let d = takeWhile (radix_digit radix) s; v = radix_value radix 0 d in
      if d = [] \<or> length d > digits \<or> v > bound \<or> (\<not> zero_prefix \<and> hd d = CHR ''0'' \<and> length d > 1)
      then None else Some (v, drop (length d) s))"

fun read_char :: "char \<Rightarrow> string \<Rightarrow> string option" where
  "read_char c [] = None"
| "read_char c (x # xs) = (if x = c then Some xs else None)"

definition read_octet :: "string \<Rightarrow> (nat \<times> string) option" where
  "read_octet = read_number 10 3 255 False"

definition read_dotted :: "string \<Rightarrow> (nat \<times> string) option" where
  "read_dotted s = Option.bind (read_char (CHR ''.'') s) read_octet"

definition read_ipv4 :: "string \<Rightarrow> (ip_addr \<times> string) option" where
  "read_ipv4 s =
     Option.bind (read_octet s) (\<lambda>(a, s).
     Option.bind (read_dotted s) (\<lambda>(b, s).
     Option.bind (read_dotted s) (\<lambda>(c, s).
     Option.bind (read_dotted s) (\<lambda>(d, s).
       Some (V4 (of_nat a) (of_nat b) (of_nat c) (of_nat d), s)))))"

text \<open>
  The groups of an IPv6 address: up to \<open>limit\<close> of them, separated by colons, an embedded IPv4 address
  standing for the last two; the flag tells that one was read.
\<close>

definition group_separator :: "bool \<Rightarrow> string \<Rightarrow> string option" where
  "group_separator first s = (if first then Some s else read_char (CHR '':'') s)"

fun read_groups :: "nat \<Rightarrow> bool \<Rightarrow> string \<Rightarrow> nat list \<times> bool \<times> string" where
  "read_groups 0 first s = ([], False, s)"
| "read_groups (Suc n) first s =
     (case (if n > 0 then Option.bind (group_separator first s) read_ipv4 else None) of
        Some (V4 a b c d, rest) \<Rightarrow> ([unat a * 256 + unat b, unat c * 256 + unat d], True, rest)
      | _ \<Rightarrow>
          (case Option.bind (group_separator first s) (read_number 16 4 65535 True) of
             None \<Rightarrow> ([], False, s)
           | Some (g, rest) \<Rightarrow>
               (case read_groups n False rest of (gs, v4, rest') \<Rightarrow> (g # gs, v4, rest'))))"

definition read_ipv6 :: "string \<Rightarrow> (ip_addr \<times> string) option" where
  "read_ipv6 s =
     (case read_groups 8 True s of (head, head_v4, rest) \<Rightarrow>
        if length head = 8 then Some (V6 head, rest)
        else if head_v4 then None
        else Option.bind (read_char (CHR '':'') rest) (\<lambda>rest.
             Option.bind (read_char (CHR '':'') rest) (\<lambda>rest.
             (case read_groups (8 - (length head + 1)) True rest of (tail, _, rest) \<Rightarrow>
                Some (V6 (head @ replicate (8 - length head - length tail) 0 @ tail), rest)))))"

definition whole :: "('a \<times> string) option \<Rightarrow> 'a option" where
  "whole r = (case r of Some (x, []) \<Rightarrow> Some x | _ \<Rightarrow> None)"

definition parse_ipv4 :: "string \<Rightarrow> ip_addr option" where
  "parse_ipv4 s = (if length s > 15 then None else whole (read_ipv4 s))"

definition parse_ip_addr :: "string \<Rightarrow> ip_addr option" where
  "parse_ip_addr s = whole (or_else (read_ipv4 s) (read_ipv6 s))"

fun is_loopback :: "ip_addr \<Rightarrow> bool" where
  "is_loopback (V4 a b c d) \<longleftrightarrow> a = 127"
| "is_loopback (V6 gs) \<longleftrightarrow> gs = [0, 0, 0, 0, 0, 0, 0, 1]"

text \<open>\<open>SocketAddr\<close>: an IPv4 address, or an IPv6 address in brackets with an optional scope, and a port.\<close>

definition read_port :: "string \<Rightarrow> (nat \<times> string) option" where
  "read_port s = Option.bind (read_char (CHR '':'') s) (read_number 10 (length s) 65535 True)"

definition read_scope :: "string \<Rightarrow> string" where
  "read_scope s =
     (case Option.bind (read_char (CHR ''%'') s) (read_number 10 (length s) (2 ^ 32 - 1) True) of
        None \<Rightarrow> s | Some (_, rest) \<Rightarrow> rest)"

definition read_socket_v4 :: "string \<Rightarrow> ((ip_addr \<times> nat) \<times> string) option" where
  "read_socket_v4 s =
     Option.bind (read_ipv4 s) (\<lambda>(ip, s). Option.bind (read_port s) (\<lambda>(port, s). Some ((ip, port), s)))"

definition read_socket_v6 :: "string \<Rightarrow> ((ip_addr \<times> nat) \<times> string) option" where
  "read_socket_v6 s =
     Option.bind (read_char (CHR ''['') s) (\<lambda>s.
     Option.bind (read_ipv6 s) (\<lambda>(ip, s).
     Option.bind (read_char (CHR '']'') (read_scope s)) (\<lambda>s.
     Option.bind (read_port s) (\<lambda>(port, s). Some ((ip, port), s)))))"

definition parse_socket_addr :: "string \<Rightarrow> (ip_addr \<times> nat) option" where
  "parse_socket_addr s = whole (or_else (read_socket_v4 s) (read_socket_v6 s))"

definition validate_bind_host :: "string \<Rightarrow> bool" where
  "validate_bind_host host \<longleftrightarrow> parse_ip_addr host \<noteq> None"

definition is_loopback_host :: "string \<Rightarrow> bool" where
  "is_loopback_host host = (case parse_ip_addr host of None \<Rightarrow> False | Some ip \<Rightarrow> is_loopback ip)"

subsection \<open>Modes and reports\<close>

datatype network_mode = Local | Lan | Tailscale

definition network_mode_parse :: "string \<Rightarrow> network_mode option" where
  "network_mode_parse s =
     (if s = ''local'' then Some Local else if s = ''lan'' then Some Lan
      else if s = ''tailscale'' then Some Tailscale else None)"

fun network_mode_str :: "network_mode \<Rightarrow> string" where
  "network_mode_str Local = ''local''"
| "network_mode_str Lan = ''lan''"
| "network_mode_str Tailscale = ''tailscale''"

lemma network_mode_parse_str [simp]: "network_mode_parse (network_mode_str m) = Some m"
  by (cases m) (simp_all add: network_mode_parse_def)

definition resolve_mode :: "network_mode option \<Rightarrow> network_mode option \<Rightarrow> network_mode" where
  "resolve_mode cli stored = unwrap_or Local (or_else cli stored)"

record network_report =
  nr_mode :: string
  nr_effective :: string
  nr_reason :: "string option"
  nr_addresses :: "string list"

definition report_custom :: "string \<Rightarrow> network_report" where
  "report_custom host =
     \<lparr>nr_mode = ''custom'', nr_effective = ''custom'', nr_reason = None,
      nr_addresses = (if is_loopback_host host then [] else [host])\<rparr>"

definition report_local :: "network_mode \<Rightarrow> network_report" where
  "report_local m = \<lparr>nr_mode = network_mode_str m, nr_effective = ''local'', nr_reason = None, nr_addresses = []\<rparr>"

definition report_local_fallback :: "network_mode \<Rightarrow> string \<Rightarrow> network_report" where
  "report_local_fallback m reason =
     \<lparr>nr_mode = network_mode_str m, nr_effective = ''local'', nr_reason = Some reason, nr_addresses = []\<rparr>"

definition report_lan :: "string list \<Rightarrow> network_report" where
  "report_lan addresses = \<lparr>nr_mode = ''lan'', nr_effective = ''lan'', nr_reason = None, nr_addresses = addresses\<rparr>"

fun ipv4_to_string :: "ip_addr \<Rightarrow> string" where
  "ipv4_to_string (V4 a b c d) =
     decimal (unat a) @ ''.'' @ decimal (unat b) @ ''.'' @ decimal (unat c) @ ''.'' @ decimal (unat d)"
| "ipv4_to_string (V6 gs) = []"

definition report_tailscale :: "ip_addr \<Rightarrow> network_report" where
  "report_tailscale ip =
     \<lparr>nr_mode = ''tailscale'', nr_effective = ''tailscale'', nr_reason = None, nr_addresses = [ipv4_to_string ip]\<rparr>"

definition report_to_json :: "network_report \<Rightarrow> json" where
  "report_to_json r =
     JObj ([(''mode'', JStr (nr_mode r)), (''effective'', JStr (nr_effective r))]
       @ (case nr_reason r of None \<Rightarrow> [] | Some reason \<Rightarrow> [(''reason'', JStr reason)])
       @ (if nr_addresses r \<noteq> [] then [(''addresses'', JArr (map JStr (nr_addresses r)))] else []))"

fun is_tailscale_cgnat_ip :: "ip_addr \<Rightarrow> bool" where
  "is_tailscale_cgnat_ip (V4 a b c d) \<longleftrightarrow> a = 100 \<and> Bit_Operations.and b 0xC0 = 0x40"
| "is_tailscale_cgnat_ip (V6 gs) \<longleftrightarrow> False"

definition peer_allowed_non_loopback :: "network_mode \<Rightarrow> bool \<Rightarrow> network_report \<Rightarrow> ip_addr \<Rightarrow> bool" where
  "peer_allowed_non_loopback mode custom report peer =
     (if custom then True
      else case mode of
        Local \<Rightarrow> False
      | Lan \<Rightarrow> nr_effective report = ''lan''
      | Tailscale \<Rightarrow> nr_effective report = ''tailscale'' \<and> is_tailscale_cgnat_ip peer)"

subsection \<open>Detection\<close>

text \<open>\<open>str::lines\<close>.\<close>

definition strip_cr :: "string \<Rightarrow> string" where
  "strip_cr s = (if s \<noteq> [] \<and> last s = CHR 0x0D then butlast s else s)"

definition text_lines :: "string \<Rightarrow> string list" where
  "text_lines s =
     (let ps = split_on (\<lambda>c. c = CHR 0x0A) s in
      map strip_cr (butlast ps) @ (if last ps = [] then [] else [last ps]))"

datatype network_category = Public | Private | DomainAuthenticated

definition category_parse :: "string \<Rightarrow> network_category option" where
  "category_parse token =
     (let t = trim token in
      if t = ''Public'' then Some Public else if t = ''Private'' then Some Private
      else if t = ''DomainAuthenticated'' then Some DomainAuthenticated else None)"

fun is_private_enough :: "network_category \<Rightarrow> bool" where
  "is_private_enough Public = False"
| "is_private_enough Private = True"
| "is_private_enough DomainAuthenticated = True"

definition parse_profile_categories :: "string \<Rightarrow> network_category list" where
  "parse_profile_categories output = List.map_filter category_parse (text_lines output)"

definition all_profiles_private :: "network_category list \<Rightarrow> bool" where
  "all_profiles_private cs \<longleftrightarrow> cs \<noteq> [] \<and> list_all is_private_enough cs"

definition parse_tailscale_ip_output :: "string \<Rightarrow> ip_addr option" where
  "parse_tailscale_ip_output output =
     List.find is_tailscale_cgnat_ip (List.map_filter (\<lambda>line. parse_ipv4 (trim line)) (text_lines output))"

text \<open>
  The commands: a run times out, cannot be started or waited for, or ends with an exit status and its
  output (decoded with replacement characters).
\<close>

datatype command_run = Ran bool string | Timed_out | Not_run

datatype detect_error = Detect_timeout | Detect_failed

definition query_network_profile_categories :: "command_run \<Rightarrow> detect_error + network_category list" where
  "query_network_profile_categories r =
     (case r of Timed_out \<Rightarrow> Inl Detect_timeout | Not_run \<Rightarrow> Inl Detect_failed
      | Ran ok out \<Rightarrow> if \<not> ok then Inl Detect_failed else Inr (parse_profile_categories out))"

definition detect_lan_private :: "command_run \<Rightarrow> bool" where
  "detect_lan_private r =
     (case query_network_profile_categories r of Inr cs \<Rightarrow> all_profiles_private cs | Inl _ \<Rightarrow> False)"

definition query_tailscale_ipv4 :: "command_run \<Rightarrow> detect_error + ip_addr" where
  "query_tailscale_ipv4 r =
     (case r of Timed_out \<Rightarrow> Inl Detect_timeout | Not_run \<Rightarrow> Inl Detect_failed
      | Ran ok out \<Rightarrow> if \<not> ok then Inl Detect_failed else ok_or Detect_failed (parse_tailscale_ip_output out))"

definition detect_tailscale_ipv4 :: "command_run \<Rightarrow> ip_addr option" where
  "detect_tailscale_ipv4 r = to_option (query_tailscale_ipv4 r)"

definition refresh_network_state :: "network_mode \<Rightarrow> command_run \<Rightarrow> network_report" where
  "refresh_network_state mode r =
     (case mode of
        Local \<Rightarrow> report_local mode
      | Lan \<Rightarrow> if detect_lan_private r then report_lan []
          else report_local_fallback mode ''no active network connection is Private or Domain -- staying local-only''
      | Tailscale \<Rightarrow>
          (case detect_tailscale_ipv4 r of
             Some ip \<Rightarrow> report_tailscale ip
           | None \<Rightarrow> report_local_fallback mode ''tailscale is not running or has no address -- staying local-only''))"

subsection \<open>The gate and the shutdown route\<close>

definition network_gate ::
    "network_mode \<Rightarrow> bool \<Rightarrow> network_report \<Rightarrow> ip_addr \<Rightarrow> string \<Rightarrow> api_error + unit" where
  "network_gate mode custom report peer path =
     (if path = ''/health'' \<or> is_loopback peer then Inr ()
      else if peer_allowed_non_loopback mode custom report peer then Inr ()
      else Inl (api_error_new 403 ''network_not_private''
        (''not reachable from another device right now (''
          @ unwrap_or ''network mode does not currently allow this'' (nr_reason report) @ '')'')))"

text \<open>The boolean is the shutdown channel: whether a sender is still there to be fired.\<close>

definition shutdown_endpoint ::
    "ip_addr \<Rightarrow> string option \<Rightarrow> string \<Rightarrow> string \<Rightarrow> bool \<Rightarrow> (api_error + json) \<times> bool" where
  "shutdown_endpoint peer header admin user armed =
     (if \<not> is_loopback peer then
        (Inl (api_error_new 403 ''loopback_only'' ''The shutdown endpoint only accepts loopback callers''), armed)
      else case authorized header admin user of
        Inl e \<Rightarrow> (Inl e, armed)
      | Inr _ \<Rightarrow> (Inr (JObj [(''stopping'', JBool True)]), False))"

subsection \<open>The address a server binds\<close>

datatype serve_error = AlreadyRunning | BindFailed | ServeOther string

definition default_bind_host :: string where "default_bind_host = ''127.0.0.1''"

definition forced_host :: "bool \<Rightarrow> network_mode \<Rightarrow> string \<Rightarrow> string" where
  "forced_host custom mode host =
     (if custom then host
      else case mode of Local \<Rightarrow> default_bind_host | Lan \<Rightarrow> ''0.0.0.0'' | Tailscale \<Rightarrow> ''0.0.0.0'')"

definition lan_guard :: "string \<Rightarrow> string \<Rightarrow> serve_error + unit" where
  "lan_guard host token =
     (if \<not> is_loopback_host host \<and> token = []
      then Inl (ServeOther ''refusing to bind a non-loopback address without a usable auth token'') else Inr ())"

definition bind_address :: "string \<Rightarrow> nat \<Rightarrow> serve_error + ip_addr \<times> nat" where
  "bind_address host port =
     ok_or (ServeOther ''invalid socket address syntax'') (parse_socket_addr (host @ '':'' @ decimal port))"

text \<open>
  Binding: \<open>bind\<close> is the operating system's answer for an address, the bound port or a failure, which
  may be that the address is in use. Port 0 asks for any free port.
\<close>

datatype bind_answer = Bound nat | Address_in_use | Bind_error

definition bind_listener ::
    "(ip_addr \<times> nat \<Rightarrow> bind_answer) \<Rightarrow> bool \<Rightarrow> bool \<Rightarrow> string \<Rightarrow> nat \<Rightarrow> serve_error + nat" where
  "bind_listener bind per_user explicit_port host port =
     and_then (bind_address host port) (\<lambda>preferred.
       case bind preferred of
         Bound p \<Rightarrow> Inr port
       | Bind_error \<Rightarrow> Inl BindFailed
       | Address_in_use \<Rightarrow>
           if per_user \<and> \<not> explicit_port then
             and_then (bind_address host 0) (\<lambda>fallback.
               case bind fallback of Bound actual \<Rightarrow> Inr actual | _ \<Rightarrow> Inl BindFailed)
           else Inl BindFailed)"


subsection \<open>Who gets through, and which hosts can be served\<close>

lemma find_ex: "List.find P xs \<noteq> None \<longleftrightarrow> (\<exists>x \<in> set xs. P x)"
  by (induction xs) auto

lemma set_map_filter_ex: "y \<in> set (List.map_filter f xs) \<longleftrightarrow> (\<exists>x \<in> set xs. f x = Some y)"
  unfolding List.map_filter_def by (auto intro: rev_image_eqI)

lemma all_profiles_private_iff: "all_profiles_private cs \<longleftrightarrow> cs \<noteq> [] \<and> Public \<notin> set cs"
proof -
  have "is_private_enough c \<longleftrightarrow> c \<noteq> Public" for c by (cases c) simp_all
  then show ?thesis by (auto simp: all_profiles_private_def list_all_iff)
qed

lemma tailscale_up:
  "(\<exists>ip. parse_tailscale_ip_output out = Some ip) \<longleftrightarrow>
     (\<exists>line \<in> set (text_lines out). \<exists>ip. parse_ipv4 (trim line) = Some ip \<and> is_tailscale_cgnat_ip ip)"
  using find_ex [of is_tailscale_cgnat_ip "List.map_filter (\<lambda>line. parse_ipv4 (trim line)) (text_lines out)"]
  unfolding parse_tailscale_ip_output_def by (simp add: Bex_def set_map_filter_ex) blast

lemma lan_detected: "detect_lan_private r \<longleftrightarrow> (\<exists>out. r = Ran True out \<and> all_profiles_private (parse_profile_categories out))"
  by (auto simp: detect_lan_private_def query_network_profile_categories_def split: command_run.splits sum.splits)

lemma tailscale_detected:
  "detect_tailscale_ipv4 r \<noteq> None \<longleftrightarrow> (\<exists>out ip. r = Ran True out \<and> parse_tailscale_ip_output out = Some ip)"
proof (cases r)
  case (Ran ok out)
  then show ?thesis
    by (cases "parse_tailscale_ip_output out") (simp_all add: detect_tailscale_ipv4_def query_tailscale_ipv4_def)
qed (simp_all add: detect_tailscale_ipv4_def query_tailscale_ipv4_def)

lemma network_gate_passes:
  "network_gate mode custom (refresh_network_state mode r) peer path = Inr () \<longleftrightarrow>
     path = ''/health'' \<or> is_loopback peer \<or> custom
     \<or> mode = Lan \<and> (\<exists>out. r = Ran True out \<and> parse_profile_categories out \<noteq> []
          \<and> Public \<notin> set (parse_profile_categories out))
     \<or> mode = Tailscale \<and> is_tailscale_cgnat_ip peer
        \<and> (\<exists>out. r = Ran True out \<and> (\<exists>line \<in> set (text_lines out). \<exists>ip. parse_ipv4 (trim line) = Some ip \<and> is_tailscale_cgnat_ip ip))"
proof (cases "path = ''/health'' \<or> is_loopback peer \<or> custom")
  case True
  then show ?thesis by (auto simp: network_gate_def peer_allowed_non_loopback_def)
next
  case False
  show ?thesis
  proof (cases mode)
    case Local
    with False show ?thesis by (simp add: network_gate_def peer_allowed_non_loopback_def)
  next
    case Lan
    have "nr_effective (refresh_network_state Lan r) = ''lan'' \<longleftrightarrow> detect_lan_private r"
      by (simp add: refresh_network_state_def report_lan_def report_local_fallback_def)
    with False Lan show ?thesis
      by (auto simp: network_gate_def peer_allowed_non_loopback_def lan_detected all_profiles_private_iff)
  next
    case Tailscale
    have "nr_effective (refresh_network_state Tailscale r) = ''tailscale'' \<longleftrightarrow> detect_tailscale_ipv4 r \<noteq> None"
      by (simp add: refresh_network_state_def report_tailscale_def report_local_fallback_def split: option.split)
    with False Tailscale show ?thesis unfolding tailscale_detected
      using tailscale_up by (auto simp: network_gate_def peer_allowed_non_loopback_def)
  qed
qed

text \<open>
  C29. After a recheck, the gate lets a request through exactly if it asks for the health route, comes
  from the machine itself, the operator chose the host, or the mode allows it now: in LAN mode the
  command ran and reports at least one active profile and none that is public, in Tailscale mode the
  machine has an address of the Tailscale range and so has the caller, in local mode never. Every other
  request is refused with 403 and the report's reason.
\<close>
theorem network_gate_exact:
  "network_gate mode custom (refresh_network_state mode r) peer path =
    (if path = ''/health'' \<or> is_loopback peer \<or> custom
        \<or> mode = Lan \<and> (\<exists>out. r = Ran True out \<and> parse_profile_categories out \<noteq> []
             \<and> Public \<notin> set (parse_profile_categories out))
        \<or> mode = Tailscale \<and> is_tailscale_cgnat_ip peer
           \<and> (\<exists>out. r = Ran True out \<and> (\<exists>line \<in> set (text_lines out). \<exists>ip. parse_ipv4 (trim line) = Some ip \<and> is_tailscale_cgnat_ip ip))
     then Inr ()
     else Inl (api_error_new 403 ''network_not_private''
       (''not reachable from another device right now ('' @
         unwrap_or ''network mode does not currently allow this'' (nr_reason (refresh_network_state mode r)) @ '')'')))"
proof (cases "network_gate mode custom (refresh_network_state mode r) peer path")
  case (Inl e)
  then have "network_gate mode custom (refresh_network_state mode r) peer path \<noteq> Inr ()" by simp
  note refused = this [unfolded network_gate_passes]
  have "e = api_error_new 403 ''network_not_private''
       (''not reachable from another device right now ('' @
         unwrap_or ''network mode does not currently allow this'' (nr_reason (refresh_network_state mode r)) @ '')'')"
    using Inl by (simp add: network_gate_def split: if_splits)
  then show ?thesis unfolding Inl if_not_P [OF refused] by simp
next
  case (Inr u)
  then have "network_gate mode custom (refresh_network_state mode r) peer path = Inr ()" by simp
  note passed = this [unfolded network_gate_passes]
  show ?thesis unfolding Inr if_P [OF passed] by simp
qed

text \<open>What a reader consumes.\<close>

lemma read_char_Some [outcome_simps]: "read_char c s = Some r \<longleftrightarrow> s = c # r"
  by (cases s) auto

lemma read_number_consumes:
  assumes "read_number radix n bound z s = Some (v, r)" "radix \<le> 16"
  shows "\<exists>p. s = p @ r \<and> p \<noteq> [] \<and> CHR '':'' \<notin> set p \<and> CHR ''['' \<notin> set p"
proof -
  let ?d = "takeWhile (radix_digit radix) s"
  have "CHR '':'' \<notin> set ?d" "CHR ''['' \<notin> set ?d"
    by (auto dest!: set_takeWhileD simp: radix_digit_def hex_value_def)
  moreover have "s = ?d @ drop (length ?d) s"
    by (metis append_take_drop_id takeWhile_eq_take)
  ultimately show ?thesis using assms(1) by (auto simp: read_number_def Let_def split: if_splits)
qed

lemma read_ipv4_consumes:
  assumes "read_ipv4 s = Some (ip, r)"
  shows "\<exists>p. s = p @ r \<and> CHR '':'' \<notin> set p \<and> CHR ''['' \<notin> set p \<and> p \<noteq> []"
proof -
  have octet: "\<exists>p. s = p @ r \<and> p \<noteq> [] \<and> CHR '':'' \<notin> set p \<and> CHR ''['' \<notin> set p" if "read_octet s = Some (v, r)" for s v r
    using read_number_consumes [of 10 3 255 False s v r] that by (simp add: read_octet_def)
  have dotted: "\<exists>p. s = p @ r \<and> CHR '':'' \<notin> set p \<and> CHR ''['' \<notin> set p" if "read_dotted s = Some (v, r)" for s v r
  proof -
    from that obtain t where "s = CHR ''.'' # t" "read_octet t = Some (v, r)"
      by (auto simp: read_dotted_def outcome_simps bind_eq_Some_conv)
    with octet [of t v r] obtain p where "s = (CHR ''.'' # p) @ r" "CHR '':'' \<notin> set (CHR ''.'' # p)" "CHR ''['' \<notin> set (CHR ''.'' # p)"
      by auto
    then show ?thesis by blast
  qed
  from assms obtain a b c d s1 s2 s3 where "read_octet s = Some (a, s1)" "read_dotted s1 = Some (b, s2)"
    "read_dotted s2 = Some (c, s3)" "read_dotted s3 = Some (d, r)"
    by (auto simp: read_ipv4_def bind_eq_Some_conv)
  with octet [of s a s1] dotted [of s1 b s2] dotted [of s2 c s3] dotted [of s3 d r]
  obtain p1 p2 p3 p4 where "s = p1 @ p2 @ p3 @ p4 @ r" "p1 \<noteq> []"
    "CHR '':'' \<notin> set (p1 @ p2 @ p3 @ p4)" "CHR ''['' \<notin> set (p1 @ p2 @ p3 @ p4)" by auto
  then show ?thesis by (intro exI [of _ "p1 @ p2 @ p3 @ p4"]) auto
qed

lemma read_socket_v4_colons:
  assumes "read_socket_v4 s = Some (x, r)"
  shows "\<exists>p q. s = p @ CHR '':'' # q @ r \<and> CHR '':'' \<notin> set p \<and> CHR '':'' \<notin> set q"
proof -
  from assms obtain ip t port where "read_ipv4 s = Some (ip, t)" "read_port t = Some (port, r)"
    by (auto simp: read_socket_v4_def bind_eq_Some_conv)
  moreover from this(2) obtain u where "t = CHR '':'' # u" "read_number 10 (length t) 65535 True u = Some (port, r)"
    by (auto simp: read_port_def outcome_simps bind_eq_Some_conv)
  ultimately obtain p q where "s = p @ t" "CHR '':'' \<notin> set p" "t = CHR '':'' # u" "u = q @ r" "CHR '':'' \<notin> set q"
    using read_ipv4_consumes [of s ip t] read_number_consumes [of 10 "length t" 65535 True u port r] by auto
  then show ?thesis by blast
qed

lemma later_group_colon:
  assumes "read_groups n False s = (g # gs, v, r)"
  shows "CHR '':'' \<in> set s"
proof (cases "read_char (CHR '':'') s")
  case None
  with assms show ?thesis by (cases n) (simp_all add: group_separator_def split: if_splits)
qed (auto simp: outcome_simps)

lemma no_groups:
  assumes "read_groups n first s = ([], v, r)"
  shows "r = s"
proof (cases n)
  case (Suc m)
  let ?v4 = "if m > 0 then Option.bind (group_separator first s) read_ipv4 else None"
  show ?thesis
  proof (cases ?v4)
    case None
    with assms Suc show ?thesis by (auto split: option.splits prod.splits)
  next
    case (Some it)
    then obtain a b c d t where "?v4 = Some (V4 a b c d, t)"
      by (auto simp: read_ipv4_def bind_eq_Some_conv split: if_splits)
    with assms Suc show ?thesis by simp
  qed
qed (use assms in simp)

lemma first_group:
  assumes "read_groups (Suc n) True s = (gs, v, r)" "n > 0"
  shows "(v \<and> length gs = 2) \<or> (gs = [] \<and> \<not> v \<and> r = s)
    \<or> (\<exists>t g gs'. gs = g # gs' \<and> read_groups n False t = (gs', v, r) \<and> (\<exists>p. s = p @ t \<and> p \<noteq> [] \<and> CHR ''['' \<notin> set p))"
proof (cases "read_ipv4 s")
  case None
  show ?thesis
  proof (cases "read_number 16 4 65535 True s")
    case None
    with \<open>read_ipv4 s = None\<close> assms show ?thesis by (simp add: group_separator_def)
  next
    case (Some gt)
    obtain g t where gt: "gt = (g, t)" by (cases gt)
    have "\<exists>p. s = p @ t \<and> p \<noteq> [] \<and> CHR ''['' \<notin> set p"
      using read_number_consumes [of 16 4 65535 True s g t] Some gt by auto
    with None Some gt assms show ?thesis
      by (auto simp: group_separator_def split: prod.splits)
  qed
next
  case (Some it)
  obtain ip t where it: "it = (ip, t)" by (cases it)
  from Some it obtain a b c d where "ip = V4 a b c d"
    by (auto simp: read_ipv4_def bind_eq_Some_conv)
  with Some it assms show ?thesis by (auto simp: group_separator_def)
qed

lemma read_ipv6_shape:
  assumes "read_ipv6 s = Some (ip, r)"
  shows "CHR '':'' \<in> set s \<and> hd s \<noteq> CHR ''[''"
proof -
  obtain gs v t where g: "read_groups 8 True s = (gs, v, t)" by (cases "read_groups 8 True s") auto
  have 8: "(8 :: nat) = Suc 7" by simp
  from first_group [of 7 s gs v t] g
  consider "v" "length gs = 2" | "gs = []" "\<not> v" "t = s"
    | p u g' gs' where "gs = g' # gs'" "read_groups 7 False u = (gs', v, t)" "s = p @ u" "p \<noteq> []" "CHR ''['' \<notin> set p"
    unfolding 8 by auto
  then show ?thesis
  proof cases
    case 1
    with assms g show ?thesis by (simp add: read_ipv6_def)
  next
    case 2
    with assms g obtain s' where "s = CHR '':'' # s'" by (auto simp: read_ipv6_def outcome_simps bind_eq_Some_conv)
    then show ?thesis by simp
  next
    case 3
    then have hd: "hd s \<noteq> CHR ''[''" by (cases p) auto
    show ?thesis
    proof (cases gs')
      case Nil
      with 3 have "t = u" using no_groups [of 7 False u v t] by simp
      with 3 Nil assms g have "read_char (CHR '':'') u \<noteq> None"
        by (cases "read_char (CHR '':'') u") (simp_all add: read_ipv6_def split: if_splits)
      with 3 hd show ?thesis by (auto simp: outcome_simps)
    next
      case (Cons h hs)
      with 3 later_group_colon [of 7 u h hs v t] hd show ?thesis by auto
    qed
  qed
qed

lemma parse_ip_addr_V6:
  assumes "parse_ip_addr host = Some (V6 gs)"
  shows "CHR '':'' \<in> set host \<and> hd host \<noteq> CHR ''[''"
proof -
  have "read_ipv6 host = Some (V6 gs, [])"
    using assms by (auto simp: parse_ip_addr_def whole_def read_ipv4_def bind_eq_Some_conv
        split: option.splits list.splits elim!: or_else.elims)
  then show ?thesis by (rule read_ipv6_shape)
qed

text \<open>
  C34. A server whose bind host is an IPv6 address never starts: such a host passes the check of the
  configuration route, but the address is put together without brackets, so it does not parse as a
  socket address, whatever the port.
\<close>

theorem ipv6_bind_host_never_starts:
  assumes "parse_ip_addr host = Some (V6 gs)"
  shows "validate_bind_host host
    \<and> bind_listener bind per_user explicit_port (forced_host True mode host) port
        = Inl (ServeOther ''invalid socket address syntax'')"
proof -
  note host = parse_ip_addr_V6 [OF assms]
  let ?s = "host @ '':'' @ decimal port"
  have "read_socket_v6 ?s = None"
    using host by (cases host) (auto simp: read_socket_v6_def)
  moreover have "read_socket_v4 ?s \<noteq> Some (x, [])" for x
  proof
    assume "read_socket_v4 ?s = Some (x, [])"
    from read_socket_v4_colons [OF this] obtain p q
      where s: "host @ '':'' @ decimal port = p @ '':'' @ q" and "CHR '':'' \<notin> set p" "CHR '':'' \<notin> set q" by auto
    then have "length (filter ((=) (CHR '':'')) (p @ '':'' @ q)) = 1" by (auto simp: filter_empty_conv)
    moreover have "length (filter ((=) (CHR '':'')) (host @ '':'' @ decimal port)) \<ge> 2"
    proof -
      from host have "filter ((=) (CHR '':'')) host \<noteq> []" by (auto simp: filter_empty_conv)
      then have "length (filter ((=) (CHR '':'')) host) \<ge> 1" by (cases "filter ((=) (CHR '':'')) host") auto
      then show ?thesis by simp
    qed
    ultimately show False unfolding s by simp
  qed
  ultimately have "parse_socket_addr ?s = None"
    by (cases "read_socket_v4 ?s") (auto simp: parse_socket_addr_def whole_def split: list.splits)
  with assms show ?thesis by (simp add: validate_bind_host_def bind_listener_def bind_address_def forced_host_def)
qed

theorem ipv6_bind_host_never_starts_witness:
  "bind_listener (\<lambda>_. Bound 54321) True False (forced_host True Local ''::1'') 54321
     = Inl (ServeOther ''invalid socket address syntax'')"
proof -
  have "parse_ip_addr ''::1'' = Some (V6 [0, 0, 0, 0, 0, 0, 0, 1])" by code_simp
  from conjunct2 [OF ipv6_bind_host_never_starts [OF this]] show ?thesis .
qed


end
