(* ===== verification/Command_Line.thy ===== *)
theory Command_Line
  imports Network
begin

text \<open>
  \<open>src/cli.rs\<close>: the command line of the server executable. Every parser walks the argument list with one
  iterator; a flag with a value takes the next argument, whatever it looks like. A rejected line is a
  usage error with exit code 2.
\<close>

record run_flags =
  rf_port :: "nat option"
  rf_host :: "string option"
  rf_network :: "network_mode option"
  rf_data_dir :: "string option"
  rf_limits :: runtime_limits
  rf_cors_origins :: "string list"

definition no_limits :: runtime_limits where
  "no_limits = \<lparr>rl_queue_max_waiting = None, rl_queue_wait_timeout_ms = None, rl_inference_timeout_ms = None\<rparr>"

definition default_run_flags :: run_flags where
  "default_run_flags =
     \<lparr>rf_port = None, rf_host = None, rf_network = None, rf_data_dir = None, rf_limits = no_limits, rf_cors_origins = []\<rparr>"

definition option_argument :: "string \<Rightarrow> string option \<Rightarrow> string list" where
  "option_argument flag v = (case v of None \<Rightarrow> [] | Some x \<Rightarrow> [flag, x])"

definition run_flags_arguments :: "run_flags \<Rightarrow> string \<Rightarrow> string list" where
  "run_flags_arguments f dir =
     [''--data-dir'', dir]
     @ option_argument ''--port'' (map_option decimal (rf_port f))
     @ option_argument ''--host'' (rf_host f)
     @ option_argument ''--network'' (map_option network_mode_str (rf_network f))
     @ option_argument ''--queue-max-waiting'' (map_option decimal (rl_queue_max_waiting (rf_limits f)))
     @ option_argument ''--queue-wait-timeout-ms'' (map_option decimal (rl_queue_wait_timeout_ms (rf_limits f)))
     @ option_argument ''--inference-timeout-ms'' (map_option decimal (rl_inference_timeout_ms (rf_limits f)))
     @ concat (map (\<lambda>origin. [''--cors-origin'', origin]) (rf_cors_origins f))"

datatype service_action = Service_install | Service_uninstall | Service_run
datatype autostart_action = Autostart_enable | Autostart_disable | Autostart_status

datatype update_command =
    Update_check bool
  | Update_install bool bool "string option" nat

datatype models_command =
    Models_list bool "string option"
  | Models_recommended bool "string option"
  | Models_selected bool "string option"
  | Models_install string bool bool "string option"
  | Models_import string string "string option" bool bool "string option"
  | Models_verify string bool bool "string option"
  | Models_cancel string "string option"
  | Models_select string bool "string option"
  | Models_unload bool "string option"
  | Models_remove string bool "string option"
  | Models_refresh bool bool "string option"
  | Models_import_user "string option" bool bool "string option"

datatype cli_command =
    Cmd_run run_flags
  | Cmd_start run_flags
  | Cmd_stop "string option"
  | Cmd_restart run_flags
  | Cmd_status bool "string option"
  | Cmd_autostart autostart_action run_flags
  | Cmd_service service_action
  | Cmd_health bool "string option"
  | Cmd_models models_command
  | Cmd_update update_command
  | Cmd_help

record cli_error =
  ce_message :: string
  ce_exit_code :: int

definition usage :: "string \<Rightarrow> cli_error" where
  "usage m = \<lparr>ce_message = m, ce_exit_code = 2\<rparr>"

definition no_value :: "string \<Rightarrow> cli_error" where
  "no_value flag = usage (flag @ '' requires a value'')"

definition unknown_flag :: "string \<Rightarrow> cli_error" where
  "unknown_flag flag = usage (''unknown flag: '' @ flag)"

definition parse_positive_u64 :: "string \<Rightarrow> string \<Rightarrow> cli_error + nat" where
  "parse_positive_u64 flag v =
     (case parse_u64 v of
        Some n \<Rightarrow> if n > 0 then Inr n else Inl (usage (flag @ '' requires a positive integer, got '' @ quoted v))
      | None \<Rightarrow> Inl (usage (flag @ '' requires a positive integer, got '' @ quoted v)))"

definition parse_port :: "string \<Rightarrow> cli_error + nat" where
  "parse_port raw =
     (case parse_unsigned 65535 raw of
        Some p \<Rightarrow> if p \<noteq> 0 then Inr p else Inl (usage (''--port requires a 1-65535 integer, got '' @ quoted raw))
      | None \<Rightarrow> Inl (usage (''--port requires a 1-65535 integer, got '' @ quoted raw)))"

text \<open>What a flag with the value \<open>raw\<close> does to the run flags; \<open>None\<close> if there is no such flag.\<close>

definition set_run_flag :: "string \<Rightarrow> string \<Rightarrow> run_flags \<Rightarrow> (cli_error + run_flags) option" where
  "set_run_flag flag raw f =
     (if flag = ''--port'' then Some (map_sum id (\<lambda>p. f\<lparr>rf_port := Some p\<rparr>) (parse_port raw))
      else if flag = ''--host'' then Some (Inr (f\<lparr>rf_host := Some raw\<rparr>))
      else if flag = ''--network'' then
        Some (map_sum id (\<lambda>m. f\<lparr>rf_network := Some m\<rparr>)
          (ok_or (usage (''--network requires 'local', 'lan', or 'tailscale', got '' @ quoted raw)) (network_mode_parse raw)))
      else if flag = ''--data-dir'' then Some (Inr (f\<lparr>rf_data_dir := Some raw\<rparr>))
      else if flag = ''--queue-max-waiting'' then
        Some (map_sum id (\<lambda>n. f\<lparr>rf_limits := (rf_limits f)\<lparr>rl_queue_max_waiting := Some n\<rparr>\<rparr>) (parse_positive_u64 flag raw))
      else if flag = ''--queue-wait-timeout-ms'' then
        Some (map_sum id (\<lambda>n. f\<lparr>rf_limits := (rf_limits f)\<lparr>rl_queue_wait_timeout_ms := Some n\<rparr>\<rparr>) (parse_positive_u64 flag raw))
      else if flag = ''--inference-timeout-ms'' then
        Some (map_sum id (\<lambda>n. f\<lparr>rf_limits := (rf_limits f)\<lparr>rl_inference_timeout_ms := Some n\<rparr>\<rparr>) (parse_positive_u64 flag raw))
      else if flag = ''--cors-origin'' then
        Some (if \<not> is_valid_cors_origin raw
              then Inl (usage (''--cors-origin requires '*' or an http(s)://host[:port] origin, got '' @ quoted raw))
              else Inr (f\<lparr>rf_cors_origins := rf_cors_origins f @ [raw]\<rparr>))
      else None)"

definition is_run_flag :: "string \<Rightarrow> bool" where
  "is_run_flag flag \<longleftrightarrow>
     flag \<in> {''--port'', ''--host'', ''--network'', ''--data-dir'', ''--queue-max-waiting'', ''--queue-wait-timeout-ms'',
             ''--inference-timeout-ms'', ''--cors-origin''}"

fun run_flags_loop :: "run_flags \<Rightarrow> string list \<Rightarrow> cli_error + run_flags" where
  "run_flags_loop f [] = Inr f"
| "run_flags_loop f [flag] = (if is_run_flag flag then Inl (no_value flag) else Inl (unknown_flag flag))"
| "run_flags_loop f (flag # raw # rest) =
     (case set_run_flag flag raw f of
        None \<Rightarrow> Inl (unknown_flag flag)
      | Some (Inl e) \<Rightarrow> Inl e
      | Some (Inr f') \<Rightarrow> run_flags_loop f' rest)"

definition parse_run_flags :: "string list \<Rightarrow> cli_error + run_flags" where
  "parse_run_flags args = run_flags_loop default_run_flags args"

fun status_flags_loop :: "bool \<times> string option \<Rightarrow> string list \<Rightarrow> cli_error + bool \<times> string option" where
  "status_flags_loop st [] = Inr st"
| "status_flags_loop (js, dir) (flag # rest) =
     (if flag = ''--json'' then status_flags_loop (True, dir) rest
      else if flag = ''--data-dir'' then
        (case rest of [] \<Rightarrow> Inl (no_value flag) | v # rest' \<Rightarrow> status_flags_loop (js, Some v) rest')
      else Inl (unknown_flag flag))"

definition parse_status_flags :: "string list \<Rightarrow> cli_error + bool \<times> string option" where
  "parse_status_flags = status_flags_loop (False, None)"

fun data_dir_loop :: "string option \<Rightarrow> string list \<Rightarrow> cli_error + string option" where
  "data_dir_loop dir [] = Inr dir"
| "data_dir_loop dir (flag # rest) =
     (if flag = ''--data-dir'' then (case rest of [] \<Rightarrow> Inl (no_value flag) | v # rest' \<Rightarrow> data_dir_loop (Some v) rest')
      else Inl (unknown_flag flag))"

definition parse_data_dir_only :: "string list \<Rightarrow> cli_error + string option" where
  "parse_data_dir_only = data_dir_loop None"

fun json_wait_loop ::
    "bool \<times> bool \<times> string option \<Rightarrow> string list \<Rightarrow> cli_error + bool \<times> bool \<times> string option" where
  "json_wait_loop st [] = Inr st"
| "json_wait_loop (js, wait, dir) (flag # rest) =
     (if flag = ''--json'' then json_wait_loop (True, wait, dir) rest
      else if flag = ''--wait'' then json_wait_loop (js, True, dir) rest
      else if flag = ''--data-dir'' then
        (case rest of [] \<Rightarrow> Inl (no_value flag) | v # rest' \<Rightarrow> json_wait_loop (js, wait, Some v) rest')
      else Inl (unknown_flag flag))"

definition parse_json_wait_data_dir :: "string list \<Rightarrow> cli_error + bool \<times> bool \<times> string option" where
  "parse_json_wait_data_dir = json_wait_loop (False, False, None)"

text \<open>A required positional argument comes first and must not look like a flag.\<close>

fun positional :: "cli_error \<Rightarrow> string list \<Rightarrow> cli_error + string \<times> string list" where
  "positional e [] = Inl e"
| "positional e (v # rest) = (if strip_prefix ''--'' v \<noteq> None then Inl e else Inr (v, rest))"

definition parse_id_json_wait_data_dir ::
    "string list \<Rightarrow> string \<Rightarrow> cli_error + string \<times> bool \<times> bool \<times> string option" where
  "parse_id_json_wait_data_dir args command =
     and_then (positional (usage (command @ '' requires an <id>'')) args) (\<lambda>(i, rest).
     and_then (json_wait_loop (False, False, None) rest) (\<lambda>(js, wait, dir). Inr (i, js, wait, dir)))"

definition parse_id_json_data_dir :: "string list \<Rightarrow> string \<Rightarrow> cli_error + string \<times> bool \<times> string option" where
  "parse_id_json_data_dir args command =
     and_then (parse_id_json_wait_data_dir args command) (\<lambda>(i, js, wait, dir).
       if wait then Inl (usage (command @ '' does not accept --wait'')) else Inr (i, js, dir))"

definition parse_operation_id_data_dir :: "string list \<Rightarrow> cli_error + string \<times> string option" where
  "parse_operation_id_data_dir args =
     and_then (positional (usage ''models cancel requires an <operation_id>'') args) (\<lambda>(i, rest).
     and_then (data_dir_loop None rest) (\<lambda>dir. Inr (i, dir)))"

record import_flags =
  if_model :: "string option"
  if_quant :: "string option"
  if_json :: bool
  if_wait :: bool
  if_data_dir :: "string option"

fun import_loop :: "import_flags \<Rightarrow> string list \<Rightarrow> cli_error + import_flags" where
  "import_loop f [] = Inr f"
| "import_loop f (flag # rest) =
     (if flag = ''--json'' then import_loop (f\<lparr>if_json := True\<rparr>) rest
      else if flag = ''--wait'' then import_loop (f\<lparr>if_wait := True\<rparr>) rest
      else if flag = ''--model'' then
        (case rest of [] \<Rightarrow> Inl (no_value flag) | v # rest' \<Rightarrow> import_loop (f\<lparr>if_model := Some v\<rparr>) rest')
      else if flag = ''--quant'' then
        (case rest of [] \<Rightarrow> Inl (no_value flag) | v # rest' \<Rightarrow> import_loop (f\<lparr>if_quant := Some v\<rparr>) rest')
      else if flag = ''--data-dir'' then
        (case rest of [] \<Rightarrow> Inl (no_value flag) | v # rest' \<Rightarrow> import_loop (f\<lparr>if_data_dir := Some v\<rparr>) rest')
      else Inl (unknown_flag flag))"

definition parse_import_flags ::
    "string list \<Rightarrow> cli_error + string \<times> string \<times> string option \<times> bool \<times> bool \<times> string option" where
  "parse_import_flags args =
     and_then (positional (usage ''models import requires a <path>'') args) (\<lambda>(path, rest).
     and_then (import_loop \<lparr>if_model = None, if_quant = None, if_json = False, if_wait = False, if_data_dir = None\<rparr> rest) (\<lambda>f.
     and_then (ok_or (usage ''models import requires --model <id>'') (if_model f)) (\<lambda>m.
       Inr (path, m, if_quant f, if_wait f, if_json f, if_data_dir f))))"

fun import_user_loop ::
    "string option \<times> bool \<times> bool \<times> string option \<Rightarrow> string list \<Rightarrow>
     cli_error + string option \<times> bool \<times> bool \<times> string option" where
  "import_user_loop st [] = Inr st"
| "import_user_loop (src, wait, js, dir) (flag # rest) =
     (if flag = ''--json'' then import_user_loop (src, wait, True, dir) rest
      else if flag = ''--wait'' then import_user_loop (src, True, js, dir) rest
      else if flag = ''--from'' then
        (case rest of [] \<Rightarrow> Inl (no_value flag) | v # rest' \<Rightarrow> import_user_loop (Some v, wait, js, dir) rest')
      else if flag = ''--data-dir'' then
        (case rest of [] \<Rightarrow> Inl (no_value flag) | v # rest' \<Rightarrow> import_user_loop (src, wait, js, Some v) rest')
      else Inl (unknown_flag flag))"

definition parse_import_user_flags :: "string list \<Rightarrow> cli_error + string option \<times> bool \<times> bool \<times> string option" where
  "parse_import_user_flags = import_user_loop (None, False, False, None)"

definition parse_no_flags :: "string list \<Rightarrow> string \<Rightarrow> cli_error + unit" where
  "parse_no_flags args command =
     (case args of [] \<Rightarrow> Inr ()
      | a # _ \<Rightarrow> Inl (usage (command @ '' takes no arguments, got '' @ quoted a)))"

fun update_check_loop :: "bool \<Rightarrow> string list \<Rightarrow> cli_error + bool" where
  "update_check_loop js [] = Inr js"
| "update_check_loop js (flag # rest) =
     (if flag = ''--json'' then update_check_loop True rest else Inl (unknown_flag flag))"

fun update_install_loop ::
    "bool \<times> bool \<times> string option \<times> nat \<Rightarrow> string list \<Rightarrow> cli_error + bool \<times> bool \<times> string option \<times> nat" where
  "update_install_loop st [] = Inr st"
| "update_install_loop (yes, js, dir, ready) (flag # rest) =
     (if flag = ''--json'' then update_install_loop (yes, True, dir, ready) rest
      else if flag = ''--yes'' then update_install_loop (True, js, dir, ready) rest
      else if flag = ''--ready-timeout-seconds'' then
        (case rest of [] \<Rightarrow> Inl (no_value flag)
         | v # rest' \<Rightarrow>
             (case parse_positive_u64 flag v of Inl e \<Rightarrow> Inl e
              | Inr n \<Rightarrow> update_install_loop (yes, js, dir, n) rest'))
      else if flag = ''--data-dir'' then
        (case rest of [] \<Rightarrow> Inl (no_value flag) | v # rest' \<Rightarrow> update_install_loop (yes, js, Some v, ready) rest')
      else Inl (unknown_flag flag))"

definition parse_autostart :: "string list \<Rightarrow> cli_error + cli_command" where
  "parse_autostart args =
     (case args of
        [] \<Rightarrow> Inl (usage ''autostart requires enable|disable|status'')
      | sub # rest \<Rightarrow>
          if sub = ''enable'' then map_sum id (Cmd_autostart Autostart_enable) (parse_run_flags rest)
          else if sub = ''disable'' then
            map_sum id (\<lambda>_. Cmd_autostart Autostart_disable default_run_flags) (parse_no_flags rest ''autostart disable'')
          else if sub = ''status'' then
            map_sum id (\<lambda>_. Cmd_autostart Autostart_status default_run_flags) (parse_no_flags rest ''autostart status'')
          else Inl (usage (''unknown autostart subcommand: '' @ sub)))"

definition parse_service :: "string list \<Rightarrow> cli_error + cli_command" where
  "parse_service args =
     (case args of
        [] \<Rightarrow> Inr (Cmd_service Service_run)
      | sub # rest \<Rightarrow>
          if sub = ''install'' then map_sum id (\<lambda>_. Cmd_service Service_install) (parse_no_flags rest ''service install'')
          else if sub = ''uninstall'' then
            map_sum id (\<lambda>_. Cmd_service Service_uninstall) (parse_no_flags rest ''service uninstall'')
          else if sub = ''run'' then map_sum id (\<lambda>_. Cmd_service Service_run) (parse_no_flags rest ''service run'')
          else Inl (usage (''unknown service subcommand: '' @ sub)))"

definition parse_models :: "string list \<Rightarrow> cli_error + models_command" where
  "parse_models args =
     (case args of
        [] \<Rightarrow> Inl (usage ''models requires a subcommand: list|recommended|selected|download|install|import|import-user|verify|cancel|default|select|unload|remove|refresh'')
      | sub # rest \<Rightarrow>
          if sub = ''list'' then map_sum id (\<lambda>(js, dir). Models_list js dir) (parse_status_flags rest)
          else if sub = ''recommended'' then map_sum id (\<lambda>(js, dir). Models_recommended js dir) (parse_status_flags rest)
          else if sub = ''selected'' then map_sum id (\<lambda>(js, dir). Models_selected js dir) (parse_status_flags rest)
          else if sub = ''unload'' then map_sum id (\<lambda>(js, dir). Models_unload js dir) (parse_status_flags rest)
          else if sub = ''refresh'' then
            map_sum id (\<lambda>(js, wait, dir). Models_refresh wait js dir) (parse_json_wait_data_dir rest)
          else if sub = ''download'' \<or> sub = ''install'' then
            map_sum id (\<lambda>(i, js, wait, dir). Models_install i wait js dir) (parse_id_json_wait_data_dir rest ''models download'')
          else if sub = ''verify'' then
            map_sum id (\<lambda>(i, js, wait, dir). Models_verify i wait js dir) (parse_id_json_wait_data_dir rest ''models verify'')
          else if sub = ''default'' \<or> sub = ''select'' then
            map_sum id (\<lambda>(i, js, dir). Models_select i js dir) (parse_id_json_data_dir rest ''models default'')
          else if sub = ''remove'' then
            map_sum id (\<lambda>(i, js, dir). Models_remove i js dir) (parse_id_json_data_dir rest ''models remove'')
          else if sub = ''cancel'' then
            map_sum id (\<lambda>(i, dir). Models_cancel i dir) (parse_operation_id_data_dir rest)
          else if sub = ''import'' then
            map_sum id (\<lambda>(path, m, q, wait, js, dir). Models_import path m q wait js dir) (parse_import_flags rest)
          else if sub = ''import-user'' then
            map_sum id (\<lambda>(src, wait, js, dir). Models_import_user src wait js dir) (parse_import_user_flags rest)
          else Inl (usage (''unknown models subcommand: '' @ sub)))"

definition parse_update :: "string list \<Rightarrow> cli_error + update_command" where
  "parse_update args =
     (case args of
        [] \<Rightarrow> Inl (usage ''update requires a subcommand: check|install'')
      | sub # rest \<Rightarrow>
          if sub = ''check'' then map_sum id Update_check (update_check_loop False rest)
          else if sub = ''install'' then
            map_sum id (\<lambda>(yes, js, dir, ready). Update_install yes js dir ready) (update_install_loop (False, False, None, 600) rest)
          else Inl (usage (''unknown update subcommand: '' @ sub)))"

definition parse_args :: "string list \<Rightarrow> cli_error + cli_command" where
  "parse_args args =
     (case args of
        [] \<Rightarrow> Inr (Cmd_run default_run_flags)
      | first # rest \<Rightarrow>
          if first = ''--help'' \<or> first = ''-h'' \<or> first = ''help'' then Inr Cmd_help
          else if strip_prefix ''--'' first \<noteq> None then map_sum id Cmd_run (parse_run_flags args)
          else if first = ''run'' then map_sum id Cmd_run (parse_run_flags rest)
          else if first = ''start'' then map_sum id Cmd_start (parse_run_flags rest)
          else if first = ''stop'' then map_sum id Cmd_stop (parse_data_dir_only rest)
          else if first = ''restart'' then map_sum id Cmd_restart (parse_run_flags rest)
          else if first = ''status'' then map_sum id (\<lambda>(js, dir). Cmd_status js dir) (parse_status_flags rest)
          else if first = ''autostart'' then parse_autostart rest
          else if first = ''service'' then parse_service rest
          else if first = ''install'' then map_sum id (\<lambda>_. Cmd_service Service_install) (parse_no_flags rest ''install'')
          else if first = ''uninstall'' then map_sum id (\<lambda>_. Cmd_service Service_uninstall) (parse_no_flags rest ''uninstall'')
          else if first = ''health'' then map_sum id (\<lambda>(js, dir). Cmd_health js dir) (parse_status_flags rest)
          else if first = ''models'' then map_sum id Cmd_models (parse_models rest)
          else if first = ''update'' then map_sum id Cmd_update (parse_update rest)
          else Inl (usage (''unknown command: '' @ first)))"

subsection \<open>What is written on a command line is read back\<close>

definition flags_ok :: "run_flags \<Rightarrow> bool" where
  "flags_ok f \<longleftrightarrow>
     pred_option (\<lambda>p. 0 < p \<and> p \<le> 65535) (rf_port f)
     \<and> pred_option (\<lambda>n. 0 < n \<and> n \<le> u64_max) (rl_queue_max_waiting (rf_limits f))
     \<and> pred_option (\<lambda>n. 0 < n \<and> n \<le> u64_max) (rl_queue_wait_timeout_ms (rf_limits f))
     \<and> pred_option (\<lambda>n. 0 < n \<and> n \<le> u64_max) (rl_inference_timeout_ms (rf_limits f))
     \<and> list_all is_valid_cors_origin (rf_cors_origins f)"

lemma parse_decimal [simp]:
  "0 < n \<Longrightarrow> n \<le> u64_max \<Longrightarrow> parse_positive_u64 flag (decimal n) = Inr n"
  "0 < n \<Longrightarrow> n \<le> 65535 \<Longrightarrow> parse_port (decimal n) = Inr n"
  by (simp_all add: parse_positive_u64_def parse_port_def parse_u64_def parse_unsigned_decimal)

text \<open>A run of the loop over the arguments of one flag, and over the rest.\<close>

lemma loop_origins:
  "list_all is_valid_cors_origin os \<Longrightarrow>
     run_flags_loop f (concat (map (\<lambda>origin. [''--cors-origin'', origin]) os))
       = Inr (f\<lparr>rf_cors_origins := rf_cors_origins f @ os\<rparr>)"
  by (induction os arbitrary: f) (simp_all add: set_run_flag_def)

lemma loop_data_dir: "run_flags_loop f (''--data-dir'' # dir # rest) = run_flags_loop (f\<lparr>rf_data_dir := Some dir\<rparr>) rest"
  by (simp add: set_run_flag_def)

lemma loop_port:
  fixes s :: run_flags
  shows "pred_option (\<lambda>p. 0 < p \<and> p \<le> 65535) p \<Longrightarrow> rf_port s = None \<Longrightarrow>
      run_flags_loop s (option_argument ''--port'' (map_option decimal p) @ rest) = run_flags_loop (s\<lparr>rf_port := p\<rparr>) rest"
  by (cases p; cases s; cases "rf_limits s") (simp_all add: option_argument_def set_run_flag_def)

lemma loop_host:
  fixes s :: run_flags
  shows "rf_host s = None \<Longrightarrow> run_flags_loop s (option_argument ''--host'' h @ rest) = run_flags_loop (s\<lparr>rf_host := h\<rparr>) rest"
  by (cases h; cases s; cases "rf_limits s") (simp_all add: option_argument_def set_run_flag_def)

lemma loop_network:
  fixes s :: run_flags
  shows "rf_network s = None \<Longrightarrow>
      run_flags_loop s (option_argument ''--network'' (map_option network_mode_str m) @ rest) = run_flags_loop (s\<lparr>rf_network := m\<rparr>) rest"
  by (cases m; cases s; cases "rf_limits s") (simp_all add: option_argument_def set_run_flag_def)

lemma loop_queue_max_waiting:
  fixes s :: run_flags
  shows "pred_option (\<lambda>n. 0 < n \<and> n \<le> u64_max) q \<Longrightarrow> rl_queue_max_waiting (rf_limits s) = None \<Longrightarrow>
      run_flags_loop s (option_argument ''--queue-max-waiting'' (map_option decimal q) @ rest) = run_flags_loop (s\<lparr>rf_limits := (rf_limits s)\<lparr>rl_queue_max_waiting := q\<rparr>\<rparr>) rest"
  by (cases q; cases s; cases "rf_limits s") (simp_all add: option_argument_def set_run_flag_def)

lemma loop_queue_wait_timeout_ms:
  fixes s :: run_flags
  shows "pred_option (\<lambda>n. 0 < n \<and> n \<le> u64_max) q \<Longrightarrow> rl_queue_wait_timeout_ms (rf_limits s) = None \<Longrightarrow>
      run_flags_loop s (option_argument ''--queue-wait-timeout-ms'' (map_option decimal q) @ rest) = run_flags_loop (s\<lparr>rf_limits := (rf_limits s)\<lparr>rl_queue_wait_timeout_ms := q\<rparr>\<rparr>) rest"
  by (cases q; cases s; cases "rf_limits s") (simp_all add: option_argument_def set_run_flag_def)

lemma loop_inference_timeout_ms:
  fixes s :: run_flags
  shows "pred_option (\<lambda>n. 0 < n \<and> n \<le> u64_max) q \<Longrightarrow> rl_inference_timeout_ms (rf_limits s) = None \<Longrightarrow>
      run_flags_loop s (option_argument ''--inference-timeout-ms'' (map_option decimal q) @ rest) = run_flags_loop (s\<lparr>rf_limits := (rf_limits s)\<lparr>rl_inference_timeout_ms := q\<rparr>\<rparr>) rest"
  by (cases q; cases s; cases "rf_limits s") (simp_all add: option_argument_def set_run_flag_def)

lemmas loop_values = loop_port loop_host loop_network loop_queue_max_waiting loop_queue_wait_timeout_ms loop_inference_timeout_ms

lemma run_flags_read_back:
  assumes "flags_ok f"
  shows "parse_run_flags (run_flags_arguments f dir) = Inr (f\<lparr>rf_data_dir := Some dir\<rparr>)"
proof -
  have "run_flags_loop default_run_flags (run_flags_arguments f dir)
    = Inr (default_run_flags\<lparr>rf_data_dir := Some dir, rf_port := rf_port f, rf_host := rf_host f,
        rf_network := rf_network f, rf_limits := rf_limits f, rf_cors_origins := rf_cors_origins f\<rparr>)"
    using assms
    by (simp add: flags_ok_def run_flags_arguments_def loop_data_dir loop_values loop_origins default_run_flags_def no_limits_def
        del: run_flags_loop.simps)
  also have "default_run_flags\<lparr>rf_data_dir := Some dir, rf_port := rf_port f, rf_host := rf_host f,
        rf_network := rf_network f, rf_limits := rf_limits f, rf_cors_origins := rf_cors_origins f\<rparr> = f\<lparr>rf_data_dir := Some dir\<rparr>"
    by (cases f) (simp add: default_run_flags_def)
  finally show ?thesis by (simp add: parse_run_flags_def)
qed

text \<open>Flags that come from a command line are always of this kind.\<close>

lemma parse_unsigned_bound: "parse_unsigned bound s = Some n \<Longrightarrow> n \<le> bound"
  unfolding parse_unsigned_def Let_def by (auto split: if_splits)

lemma parse_bounds:
  "parse_positive_u64 flag raw = Inr n \<Longrightarrow> 0 < n \<and> n \<le> u64_max" "parse_port raw = Inr n \<Longrightarrow> 0 < n \<and> n \<le> 65535"
  by (auto simp: parse_positive_u64_def parse_port_def parse_u64_def dest!: parse_unsigned_bound split: option.splits if_splits)

lemma set_run_flag_ok:
  assumes "set_run_flag flag raw f = Some (Inr f')" "flags_ok f"
  shows "flags_ok f'"
proof -
  have mapped: "map_sum id g x = Inr y \<longleftrightarrow> (\<exists>z. x = Inr z \<and> y = g z)" for g and x :: "cli_error + 'a" and y
    by (cases x) auto
  show ?thesis using assms unfolding set_run_flag_def
    by (simp only: option.inject mapped sum.inject split: if_splits) (auto simp: flags_ok_def dest: parse_bounds)
qed

lemma parsed_flags_ok: "parse_run_flags args = Inr f \<Longrightarrow> flags_ok f"
proof -
  have "run_flags_loop s args = Inr f \<Longrightarrow> flags_ok s \<Longrightarrow> flags_ok f" for s
    by (induction s args rule: run_flags_loop.induct) (auto dest: set_run_flag_ok split: option.splits sum.splits if_splits)
  then show "parse_run_flags args = Inr f \<Longrightarrow> flags_ok f"
    by (simp add: parse_run_flags_def flags_ok_def default_run_flags_def no_limits_def)
qed

text \<open>
  C35. The arguments a process is started with are read back: flags that were read from a command line, and
  every other flags in their ranges, are written for a detached start, an autostart entry or an update recovery
  with the data directory filled in, and are read from there as the same flags with that data directory, under
  each command that takes run flags; nothing is taken for another flag's value, whatever the host, the folder
  or the origins look like.
\<close>
theorem run_flags_round_trip:
  assumes "parse_run_flags written = Inr f \<or> flags_ok f"
  shows "parse_args (''run'' # run_flags_arguments f dir) = Inr (Cmd_run (f\<lparr>rf_data_dir := Some dir\<rparr>))
    \<and> parse_args (run_flags_arguments f dir) = Inr (Cmd_run (f\<lparr>rf_data_dir := Some dir\<rparr>))
    \<and> parse_args (''start'' # run_flags_arguments f dir) = Inr (Cmd_start (f\<lparr>rf_data_dir := Some dir\<rparr>))
    \<and> parse_args (''restart'' # run_flags_arguments f dir) = Inr (Cmd_restart (f\<lparr>rf_data_dir := Some dir\<rparr>))
    \<and> parse_args (''autostart'' # ''enable'' # run_flags_arguments f dir) =
       Inr (Cmd_autostart Autostart_enable (f\<lparr>rf_data_dir := Some dir\<rparr>))"
proof -
  from assms have "flags_ok f" using parsed_flags_ok by blast
  note read = run_flags_read_back [OF this, of dir]
  have "\<exists>rest. run_flags_arguments f dir = ''--data-dir'' # rest" by (simp add: run_flags_arguments_def)
  with read have "parse_args (run_flags_arguments f dir) = Inr (Cmd_run (f\<lparr>rf_data_dir := Some dir\<rparr>))"
    by (auto simp: parse_args_def)
  with read show ?thesis by (simp add: parse_args_def parse_autostart_def)
qed

definition sample_flags :: run_flags where
  "sample_flags =
     \<lparr>rf_port = Some 54321, rf_host = Some ''--port'', rf_network = Some Lan, rf_data_dir = None,
      rf_limits = no_limits\<lparr>rl_queue_max_waiting := Some 4\<rparr>, rf_cors_origins = [''https://a.b:8'', ''*'']\<rparr>"

theorem run_flags_round_trip_witness:
  "parse_args (''run'' # run_flags_arguments sample_flags ''d'') = Inr (Cmd_run (sample_flags\<lparr>rf_data_dir := Some ''d''\<rparr>))"
proof -
  have "is_valid_cors_origin ''https://a.b:8''" "is_valid_cors_origin ''*''" by code_simp+
  then have "flags_ok sample_flags" by (simp add: flags_ok_def sample_flags_def no_limits_def u64_max_def)
  from conjunct1 [OF run_flags_round_trip [OF disjI2 [OF this]]] show ?thesis .
qed

end
