(* ===== verification/Config.thy ===== *)
theory Config
  imports Network Operations
begin

text \<open>
  The server's settings: how an opening server resolves them from its command line, the stored
  settings and the defaults (\<open>open_app_at_full\<close> in \<open>src/app.rs\<close>), and the configuration route of
  \<open>src/api.rs\<close>, which shows and changes them. A change is validated as a whole, then written one
  statement at a time; \<open>fails n\<close> says that the \<open>n\<close>-th statement fails. The list of origins is stored as
  JSON text by \<open>to_text\<close> and read by \<open>from_text\<close>.
\<close>

record bind_overrides =
  bo_host :: "string option"
  bo_port :: "nat option"
  bo_cors_origins :: "string list option"

record server =
  sv_data :: sdata
  sv_limits :: runtime_limits
  sv_bind_host :: string
  sv_bind_port :: nat
  sv_network_mode :: network_mode
  sv_network_custom :: bool
  sv_cors_origins :: "string list"
  sv_report :: network_report

definition default_bind_port :: nat where "default_bind_port = 54321"

definition read_network_mode_setting :: "sdata \<Rightarrow> network_mode option" where
  "read_network_mode_setting d = Option.bind (d_settings d ''network_mode'') network_mode_parse"

definition resolve_limits :: "runtime_limits \<Rightarrow> runtime_limits \<Rightarrow> runtime_limits" where
  "resolve_limits cli stored =
     \<lparr>rl_queue_max_waiting = or_else (rl_queue_max_waiting cli) (rl_queue_max_waiting stored),
      rl_queue_wait_timeout_ms = or_else (rl_queue_wait_timeout_ms cli) (rl_queue_wait_timeout_ms stored),
      rl_inference_timeout_ms = or_else (rl_inference_timeout_ms cli) (rl_inference_timeout_ms stored)\<rparr>"

definition open_settings ::
    "(string \<Rightarrow> string list option) \<Rightarrow> runtime_limits \<Rightarrow> bind_overrides \<Rightarrow> network_mode option \<Rightarrow> sdata \<Rightarrow> server" where
  "open_settings from_text cli bo network_override d =
     (let (stored_host, stored_port) = read_bind_settings d;
          custom = bo_host bo \<noteq> None \<or> stored_host \<noteq> None;
          host = unwrap_or default_bind_host (or_else (bo_host bo) stored_host);
          mode = resolve_mode network_override (read_network_mode_setting d)
      in \<lparr>sv_data = d, sv_limits = resolve_limits cli (read_runtime_limits d), sv_bind_host = host,
          sv_bind_port = unwrap_or default_bind_port (or_else (bo_port bo) stored_port),
          sv_network_mode = mode, sv_network_custom = custom,
          sv_cors_origins = unwrap_or [] (or_else (bo_cors_origins bo) (read_cors_origins_setting from_text d)),
          sv_report = (if custom then report_custom host else report_local mode)\<rparr>)"

subsection \<open>The configuration route\<close>

definition json_nat_option :: "nat option \<Rightarrow> json" where
  "json_nat_option = jopt (\<lambda>n. JInt (int n))"

definition get_config ::
    "string option \<Rightarrow> string \<Rightarrow> string \<Rightarrow> string option \<Rightarrow> server \<Rightarrow> api_error + json" where
  "get_config header admin user default_models_dir s =
     and_then (authorized header admin user) (\<lambda>_.
       let d = sv_data s; (stored_host, stored_port) = read_bind_settings d in
       Inr (JObj [(''bind'', JStr (sv_bind_host s @ '':'' @ decimal (sv_bind_port s))),
         (''bind_host'', jopt JStr stored_host),
         (''bind_port'', json_nat_option stored_port),
         (''network_mode'', jopt (\<lambda>m. JStr (network_mode_str m)) (read_network_mode_setting d)),
         (''preferred_backend'', JStr (backend_preference d)),
         (''max_audio_bytes'', JInt (40 * 1024 * 1024)),
         (''streaming'', JBool True),
         (''cors_allowed_origins'', JArr (map JStr (sv_cors_origins s))),
         (''queue_max_waiting'', json_nat_option (rl_queue_max_waiting (sv_limits s))),
         (''queue_wait_timeout_ms'', json_nat_option (rl_queue_wait_timeout_ms (sv_limits s))),
         (''inference_timeout_ms'', json_nat_option (rl_inference_timeout_ms (sv_limits s))),
         (''user_models_dir'', jopt JStr (or_else (user_models_dir_setting d) default_models_dir))]))"

text \<open>A limit field: absent, null, or an integer.\<close>

record config_patch =
  cp_preferred_backend :: "string option"
  cp_cors_allowed_origins :: "string list option"
  cp_queue_max_waiting :: "int option option"
  cp_queue_wait_timeout_ms :: "int option option"
  cp_inference_timeout_ms :: "int option option"
  cp_user_models_dir :: "string option"
  cp_bind_host :: "string option"
  cp_bind_port :: "int option"
  cp_network_mode :: "string option"

definition bad_request :: "string \<Rightarrow> string \<Rightarrow> api_error" where
  "bad_request c m = api_error_new 400 c m"

definition require :: "bool \<Rightarrow> api_error \<Rightarrow> api_error + unit" where
  "require ok e = (if ok then Inr () else Inl e)"

fun check_origins :: "string list \<Rightarrow> api_error + unit" where
  "check_origins [] = Inr ()"
| "check_origins (origin # rest) =
     (if \<not> is_valid_cors_origin origin
      then Inl (bad_request ''invalid_cors_origins'' (quoted origin @ '' is not '*' or an http(s)://host[:port] origin''))
      else check_origins rest)"

definition check_cors :: "string list option \<Rightarrow> api_error + unit" where
  "check_cors os =
     (case os of None \<Rightarrow> Inr ()
      | Some os \<Rightarrow>
          if os = [] then Inl (bad_request ''invalid_cors_origins'' ''cors_allowed_origins must contain at least one entry'')
          else check_origins os)"

definition check_limit :: "string \<Rightarrow> int option option \<Rightarrow> api_error + nat option option" where
  "check_limit c v =
     (case v of None \<Rightarrow> Inr None
      | Some inner \<Rightarrow> map_sum (\<lambda>m. bad_request c m) Some (validate_positive_limit inner))"

record checked_limits =
  cl_queue_max_waiting :: "nat option option"
  cl_queue_wait_timeout_ms :: "nat option option"
  cl_inference_timeout_ms :: "nat option option"

text \<open>\<open>is_dir\<close> tells which absolute paths are directories.\<close>

definition validate_patch :: "(string \<Rightarrow> bool) \<Rightarrow> config_patch \<Rightarrow> api_error + checked_limits" where
  "validate_patch is_dir p =
     and_then (require (if_given (\<lambda>b. b = ''auto'' \<or> b = ''cpu'' \<or> b = ''vulkan'') (cp_preferred_backend p))
       (bad_request ''invalid_backend'' ''preferred_backend must be auto, cpu, or vulkan'')) (\<lambda>_.
     and_then (check_cors (cp_cors_allowed_origins p)) (\<lambda>_.
     and_then (check_limit ''invalid_queue_max_waiting'' (cp_queue_max_waiting p)) (\<lambda>q.
     and_then (check_limit ''invalid_queue_wait_timeout_ms'' (cp_queue_wait_timeout_ms p)) (\<lambda>w.
     and_then (check_limit ''invalid_inference_timeout_ms'' (cp_inference_timeout_ms p)) (\<lambda>t.
     and_then (require (if_given is_dir (cp_user_models_dir p))
       (bad_request ''invalid_user_models_dir'' ''user_models_dir must be an absolute, existing directory'')) (\<lambda>_.
     and_then (require (if_given validate_bind_host (cp_bind_host p))
       (bad_request ''invalid_bind_host'' ''bind_host must be a valid IPv4 or IPv6 address'')) (\<lambda>_.
     and_then (require (if_given validate_bind_port (cp_bind_port p))
       (bad_request ''invalid_bind_port'' ''bind_port must be an integer from 1 to 65535'')) (\<lambda>_.
     and_then (require (if_given (\<lambda>m. network_mode_parse m \<noteq> None) (cp_network_mode p))
       (bad_request ''invalid_network_mode'' (''network_mode must be 'local', 'lan', or '' @ quoted ''tailscale''))) (\<lambda>_.
       Inr \<lparr>cl_queue_max_waiting = q, cl_queue_wait_timeout_ms = w, cl_inference_timeout_ms = t\<rparr>)))))))))"

text \<open>The statements of a change in their order: the key, its new text (\<open>None\<close> deletes the row), the answer.\<close>

type_synonym setting_write = "string \<times> string option \<times> (string \<times> json) list"

definition write_if :: "'a option \<Rightarrow> ('a \<Rightarrow> setting_write) \<Rightarrow> setting_write list" where
  "write_if v f = (case v of None \<Rightarrow> [] | Some x \<Rightarrow> [f x])"

definition limit_write :: "string \<Rightarrow> nat option \<Rightarrow> setting_write" where
  "limit_write k v = (k, map_option decimal v, [(k, json_nat_option v)])"

definition patch_writes :: "(string list \<Rightarrow> string) \<Rightarrow> config_patch \<Rightarrow> checked_limits \<Rightarrow> setting_write list" where
  "patch_writes to_text p cl =
     write_if (cp_preferred_backend p)
       (\<lambda>b. (''preferred_backend'', Some b, [(''preferred_backend'', JStr b), (''reload_required'', JBool True)]))
     @ write_if (cp_cors_allowed_origins p)
       (\<lambda>os. (''cors_allowed_origins'', Some (to_text os), [(''cors_allowed_origins'', JArr (map JStr os))]))
     @ write_if (cp_user_models_dir p) (\<lambda>dir. (''user_models_dir'', Some dir, [(''user_models_dir'', JStr dir)]))
     @ write_if (cp_bind_host p) (\<lambda>h. (''bind_host'', Some h, [(''bind_host'', JStr h)]))
     @ write_if (cp_bind_port p) (\<lambda>n. (''bind_port'', Some (decimal (nat n)), [(''bind_port'', JInt n)]))
     @ write_if (cp_network_mode p) (\<lambda>m. (''network_mode'', Some m, [(''network_mode'', JStr m)]))
     @ write_if (cl_queue_max_waiting cl) (limit_write ''queue_max_waiting'')
     @ write_if (cl_queue_wait_timeout_ms cl) (limit_write ''queue_wait_timeout_ms'')
     @ write_if (cl_inference_timeout_ms cl) (limit_write ''inference_timeout_ms'')"

fun apply_writes :: "(nat \<Rightarrow> bool) \<Rightarrow> nat \<Rightarrow> setting_write list \<Rightarrow> sdata \<Rightarrow> (api_error + (string \<times> json) list) \<times> sdata" where
  "apply_writes fails n [] d = (Inr [], d)"
| "apply_writes fails n ((k, v, answer) # ws) d =
     (if fails n then (Inl (internal ''database error''), d)
      else case apply_writes fails (n + 1) ws (put_setting k v d) of
        (r, d') \<Rightarrow> (map_sum id ((@) answer) r, d'))"

definition live_limits :: "checked_limits \<Rightarrow> runtime_limits \<Rightarrow> runtime_limits" where
  "live_limits cl l =
     \<lparr>rl_queue_max_waiting = unwrap_or (rl_queue_max_waiting l) (cl_queue_max_waiting cl),
      rl_queue_wait_timeout_ms = unwrap_or (rl_queue_wait_timeout_ms l) (cl_queue_wait_timeout_ms cl),
      rl_inference_timeout_ms = unwrap_or (rl_inference_timeout_ms l) (cl_inference_timeout_ms cl)\<rparr>"

definition restart_required :: "config_patch \<Rightarrow> bool" where
  "restart_required p \<longleftrightarrow>
     cp_cors_allowed_origins p \<noteq> None \<or> cp_bind_host p \<noteq> None \<or> cp_bind_port p \<noteq> None \<or> cp_network_mode p \<noteq> None"

definition patch_config ::
    "(string list \<Rightarrow> string) \<Rightarrow> (string \<Rightarrow> bool) \<Rightarrow> (nat \<Rightarrow> bool) \<Rightarrow> string option \<Rightarrow> string \<Rightarrow> string \<Rightarrow>
     config_patch \<Rightarrow> server \<Rightarrow> (api_error + json) \<times> server" where
  "patch_config to_text is_dir fails header admin user p s =
     (case authorized header admin user of
        Inl e \<Rightarrow> (Inl e, s)
      | Inr _ \<Rightarrow>
     (case validate_patch is_dir p of
        Inl e \<Rightarrow> (Inl e, s)
      | Inr cl \<Rightarrow>
     (case apply_writes fails 0 (patch_writes to_text p cl) (sv_data s) of
        (Inl e, d) \<Rightarrow> (Inl e, s\<lparr>sv_data := d\<rparr>)
      | (Inr answer, d) \<Rightarrow>
          (Inr (JObj (answer @ [(''restart_required'', JBool (restart_required p))])),
           s\<lparr>sv_data := d, sv_limits := live_limits cl (sv_limits s)\<rparr>))))"

subsection \<open>A change takes effect\<close>

lemma require_Inr [outcome_simps]: "require ok e = Inr x \<longleftrightarrow> ok" "require ok e = Inl f \<longleftrightarrow> \<not> ok \<and> f = e"
  by (auto simp: require_def)

lemma check_limit_Inr:
  "check_limit c v = Inr r \<longleftrightarrow> (v = None \<and> r = None)
     \<or> (\<exists>inner. v = Some inner \<and> if_given (\<lambda>i. i > 0) inner \<and> r = Some (map_option nat inner))"
  by (auto simp: check_limit_def validate_positive_limit_def split: option.splits if_splits)

lemma validate_patch_Inr:
  assumes "validate_patch is_dir p = Inr cl"
  shows "check_limit ''invalid_queue_max_waiting'' (cp_queue_max_waiting p) = Inr (cl_queue_max_waiting cl)"
    "check_limit ''invalid_queue_wait_timeout_ms'' (cp_queue_wait_timeout_ms p) = Inr (cl_queue_wait_timeout_ms cl)"
    "check_limit ''invalid_inference_timeout_ms'' (cp_inference_timeout_ms p) = Inr (cl_inference_timeout_ms cl)"
    "if_given validate_bind_port (cp_bind_port p)"
    "if_given (\<lambda>m. network_mode_parse m \<noteq> None) (cp_network_mode p)"
  using assms by (auto simp: validate_patch_def outcome_simps)

lemma validate_patch_Inl: "validate_patch is_dir p = Inl e \<Longrightarrow> status e = 400"
proof -
  have "check_origins os = Inl e \<Longrightarrow> status e = 400" for os e
    by (induction os) (auto simp: bad_request_def split: if_splits)
  moreover have "check_limit c v = Inl e \<Longrightarrow> status e = 400" for c v e
    by (auto simp: check_limit_def bad_request_def map_sum_def split: option.splits sum.splits)
  ultimately show "validate_patch is_dir p = Inl e \<Longrightarrow> status e = 400"
    by (auto simp: validate_patch_def outcome_simps check_cors_def bad_request_def split: option.splits if_splits)
qed

text \<open>What the statements leave in a key: the text of the last statement on it.\<close>

definition last_write :: "setting_write list \<Rightarrow> string \<Rightarrow> string option \<Rightarrow> string option" where
  "last_write ws k old = fold (\<lambda>(k', v, _) cur. if k' = k then v else cur) ws old"

lemma apply_writes_settings:
  "apply_writes fails n ws d = (Inr answer, d') \<Longrightarrow> d_settings d' k = last_write ws k (d_settings d k)"
  by (induction fails n ws d arbitrary: answer d' rule: apply_writes.induct)
     (auto simp: last_write_def put_setting_def map_sum_def split: if_splits prod.splits sum.splits)

lemma last_write_append [simp]: "last_write (xs @ ys) k old = last_write ys k (last_write xs k old)"
  by (simp add: last_write_def)

lemma last_write_if [simp]:
  "last_write (write_if v f) k old = (case v of None \<Rightarrow> old | Some x \<Rightarrow> if fst (f x) = k then fst (snd (f x)) else old)"
  by (auto simp: last_write_def write_if_def split: option.split prod.splits)

lemma last_write_key:
  "last_write (write_if v (\<lambda>x. (k', g x, h x))) k old = (if k' = k then case v of None \<Rightarrow> old | Some x \<Rightarrow> g x else old)"
  "last_write (write_if u (limit_write k')) k old = (if k' = k then case u of None \<Rightarrow> old | Some x \<Rightarrow> map_option decimal x else old)"
  by (cases v; simp) (cases u; simp add: limit_write_def)

lemma option_as_case:
  "unwrap_or w (map_option f v) = (case v of None \<Rightarrow> w | Some y \<Rightarrow> f y)"
  "or_else (map_option g u) w = (case u of None \<Rightarrow> w | Some y \<Rightarrow> Some (g y))"
  "or_else t w = (case t of None \<Rightarrow> w | Some y \<Rightarrow> Some y)"
  by (cases v; cases u; cases t; simp)+

lemma last_patch_writes:
  "last_write (patch_writes to_text p cl) ''cors_allowed_origins'' old = or_else (map_option to_text (cp_cors_allowed_origins p)) old"
  "last_write (patch_writes to_text p cl) ''bind_host'' old = or_else (cp_bind_host p) old"
  "last_write (patch_writes to_text p cl) ''bind_port'' old = or_else (map_option (\<lambda>n. decimal (nat n)) (cp_bind_port p)) old"
  "last_write (patch_writes to_text p cl) ''network_mode'' old = or_else (cp_network_mode p) old"
  "last_write (patch_writes to_text p cl) ''preferred_backend'' old = or_else (cp_preferred_backend p) old"
  "last_write (patch_writes to_text p cl) ''user_models_dir'' old = or_else (cp_user_models_dir p) old"
  "last_write (patch_writes to_text p cl) ''queue_max_waiting'' old
     = unwrap_or old (map_option (map_option decimal) (cl_queue_max_waiting cl))"
  "last_write (patch_writes to_text p cl) ''queue_wait_timeout_ms'' old
     = unwrap_or old (map_option (map_option decimal) (cl_queue_wait_timeout_ms cl))"
  "last_write (patch_writes to_text p cl) ''inference_timeout_ms'' old
     = unwrap_or old (map_option (map_option decimal) (cl_inference_timeout_ms cl))"
  unfolding patch_writes_def by (simp_all add: last_write_key option_as_case del: last_write_if) (simp_all split: option.split)

text \<open>The limits a change asks for, over given ones; its integers fit \<open>i64\<close>.\<close>

definition patch_limits :: "config_patch \<Rightarrow> runtime_limits \<Rightarrow> runtime_limits" where
  "patch_limits p l =
     \<lparr>rl_queue_max_waiting = unwrap_or (rl_queue_max_waiting l) (map_option (map_option nat) (cp_queue_max_waiting p)),
      rl_queue_wait_timeout_ms = unwrap_or (rl_queue_wait_timeout_ms l) (map_option (map_option nat) (cp_queue_wait_timeout_ms p)),
      rl_inference_timeout_ms = unwrap_or (rl_inference_timeout_ms l) (map_option (map_option nat) (cp_inference_timeout_ms p))\<rparr>"

definition patch_typed :: "config_patch \<Rightarrow> bool" where
  "patch_typed p \<longleftrightarrow>
     list_all (if_given (if_given (\<lambda>i. i < 2 ^ 63)))
       [cp_queue_max_waiting p, cp_queue_wait_timeout_ms p, cp_inference_timeout_ms p]"

lemma stored_limit:
  assumes "check_limit c v = Inr r" "if_given (if_given (\<lambda>i. i < 2 ^ 63)) v"
  shows "Option.bind (unwrap_or old (map_option (map_option decimal) r)) parse_u64
      = unwrap_or (Option.bind old parse_u64) (map_option (map_option nat) v)"
    and "unwrap_or l r = unwrap_or l (map_option (map_option nat) v)"
proof -
  have "nat i \<le> u64_max" if "i < 2 ^ 63" for i
  proof -
    have "nat i < 2 ^ 63" using that by (simp add: nat_less_iff)
    then show ?thesis by (simp add: u64_max_def)
  qed
  with assms show "Option.bind (unwrap_or old (map_option (map_option decimal) r)) parse_u64
      = unwrap_or (Option.bind old parse_u64) (map_option (map_option nat) v)"
  proof (cases v)
    case (Some inner)
    then show ?thesis
      using assms \<open>\<And>i. i < 2 ^ 63 \<Longrightarrow> nat i \<le> u64_max\<close>
      by (cases inner) (auto simp: check_limit_Inr parse_u64_def parse_unsigned_decimal)
  qed (auto simp: check_limit_Inr)
  from assms show "unwrap_or l r = unwrap_or l (map_option (map_option nat) v)"
    by (auto simp: check_limit_Inr)
qed

text \<open>
  C37. A change of the configuration is all or nothing up to failing statements, and takes effect: a
  rejected change leaves the server as it was; an accepted one is stored so that what an opening server
  reads is the old configuration with exactly the changed fields replaced, and the limits in force are
  replaced the same way at once.
\<close>

theorem config_change_takes_effect:
  assumes "\<And>os. cp_cors_allowed_origins p = Some os \<Longrightarrow> from_text (to_text os) = Some os" "patch_typed p"
  shows "case patch_config to_text is_dir fails header admin user p s of
      (Inl e, s') \<Rightarrow> status e = 500 \<or> s' = s
    | (Inr body, s') \<Rightarrow>
        read_bind_settings (sv_data s') = (or_else (cp_bind_host p) (fst (read_bind_settings (sv_data s))),
          or_else (map_option nat (cp_bind_port p)) (snd (read_bind_settings (sv_data s))))
        \<and> read_network_mode_setting (sv_data s')
          = or_else (Option.bind (cp_network_mode p) network_mode_parse) (read_network_mode_setting (sv_data s))
        \<and> read_cors_origins_setting from_text (sv_data s')
          = or_else (cp_cors_allowed_origins p) (read_cors_origins_setting from_text (sv_data s))
        \<and> backend_preference (sv_data s') = unwrap_or (backend_preference (sv_data s)) (cp_preferred_backend p)
        \<and> user_models_dir_setting (sv_data s') = or_else (cp_user_models_dir p) (user_models_dir_setting (sv_data s))
        \<and> read_runtime_limits (sv_data s') = patch_limits p (read_runtime_limits (sv_data s))
        \<and> sv_limits s' = patch_limits p (sv_limits s)"
proof (cases "authorized header admin user")
  case (Inl e)
  then show ?thesis by (simp add: patch_config_def)
next
  case ok: (Inr u)
  show ?thesis
  proof (cases "validate_patch is_dir p")
    case (Inl e)
    with ok show ?thesis by (simp add: patch_config_def)
  next
    case (Inr cl)
    note checked = validate_patch_Inr [OF Inr]
    obtain r d where run: "apply_writes fails 0 (patch_writes to_text p cl) (sv_data s) = (r, d)"
      by (cases "apply_writes fails 0 (patch_writes to_text p cl) (sv_data s)")
    show ?thesis
    proof (cases r)
      case (Inl e)
      have "apply_writes fails n ws d = (Inl e, d') \<Longrightarrow> status e = 500" for fails n ws d d' e
        by (induction fails n ws d arbitrary: d' e rule: apply_writes.induct)
           (auto simp: map_sum_def split: if_splits prod.splits sum.splits)
      with run Inl ok Inr show ?thesis by (auto simp: patch_config_def)
    next
      case (Inr answer)
      have stored: "d_settings d k = last_write (patch_writes to_text p cl) k (d_settings (sv_data s) k)" for k
        using apply_writes_settings run Inr by simp
      have typed: "if_given (if_given (\<lambda>i. i < 2 ^ 63)) (cp_queue_max_waiting p)"
        "if_given (if_given (\<lambda>i. i < 2 ^ 63)) (cp_queue_wait_timeout_ms p)"
        "if_given (if_given (\<lambda>i. i < 2 ^ 63)) (cp_inference_timeout_ms p)"
        using assms(2) by (simp_all add: patch_typed_def)
      note limits = stored_limit [OF checked(1) typed(1)] stored_limit [OF checked(2) typed(2)] stored_limit [OF checked(3) typed(3)]
      have run': "patch_config to_text is_dir fails header admin user p s
        = (Inr (JObj (answer @ [(''restart_required'', JBool (restart_required p))])),
           s\<lparr>sv_data := d, sv_limits := live_limits cl (sv_limits s)\<rparr>)"
        using ok run Inr \<open>validate_patch is_dir p = Inr cl\<close> by (simp add: patch_config_def)
      have port: "Option.bind (or_else (map_option (\<lambda>n. decimal (nat n)) (cp_bind_port p)) old) (parse_unsigned 65535)
          = or_else (map_option nat (cp_bind_port p)) (Option.bind old (parse_unsigned 65535))" for old
        using checked(4) by (cases "cp_bind_port p") (auto simp: validate_bind_port_def intro!: parse_unsigned_decimal)
      have mode: "Option.bind (or_else (cp_network_mode p) old) network_mode_parse
          = or_else (Option.bind (cp_network_mode p) network_mode_parse) (Option.bind old network_mode_parse)" for old
        using checked(5) by (cases "cp_network_mode p") auto
      have cors: "Option.bind (or_else (map_option to_text (cp_cors_allowed_origins p)) old) from_text
          = or_else (cp_cors_allowed_origins p) (Option.bind old from_text)" for old
        using assms(1) by (cases "cp_cors_allowed_origins p") auto
      have backend: "unwrap_or ''auto'' (or_else (cp_preferred_backend p) old)
          = unwrap_or (unwrap_or ''auto'' old) (cp_preferred_backend p)" for old
        by (cases "cp_preferred_backend p") auto
      show ?thesis
        unfolding run' prod.case sum.case
        by (simp add: read_bind_settings_def read_network_mode_setting_def read_cors_origins_setting_def
            backend_preference_def user_models_dir_setting_def read_runtime_limits_def read_setting_u64_def
            patch_limits_def live_limits_def stored last_patch_writes port mode cors backend limits)
    qed
  qed
qed

lemma apply_writes_succeed: "\<exists>answer d'. apply_writes (\<lambda>_. False) n ws d = (Inr answer, d')"
proof (induction ws arbitrary: n d)
  case (Cons w ws)
  obtain k v a where w: "w = (k, v, a)" by (cases w)
  from Cons.IH [of "n + 1" "put_setting k v d"] obtain ans d' where
    "apply_writes (\<lambda>_. False) (n + 1) ws (put_setting k v d) = (Inr ans, d')" by blast
  then show ?case by (simp add: w)
qed simp

definition sample_patch :: config_patch where
  "sample_patch = \<lparr>cp_preferred_backend = None, cp_cors_allowed_origins = Some [''https://a''], cp_queue_max_waiting = Some (Some 4),
     cp_queue_wait_timeout_ms = Some None, cp_inference_timeout_ms = None, cp_user_models_dir = None,
     cp_bind_host = None, cp_bind_port = Some 54402, cp_network_mode = Some ''lan''\<rparr>"

definition empty_data :: sdata where
  "empty_data = \<lparr>d_installed = [], d_operations = [], d_settings = (\<lambda>_. None), d_files = (\<lambda>_. None), d_loaded = None\<rparr>"

definition sample_server :: server where
  "sample_server = open_settings (\<lambda>s. Some [s])
     \<lparr>rl_queue_max_waiting = None, rl_queue_wait_timeout_ms = Some 9, rl_inference_timeout_ms = None\<rparr>
     \<lparr>bo_host = None, bo_port = None, bo_cors_origins = None\<rparr> None empty_data"


theorem config_change_takes_effect_witness:
  "case patch_config concat (\<lambda>_. True) (\<lambda>_. False) (Some ''Bearer a'') ''a'' ''u'' sample_patch sample_server of
     (Inl e, s') \<Rightarrow> False
   | (Inr body, s') \<Rightarrow>
       read_runtime_limits (sv_data s') = patch_limits sample_patch (read_runtime_limits empty_data)
       \<and> read_cors_origins_setting (\<lambda>t. Some [t]) (sv_data s') = Some [''https://a'']"
proof -
  have ok: "\<exists>body s'. patch_config concat (\<lambda>_. True) (\<lambda>_. False) (Some ''Bearer a'') ''a'' ''u'' sample_patch sample_server = (Inr body, s')"
  proof -
    have "validate_patch (\<lambda>_. True) sample_patch
        = Inr \<lparr>cl_queue_max_waiting = Some (Some 4), cl_queue_wait_timeout_ms = Some None, cl_inference_timeout_ms = None\<rparr>"
      by code_simp
    moreover have "authorized (Some ''Bearer a'') ''a'' ''u'' = Inr ()" by code_simp
    moreover obtain answer d' where "apply_writes (\<lambda>_. False) 0 (patch_writes concat sample_patch
        \<lparr>cl_queue_max_waiting = Some (Some 4), cl_queue_wait_timeout_ms = Some None, cl_inference_timeout_ms = None\<rparr>)
        (sv_data sample_server) = (Inr answer, d')"
      using apply_writes_succeed by blast
    ultimately show ?thesis by (simp add: patch_config_def)
  qed
  have "patch_typed sample_patch" by code_simp
  then have "case patch_config concat (\<lambda>_. True) (\<lambda>_. False) (Some ''Bearer a'') ''a'' ''u'' sample_patch sample_server of
      (Inl e, s') \<Rightarrow> status e = 500 \<or> s' = sample_server
    | (Inr body, s') \<Rightarrow>
        read_runtime_limits (sv_data s') = patch_limits sample_patch (read_runtime_limits (sv_data sample_server))
        \<and> read_cors_origins_setting (\<lambda>t. Some [t]) (sv_data s')
          = or_else (cp_cors_allowed_origins sample_patch) (read_cors_origins_setting (\<lambda>t. Some [t]) (sv_data sample_server))"
    using config_change_takes_effect [where p = sample_patch and from_text = "\<lambda>t. Some [t]" and to_text = concat
        and is_dir = "\<lambda>_. True" and fails = "\<lambda>_. False" and header = "Some ''Bearer a''" and admin = "''a''" and user = "''u''"
        and s = sample_server]
    by (auto simp: sample_patch_def split: prod.splits sum.splits)
  moreover have "sv_data sample_server = empty_data" "cp_cors_allowed_origins sample_patch = Some [''https://a'']"
    by (simp_all add: sample_server_def open_settings_def sample_patch_def Let_def split: prod.split)
  ultimately show ?thesis using ok by auto
qed

end
