(* ===== verification/Startup.thy ===== *)
theory Startup
  imports Config Update_Transaction
begin

text \<open>
  What the server does when it opens its data folder (\<open>src/app.rs\<close>): finding the folder and migrating
  an old one, the token files, and the reconciliation of the database with the disk: operations of a
  previous run are failed, stages of interrupted imports quarantined, every installed model compared
  with the size and time recorded at its verification, abandoned stages pruned, and the model chosen
  whose load is started. The disk is what its system calls answer; the statements are actions.
\<close>

subsection \<open>The data folder\<close>

datatype install_scope = PerUser | MachineWide

record environment =
  en_program_files :: "string option"
  en_programdata :: "string option"
  en_localappdata :: "string option"
  en_data_dir :: "string option"
  en_user_models_dir :: "string option"

definition join3 :: "string \<Rightarrow> string \<Rightarrow> string \<Rightarrow> string" where
  "join3 a b c = join (join a b) c"

definition machine_wide_program_dir :: "environment \<Rightarrow> string" where
  "machine_wide_program_dir env =
     join3 (unwrap_or (''C:'' @ [bslash] @ ''Program Files'') (en_program_files env)) ''OpenVibeAI'' ''STT Server''"

definition machine_wide_data_dir :: "environment \<Rightarrow> string" where
  "machine_wide_data_dir env =
     join3 (unwrap_or (''C:'' @ [bslash] @ ''ProgramData'') (en_programdata env)) ''OpenVibeAI'' ''STT Server''"

definition machine_wide_old_data_dir :: "environment \<Rightarrow> string" where
  "machine_wide_old_data_dir env =
     join3 (unwrap_or (''C:'' @ [bslash] @ ''ProgramData'') (en_programdata env)) ''OpenVibeAI'' ''STT Server Next''"

definition per_user_data_dir :: "environment \<Rightarrow> string option" where
  "per_user_data_dir env = map_option (\<lambda>b. join3 b ''OpenVibeAI'' ''STT Server'') (en_localappdata env)"

definition per_user_old_data_dir :: "environment \<Rightarrow> string option" where
  "per_user_old_data_dir env = map_option (\<lambda>b. join b ''STT Server Next'') (en_localappdata env)"

definition install_scope_for :: "environment \<Rightarrow> (string \<Rightarrow> bool) \<Rightarrow> string option \<Rightarrow> install_scope" where
  "install_scope_for env path_exists exe_dir =
     (case exe_dir of None \<Rightarrow> PerUser
      | Some dir \<Rightarrow>
          if eq_ignore_case dir (machine_wide_program_dir env) \<or> path_exists (join dir ''.machine-wide-install'')
          then MachineWide else PerUser)"

text \<open>The folder used, and whether the old one was renamed; creating the parent and renaming may fail.\<close>

definition migrate_dir_once :: "(string \<Rightarrow> bool) \<Rightarrow> bool \<Rightarrow> bool \<Rightarrow> string \<Rightarrow> string \<Rightarrow> string \<times> bool" where
  "migrate_dir_once path_exists parent_ok rename_ok new_dir old_dir =
     (if path_exists new_dir \<or> \<not> path_exists old_dir then (new_dir, False)
      else if \<not> parent_ok then (old_dir, False)
      else if rename_ok then (new_dir, True) else (old_dir, False))"

definition data_dir :: "environment \<Rightarrow> (string \<Rightarrow> bool) \<Rightarrow> bool \<Rightarrow> bool \<Rightarrow> string option \<Rightarrow> string" where
  "data_dir env path_exists parent_ok rename_ok exe_dir =
     (case en_data_dir env of
        Some over \<Rightarrow> over
      | None \<Rightarrow>
          (case install_scope_for env path_exists exe_dir of
             MachineWide \<Rightarrow>
               fst (migrate_dir_once path_exists parent_ok rename_ok (machine_wide_data_dir env) (machine_wide_old_data_dir env))
           | PerUser \<Rightarrow>
               (case per_user_data_dir env of
                  Some new_dir \<Rightarrow>
                    (case per_user_old_data_dir env of
                       Some old_dir \<Rightarrow> fst (migrate_dir_once path_exists parent_ok rename_ok new_dir old_dir)
                     | None \<Rightarrow> new_dir)
                | None \<Rightarrow> ''.stt-server'')))"

definition default_user_models_dir :: "environment \<Rightarrow> (string \<Rightarrow> bool) \<Rightarrow> bool \<Rightarrow> bool \<Rightarrow> string option \<Rightarrow> string option" where
  "default_user_models_dir env path_exists parent_ok rename_ok exe_dir =
     (case en_user_models_dir env of
        Some over \<Rightarrow> Some over
      | None \<Rightarrow> Some (join (data_dir env path_exists parent_ok rename_ok exe_dir) ''models''))"

text \<open>
  A token file: created with a fresh token of 64 characters, of which the writing may stop after
  \<open>torn\<close> characters, or read back. The result carries what the file holds afterwards.
\<close>

datatype token_creation = Create_ok | Create_torn nat | Create_fails

definition token_file_named ::
    "token_creation \<Rightarrow> string \<Rightarrow> string option \<Rightarrow> (string + string) \<times> string option" where
  "token_file_named creation fresh content =
     (case content of
        None \<Rightarrow>
          (case creation of
             Create_ok \<Rightarrow> (Inr fresh, Some fresh)
           | Create_torn n \<Rightarrow> (Inl ''I/O error'', Some (take n fresh))
           | Create_fails \<Rightarrow> (Inl ''I/O error'', None))
      | Some token \<Rightarrow> (if length token \<noteq> 64 then Inl ''Invalid token file'' else Inr token, Some token))"

subsection \<open>Comparing the installed models with the disk\<close>

datatype stat = Stat_missing | Stat_error | Stat nat "int option"

record disk =
  dk_stat :: "string \<Rightarrow> stat"
  dk_in_models :: "string \<Rightarrow> bool"
  dk_is_file :: "string \<Rightarrow> bool"

definition reconcile_user_folder_row :: "disk \<Rightarrow> installed \<Rightarrow> action list" where
  "reconcile_user_folder_row dk r =
     (case dk_stat dk (in_path r) of
        Stat_missing \<Rightarrow> [Delete_installed (in_id r), Deselect (in_id r)]
      | Stat_error \<Rightarrow> [Needs_verification (in_id r)]
      | Stat len mtime \<Rightarrow>
          if mtime = None \<or> Some len \<noteq> in_size_bytes r \<or> mtime \<noteq> in_mtime_ms r
          then [Needs_verification (in_id r)] else [])"

definition expected_file :: "catalog_model list \<Rightarrow> installed \<Rightarrow> catalog_file option" where
  "expected_file catalog r =
     Option.bind (in_quant r) (\<lambda>q.
     Option.bind (List.find (\<lambda>m. cm_slug m = in_id r) catalog) (\<lambda>m.
       List.find (\<lambda>f. cf_quant f = q) (cm_files m)))"

definition unchanged :: "disk \<Rightarrow> catalog_model list \<Rightarrow> installed \<Rightarrow> bool" where
  "unchanged dk catalog r =
     (case expected_file catalog r of
        None \<Rightarrow> False
      | Some f \<Rightarrow>
          eq_ignore_case (cf_sha256 f) (in_sha256 r) \<and> in_size_bytes r = Some (cf_size_bytes f)
          \<and> dk_in_models dk (in_path r)
          \<and> (case dk_stat dk (in_path r) of
               Stat len (Some mtime) \<Rightarrow> len = cf_size_bytes f \<and> Some mtime = in_mtime_ms r
             | _ \<Rightarrow> False))"

definition reconcile_row :: "disk \<Rightarrow> catalog_model list \<Rightarrow> installed \<Rightarrow> action list" where
  "reconcile_row dk catalog r =
     (if in_source r = source_user_folder then reconcile_user_folder_row dk r
      else if \<not> unchanged dk catalog r then [Needs_verification (in_id r)] else [])"

definition reconcile_installed :: "disk \<Rightarrow> catalog_model list \<Rightarrow> sdata \<Rightarrow> action list" where
  "reconcile_installed dk catalog d = concat (map (reconcile_row dk catalog) (d_installed d))"

subsection \<open>Stages\<close>

text \<open>\<open>is_uuid\<close> is the parser of operation ids.\<close>

definition reconcile_interrupted_imports :: "(string \<Rightarrow> bool) \<Rightarrow> string \<Rightarrow> sdata \<Rightarrow> action list" where
  "reconcile_interrupted_imports is_uuid dir d =
     concat (map (\<lambda>r.
       if \<not> is_uuid (o_id r) \<or> d_files d (stage_path dir (o_id r)) = None then []
       else [Move_file (stage_path dir (o_id r)) (quarantine_path dir (o_id r @ ''-restart''))])
       (filter (\<lambda>r. o_kind r = ''import'' \<and> o_state r = ''failed'') (d_operations d)))"

definition staging_max_age :: int where "staging_max_age = 7 * 24 * 60 * 60 * 1000"

text \<open>An entry of the staging folder: its name and, if its metadata can be read, whether it is a file and when it changed.\<close>

type_synonym stage_entry = "string \<times> (bool \<times> int option) option"

definition stage_owned :: "catalog_model list \<Rightarrow> sdata \<Rightarrow> string \<Rightarrow> bool" where
  "stage_owned catalog d stem \<longleftrightarrow>
     list_ex (\<lambda>r. active r \<and>
         (contains (lowercase (o_id r)) stem
          \<or> list_ex (\<lambda>m. cm_slug m = o_model r \<and> list_ex (\<lambda>f. lowercase (cf_sha256 f) = stem) (cm_files m)) catalog))
       (d_operations d)"

definition stage_installed :: "disk \<Rightarrow> sdata \<Rightarrow> string \<Rightarrow> bool" where
  "stage_installed dk d stem =
     (case List.find (\<lambda>r. lowercase (in_sha256 r) = stem \<and> \<not> in_needs_verification r) (d_installed d) of
        None \<Rightarrow> False | Some r \<Rightarrow> dk_is_file dk (in_path r))"

definition stage_old :: "int \<Rightarrow> int \<Rightarrow> int option \<Rightarrow> bool" where
  "stage_old time max_age mtime = (case mtime of None \<Rightarrow> False | Some t \<Rightarrow> t \<le> time \<and> time - t > max_age)"

definition stale_stage :: "disk \<Rightarrow> int \<Rightarrow> int \<Rightarrow> catalog_model list \<Rightarrow> sdata \<Rightarrow> stage_entry \<Rightarrow> bool" where
  "stale_stage dk time max_age catalog d e =
     (case (strip_suffix ''.part'' (lowercase (fst e)), snd e) of
        (Some stem, Some (True, mtime)) \<Rightarrow>
          \<not> stage_owned catalog d stem \<and> (stage_installed dk d stem \<or> stage_old time max_age mtime)
      | _ \<Rightarrow> False)"

text \<open>
  The removals that succeed; no entries are listed if the folder cannot be read, \<open>None\<close> stands for an
  entry that cannot, and nothing happens if the operations cannot be queried.
\<close>

definition prune_staging ::
    "disk \<Rightarrow> int \<Rightarrow> int \<Rightarrow> bool \<Rightarrow> (string \<Rightarrow> bool) \<Rightarrow> string \<Rightarrow> catalog_model list \<Rightarrow> stage_entry option list \<Rightarrow> sdata \<Rightarrow> action list" where
  "prune_staging dk time max_age query_ok remove_ok dir catalog entries d =
     (if \<not> query_ok then []
      else map (\<lambda>e. Write_file (join (join dir ''staging'') (fst e)) None)
        (filter (\<lambda>e. stale_stage dk time max_age catalog d e \<and> remove_ok (fst e)) (List.map_filter (\<lambda>e. e) entries)))"

subsection \<open>Opening\<close>

definition selected_row :: "sdata \<Rightarrow> installed option" where
  "selected_row d =
     Option.bind (selected_id d) (\<lambda>i. List.find (\<lambda>r. in_id r = i \<and> \<not> in_needs_verification r) (d_installed d))"

definition startup_model :: "journal_file option \<Rightarrow> sdata \<Rightarrow> string + installed option" where
  "startup_model jf d =
     map_sum id (\<lambda>jo.
       case jo of
         None \<Rightarrow> selected_row d
       | Some j \<Rightarrow>
           if terminal (j_phase j) then selected_row d
           else (case j_ready_model j of
                   None \<Rightarrow> selected_row d
                 | Some i \<Rightarrow> List.find (\<lambda>r. in_id r = i \<and> \<not> in_needs_verification r) (d_installed d)))
       (read_journal jf)"

record startup =
  op_now :: int
  op_is_uuid :: "string \<Rightarrow> bool"
  op_dir :: string
  op_catalog :: "catalog_model list"
  op_disk :: disk
  op_entries :: "stage_entry option list"
  op_query_ok :: bool
  op_remove_ok :: "string \<Rightarrow> bool"
  op_journal :: "journal_file option"

text \<open>The state after each part of an opening that meets no failing statement, and the model it loads.\<close>

definition after_imports :: "startup \<Rightarrow> sdata \<Rightarrow> sdata" where
  "after_imports op d =
     (let d = interrupt_all (op_now op) d in
      if maintenance (op_journal op) then d
      else performs (reconcile_interrupted_imports (op_is_uuid op) (op_dir op) d) d)"

definition after_reconcile :: "startup \<Rightarrow> sdata \<Rightarrow> sdata" where
  "after_reconcile op d =
     (let d = after_imports op d in performs (reconcile_installed (op_disk op) (op_catalog op) d) d)"

definition open_app :: "startup \<Rightarrow> sdata \<Rightarrow> (string + installed option) \<times> sdata" where
  "open_app op d =
     (let d = after_reconcile op d;
          d = (if maintenance (op_journal op) then d
               else performs (prune_staging (op_disk op) (op_now op) staging_max_age (op_query_ok op) (op_remove_ok op)
                      (op_dir op) (op_catalog op) (op_entries op) d) d)
      in (startup_model (op_journal op) d, d))"

subsection \<open>What an opening keeps and checks\<close>

lemma contains_refl: "contains s s"
  by (cases s) (simp_all add: strip_prefix_Some)

text \<open>Actions on rows: which rows are gone, which are marked.\<close>

definition row_action :: "action \<Rightarrow> bool" where
  "row_action a \<longleftrightarrow> (\<exists>i. a = Needs_verification i \<or> a = Delete_installed i \<or> a = Deselect i)"

lemma row_action_files: "row_action a \<Longrightarrow> d_files (perform a d) = d_files d"
  by (auto simp: row_action_def needs_verification_def delete_installed_def deselect_def)

lemma row_action_cases:
  assumes "row_action a"
  obtains i where "a = Needs_verification i"
      "\<And>d. d_installed (perform a d)
        = map (\<lambda>r. if in_id r = i then r\<lparr>in_needs_verification := True\<rparr> else r) (d_installed d)"
    | i where "a = Delete_installed i" "\<And>d. d_installed (perform a d) = filter (\<lambda>r. in_id r \<noteq> i) (d_installed d)"
    | i where "a = Deselect i" "\<And>d. d_installed (perform a d) = d_installed d"
  using assms unfolding row_action_def
  by (elim exE disjE) (simp_all add: needs_verification_def update_installed_def delete_installed_def deselect_def)

lemma row_action_backward:
  assumes "row_action a" "r \<in> set (d_installed (perform a d))" "\<not> in_needs_verification r"
  shows "r \<in> set (d_installed d) \<and> a \<noteq> Needs_verification (in_id r) \<and> a \<noteq> Delete_installed (in_id r)"
  using assms(1)
proof (cases rule: row_action_cases)
  case (1 i)
  with assms(2) obtain q where "q \<in> set (d_installed d)" "r = (if in_id q = i then q\<lparr>in_needs_verification := True\<rparr> else q)"
    by auto
  with assms(3) 1(1) show ?thesis by (auto split: if_splits)
next
  case (2 i)
  with assms(2) show ?thesis by auto
next
  case (3 i)
  with assms(2) show ?thesis by simp
qed

lemma row_actions_backward:
  "list_all row_action as \<Longrightarrow> r \<in> set (d_installed (performs as d)) \<Longrightarrow> \<not> in_needs_verification r \<Longrightarrow>
     r \<in> set (d_installed d) \<and> Needs_verification (in_id r) \<notin> set as \<and> Delete_installed (in_id r) \<notin> set as"
proof (induction as arbitrary: d)
  case (Cons a as)
  then have "r \<in> set (d_installed (perform a d)) \<and> Needs_verification (in_id r) \<notin> set as \<and> Delete_installed (in_id r) \<notin> set as"
    by simp
  with row_action_backward [of a r d] Cons.prems show ?case by auto
qed simp

text \<open>\<open>q\<close> is the row \<open>r\<close>, except perhaps for being marked.\<close>

definition same_row :: "installed \<Rightarrow> installed \<Rightarrow> bool" where
  "same_row r q \<longleftrightarrow> q\<lparr>in_needs_verification := in_needs_verification r\<rparr> = r"

lemma same_row_refl: "same_row r r" "same_row r (q\<lparr>in_needs_verification := True\<rparr>) = same_row r q"
  by (simp_all add: same_row_def)

lemma same_row_id: "same_row r q \<Longrightarrow> in_id q = in_id r"
  unfolding same_row_def by (metis installed.select_convs(1) installed.surjective installed.update_convs(13))

lemma row_actions_forward:
  "list_all row_action as \<Longrightarrow> q \<in> set (d_installed d) \<Longrightarrow> same_row r q \<Longrightarrow> Delete_installed (in_id r) \<notin> set as \<Longrightarrow>
     \<exists>q' \<in> set (d_installed (performs as d)). same_row r q'"
proof (induction as arbitrary: d q)
  case (Cons a as)
  have "\<exists>q' \<in> set (d_installed (perform a d)). same_row r q'"
  proof -
    from Cons.prems(1) have "row_action a" by simp
    then show ?thesis
    proof (cases rule: row_action_cases)
      case (1 i)
      with Cons.prems(2,3) show ?thesis
        by (intro bexI [of _ "if in_id q = i then q\<lparr>in_needs_verification := True\<rparr> else q"]) (auto simp: same_row_refl)
    next
      case (2 i)
      with Cons.prems(2-4) same_row_id [OF Cons.prems(3)] show ?thesis by (intro bexI [of _ q]) auto
    next
      case (3 i)
      with Cons.prems(2,3) show ?thesis by auto
    qed
  qed
  with Cons show ?case by auto
qed auto

lemma row_actions_files: "list_all row_action as \<Longrightarrow> d_files (performs as d) = d_files d"
  by (induction as arbitrary: d) (simp_all add: row_action_files)

lemma reconcile_row_actions:
  "list_all row_action (reconcile_row dk catalog r)"
  by (simp add: reconcile_row_def reconcile_user_folder_row_def row_action_def split: stat.split)

lemma reconcile_actions: "list_all row_action (reconcile_installed dk catalog d)"
  using reconcile_row_actions by (auto simp: reconcile_installed_def list_all_iff)

text \<open>A row whose fingerprint still is the one recorded when its content was checked.\<close>

definition fingerprint_ok :: "disk \<Rightarrow> catalog_model list \<Rightarrow> installed \<Rightarrow> bool" where
  "fingerprint_ok dk catalog r \<longleftrightarrow>
     (\<exists>len mtime. dk_stat dk (in_path r) = Stat len (Some mtime) \<and> in_size_bytes r = Some len \<and> in_mtime_ms r = Some mtime)
     \<and> (in_source r \<noteq> source_user_folder \<longrightarrow>
          dk_in_models dk (in_path r)
          \<and> (\<exists>f. expected_file catalog r = Some f \<and> in_size_bytes r = Some (cf_size_bytes f)
               \<and> eq_ignore_case (cf_sha256 f) (in_sha256 r)))"

lemma reconcile_row_quiet:
  assumes "Needs_verification (in_id r) \<notin> set (reconcile_row dk catalog r)"
    "Delete_installed (in_id r) \<notin> set (reconcile_row dk catalog r)"
  shows "fingerprint_ok dk catalog r"
proof (cases "in_source r = source_user_folder")
  case True
  with assms show ?thesis
    by (auto simp: reconcile_row_def reconcile_user_folder_row_def fingerprint_ok_def split: stat.splits if_splits)
next
  case False
  with assms have "unchanged dk catalog r" by (auto simp: reconcile_row_def)
  with False show ?thesis
    by (auto simp: unchanged_def fingerprint_ok_def split: option.splits stat.splits)
qed

text \<open>The stages are the only files an opening touches.\<close>

definition inside :: "string \<Rightarrow> string \<Rightarrow> bool" where
  "inside dir p \<longleftrightarrow> strip_prefix (join dir []) p \<noteq> None"

definition stage_action :: "string \<Rightarrow> action \<Rightarrow> bool" where
  "stage_action dir a \<longleftrightarrow>
     (\<exists>x y. a = Move_file (stage_path dir x) (quarantine_path dir y)) \<or> (\<exists>n. a = Write_file (join (join dir ''staging'') n) None)"

lemma stage_action_effect:
  assumes "stage_action dir a"
  shows "d_installed (perform a d) = d_installed d \<and> d_settings (perform a d) = d_settings d
    \<and> (\<not> inside (join dir ''staging'') p \<longrightarrow> \<not> inside (join dir ''quarantine'') p \<longrightarrow> d_files (perform a d) p = d_files d p)"
proof -
  have "inside (join dir ''staging'') (stage_path dir x)" "inside (join dir ''quarantine'') (quarantine_path dir x)"
    "inside (join dir ''staging'') (join (join dir ''staging'') x)" for x
    by (auto simp: inside_def stage_path_def quarantine_path_def join_def strip_prefix_Some)
  with assms show ?thesis
    by (auto simp: stage_action_def move_file_def put_data_file_def split: option.splits)
qed

lemma stage_actions_effect:
  "list_all (stage_action dir) as \<Longrightarrow> d_installed (performs as d) = d_installed d \<and> d_settings (performs as d) = d_settings d
    \<and> (\<not> inside (join dir ''staging'') p \<longrightarrow> \<not> inside (join dir ''quarantine'') p \<longrightarrow> d_files (performs as d) p = d_files d p)"
  by (induction as arbitrary: d) (use stage_action_effect in auto)

lemma opening_stage_actions:
  "list_all (stage_action dir) (reconcile_interrupted_imports is_uuid dir d)"
  "list_all (stage_action dir) (prune_staging dk time max_age query_ok remove_ok dir catalog entries d)"
  by (auto simp: reconcile_interrupted_imports_def prune_staging_def list_all_iff stage_action_def)

lemma after_imports_keeps:
  "d_installed (after_imports op d) = d_installed d \<and> d_settings (after_imports op d) = d_settings d
    \<and> (\<not> inside (join (op_dir op) ''staging'') p \<longrightarrow> \<not> inside (join (op_dir op) ''quarantine'') p \<longrightarrow>
         d_files (after_imports op d) p = d_files d p)"
  using stage_actions_effect [OF opening_stage_actions(1)]
  by (simp add: after_imports_def Let_def interrupt_all_def)

lemma open_app_keeps:
  "d_installed (snd (open_app op d)) = d_installed (after_reconcile op d)
    \<and> d_settings (snd (open_app op d)) = d_settings (after_reconcile op d)
    \<and> (\<not> inside (join (op_dir op) ''staging'') p \<longrightarrow> \<not> inside (join (op_dir op) ''quarantine'') p \<longrightarrow>
         d_files (snd (open_app op d)) p = d_files d p)"
  using stage_actions_effect [OF opening_stage_actions(2), where d = "after_reconcile op d" and p = p] after_imports_keeps [of op d p]
    row_actions_files [OF reconcile_actions]
  by (simp add: open_app_def Let_def after_reconcile_def)

lemma startup_model_row: "startup_model jf d = Inr (Some r) \<Longrightarrow> r \<in> set (d_installed d) \<and> \<not> in_needs_verification r"
  by (auto simp: startup_model_def selected_row_def map_sum_def bind_eq_Some_conv
      split: sum.splits option.splits if_splits dest: find_Some_set)

text \<open>
  C38. Opening the data folder never loads a model that may have changed and never loses one: the model
  whose load is started, like every model left without a mark, is a row as it was before whose file has
  the size and time recorded when its content was last checked, and, if the server manages it, the
  catalog's size and hash on record inside the models folder; every managed model stays registered, at
  most marked; and no file outside the staging and quarantine folders is touched.
\<close>

theorem startup_checks_models:
  assumes "distinct (map in_id (d_installed d))" "open_app op d = (res, d')"
  shows "(\<forall>r. res = Inr (Some r) \<longrightarrow> r \<in> set (d_installed d') \<and> \<not> in_needs_verification r)
    \<and> (\<forall>r \<in> set (d_installed d'). \<not> in_needs_verification r \<longrightarrow>
          r \<in> set (d_installed d) \<and> fingerprint_ok (op_disk op) (op_catalog op) r)
    \<and> (\<forall>r \<in> set (d_installed d). in_source r \<noteq> source_user_folder \<longrightarrow> (\<exists>q \<in> set (d_installed d'). same_row r q))
    \<and> (\<forall>p. \<not> inside (join (op_dir op) ''staging'') p \<longrightarrow> \<not> inside (join (op_dir op) ''quarantine'') p \<longrightarrow>
          d_files d' p = d_files d p)"
proof (intro conjI allI ballI impI)
  let ?acts = "reconcile_installed (op_disk op) (op_catalog op) (after_imports op d)"
  have rows: "d_installed d' = d_installed (performs ?acts (after_imports op d))"
    using assms(2) open_app_keeps [of op d] by (simp add: after_reconcile_def Let_def)
  have before: "d_installed (after_imports op d) = d_installed d" using after_imports_keeps by blast
  have mine: "set (reconcile_row (op_disk op) (op_catalog op) r) \<subseteq> set ?acts" if "r \<in> set (d_installed d)" for r
    using that before by (auto simp: reconcile_installed_def)
  show "r \<in> set (d_installed d')" "\<not> in_needs_verification r" if "res = Inr (Some r)" for r
    using startup_model_row assms(2) that by (auto simp: open_app_def Let_def)
  show "r \<in> set (d_installed d)" "fingerprint_ok (op_disk op) (op_catalog op) r"
    if "r \<in> set (d_installed d')" "\<not> in_needs_verification r" for r
  proof -
    note quiet = row_actions_backward [OF reconcile_actions that(1) [unfolded rows] that(2)]
    then show "r \<in> set (d_installed d)" using before by simp
    with quiet mine show "fingerprint_ok (op_disk op) (op_catalog op) r" by (intro reconcile_row_quiet) auto
  qed
  show "\<exists>q \<in> set (d_installed d'). same_row r q" if r: "r \<in> set (d_installed d)" "in_source r \<noteq> source_user_folder" for r
  proof -
    have "Delete_installed (in_id r) \<notin> set ?acts"
    proof
      assume "Delete_installed (in_id r) \<in> set ?acts"
      then obtain q where q: "q \<in> set (d_installed d)" "Delete_installed (in_id r) \<in> set (reconcile_row (op_disk op) (op_catalog op) q)"
        using before by (auto simp: reconcile_installed_def)
      then have "in_id q = in_id r" "in_source q = source_user_folder"
        by (auto simp: reconcile_row_def reconcile_user_folder_row_def split: stat.splits if_splits)
      with r q(1) assms(1) show False by (auto simp: distinct_map inj_on_def)
    qed
    with row_actions_forward [OF reconcile_actions, of r "after_imports op d" r] r(1) before same_row_refl(1) rows
    show ?thesis by simp
  qed
  show "d_files d' p = d_files d p" if "\<not> inside (join (op_dir op) ''staging'') p" "\<not> inside (join (op_dir op) ''quarantine'') p" for p
    using open_app_keeps [of op d p] that assms(2) by simp
qed

text \<open>A token file whose first writing was cut short blocks every later opening.\<close>

lemma torn_token_blocks:
  assumes "length fresh = 64" "n < 64"
  shows "fst (token_file_named c fresh' (snd (token_file_named (Create_torn n) fresh None))) = Inl ''Invalid token file''"
  using assms by (simp add: token_file_named_def)

definition managed_row :: installed where
  "managed_row = \<lparr>in_id = ''m'', in_path = ''d/models/abc.gguf'', in_sha256 = ''abc'', in_quant = Some ''Q8_0'',
     in_filename = Some ''m.gguf'', in_size_bytes = Some 3, in_source = source_import, in_custom_name = None,
     in_custom_arch = None, in_custom_languages = None, in_custom_claims = None, in_mtime_ms = Some 1,
     in_needs_verification = False\<rparr>"

definition managed_data :: sdata where
  "managed_data = empty_data\<lparr>d_installed := [managed_row], d_settings := [''selected_model'' \<mapsto> ''m'']\<rparr>"

definition sample_startup :: startup where
  "sample_startup = \<lparr>op_now = 9, op_is_uuid = (\<lambda>_. True), op_dir = ''d'', op_catalog = [],
     op_disk = \<lparr>dk_stat = (\<lambda>_. Stat 3 (Some 1)), dk_in_models = (\<lambda>_. True), dk_is_file = (\<lambda>_. True)\<rparr>,
     op_entries = [], op_query_ok = True, op_remove_ok = (\<lambda>_. True), op_journal = None\<rparr>"

theorem startup_checks_models_witness:
  "\<exists>q \<in> set (d_installed (snd (open_app sample_startup managed_data))). same_row managed_row q"
proof -
  have "distinct (map in_id (d_installed managed_data))" by (simp add: managed_data_def)
  moreover have "open_app sample_startup managed_data
      = (fst (open_app sample_startup managed_data), snd (open_app sample_startup managed_data))" by simp
  moreover have "managed_row \<in> set (d_installed managed_data)" "in_source managed_row \<noteq> source_user_folder"
    by (simp_all add: managed_data_def managed_row_def source_import_def source_user_folder_def)
  ultimately show ?thesis using startup_checks_models [of managed_data sample_startup] by blast
qed


end
