(* ===== verification/Dropin.thy ===== *)
theory Dropin
  imports Verify Gguf_Probe Catalog
begin

text \<open>
  \<open>src/dropin.rs\<close>: the refresh of the folder of drop-in models. The registered rows of the folder are
  compared with their files, hashed and probed again where they changed; then the other files of the folder
  are hashed and probed and registered as catalog or custom models. The resolution of links in a path
  (\<open>canonicalize\<close>) is given; reading, hashing and the database are the steps of a task.
\<close>

subsection \<open>Paths\<close>

text \<open>
  The name of a path, and its stem and extension: a dot at the beginning starts no extension. The paths are
  those of files: they end neither with a separator nor with two dots.
\<close>

definition is_separator :: "char \<Rightarrow> bool" where "is_separator c \<longleftrightarrow> c = CHR ''/'' \<or> c = CHR 0x5C"

definition path_name :: "string \<Rightarrow> string" where
  "path_name p = rev (takeWhile (\<lambda>c. \<not> is_separator c) (rev p))"

definition rsplit_dot :: "string \<Rightarrow> (string \<times> string) option" where
  "rsplit_dot n =
     (if CHR ''.'' \<in> set n then
        let ext = rev (takeWhile (\<lambda>c. c \<noteq> CHR ''.'') (rev n)) in Some (take (length n - length ext - 1) n, ext)
      else None)"

definition split_name :: "string \<Rightarrow> string \<times> string option" where
  "split_name n =
     (case rsplit_dot n of Some (stem, ext) \<Rightarrow> if stem = [] then (n, None) else (stem, Some ext) | None \<Rightarrow> (n, None))"

definition file_stem :: "string \<Rightarrow> string" where
  "file_stem p = (if path_name p = [] then ''model'' else fst (split_name (path_name p)))"

definition file_name :: "string \<Rightarrow> string" where
  "file_name p = (if path_name p = [] then ''model.gguf'' else path_name p)"

definition is_gguf :: "string \<Rightarrow> bool" where
  "is_gguf p \<longleftrightarrow> (case snd (split_name (path_name p)) of Some ext \<Rightarrow> eq_ignore_case ext ''gguf'' | None \<Rightarrow> False)"

subsection \<open>Reading files and rows\<close>

text \<open>\<open>fs::metadata\<close> with its kinds of error: a missing file is \<open>None\<close>, another error \<open>Inl\<close>.\<close>

definition stat_file :: "string \<Rightarrow> ('e, string + file_state option) task" where
  "stat_file p = t_catch (act (\<lambda>e d. Inr (d_files d p)) (\<lambda>e d. []))"

definition file_mtime_ms :: "string \<Rightarrow> ('e, int option) task" where
  "file_mtime_ms p = t_bind (t_catch (file_at p)) (\<lambda>r. t_return (case r of Inr f \<Rightarrow> fi_mtime f | Inl e \<Rightarrow> None))"

definition probe_file :: "string \<Rightarrow> ('e, string + gguf_probe) task" where
  "probe_file p = t_catch (t_bind (file_at p) (\<lambda>f. t_lift (probe_gguf_file (Some (fi_bytes f)))))"

definition hash_and_probe ::
    "(byte list \<Rightarrow> string) \<Rightarrow> string \<Rightarrow> (string, nat \<times> string \<times> (string + gguf_probe)) task" where
  "hash_and_probe sha256 p =
     t_bind (size_of p) (\<lambda>bytes.
     t_bind (mtime_of p) (\<lambda>before.
     t_bind (sha256_of sha256 p) (\<lambda>hash.
     t_bind (probe_file p) (\<lambda>probe.
     t_bind (mtime_of p) (\<lambda>after.
     t_bind (if before \<noteq> after then t_return True else t_bind (size_of p) (\<lambda>again. t_return (again \<noteq> bytes))) (\<lambda>changed.
       if changed then t_fail ''File changed while being read; retry refresh after copying finishes''
       else t_return (bytes, hash, probe)))))))"

definition registered_user_folder_rows :: "(string, installed list) task" where
  "registered_user_folder_rows = query (\<lambda>d. filter (\<lambda>r. in_source r = source_user_folder) (d_installed d))"

definition installed_from_managed_store :: "string \<Rightarrow> (string, bool) task" where
  "installed_from_managed_store i =
     query (\<lambda>d. case find_installed i d of
        Some r \<Rightarrow> in_source r = source_catalog_download \<or> in_source r = source_import
      | None \<Rightarrow> False)"

text \<open>Two statements under one lock, not a transaction; then the loaded model is dropped if it is this one.\<close>

definition unregister_and_deselect :: "string \<Rightarrow> (string, unit) task" where
  "unregister_and_deselect i =
     t_then (act_torn (\<lambda>e d. if se_torn e = 0 then [] else [Delete_installed i]) (\<lambda>e d. Inr ()) (\<lambda>e d. [Delete_installed i, Deselect i]))
       (t_ignore (statement (\<lambda>e. Unload_if i)))"

definition set_items_task :: "string \<Rightarrow> nat \<Rightarrow> nat \<Rightarrow> ('e, unit) task" where
  "set_items_task op k n = t_ignore (statement (\<lambda>e. Set_items op k n (se_now e)))"

subsection \<open>The rows of a refresh\<close>

definition catalog_row ::
    "string \<Rightarrow> string \<Rightarrow> string \<Rightarrow> nat \<Rightarrow> int option \<Rightarrow> catalog_file \<Rightarrow> installed" where
  "catalog_row i p hash bytes mtime f =
     \<lparr>in_id = i, in_path = p, in_sha256 = hash, in_quant = Some (cf_quant f), in_filename = Some (cf_filename f),
      in_size_bytes = Some bytes, in_source = source_user_folder, in_custom_name = None, in_custom_arch = None,
      in_custom_languages = None, in_custom_claims = None, in_mtime_ms = mtime, in_needs_verification = False\<rparr>"

definition probe_id :: "string \<Rightarrow> string \<Rightarrow> gguf_probe \<Rightarrow> string" where
  "probe_id p hash pr = custom_model_id (unwrap_or (file_stem p) (gp_display_name pr)) hash"

definition custom_row :: "string \<Rightarrow> string \<Rightarrow> nat \<Rightarrow> int option \<Rightarrow> gguf_probe \<Rightarrow> installed" where
  "custom_row p hash bytes mtime pr =
     \<lparr>in_id = probe_id p hash pr, in_path = p, in_sha256 = hash, in_quant = None, in_filename = Some (file_name p),
      in_size_bytes = Some bytes, in_source = source_user_folder, in_custom_name = gp_display_name pr,
      in_custom_arch = Some (gp_architecture pr), in_custom_languages = Some (JArr (map JStr (gp_languages pr))),
      in_custom_claims = Some (JObj [(''streaming'', JBool (gp_supports_streaming pr)),
        (''translate'', JBool (gp_supports_translation pr)), (''lang_detect'', JBool (gp_supports_language_detect pr))]),
      in_mtime_ms = mtime, in_needs_verification = False\<rparr>"

record drop_scan =
  sn_registered :: "json list"
  sn_duplicates :: "json list"
  sn_unsupported :: "json list"
  sn_removed :: "json list"
  sn_changed :: "json list"
  sn_known :: "string list"
  sn_done :: nat

definition nothing_scanned :: drop_scan where
  "nothing_scanned = \<lparr>sn_registered = [], sn_duplicates = [], sn_unsupported = [], sn_removed = [], sn_changed = [],
     sn_known = [], sn_done = 0\<rparr>"

definition build_result :: "drop_scan \<Rightarrow> json" where
  "build_result s =
     JObj [(''registered'', JArr (sn_registered s)), (''duplicates'', JArr (sn_duplicates s)),
       (''unsupported'', JArr (sn_unsupported s)), (''removed'', JArr (sn_removed s)), (''changed'', JArr (sn_changed s))]"

definition add_registered :: "json \<Rightarrow> drop_scan \<Rightarrow> drop_scan" where "add_registered v s = s\<lparr>sn_registered := sn_registered s @ [v]\<rparr>"
definition add_duplicate :: "json \<Rightarrow> drop_scan \<Rightarrow> drop_scan" where "add_duplicate v s = s\<lparr>sn_duplicates := sn_duplicates s @ [v]\<rparr>"
definition add_unsupported :: "json \<Rightarrow> drop_scan \<Rightarrow> drop_scan" where "add_unsupported v s = s\<lparr>sn_unsupported := sn_unsupported s @ [v]\<rparr>"
definition add_removed :: "json \<Rightarrow> drop_scan \<Rightarrow> drop_scan" where "add_removed v s = s\<lparr>sn_removed := sn_removed s @ [v]\<rparr>"
definition add_changed :: "json \<Rightarrow> drop_scan \<Rightarrow> drop_scan" where "add_changed v s = s\<lparr>sn_changed := sn_changed s @ [v]\<rparr>"
definition add_known :: "string \<Rightarrow> drop_scan \<Rightarrow> drop_scan" where "add_known p s = s\<lparr>sn_known := p # sn_known s\<rparr>"

definition retryable :: "string \<Rightarrow> string \<Rightarrow> json" where
  "retryable p reason = JObj [(''path'', JStr p), (''reason'', JStr reason), (''retryable'', JBool True)]"

definition refused :: "string \<Rightarrow> string \<Rightarrow> json" where
  "refused p reason = JObj [(''path'', JStr p), (''reason'', JStr reason)]"

definition unsupported_reason :: "gguf_probe \<Rightarrow> string" where
  "unsupported_reason pr = ''unsupported architecture '' @ quoted (gp_architecture pr)"

subsection \<open>The registered rows\<close>

text \<open>
  What a changed file becomes: a row of the catalog model it now is, kept under its old id; a custom model,
  under the id of its content; or nothing, when its architecture is unknown or it is no model file.
\<close>

definition register_changed ::
    "catalog_model list \<Rightarrow> installed \<Rightarrow> int option \<Rightarrow> nat \<times> string \<times> (string + gguf_probe) \<Rightarrow> drop_scan \<Rightarrow> (string, drop_scan) task" where
  "register_changed catalog r mtime checked s =
     (case checked of (bytes, hash, probe) \<Rightarrow>
       let p = in_path r in
       (case catalog_match_by_hash catalog bytes hash of
          Some (m, f) \<Rightarrow>
            t_then (statement (\<lambda>e. Upsert_user_folder (catalog_row (in_id r) p hash bytes mtime f)))
              (t_return (add_changed (JObj [(''id'', JStr (in_id r)), (''path'', JStr p), (''catalog_id'', JStr (cm_slug m))]) s))
        | None \<Rightarrow>
            (case probe of
               Inl reason \<Rightarrow> t_then (unregister_and_deselect (in_id r)) (t_return (add_unsupported (refused p reason) s))
             | Inr pr \<Rightarrow>
                 if is_supported pr then
                   t_then (statement (\<lambda>e. Upsert_user_folder (custom_row p hash bytes mtime pr)))
                   (t_then (t_when (probe_id p hash pr \<noteq> in_id r) (unregister_and_deselect (in_id r)))
                     (t_return (add_changed (JObj [(''id'', JStr (probe_id p hash pr)), (''path'', JStr p)]) s)))
                 else t_then (unregister_and_deselect (in_id r)) (t_return (add_unsupported (refused p (unsupported_reason pr)) s)))))"

definition check_row ::
    "(byte list \<Rightarrow> string) \<Rightarrow> (string \<Rightarrow> string) \<Rightarrow> catalog_model list \<Rightarrow> installed \<Rightarrow> drop_scan \<Rightarrow> (string, drop_scan) task" where
  "check_row sha256 canonical catalog r s =
     (let p = in_path r;
          unreadable = (\<lambda>reason. t_then (statement (\<lambda>e. Needs_verification (in_id r)))
            (t_return (add_known (canonical p) (add_unsupported (retryable p reason) s))))
      in t_bind (stat_file p) (\<lambda>current.
         case current of
           Inr None \<Rightarrow> t_then (unregister_and_deselect (in_id r))
             (t_return (add_removed (JObj [(''id'', JStr (in_id r)), (''path'', JStr p)]) s))
         | Inl reason \<Rightarrow> unreadable reason
         | Inr (Some f) \<Rightarrow>
             t_bind (file_mtime_ms p) (\<lambda>mtime.
             if \<not> in_needs_verification r \<and> in_size_bytes r = Some (file_size f) \<and> in_mtime_ms r = mtime
             then t_return (add_known (canonical p) s)
             else t_bind (t_catch (hash_and_probe sha256 p)) (\<lambda>checked.
               case checked of
                 Inl reason \<Rightarrow> unreadable reason
               | Inr c \<Rightarrow> t_bind (register_changed catalog r mtime c s) (\<lambda>s. t_return (add_known (canonical p) s))))))"

fun check_rows ::
    "(byte list \<Rightarrow> string) \<Rightarrow> (string \<Rightarrow> string) \<Rightarrow> catalog_model list \<Rightarrow> string \<Rightarrow> nat \<Rightarrow> installed list \<Rightarrow> drop_scan \<Rightarrow>
     (string, drop_scan) task" where
  "check_rows sha256 canonical catalog op n [] s = t_return s"
| "check_rows sha256 canonical catalog op n (r # rs) s =
     t_bind (check_row sha256 canonical catalog r s) (\<lambda>s.
       let s = s\<lparr>sn_done := sn_done s + 1\<rparr> in
       t_then (set_items_task op (sn_done s) n) (check_rows sha256 canonical catalog op n rs s))"

subsection \<open>The files of the folder\<close>

text \<open>The candidates of a listing; an entry that cannot be read is listed as unsupported, with the system's reason.\<close>

fun candidates ::
    "string \<Rightarrow> (string \<Rightarrow> string) \<Rightarrow> string \<Rightarrow> (string \<times> bool) option list \<Rightarrow> drop_scan \<Rightarrow> string list \<times> drop_scan" where
  "candidates entry_error canonical dir [] s = ([], s)"
| "candidates entry_error canonical dir (None # es) s =
     candidates entry_error canonical dir es (add_unsupported (retryable dir entry_error) s)"
| "candidates entry_error canonical dir (Some (n, is_dir) # es) s =
     (let p = join dir n in
      case candidates entry_error canonical dir es s of
        (ps, s') \<Rightarrow> (if is_dir \<or> \<not> is_gguf p \<or> canonical p \<in> set (sn_known s) then ps else p # ps, s'))"

definition register_candidate ::
    "catalog_model list \<Rightarrow> string \<Rightarrow> nat \<times> string \<times> (string + gguf_probe) \<Rightarrow> drop_scan \<Rightarrow> (string, drop_scan) task" where
  "register_candidate catalog p checked s =
     (case checked of (bytes, hash, probe) \<Rightarrow>
       (case catalog_match_by_hash catalog bytes hash of
          Some (m, f) \<Rightarrow>
            t_bind (installed_from_managed_store (cm_slug m)) (\<lambda>managed.
            if managed then
              t_return (add_duplicate (JObj [(''path'', JStr p), (''catalog_id'', JStr (cm_slug m)), (''quant'', JStr (cf_quant f))]) s)
            else t_bind (file_mtime_ms p) (\<lambda>mtime.
              t_then (statement (\<lambda>e. Upsert_user_folder (catalog_row (cm_slug m) p hash bytes mtime f)))
                (t_return (add_registered (JObj [(''id'', JStr (cm_slug m)), (''quant'', JStr (cf_quant f)),
                   (''source'', JStr source_user_folder), (''path'', JStr p)]) s))))
        | None \<Rightarrow>
            (case probe of
               Inl reason \<Rightarrow> t_return (add_unsupported (refused p reason) s)
             | Inr pr \<Rightarrow>
                 if is_supported pr then
                   t_bind (file_mtime_ms p) (\<lambda>mtime.
                   t_then (statement (\<lambda>e. Upsert_user_folder (custom_row p hash bytes mtime pr)))
                     (t_return (add_registered (JObj [(''id'', JStr (probe_id p hash pr)), (''quant'', JNull),
                        (''source'', JStr source_user_folder), (''custom'', JBool True),
                        (''architecture'', JStr (gp_architecture pr)), (''path'', JStr p)]) s)))
                 else t_return (add_unsupported (refused p (unsupported_reason pr)) s))))"

fun register_candidates ::
    "(byte list \<Rightarrow> string) \<Rightarrow> catalog_model list \<Rightarrow> string \<Rightarrow> nat \<Rightarrow> string list \<Rightarrow> drop_scan \<Rightarrow> (string, drop_scan) task" where
  "register_candidates sha256 catalog op n [] s = t_return s"
| "register_candidates sha256 catalog op n (p # ps) s =
     t_bind (t_catch (hash_and_probe sha256 p)) (\<lambda>checked.
     t_bind (case checked of
         Inl reason \<Rightarrow> t_return (add_unsupported (retryable p reason) s)
       | Inr c \<Rightarrow> register_candidate catalog p c s) (\<lambda>s.
       let s = s\<lparr>sn_done := sn_done s + 1\<rparr> in
       t_then (set_items_task op (sn_done s) n) (register_candidates sha256 catalog op n ps s)))"

definition scan_and_register ::
    "(byte list \<Rightarrow> string) \<Rightarrow> string \<Rightarrow> (string \<Rightarrow> string) \<Rightarrow> catalog_model list \<Rightarrow> string \<Rightarrow> string \<Rightarrow> (string, json) task" where
  "scan_and_register sha256 entry_error canonical catalog op dir =
     t_bind (t_map_err (\<lambda>e. ''Cannot read model folder: '' @ e)
       (act (\<lambda>e d. case se_listing e of Dir_missing \<Rightarrow> Inl ''not found'' | Entries es \<Rightarrow> Inr es) (\<lambda>e d. []))) (\<lambda>entries.
     t_bind registered_user_folder_rows (\<lambda>rows.
     t_bind (check_rows sha256 canonical catalog op (length rows) rows nothing_scanned) (\<lambda>s.
       case candidates entry_error canonical dir entries s of
         (ps, s) \<Rightarrow>
           let n = length rows + length ps in
           t_then (set_items_task op (sn_done s) n)
           (t_bind (register_candidates sha256 catalog op n ps s) (\<lambda>s. t_return (build_result s))))))"

subsection \<open>The operation\<close>

text \<open>The route, which answers before the task runs, and the task.\<close>

definition refresh_operation :: "string \<Rightarrow> string \<Rightarrow> int \<Rightarrow> operation" where
  "refresh_operation kind op now = queued_operation op [] kind ''queued'' 0 now"

definition refresh_models :: "string option \<Rightarrow> string \<Rightarrow> string \<Rightarrow> string \<Rightarrow> (api_error, json) task" where
  "refresh_models header admin user op =
     t_then (t_lift (authorized header admin user))
     (t_then (t_map_err internal (act
         (\<lambda>e d. if find_operation op d \<noteq> None then Inl ''UNIQUE constraint failed'' else Inr ())
         (\<lambda>e d. [Insert_operation (refresh_operation ''refresh'' op (se_now e))])))
       (t_return (JObj [(''operation_id'', JStr op), (''state'', JStr ''queued'')])))"

definition run_refresh ::
    "(byte list \<Rightarrow> string) \<Rightarrow> string \<Rightarrow> (string \<Rightarrow> string) \<Rightarrow> (string \<Rightarrow> bool) \<Rightarrow> catalog_model list \<Rightarrow> string option \<Rightarrow> string \<Rightarrow> (string, unit) task" where
  "run_refresh sha256 entry_error canonical dir_exists catalog default_dir op =
     t_then (t_ignore (update_operation_task op ''running'' None None 0))
     (t_bind (t_catch (query user_models_dir_setting)) (\<lambda>configured.
      case configured of
        Inl e \<Rightarrow> t_ignore (update_operation_task op ''failed'' (Some (message (internal e))) None 0)
      | Inr setting \<Rightarrow>
          (case or_else setting default_dir of
             None \<Rightarrow> t_ignore (update_operation_task op ''failed'' (Some ''user_models_dir is not configured'')
               (Some ''user_models_dir_not_configured'') 0)
           | Some dir \<Rightarrow>
               t_bind (t_catch (if dir_exists dir then scan_and_register sha256 entry_error canonical catalog op dir
                 else t_return (build_result nothing_scanned))) (\<lambda>result.
               case result of
                 Inr v \<Rightarrow> t_then (t_ignore (statement (\<lambda>e. Set_result op v)))
                   (t_ignore (update_operation_task op ''completed'' None None 0))
               | Inl e \<Rightarrow> t_ignore (update_operation_task op ''failed'' (Some e) None 0)))))"


end
