(* ===== verification/Task_Triples.thy ===== *)
theory Task_Triples
  imports Verify
begin

text \<open>
  Hoare triples on the state for tasks that run alone, one rule per combinator: from \<open>I\<close> a task ends with
  an answer \<open>x\<close> in \<open>Q x\<close> or, failing, in \<open>E\<close>, whatever its script makes fail.
\<close>

definition triple :: "(sdata \<Rightarrow> bool) \<Rightarrow> ('e, 'a) task \<Rightarrow> ('a \<Rightarrow> sdata \<Rightarrow> bool) \<Rightarrow> (sdata \<Rightarrow> bool) \<Rightarrow> bool" where
  "triple I m Q E \<longleftrightarrow>
     (\<forall>w. alone w \<and> I (ts_data w) \<longrightarrow>
        twp m (\<lambda>x w'. alone w' \<and> Q x (ts_data w')) (\<lambda>_ w'. alone w' \<and> E (ts_data w')) w)"

lemma tripleD:
  assumes "triple I m Q E" "alone w" "I (ts_data w)" "m w = (r, w')"
  shows "case r of Inr x \<Rightarrow> Q x (ts_data w') | Inl e \<Rightarrow> E (ts_data w')"
  using assms by (auto simp: triple_def twp_def split: sum.splits)

lemma triple_mono:
  assumes "triple I m Q E" "\<And>d. J d \<Longrightarrow> I d" "\<And>x d. Q x d \<Longrightarrow> R x d" "\<And>d. E d \<Longrightarrow> F d"
  shows "triple J m R F"
  using assms unfolding triple_def by (blast intro: twp_mono)

text \<open>A fact about the answer that does not depend on the state is available in what follows.\<close>

lemma triple_fact: "(A \<Longrightarrow> triple I m Q E) \<Longrightarrow> triple (\<lambda>d. I d \<and> A) m Q E"
  by (cases A) (simp_all add: triple_def)

lemma triple_bind:
  assumes "triple I m Q E" "\<And>x. triple (Q x) (f x) R E"
  shows "triple I (t_bind m f) R E"
  unfolding triple_def twp_bind
proof (intro allI impI)
  fix w assume "alone w \<and> I (ts_data w)"
  with assms(1) have "twp m (\<lambda>x w'. alone w' \<and> Q x (ts_data w')) (\<lambda>_ w'. alone w' \<and> E (ts_data w')) w"
    by (simp add: triple_def)
  then show "twp m (\<lambda>x. twp (f x) (\<lambda>x w'. alone w' \<and> R x (ts_data w')) (\<lambda>_ w'. alone w' \<and> E (ts_data w')))
      (\<lambda>_ w'. alone w' \<and> E (ts_data w')) w"
    by (rule twp_mono) (use assms(2) in \<open>auto simp: triple_def\<close>)
qed

lemma triple_then:
  "triple I m (\<lambda>_. J) E \<Longrightarrow> triple J n R E \<Longrightarrow> triple I (t_then m n) R E"
  unfolding t_then_def by (rule triple_bind)

lemma triple_return: "(\<And>d. I d \<Longrightarrow> Q x d) \<Longrightarrow> triple I (t_return x) Q E"
  and triple_fail: "(\<And>d. I d \<Longrightarrow> E d) \<Longrightarrow> triple I (t_fail e) Q E"
  and triple_lift: "(\<And>d x. I d \<Longrightarrow> r = Inr x \<Longrightarrow> Q x d) \<Longrightarrow> (\<And>d e. I d \<Longrightarrow> r = Inl e \<Longrightarrow> E d) \<Longrightarrow> triple I (t_lift r) Q E"
  by (auto simp: triple_def twp_basic twp_lift split: sum.split)

lemma triple_catch: "triple I m (\<lambda>x. Q (Inr x)) F \<Longrightarrow> (\<And>e d. F d \<Longrightarrow> Q (Inl e) d) \<Longrightarrow> triple I (t_catch m) Q E"
  unfolding triple_def twp_basic by (blast intro: twp_mono)

lemma triple_map_err: "triple I m Q E \<Longrightarrow> triple I (t_map_err g m) Q E"
  unfolding triple_def twp_basic by blast

lemma triple_ignore: "triple I m (\<lambda>_. J) J \<Longrightarrow> triple I (t_ignore m) (\<lambda>_. J) E"
  unfolding triple_def twp_basic by (blast intro: twp_mono)

lemma triple_when: "(b \<Longrightarrow> triple I m (\<lambda>_. J) E) \<Longrightarrow> (\<not> b \<Longrightarrow> (\<And>d. I d \<Longrightarrow> J d)) \<Longrightarrow> triple I (t_when b m) (\<lambda>_. J) E"
  by (auto simp: t_when_def intro: triple_return)

lemma triple_cases:
  "(b \<Longrightarrow> triple I m Q E) \<Longrightarrow> (\<not> b \<Longrightarrow> triple I n Q E) \<Longrightarrow> triple I (if b then m else n) Q E"
  "(z = None \<Longrightarrow> triple I m Q E) \<Longrightarrow> (\<And>x. z = Some x \<Longrightarrow> triple I (k x) Q E) \<Longrightarrow>
     triple I (case z of None \<Rightarrow> m | Some x \<Rightarrow> k x) Q E"
  "(\<And>x. s = Inl x \<Longrightarrow> triple I (l x) Q E) \<Longrightarrow> (\<And>x. s = Inr x \<Longrightarrow> triple I (r x) Q E) \<Longrightarrow>
     triple I (case s of Inl x \<Rightarrow> l x | Inr x \<Rightarrow> r x) Q E"
  by (cases b; cases z; cases s; simp)+

lemma triple_act_torn:
  assumes "\<And>e d msg. I d \<Longrightarrow> E (performs (torn e d) d)"
    "\<And>e d x. I d \<Longrightarrow> answer e d = Inr x \<Longrightarrow> Q x (performs (actions e d) d)"
    "\<And>e d msg. I d \<Longrightarrow> answer e d = Inl msg \<Longrightarrow> E (performs (actions e d) d)"
  shows "triple I (act_torn torn answer actions) Q E"
  using assms
  by (auto simp: triple_def twp_act_torn Let_def split: option.split sum.split)

lemma triple_act:
  assumes "\<And>d. I d \<Longrightarrow> E d"
    "\<And>e d x. I d \<Longrightarrow> answer e d = Inr x \<Longrightarrow> Q x (performs (actions e d) d)"
    "\<And>e d msg. I d \<Longrightarrow> answer e d = Inl msg \<Longrightarrow> E (performs (actions e d) d)"
  shows "triple I (act answer actions) Q E"
  unfolding act_def by (rule triple_act_torn) (use assms in auto)

lemma triple_statement: "(\<And>e d. I d \<Longrightarrow> Q () (perform (a e) d)) \<Longrightarrow> (\<And>d. I d \<Longrightarrow> E d) \<Longrightarrow> triple I (statement a) Q E"
  unfolding statement_def by (rule triple_act) auto

lemma triple_query: "(\<And>d. I d \<Longrightarrow> Q (f d) d) \<Longrightarrow> (\<And>d. I d \<Longrightarrow> E d) \<Longrightarrow> triple I (query f) Q E"
  unfolding query_def by (rule triple_act) auto

lemma triple_ask: "(\<And>e d. I d \<Longrightarrow> Q (f e) d) \<Longrightarrow> triple I (ask f) Q E"
  by (simp add: triple_def twp_ask)

lemma triple_update_operation:
  "(\<And>t d. I d \<Longrightarrow> Q () (perform (Update_operation i st err c b t) d)) \<Longrightarrow> (\<And>d. I d \<Longrightarrow> E d) \<Longrightarrow>
     triple I (update_operation_task i st err c b) Q E"
  unfolding update_operation_task_def by (rule triple_statement)

text \<open>Reading a file of a state in which the files do not change.\<close>

lemma triple_file_at:
  "(\<And>d f. I d \<Longrightarrow> d_files d p = Some f \<Longrightarrow> Q f d) \<Longrightarrow> (\<And>d. I d \<Longrightarrow> E d) \<Longrightarrow> triple I (file_at p) Q E"
  unfolding file_at_def by (rule triple_act) (auto simp: outcome_simps)

lemma triple_size_of:
  "(\<And>d f. I d \<Longrightarrow> d_files d p = Some f \<Longrightarrow> Q (file_size f) d) \<Longrightarrow> (\<And>d. I d \<Longrightarrow> E d) \<Longrightarrow> triple I (size_of p) Q E"
  unfolding size_of_def
  by (rule triple_bind [where Q = "\<lambda>f d. I d \<and> d_files d p = Some f"]; rule triple_file_at triple_return; auto)

lemma triple_sha256_of:
  "(\<And>d f. I d \<Longrightarrow> d_files d p = Some f \<Longrightarrow> Q (h (fi_bytes f)) d) \<Longrightarrow> (\<And>d. I d \<Longrightarrow> E d) \<Longrightarrow> triple I (sha256_of h p) Q E"
  unfolding sha256_of_def
  by (rule triple_bind [where Q = "\<lambda>f d. I d \<and> d_files d p = Some f"]; rule triple_file_at triple_return; auto)

lemma triple_mtime_of: "(\<And>d. I d \<Longrightarrow> E d) \<Longrightarrow> triple I (mtime_of p) (\<lambda>_. I) E"
  unfolding mtime_of_def
  by (rule triple_bind [where Q = "\<lambda>f. I"]; rule triple_file_at triple_lift; auto)

end
