(* ===== verification/Import_User.thy ===== *)
theory Import_User
  imports Startup Import Dropin Task_Triples
begin

text \<open>
  \<open>src/import_user.rs\<close>: the import of the models of another installation. Each model file of the other
  folder is hashed and looked up in the catalog, copied into the staging folder, hashed again and promoted
  under an operation of its own. Whether the system gives a copied file the time of its source is given, and
  so is the text an error prints for debugging. A run is proved to bring in only verified catalog files and to
  leave everything else as it was.
\<close>

subsection \<open>The route\<close>

definition paths_equal :: "string \<Rightarrow> string \<Rightarrow> bool" where "paths_equal a b = eq_ignore_case a b"

definition import_source :: "environment \<Rightarrow> string option \<Rightarrow> api_error + string" where
  "import_source env requested =
     (case requested of
        Some p \<Rightarrow> Inr p
      | None \<Rightarrow> ok_or (api_error_new 400 ''missing_from''
          ''No 'from' path given and no per-user data directory could be resolved (LOCALAPPDATA is unset)'')
          (per_user_data_dir env))"

definition same_data_dir :: api_error where
  "same_data_dir = api_error_new 400 ''same_data_dir'' ''Source and destination data directories are the same''"

text \<open>The answer, and the folder with which the task is started.\<close>

definition import_user_models ::
    "environment \<Rightarrow> string \<Rightarrow> string option \<Rightarrow> string \<Rightarrow> string \<Rightarrow> string option \<Rightarrow> string \<Rightarrow>
     (api_error, string \<times> json) task" where
  "import_user_models env dir header admin user requested op =
     t_then (t_lift (authorized header admin user))
     (t_bind (t_lift (import_source env requested)) (\<lambda>source.
      if paths_equal source dir then t_fail same_data_dir
      else t_then (t_map_err internal (act
          (\<lambda>e d. if find_operation op d \<noteq> None then Inl ''UNIQUE constraint failed'' else Inr ())
          (\<lambda>e d. [Insert_operation (queued_operation op [] ''import_user'' ''queued'' 0 (se_now e))])))
        (t_return (source, JObj [(''operation_id'', JStr op), (''state'', JStr ''queued'')]))))"

subsection \<open>One file\<close>

definition hash_candidate :: "(byte list \<Rightarrow> string) \<Rightarrow> string \<Rightarrow> (string, nat \<times> string) task" where
  "hash_candidate sha256 p =
     t_bind (size_of p) (\<lambda>bytes. t_bind (sha256_of sha256 p) (\<lambda>hash. t_return (bytes, hash)))"

text \<open>A copy that fails may leave a part of the file.\<close>

definition copy_to_staging :: "(int option \<Rightarrow> int \<Rightarrow> int option) \<Rightarrow> string \<Rightarrow> string \<Rightarrow> (string, unit) task" where
  "copy_to_staging copied_time source stage =
     t_then (act (\<lambda>e d. Inr ()) (\<lambda>e d. []))
     (act_torn
       (\<lambda>e d. case d_files d source of
          None \<Rightarrow> []
        | Some f \<Rightarrow> if se_torn e = 0 then []
            else [Write_file stage (Some \<lparr>fi_bytes = take (se_torn e - 1) (fi_bytes f), fi_mtime = Some (se_now e)\<rparr>)])
       (\<lambda>e d. case d_files d source of None \<Rightarrow> Inl ''not found'' | Some f \<Rightarrow> Inr ())
       (\<lambda>e d. case d_files d source of
          None \<Rightarrow> []
        | Some f \<Rightarrow> [Write_file stage (Some (f\<lparr>fi_mtime := copied_time (fi_mtime f) (se_now e)\<rparr>))]))"

text \<open>Both calls are made, whether or not the first fails, and neither result is looked at.\<close>

definition quarantine_copy :: "string \<Rightarrow> string \<Rightarrow> string \<Rightarrow> (string, unit) task" where
  "quarantine_copy dir stage name =
     t_then (t_ignore (act (\<lambda>e d. Inr ()) (\<lambda>e d. []) :: (string, unit) task))
       (t_ignore (rename_task stage (quarantine_path dir name)))"

definition promote_copy ::
    "string \<Rightarrow> string \<Rightarrow> string \<Rightarrow> catalog_file \<Rightarrow> string \<Rightarrow> nat \<Rightarrow> (string, unit) task" where
  "promote_copy dir sub i f stage bytes =
     t_then (act (\<lambda>e d. if find_operation sub d \<noteq> None then Inl ''UNIQUE constraint failed'' else Inr ())
         (\<lambda>e d. [Insert_operation (queued_operation sub i ''import_user'' ''running'' (cf_size_bytes f) (se_now e))]))
     (t_bind (t_catch (promote_task (promotion_of dir sub i f stage bytes source_import_user))) (\<lambda>promoted.
      t_then (t_ignore (statement (\<lambda>e. Delete_operation sub))) (t_lift promoted)))"

definition import_one ::
    "(byte list \<Rightarrow> string) \<Rightarrow> (int option \<Rightarrow> int \<Rightarrow> int option) \<Rightarrow> string \<Rightarrow> string \<Rightarrow> string \<Rightarrow> string \<Rightarrow> catalog_file \<Rightarrow> string \<Rightarrow>
     (string, unit) task" where
  "import_one sha256 copied_time dir op sub i f source =
     (let stage = stage_path dir (op @ ''-'' @ i) in
      t_then (copy_to_staging copied_time source stage)
      (t_bind (hash_candidate sha256 stage) (\<lambda>(bytes, hash).
        if bytes \<noteq> cf_size_bytes f \<or> \<not> eq_ignore_case hash (cf_sha256 f) then
          t_then (quarantine_copy dir stage (op @ ''-'' @ i @ ''-hash-mismatch''))
            (t_fail ''Copied file's SHA-256 no longer matches the catalog'')
        else promote_copy dir sub i f stage bytes)))"

subsection \<open>The files of the other installation\<close>

record user_import =
  ui_imported :: "json list"
  ui_skipped :: "json list"
  ui_unsupported :: "json list"

definition nothing_imported :: user_import where
  "nothing_imported = \<lparr>ui_imported = [], ui_skipped = [], ui_unsupported = []\<rparr>"

definition import_result :: "user_import \<Rightarrow> json" where
  "import_result s =
     JObj [(''imported'', JArr (ui_imported s)), (''skipped'', JArr (ui_skipped s)), (''unsupported'', JArr (ui_unsupported s))]"

definition unsupported_model :: "string \<Rightarrow> string \<Rightarrow> user_import \<Rightarrow> user_import" where
  "unsupported_model i reason s =
     s\<lparr>ui_unsupported := ui_unsupported s @ [JObj [(''model'', JStr i), (''reason'', JStr reason)]]\<rparr>"

definition unsupported_path :: "string \<Rightarrow> string \<Rightarrow> user_import \<Rightarrow> user_import" where
  "unsupported_path p reason s = s\<lparr>ui_unsupported := ui_unsupported s @ [refused p reason]\<rparr>"

definition is_cancelled :: "string \<Rightarrow> ('e, bool) task" where
  "is_cancelled op = t_bind (t_catch (operation_state op)) (\<lambda>r. t_return (r = Inr (Some ''cancelled'')))"

definition import_candidate ::
    "(byte list \<Rightarrow> string) \<Rightarrow> (int option \<Rightarrow> int \<Rightarrow> int option) \<Rightarrow> (api_error \<Rightarrow> string) \<Rightarrow> string \<Rightarrow> catalog_model list \<Rightarrow>
     string \<Rightarrow> string \<Rightarrow> string \<Rightarrow> user_import \<Rightarrow> ('e, user_import) task" where
  "import_candidate sha256 copied_time debug_error dir catalog op sub p s =
     t_bind (t_catch (hash_candidate sha256 p)) (\<lambda>candidate.
     case candidate of
       Inl reason \<Rightarrow> t_return (unsupported_path p reason s)
     | Inr (bytes, hash) \<Rightarrow>
         (case catalog_match_by_hash catalog bytes hash of
            None \<Rightarrow> t_return (unsupported_path p ''No catalog model matches this file's size and SHA-256'' s)
          | Some (m, f) \<Rightarrow>
              t_bind (t_catch (t_map_err internal (installed_file (cm_slug m)))) (\<lambda>present.
              case present of
                Inl e \<Rightarrow> t_return (unsupported_model (cm_slug m) (debug_error e) s)
              | Inr (Some r) \<Rightarrow>
                  t_return (s\<lparr>ui_skipped := ui_skipped s @
                    [JObj [(''model'', JStr (cm_slug m)), (''reason'', JStr ''already_installed'')]]\<rparr>)
              | Inr None \<Rightarrow>
                  t_bind (t_catch (import_one sha256 copied_time dir op sub (cm_slug m) f p)) (\<lambda>result.
                  case result of
                    Inr u \<Rightarrow> t_return (s\<lparr>ui_imported := ui_imported s @ [JObj [(''model'', JStr (cm_slug m))]]\<rparr>)
                  | Inl reason \<Rightarrow> t_return (unsupported_model (cm_slug m) reason s)))))"

text \<open>The loop; it ends early, with no result, when the operation was cancelled. \<open>sub k\<close> is the id made for file \<open>k\<close>.\<close>

fun import_files ::
    "(byte list \<Rightarrow> string) \<Rightarrow> (int option \<Rightarrow> int \<Rightarrow> int option) \<Rightarrow> (api_error \<Rightarrow> string) \<Rightarrow> string \<Rightarrow> catalog_model list \<Rightarrow>
     string \<Rightarrow> (nat \<Rightarrow> string) \<Rightarrow> nat \<Rightarrow> nat \<Rightarrow> string list \<Rightarrow> user_import \<Rightarrow> ('e, user_import option) task" where
  "import_files sha256 copied_time debug_error dir catalog op sub n k [] s = t_return (Some s)"
| "import_files sha256 copied_time debug_error dir catalog op sub n k (p # ps) s =
     t_bind (is_cancelled op) (\<lambda>stopped.
     if stopped then t_return None
     else t_then (set_items_task op k n)
       (t_bind (import_candidate sha256 copied_time debug_error dir catalog op (sub k) p s) (\<lambda>s.
        import_files sha256 copied_time debug_error dir catalog op sub n (k + 1) ps s)))"

text \<open>The model files of the listing; entries that cannot be read are passed over.\<close>

definition model_files :: "string \<Rightarrow> (string \<times> bool) option list \<Rightarrow> string list" where
  "model_files folder entries =
     filter is_gguf (map (\<lambda>e. join folder (fst (the e))) (filter (\<lambda>e. e \<noteq> None) entries))"

definition run_import_user ::
    "(byte list \<Rightarrow> string) \<Rightarrow> (int option \<Rightarrow> int \<Rightarrow> int option) \<Rightarrow> (api_error \<Rightarrow> string) \<Rightarrow> string \<Rightarrow> catalog_model list \<Rightarrow>
     string \<Rightarrow> (nat \<Rightarrow> string) \<Rightarrow> string \<Rightarrow> (string, unit) task" where
  "run_import_user sha256 copied_time debug_error dir catalog op sub source =
     t_then (t_ignore (update_operation_task op ''running'' None None 0))
     (t_bind (t_catch (act (\<lambda>e d. Inr (se_listing e)) (\<lambda>e d. []))) (\<lambda>listing.
      case listing of
        Inl reason \<Rightarrow> t_ignore (update_operation_task op ''failed''
          (Some (''Could not read source models folder '' @ join source ''models'' @ '': '' @ reason)) None 0)
      | Inr l \<Rightarrow>
          let ps = (case l of Dir_missing \<Rightarrow> [] | Entries es \<Rightarrow> model_files (join source ''models'') es) in
          t_bind (import_files sha256 copied_time debug_error dir catalog op sub (length ps) 0 ps nothing_imported) (\<lambda>r.
          case r of
            None \<Rightarrow> t_return ()
          | Some s \<Rightarrow>
              t_then (set_items_task op (length ps) (length ps))
              (t_then (t_ignore (statement (\<lambda>e. Set_result op (import_result s))))
                (t_ignore (update_operation_task op ''completed'' None None 0))))))"

subsection \<open>What an import leaves behind\<close>

definition intact :: "(byte list \<Rightarrow> string) \<Rightarrow> catalog_file \<Rightarrow> file_state \<Rightarrow> bool" where
  "intact sha256 f c \<longleftrightarrow> file_size c = cf_size_bytes f \<and> eq_ignore_case (sha256 (fi_bytes c)) (cf_sha256 f)"

text \<open>A row the import wrote: it is a catalog file of its model, and the file in the store has its size and hash.\<close>

definition brought ::
    "(byte list \<Rightarrow> string) \<Rightarrow> string \<Rightarrow> catalog_model list \<Rightarrow> (string \<Rightarrow> file_state option) \<Rightarrow> installed \<Rightarrow> bool" where
  "brought sha256 dir catalog F r \<longleftrightarrow>
     in_source r = source_import_user \<and>
     (\<exists>m \<in> set catalog. \<exists>f \<in> set (cm_files m). in_id r = cm_slug m \<and> in_sha256 r = cf_sha256 f \<and>
        in_path r = store_path dir (cf_sha256 f) \<and> in_size_bytes r = Some (cf_size_bytes f) \<and>
        (\<exists>c. F (in_path r) = Some c \<and> intact sha256 f c))"

text \<open>The paths below the data folder.\<close>

definition inside :: "string \<Rightarrow> string \<Rightarrow> bool" where "inside dir p \<longleftrightarrow> strip_prefix (dir @ ''/'') p \<noteq> None"

definition import_inv ::
    "(byte list \<Rightarrow> string) \<Rightarrow> string \<Rightarrow> catalog_model list \<Rightarrow> installed list \<Rightarrow> (string \<Rightarrow> file_state option) \<Rightarrow> sdata \<Rightarrow> bool" where
  "import_inv sha256 dir catalog rows F d \<longleftrightarrow>
     tables_ok d \<and> (\<exists>new. d_installed d = rows @ new \<and> (\<forall>r \<in> set new. brought sha256 dir catalog (d_files d) r)) \<and>
     (\<forall>p. \<not> inside dir p \<longrightarrow> d_files d p = F p)"

text \<open>A hash names one model of the catalog.\<close>

definition sha_identifies :: "catalog_model list \<Rightarrow> bool" where
  "sha_identifies catalog \<longleftrightarrow>
     (\<forall>m \<in> set catalog. \<forall>m' \<in> set catalog. \<forall>f \<in> set (cm_files m). \<forall>f' \<in> set (cm_files m').
        cf_sha256 f = cf_sha256 f' \<longrightarrow> cm_slug m = cm_slug m')"

lemma inside_data_paths [simp]:
  "inside dir (store_path dir sha)" "inside dir (stage_path dir n)" "inside dir (quarantine_path dir n)"
  by (auto simp: inside_def store_path_def stage_path_def quarantine_path_def join_def strip_prefix_Some)

lemma store_path_only:
  "stage_path dir n \<noteq> store_path dir sha" "quarantine_path dir n \<noteq> store_path dir sha"
  "store_path dir sha = store_path dir sha' \<longleftrightarrow> sha = sha'"
  by (simp_all add: store_path_def stage_path_def quarantine_path_def join_def)

lemma brought_same:
  assumes "brought h dir catalog F r" "\<And>sha. in_path r = store_path dir sha \<Longrightarrow> F' (in_path r) = F (in_path r)"
  shows "brought h dir catalog F' r"
  using assms unfolding brought_def by metis

lemma import_inv_books:
  assumes "import_inv h dir catalog rows F d" "d_files (perform a d) = d_files d" "d_installed (perform a d) = d_installed d"
  shows "import_inv h dir catalog rows F (perform a d)"
  using assms tables_ok_perform [of d a] unfolding import_inv_def by simp

lemma import_inv_files:
  assumes "import_inv h dir catalog rows F d" "d_installed (perform a d) = d_installed d"
    "\<And>p. \<not> inside dir p \<Longrightarrow> d_files (perform a d) p = d_files d p" "\<And>sha. d_files (perform a d) (store_path dir sha) = d_files d (store_path dir sha)"
  shows "import_inv h dir catalog rows F (perform a d)"
proof -
  from assms(1) obtain new where new: "d_installed d = rows @ new" "\<forall>r \<in> set new. brought h dir catalog (d_files d) r"
    by (auto simp: import_inv_def)
  have "\<forall>r \<in> set new. brought h dir catalog (d_files (perform a d)) r"
    using new(2) assms(4) by (metis brought_same)
  with new(1) assms(1-3) tables_ok_perform [of d a] show ?thesis by (simp add: import_inv_def)
qed

lemma import_inv_actions:
  assumes "import_inv h dir catalog rows F d"
  shows "import_inv h dir catalog rows F (perform (Set_items i k n t) d)"
    "import_inv h dir catalog rows F (perform (Set_result i v) d)"
    "import_inv h dir catalog rows F (perform (Update_operation i st e c b t) d)"
    "import_inv h dir catalog rows F (perform (Delete_operation i) d)"
    "import_inv h dir catalog rows F (perform (Insert_operation r) d)"
    "import_inv h dir catalog rows F (perform (Write_file (stage_path dir z) f) d)"
    "import_inv h dir catalog rows F (perform (Move_file (stage_path dir z) (quarantine_path dir q)) d)"
proof -
  show "import_inv h dir catalog rows F (perform (Write_file (stage_path dir z) f) d)"
    by (rule import_inv_files [OF assms]) (auto simp: put_data_file_def store_path_only(1) [symmetric])
  show "import_inv h dir catalog rows F (perform (Move_file (stage_path dir z) (quarantine_path dir q)) d)"
    by (rule import_inv_files [OF assms])
      (auto simp: move_file_def put_data_file_def store_path_only(1,2) [symmetric] split: option.splits)
qed (rule import_inv_books [OF assms];
    simp add: set_progress_items_def set_operation_result_def update_operation_with_code_def delete_operation_def insert_operation_def)+

text \<open>A promotion touches the staged file and the one in the store, and nothing when the model is installed.\<close>

lemma promote_file_changes:
  "p \<noteq> pr_stage q \<Longrightarrow> p \<noteq> store_path (pr_dir q) (cf_sha256 (pr_file q)) \<Longrightarrow> d_files (snd (promote q x d)) p = d_files d p"
  "find_installed (pr_model q) d \<noteq> None \<Longrightarrow> snd (promote q x d) = d"
  by (auto simp: promote_def Let_def move_file_def put_data_file_def finish_promotion_def
      split: option.splits bind_splits promote_fault.splits)

lemma promote_rows:
  "d_installed (snd (promote q x d)) = d_installed d \<or>
   (\<exists>t f. d_installed (snd (promote q x d)) = d_installed d @ [promoted_row q t] \<and> d_files d (pr_stage q) = Some f \<and>
      d_files (snd (promote q x d)) (store_path (pr_dir q) (cf_sha256 (pr_file q))) = Some f)"
proof (cases "fst (promote q x d)")
  case (Inl e)
  with promote_Inl_tables show ?thesis by blast
next
  case (Inr u)
  then have "fst (promote q x d) = Inr ()" by simp
  then show ?thesis
    by (rule promote_effect) (auto simp: move_file_def put_data_file_def split: if_splits)
qed

lemma import_inv_promote:
  assumes "import_inv h dir catalog rows F d" "sha_identifies catalog" "m \<in> set catalog" "f \<in> set (cm_files m)"
    "d_files d (stage_path dir n) = Some c" "intact h f c"
  shows "import_inv h dir catalog rows F
    (perform (Promote (promotion_of dir op (cm_slug m) f (stage_path dir n) b source_import_user t) x) d)"
    (is "import_inv _ _ _ _ _ ?d")
proof (cases "find_installed (cm_slug m) d")
  case (Some r)
  with promote_file_changes(2) [of "promotion_of dir op (cm_slug m) f (stage_path dir n) b source_import_user t" d x] assms(1)
  show ?thesis by (simp add: promotion_of_def)
next
  case None
  let ?q = "promotion_of dir op (cm_slug m) f (stage_path dir n) b source_import_user t"
  have files: "d_files ?d p = d_files d p" if "p \<noteq> stage_path dir n" "p \<noteq> store_path dir (cf_sha256 f)" for p
    using promote_file_changes(1) [of p ?q x d] that by (simp add: promotion_of_def)
  from assms(1) obtain new where new: "d_installed d = rows @ new" "\<forall>r \<in> set new. brought h dir catalog (d_files d) r"
    by (auto simp: import_inv_def)
  have kept: "brought h dir catalog (d_files ?d) r" if r: "r \<in> set new" for r
  proof -
    from new(2) r have br: "brought h dir catalog (d_files d) r" by blast
    then obtain m' f' where m': "m' \<in> set catalog" "f' \<in> set (cm_files m')" "in_id r = cm_slug m'"
      "in_path r = store_path dir (cf_sha256 f')" unfolding brought_def by blast
    have "cf_sha256 f' \<noteq> cf_sha256 f"
    proof
      assume "cf_sha256 f' = cf_sha256 f"
      with m'(1,2) assms(2-4) have "in_id r = cm_slug m" unfolding sha_identifies_def m'(3) by blast
      moreover have "r \<in> set (d_installed d)" using r new(1) by simp
      ultimately show False using None unfolding find_installed_None by (metis imageI)
    qed
    with m'(4) br show ?thesis
      by (intro brought_same [OF br] files) (simp_all add: store_path_only(3) store_path_only(1) [symmetric])
  qed
  have ok: "tables_ok ?d" using assms(1) by (intro tables_ok_perform) (simp add: import_inv_def)
  have out: "\<forall>p. \<not> inside dir p \<longrightarrow> d_files ?d p = F p"
    using assms(1) files by (metis import_inv_def inside_data_paths(1,2))
  from promote_rows [of ?q x d] show ?thesis
  proof
    assume "d_installed (snd (promote ?q x d)) = d_installed d"
    with new(1) kept ok out show ?thesis unfolding import_inv_def by auto
  next
    assume "\<exists>t f. d_installed (snd (promote ?q x d)) = d_installed d @ [promoted_row ?q t] \<and> d_files d (pr_stage ?q) = Some f \<and>
      d_files (snd (promote ?q x d)) (store_path (pr_dir ?q) (cf_sha256 (pr_file ?q))) = Some f"
    then obtain t where row: "d_installed ?d = d_installed d @ [promoted_row ?q t]"
      "d_files ?d (store_path dir (cf_sha256 f)) = Some c"
      using assms(5) by (auto simp: promotion_of_def)
    have "brought h dir catalog (d_files ?d) (promoted_row ?q t)"
      unfolding brought_def
      using assms(3,4,6) row(2) by (auto simp: promoted_row_def promotion_of_def)
    with kept have "\<forall>r \<in> set (new @ [promoted_row ?q t]). brought h dir catalog (d_files ?d) r" by auto
    moreover have "d_installed ?d = rows @ (new @ [promoted_row ?q t])" using row(1) new(1) by simp
    ultimately show ?thesis using ok out unfolding import_inv_def by blast
  qed
qed

subsection \<open>The import as a whole\<close>

text \<open>What the staged file is known to be, between its hash and its promotion.\<close>

definition copy_ready ::
    "(byte list \<Rightarrow> string) \<Rightarrow> string \<Rightarrow> catalog_model list \<Rightarrow> installed list \<Rightarrow> (string \<Rightarrow> file_state option) \<Rightarrow>
     string \<Rightarrow> nat \<Rightarrow> string \<Rightarrow> sdata \<Rightarrow> bool" where
  "copy_ready sha256 dir catalog rows F stage bytes hash d \<longleftrightarrow>
     import_inv sha256 dir catalog rows F d \<and>
     (\<exists>c. d_files d stage = Some c \<and> bytes = file_size c \<and> hash = sha256 (fi_bytes c))"

lemma triple_hash_candidate:
  "triple (import_inv h dir catalog rows F) (hash_candidate h p)
     (\<lambda>(bytes, hash). copy_ready h dir catalog rows F p bytes hash) (import_inv h dir catalog rows F)"
proof -
  let ?I = "import_inv h dir catalog rows F"
  have rest: "triple (\<lambda>d. ?I d \<and> (\<exists>c. d_files d p = Some c \<and> bytes = file_size c))
      (t_bind (sha256_of h p) (\<lambda>hash. t_return (bytes, hash))) (\<lambda>(bytes, hash). copy_ready h dir catalog rows F p bytes hash) ?I" for bytes
    by (rule triple_bind [where Q = "\<lambda>hash. copy_ready h dir catalog rows F p bytes hash"]; rule triple_sha256_of triple_return)
      (auto simp: copy_ready_def)
  have sized: "triple ?I (size_of p) (\<lambda>bytes d. ?I d \<and> (\<exists>c. d_files d p = Some c \<and> bytes = file_size c)) ?I"
    by (rule triple_size_of) auto
  show ?thesis unfolding hash_candidate_def by (rule triple_bind [OF sized rest])
qed

lemma triple_hashed: "triple (import_inv h dir catalog rows F) (hash_candidate h p)
     (\<lambda>_. import_inv h dir catalog rows F) (import_inv h dir catalog rows F)"
  by (rule triple_mono [OF triple_hash_candidate]) (auto simp: copy_ready_def)

lemma triple_copy:
  "triple (import_inv h dir catalog rows F) (copy_to_staging copied_time p (stage_path dir z))
     (\<lambda>_. import_inv h dir catalog rows F) (import_inv h dir catalog rows F)"
  unfolding copy_to_staging_def
  by (rule triple_then [where J = "import_inv h dir catalog rows F"], rule triple_act, simp, simp, simp,
      rule triple_act_torn)
    (use import_inv_actions(6) in \<open>auto split: option.splits\<close>)

lemma triple_quarantine_copy:
  "triple (import_inv h dir catalog rows F) (quarantine_copy dir (stage_path dir z) q)
     (\<lambda>_. import_inv h dir catalog rows F) E"
proof -
  let ?I = "import_inv h dir catalog rows F"
  have "triple ?I (act (\<lambda>e d. Inr ()) (\<lambda>e d. []) :: (string, unit) task) (\<lambda>_. ?I) ?I"
    by (rule triple_act) simp_all
  moreover have "triple ?I (rename_task (stage_path dir z) (quarantine_path dir q)) (\<lambda>_. ?I) ?I"
    unfolding rename_task_def by (rule triple_act) (use import_inv_actions(7) in auto)
  ultimately show ?thesis unfolding quarantine_copy_def by (intro triple_then triple_ignore)
qed

lemma copy_ready_insert:
  "copy_ready h dir catalog rows F stage bytes hash d \<Longrightarrow> copy_ready h dir catalog rows F stage bytes hash (perform (Insert_operation r) d)"
  using import_inv_actions(5) by (auto simp: copy_ready_def insert_operation_def)

lemma triple_promote_copy:
  assumes "sha_identifies catalog" "m \<in> set catalog" "f \<in> set (cm_files m)" "bytes = cf_size_bytes f" "eq_ignore_case hash (cf_sha256 f)"
  shows "triple (copy_ready h dir catalog rows F (stage_path dir z) bytes hash) (promote_copy dir sub (cm_slug m) f (stage_path dir z) bytes)
    (\<lambda>_. import_inv h dir catalog rows F) (import_inv h dir catalog rows F)"
proof -
  let ?I = "import_inv h dir catalog rows F" and ?J = "copy_ready h dir catalog rows F (stage_path dir z) bytes hash"
  have weak: "?I d" if "?J d" for d using that by (simp add: copy_ready_def)
  have promoted: "?I (perform (Promote (promotion_of dir sub (cm_slug m) f (stage_path dir z) bytes source_import_user t) x) d)"
    if "?J d" for t x d
  proof -
    from that obtain c where "?I d" "d_files d (stage_path dir z) = Some c" "intact h f c"
      using assms(4,5) by (auto simp: copy_ready_def intact_def)
    then show ?thesis by (rule import_inv_promote [OF _ assms(1-3)])
  qed
  have insert: "triple ?J (act (\<lambda>e d. if find_operation sub d \<noteq> None then Inl ''UNIQUE constraint failed'' else Inr ())
         (\<lambda>e d. [Insert_operation (queued_operation sub (cm_slug m) ''import_user'' ''running'' (cf_size_bytes f) (se_now e))]))
      (\<lambda>_. ?J) ?I"
    by (rule triple_act) (auto simp del: perform.simps intro: weak copy_ready_insert)
  have promote: "triple ?J (t_catch (promote_task (promotion_of dir sub (cm_slug m) f (stage_path dir z) bytes source_import_user)) :: (string, string + unit) task)
      (\<lambda>_. ?I) ?I"
    unfolding promote_task_def
    by (rule triple_catch [where F = ?I], rule triple_act) (auto simp del: perform.simps intro: weak promoted)
  have delete: "triple ?I (t_then (t_ignore (statement (\<lambda>e. Delete_operation sub))) (t_lift r)) (\<lambda>_. ?I) ?I" for r :: "string + unit"
    by (rule triple_then [where J = ?I], rule triple_ignore, rule triple_statement, rule import_inv_actions, assumption, assumption,
        rule triple_lift)
  show ?thesis unfolding promote_copy_def by (rule triple_then [OF insert triple_bind [OF promote delete]])
qed


lemma triple_import_one:
  assumes "sha_identifies catalog" "m \<in> set catalog" "f \<in> set (cm_files m)"
  shows "triple (import_inv h dir catalog rows F) (import_one h copied_time dir op sub (cm_slug m) f p)
    (\<lambda>_. import_inv h dir catalog rows F) (import_inv h dir catalog rows F)"
proof -
  let ?I = "import_inv h dir catalog rows F" and ?name = "op @ ''-'' @ cm_slug m"
  let ?J = "copy_ready h dir catalog rows F (stage_path dir ?name)"
  have "triple (?J bytes hash)
      (if bytes \<noteq> cf_size_bytes f \<or> \<not> eq_ignore_case hash (cf_sha256 f) then
         t_then (quarantine_copy dir (stage_path dir ?name) q) (t_fail e)
       else promote_copy dir sub (cm_slug m) f (stage_path dir ?name) bytes) (\<lambda>_. ?I) ?I" for bytes hash q e
  proof (rule triple_cases(1))
    have "triple ?I (t_then (quarantine_copy dir (stage_path dir ?name) q) (t_fail e) :: (string, unit) task) (\<lambda>_. ?I) ?I"
      by (rule triple_then [OF triple_quarantine_copy triple_fail])
    then show "triple (?J bytes hash) (t_then (quarantine_copy dir (stage_path dir ?name) q) (t_fail e) :: (string, unit) task) (\<lambda>_. ?I) ?I"
      by (rule triple_mono) (simp_all add: copy_ready_def)
  qed (intro triple_promote_copy assms; simp)
  then have "triple (case x of (bytes, hash) \<Rightarrow> ?J bytes hash)
      (case x of (bytes, hash) \<Rightarrow>
         if bytes \<noteq> cf_size_bytes f \<or> \<not> eq_ignore_case hash (cf_sha256 f) then
           t_then (quarantine_copy dir (stage_path dir ?name) q) (t_fail e)
         else promote_copy dir sub (cm_slug m) f (stage_path dir ?name) bytes) (\<lambda>_. ?I) ?I" for x :: "nat \<times> string" and q e
    by (cases x) simp
  with triple_hash_candidate triple_copy show ?thesis unfolding import_one_def Let_def
    by (intro triple_then triple_bind)
qed

lemma triple_import_candidate:
  assumes "sha_identifies catalog"
  shows "triple (import_inv h dir catalog rows F) (import_candidate h copied_time debug_error dir catalog op sub p s)
    (\<lambda>_. import_inv h dir catalog rows F) E"
proof -
  let ?I = "import_inv h dir catalog rows F"
  have one: "triple ?I (t_bind (t_catch (import_one h copied_time dir op sub (cm_slug m) f p)) (\<lambda>result. case result of
        Inr u \<Rightarrow> t_return (k u) | Inl reason \<Rightarrow> t_return (l reason))) (\<lambda>_. ?I) E"
    if "m \<in> set catalog" "f \<in> set (cm_files m)" for m f k l
    by (rule triple_bind [where Q = "\<lambda>_. ?I"], rule triple_catch, rule triple_import_one [OF assms that])
      (simp, rule triple_cases, (rule triple_return, assumption)+)
  have look: "triple ?I (t_catch (t_map_err internal (installed_file i))) (\<lambda>_. ?I) E" for i
    unfolding installed_file_def by (rule triple_catch [where F = ?I], rule triple_map_err, rule triple_query)
  have found: "triple ?I (t_bind (t_catch (t_map_err internal (installed_file i))) (\<lambda>present. case present of
        Inl e \<Rightarrow> t_return (l e) | Inr None \<Rightarrow> n | Inr (Some r) \<Rightarrow> t_return k)) (\<lambda>_. ?I) E"
    if "triple ?I n (\<lambda>_. ?I) E" for i l k n
    by (rule triple_bind [OF look])
      (auto intro!: triple_return that split: sum.split option.split)
  have hash: "triple ?I (t_catch (hash_candidate h p)) (\<lambda>_. ?I) E"
    by (rule triple_catch [OF triple_hashed])
  show ?thesis unfolding import_candidate_def
  proof (rule triple_bind [OF hash], rule triple_cases(3), rule triple_return, assumption)
    fix c :: "string + nat \<times> string" and x assume "c = Inr x"
    obtain bytes hash where x: "x = (bytes, hash)" by force
    show "triple ?I (case x of (bytes, hash) \<Rightarrow>
         (case catalog_match_by_hash catalog bytes hash of
            None \<Rightarrow> t_return (unsupported_path p ''No catalog model matches this file's size and SHA-256'' s)
          | Some (m, f) \<Rightarrow>
              t_bind (t_catch (t_map_err internal (installed_file (cm_slug m)))) (\<lambda>present.
              case present of
                Inl e \<Rightarrow> t_return (unsupported_model (cm_slug m) (debug_error e) s)
              | Inr (Some r) \<Rightarrow>
                  t_return (s\<lparr>ui_skipped := ui_skipped s @
                    [JObj [(''model'', JStr (cm_slug m)), (''reason'', JStr ''already_installed'')]]\<rparr>)
              | Inr None \<Rightarrow>
                  t_bind (t_catch (import_one h copied_time dir op sub (cm_slug m) f p)) (\<lambda>result.
                  case result of
                    Inr u \<Rightarrow> t_return (s\<lparr>ui_imported := ui_imported s @ [JObj [(''model'', JStr (cm_slug m))]]\<rparr>)
                  | Inl reason \<Rightarrow> t_return (unsupported_model (cm_slug m) reason s))))) (\<lambda>_. ?I) E"
    proof (cases "catalog_match_by_hash catalog bytes hash")
      case (Some mf)
      obtain m f where mf: "mf = (m, f)" by force
      from catalog_match_Some Some mf have "m \<in> set catalog" "f \<in> set (cm_files m)" by blast+
      with Some show ?thesis unfolding x mf by (simp add: found one)
    qed (simp add: x triple_return)
  qed
qed


lemma triple_import_files:
  assumes "sha_identifies catalog"
  shows "triple (import_inv h dir catalog rows F) (import_files h copied_time debug_error dir catalog op sub n k ps s)
    (\<lambda>_. import_inv h dir catalog rows F) E"
proof (induction ps arbitrary: k s)
  case Nil
  show ?case by (simp add: triple_return)
next
  case (Cons p ps)
  let ?I = "import_inv h dir catalog rows F"
  have stop: "triple ?I (is_cancelled op) (\<lambda>_. ?I) E" unfolding is_cancelled_def operation_state_def
    by (rule triple_bind [where Q = "\<lambda>_. ?I"], rule triple_catch [where F = ?I], rule triple_query) (simp_all add: triple_return)
  have items: "triple ?I (set_items_task op k n) (\<lambda>_. ?I) E" unfolding set_items_task_def
    by (rule triple_ignore, rule triple_statement) (assumption | rule import_inv_actions)+
  show ?case unfolding import_files.simps
    by (rule triple_bind [OF stop], rule triple_cases(1), rule triple_return, assumption,
        rule triple_then [OF items triple_bind [OF triple_import_candidate [OF assms] Cons.IH]])
qed

lemma triple_run_import_user:
  assumes "sha_identifies catalog"
  shows "triple (import_inv h dir catalog rows F) (run_import_user h copied_time debug_error dir catalog op sub source)
    (\<lambda>_. import_inv h dir catalog rows F) (\<lambda>d. False)"
proof -
  let ?I = "import_inv h dir catalog rows F" and ?E = "\<lambda>d :: sdata. False"
  have update: "triple ?I (t_ignore (update_operation_task op st e c b)) (\<lambda>_. ?I) ?E" for st e c b
    by (rule triple_ignore, rule triple_update_operation) (assumption | rule import_inv_actions)+
  have listing: "triple ?I (t_catch (act (\<lambda>e d. Inr (se_listing e)) (\<lambda>e d. [])) :: (string, string + dir_listing) task) (\<lambda>_. ?I) ?E"
    by (rule triple_catch [where F = ?I], rule triple_act) simp_all
  have "triple ?I (t_then (set_items_task op k n) (t_then (t_ignore (statement (\<lambda>e. Set_result op v)))
      (t_ignore (update_operation_task op ''completed'' None None 0)))) (\<lambda>_. ?I) ?E" for k n v
    unfolding set_items_task_def
    by (intro triple_then [where J = ?I] update) (rule triple_ignore, rule triple_statement, (assumption | rule import_inv_actions)+)+
  then have finish: "triple ?I (case r of None \<Rightarrow> t_return () | Some s \<Rightarrow> t_then (set_items_task op k n)
      (t_then (t_ignore (statement (\<lambda>e. Set_result op (import_result s))))
        (t_ignore (update_operation_task op ''completed'' None None 0)))) (\<lambda>_. ?I) ?E" for r k n
    by (auto intro: triple_return split: option.split)
  show ?thesis unfolding run_import_user_def Let_def
    by (rule triple_then [OF update], rule triple_bind [OF listing], rule triple_cases(3), rule update,
        rule triple_bind [OF triple_import_files [OF assms] finish])
qed


text \<open>
  C27. Whatever fails on the way, an import of the models of another installation keeps every registered model,
  adds only rows of catalog files whose stored bytes have the catalog's size and hash, and changes no file
  outside the data folder, so none of the source. This is for a catalog in which a hash names one model.
\<close>
theorem imported_models_are_verified:
  assumes "alone w" "tables_ok (ts_data w)" "sha_identifies catalog"
  shows "let d' = ts_data (snd (run_import_user sha256 copied_time debug_error dir catalog op sub source w)) in
    (\<exists>new. d_installed d' = d_installed (ts_data w) @ new \<and> (\<forall>r \<in> set new. brought sha256 dir catalog (d_files d') r)) \<and>
    distinct (map in_id (d_installed d')) \<and> (\<forall>p. \<not> inside dir p \<longrightarrow> d_files d' p = d_files (ts_data w) p)"
proof -
  have inv: "import_inv sha256 dir catalog (d_installed (ts_data w)) (d_files (ts_data w)) (ts_data w)"
    using assms(2) by (simp add: import_inv_def)
  obtain r w' where run: "run_import_user sha256 copied_time debug_error dir catalog op sub source w = (r, w')" by force
  from tripleD [OF triple_run_import_user [OF assms(3)] assms(1) inv run]
  have "import_inv sha256 dir catalog (d_installed (ts_data w)) (d_files (ts_data w)) (ts_data w')" by (cases r) simp_all
  then show ?thesis unfolding run Let_def snd_conv import_inv_def tables_ok_def by blast
qed

definition import_catalog :: "catalog_model list" where
  "import_catalog = [sample_model\<lparr>cm_slug := ''b'',
     cm_files := [\<lparr>cf_filename = ''b.gguf'', cf_quant = ''q'', cf_size_bytes = 3, cf_sha256 = ''AB''\<rparr>]\<rparr>]"

definition import_user_state :: task_state where
  "import_user_state =
     \<lparr>ts_data = \<lparr>d_installed = [], d_operations = [queued_operation ''op'' [] ''import_user'' ''queued'' 0 1],
        d_settings = Map.empty, d_files = [''u/models/x.gguf'' \<mapsto> \<lparr>fi_bytes = [1, 2, 3], fi_mtime = Some 5\<rparr>], d_loaded = None\<rparr>,
      ts_script = (\<lambda>_. quiet\<lparr>se_listing := Entries [None, Some (''x.gguf'', False), Some (''x.txt'', False)]\<rparr>),
      ts_step = 0, ts_own = [], ts_stage = []\<rparr>"

abbreviation import_user_end :: task_state where
  "import_user_end \<equiv> snd (run_import_user (\<lambda>b. ''ab'') (\<lambda>t now. t) (\<lambda>e. []) ''d'' import_catalog ''op'' (\<lambda>k. ''s'') ''u'' import_user_state)"

lemma import_user_rows:
  "map in_id (d_installed (ts_data import_user_end)) = [''b'']"
  "map_option o_state (find_operation ''op'' (ts_data import_user_end)) = Some ''completed''"
  by code_simp+

theorem imported_models_are_verified_witness:
  "\<exists>r. find_installed ''b'' (ts_data import_user_end) = Some r \<and>
     brought (\<lambda>b. ''ab'') ''d'' import_catalog (d_files (ts_data import_user_end)) r \<and>
     d_files (ts_data import_user_end) ''u/models/x.gguf'' = Some \<lparr>fi_bytes = [1, 2, 3], fi_mtime = Some 5\<rparr>"
proof -
  have "alone import_user_state" "tables_ok (ts_data import_user_state)" "sha_identifies import_catalog"
    by (simp_all add: alone_def import_user_state_def quiet_def tables_ok_def sha_identifies_def import_catalog_def)
  note run = imported_models_are_verified [OF this, of "\<lambda>b. ''ab''" "\<lambda>t now. t" "\<lambda>e. []" "''d''" "''op''" "\<lambda>k. ''s''" "''u''", unfolded Let_def]
  have "d_installed (ts_data import_user_state) = []" by (simp add: import_user_state_def)
  with run have all: "\<forall>r \<in> set (d_installed (ts_data import_user_end)).
      brought (\<lambda>b. ''ab'') ''d'' import_catalog (d_files (ts_data import_user_end)) r" by auto
  have "\<not> inside ''d'' ''u/models/x.gguf''" by (simp add: inside_def)
  with run have "d_files (ts_data import_user_end) ''u/models/x.gguf'' = d_files (ts_data import_user_state) ''u/models/x.gguf''"
    by blast
  then have source: "d_files (ts_data import_user_end) ''u/models/x.gguf'' = Some \<lparr>fi_bytes = [1, 2, 3], fi_mtime = Some 5\<rparr>"
    by (simp add: import_user_state_def)
  obtain r where "find_installed ''b'' (ts_data import_user_end) = Some r"
    using import_user_rows(1) by (cases "find_installed ''b'' (ts_data import_user_end)") (auto simp: find_installed_None)
  with all source find_installed_Some show ?thesis by blast
qed

end
