(* ===== verification/Audio.thy ===== *)
theory Audio
  imports Errors Floats "HOL-Library.Code_Target_Nat"
begin

text \<open>
  \<open>src/audio.rs\<close>: the decoder of uploaded WAV files and the incremental decoder of live audio. The WAV
  reader and the resampler are libraries: a \<open>wav_reader\<close> is what the former found in the header and
  what reading its samples gives, a \<open>resampler\<close> is the latter as a state machine that takes a fixed
  number of samples at a time, or a shorter tail. Both may fail anywhere.
\<close>

subsection \<open>WAV files\<close>

datatype sample_format = Int_samples | Float_samples

record wav_spec =
  wv_channels :: nat
  wv_sample_rate :: nat
  wv_bits :: nat
  wv_format :: sample_format

text \<open>The samples: integers, or floats as they are stored.\<close>

record wav_reader =
  wr_spec :: wav_spec
  wr_ints :: "string + int list"
  wr_floats :: "string + f32 list"

record 'r resampler =
  rs_chunk :: nat
  rs_delay :: nat
  rs_new :: "string + 'r"
  rs_process :: "'r \<Rightarrow> f32 list \<Rightarrow> string + f32 list \<times> 'r"
  rs_process_partial :: "'r \<Rightarrow> f32 list option \<Rightarrow> string + f32 list \<times> 'r"

text \<open>An exact result as an \<open>f32\<close>: rounded, and infinite from the middle above the largest value on.\<close>

definition f32_result :: "rat \<Rightarrow> f32" where
  "f32_result x =
     (if x \<ge> 2 ^ 128 - 2 ^ 103 then PosInf else if x \<le> - (2 ^ 128 - 2 ^ 103) then NegInf else Fin (f32_round x))"

fun f32_add :: "f32 \<Rightarrow> f32 \<Rightarrow> f32" where
  "f32_add (Fin a) (Fin b) = f32_result (a + b)"
| "f32_add NaN _ = NaN"
| "f32_add _ NaN = NaN"
| "f32_add PosInf NegInf = NaN"
| "f32_add NegInf PosInf = NaN"
| "f32_add PosInf _ = PosInf"
| "f32_add NegInf _ = NegInf"
| "f32_add _ PosInf = PosInf"
| "f32_add _ NegInf = NegInf"

fun f32_divide :: "f32 \<Rightarrow> nat \<Rightarrow> f32" where
  "f32_divide (Fin a) n = f32_result (a / of_nat n)"
| "f32_divide x n = x"

definition invalid_audio :: "string \<Rightarrow> api_error" where
  "invalid_audio m = api_error_new 400 ''invalid_audio'' m"

definition unsupported_audio :: "string \<Rightarrow> api_error" where
  "unsupported_audio m = api_error_new 400 ''unsupported_audio'' m"

definition read_samples :: "wav_reader \<Rightarrow> api_error + f32 list" where
  "read_samples r =
     (let spec = wr_spec r; malformed = invalid_audio ''Malformed WAV samples'' in
      if wv_format spec = Int_samples \<and> wv_bits spec = 16 then
        map_sum (\<lambda>_. malformed) (map (\<lambda>i. Fin (of_int i / 32768))) (wr_ints r)
      else if wv_format spec = Int_samples \<and> wv_bits spec = 24 then
        map_sum (\<lambda>_. malformed) (map (\<lambda>i. Fin (of_int i / 8388608))) (wr_ints r)
      else if wv_format spec = Float_samples \<and> wv_bits spec = 32 then map_sum (\<lambda>_. malformed) id (wr_floats r)
      else Inl (unsupported_audio ''Only 16/24-bit PCM and 32-bit float WAV are supported''))"

fun chunks :: "nat \<Rightarrow> 'a list \<Rightarrow> 'a list list" where
  "chunks n xs = (if n = 0 \<or> xs = [] then [] else take n xs # chunks n (drop n xs))"

declare chunks.simps [simp del]

definition mix_frame :: "nat \<Rightarrow> f32 list \<Rightarrow> f32" where
  "mix_frame channels frame = f32_divide (foldl f32_add (Fin 0) frame) channels"

text \<open>The resampling loops: whole chunks and the tail, then empty input until enough has come out.\<close>

fun resample_chunks :: "'r resampler \<Rightarrow> f32 list list \<Rightarrow> 'r \<Rightarrow> f32 list \<Rightarrow> string + f32 list \<times> 'r" where
  "resample_chunks ops [] r out = Inr (out, r)"
| "resample_chunks ops (c # cs) r out =
     and_then (if length c = 1024 then rs_process ops r c else rs_process_partial ops r (Some c)) (\<lambda>(converted, r').
       resample_chunks ops cs r' (out @ converted))"

fun resample_flush :: "'r resampler \<Rightarrow> nat \<Rightarrow> nat \<Rightarrow> 'r \<Rightarrow> f32 list \<Rightarrow> (string + f32 list) option" where
  "resample_flush ops 0 need r out = (if length out < need then None else Some (Inr out))"
| "resample_flush ops (Suc fuel) need r out =
     (if length out < need then
        (case rs_process_partial ops r None of
           Inl e \<Rightarrow> Some (Inl e)
         | Inr (converted, r') \<Rightarrow> resample_flush ops fuel need r' (out @ converted))
      else Some (Inr out))"

definition check_wav :: "wav_spec \<Rightarrow> f32 list \<Rightarrow> api_error + nat" where
  "check_wav spec samples =
     (if length samples mod wv_channels spec \<noteq> 0 \<or> \<not> list_all is_finite samples then
        Inl (invalid_audio ''WAV has incomplete frames or non-finite samples'')
      else let frames = length samples div wv_channels spec in
        if frames < wv_sample_rate spec div 10 then
          Inl (api_error_new 400 ''audio_too_short'' ''At least 100 ms of audio is required'')
        else if frames > wv_sample_rate spec * 10 * 60 then
          Inl (api_error_new 413 ''audio_too_long'' ''Audio exceeds the ten-minute limit'')
        else Inr frames)"

text \<open>\<open>None\<close>: the flushing loop did not end within \<open>fuel\<close> rounds.\<close>

definition decode_wav :: "'r resampler \<Rightarrow> nat \<Rightarrow> string + wav_reader \<Rightarrow> (api_error + f32 list) option" where
  "decode_wav ops fuel opened =
     (case opened of
        Inl e \<Rightarrow> Some (Inl (invalid_audio ''A valid WAV file is required''))
      | Inr r \<Rightarrow>
          let spec = wr_spec r in
          if \<not> (1 \<le> wv_channels spec \<and> wv_channels spec \<le> 2) \<or> \<not> (8000 \<le> wv_sample_rate spec \<and> wv_sample_rate spec \<le> 192000)
          then Some (Inl (unsupported_audio ''WAV must have one or two channels and a sample rate from 8 to 192 kHz''))
          else case read_samples r of Inl e \<Rightarrow> Some (Inl e) | Inr samples \<Rightarrow>
          (case check_wav spec samples of Inl e \<Rightarrow> Some (Inl e) | Inr frames \<Rightarrow>
           let mono = map (mix_frame (wv_channels spec)) (chunks (wv_channels spec) samples) in
           if wv_sample_rate spec = 16000 then Some (Inr mono)
           else let output_len = length mono * 16000 div wv_sample_rate spec in
             (case and_then (rs_new ops) (\<lambda>rs. resample_chunks ops (chunks 1024 mono) rs []) of
                Inl e \<Rightarrow> Some (Inl (internal e))
              | Inr (out, rs) \<Rightarrow>
                  map_option (map_sum internal (\<lambda>out. take output_len (drop (rs_delay ops) out)))
                    (resample_flush ops fuel (output_len + rs_delay ops) rs out))))"

subsection \<open>Live audio\<close>

record 'r live_resampler =
  lr_state :: 'r
  lr_pending :: "f32 list"
  lr_skip :: nat

record 'r pcm_stream =
  pc_odd :: "byte option"
  pc_resampler :: "'r live_resampler option"

definition emit :: "'r live_resampler \<Rightarrow> f32 list \<Rightarrow> f32 list \<Rightarrow> f32 list \<times> 'r live_resampler" where
  "emit l converted out =
     (let n = min (lr_skip l) (length converted) in (out @ drop n converted, l\<lparr>lr_skip := lr_skip l - n\<rparr>))"

definition live_chunk_frames :: "nat \<Rightarrow> nat" where "live_chunk_frames rate = rate div 50"

definition pcm_new :: "(nat \<Rightarrow> 'r resampler) \<Rightarrow> nat \<Rightarrow> api_error + 'r pcm_stream" where
  "pcm_new resamplers rate =
     (if rate = 16000 then Inr \<lparr>pc_odd = None, pc_resampler = None\<rparr>
      else map_sum internal (\<lambda>r. \<lparr>pc_odd = None,
             pc_resampler = Some \<lparr>lr_state = r, lr_pending = [], lr_skip = rs_delay (resamplers rate)\<rparr>\<rparr>)
           (rs_new (resamplers rate)))"

text \<open>A little-endian signed 16-bit sample.\<close>

definition pcm_sample :: "byte \<Rightarrow> byte \<Rightarrow> f32" where
  "pcm_sample low high = Fin (of_int (sint (word_cat high low :: 16 word)) / 32768)"

fun pcm_pairs :: "byte list \<Rightarrow> f32 list \<times> byte option" where
  "pcm_pairs [] = ([], None)"
| "pcm_pairs [b] = ([], Some b)"
| "pcm_pairs (low # high # rest) = (case pcm_pairs rest of (ss, rest_byte) \<Rightarrow> (pcm_sample low high # ss, rest_byte))"

text \<open>The samples of a chunk after a held-back byte, and the byte held back now.\<close>

definition pcm_samples :: "byte option \<Rightarrow> byte list \<Rightarrow> f32 list \<times> byte option" where
  "pcm_samples held bytes =
     (case (held, bytes) of
        (Some low, high # rest) \<Rightarrow> (case pcm_pairs rest of (ss, rest_byte) \<Rightarrow> (pcm_sample low high # ss, rest_byte))
      | (Some low, []) \<Rightarrow> ([], Some low)
      | (None, _) \<Rightarrow> pcm_pairs bytes)"

text \<open>
  Whole chunks out of the pending samples. A failing call has taken its chunk already. (A chunk of no
  samples would not end; the chunks of the accepted rates have at least 160.)
\<close>

function drain :: "'r resampler \<Rightarrow> 'r live_resampler \<Rightarrow> f32 list \<Rightarrow> (api_error + f32 list) \<times> 'r live_resampler" where
  "drain ops l out =
     (if rs_chunk ops = 0 \<or> length (lr_pending l) < rs_chunk ops then (Inr out, l)
      else let l' = l\<lparr>lr_pending := drop (rs_chunk ops) (lr_pending l)\<rparr> in
        (case rs_process ops (lr_state l) (take (rs_chunk ops) (lr_pending l)) of
           Inl e \<Rightarrow> (Inl (internal e), l')
         | Inr (converted, r) \<Rightarrow>
             (case emit (l'\<lparr>lr_state := r\<rparr>) converted out of (out', l'') \<Rightarrow> drain ops l'' out')))"
  by pat_completeness auto
termination
  by (relation "measure (\<lambda>(ops, l, out). length (lr_pending l))") (auto simp: emit_def Let_def)

declare drain.simps [simp del]

definition pcm_push ::
    "'r resampler \<Rightarrow> 'r pcm_stream \<Rightarrow> byte list \<Rightarrow> (api_error + f32 list) \<times> 'r pcm_stream" where
  "pcm_push ops s bytes =
     (case pcm_samples (pc_odd s) bytes of (samples, rest_byte) \<Rightarrow>
        (case pc_resampler s of
           None \<Rightarrow> (Inr samples, s\<lparr>pc_odd := rest_byte\<rparr>)
         | Some l \<Rightarrow>
             (case drain ops (l\<lparr>lr_pending := lr_pending l @ samples\<rparr>) [] of
                (r, l') \<Rightarrow> (r, s\<lparr>pc_odd := rest_byte, pc_resampler := Some l'\<rparr>))))"

definition pcm_finish :: "'r resampler \<Rightarrow> 'r pcm_stream \<Rightarrow> (api_error + f32 list) \<times> 'r pcm_stream" where
  "pcm_finish ops s =
     (case pc_resampler s of
        None \<Rightarrow> (Inr [], s)
      | Some l \<Rightarrow>
          let taken = l\<lparr>lr_pending := []\<rparr>;
              first = (if lr_pending l = [] then Inr ([], taken)
                       else map_sum id (\<lambda>(converted, r). emit (taken\<lparr>lr_state := r\<rparr>) converted [])
                              (rs_process_partial ops (lr_state l) (Some (lr_pending l))))
          in (case first of
                Inl e \<Rightarrow> (Inl (internal e), s\<lparr>pc_resampler := Some taken\<rparr>)
              | Inr (out, l1) \<Rightarrow>
                  (case rs_process_partial ops (lr_state l1) None of
                     Inl e \<Rightarrow> (Inl (internal e), s\<lparr>pc_resampler := Some l1\<rparr>)
                   | Inr (converted, r) \<Rightarrow>
                       (case emit (l1\<lparr>lr_state := r\<rparr>) converted out of
                          (out', l2) \<Rightarrow> (Inr out', s\<lparr>pc_resampler := Some l2\<rparr>)))))"

subsection \<open>How the bytes are cut does not matter\<close>

lemma pcm_pairs_append:
  "pcm_pairs xs = (ss, held) \<Longrightarrow>
     pcm_pairs (xs @ ys) = (case pcm_samples held ys of (ts, rest_byte) \<Rightarrow> (ss @ ts, rest_byte))"
proof (induction xs arbitrary: ss rule: pcm_pairs.induct)
  case (2 b)
  then have "ss = []" "held = Some b" by simp_all
  then show ?case by (cases ys) (simp_all add: pcm_samples_def split: prod.split)
next
  case (3 low high rest)
  then show ?case by (auto split: prod.splits)
qed (simp add: pcm_samples_def split: prod.split)

lemma pcm_samples_append:
  assumes "pcm_samples held xs = (ss, held')"
  shows "pcm_samples held (xs @ ys) = (case pcm_samples held' ys of (ts, rest_byte) \<Rightarrow> (ss @ ts, rest_byte))"
proof (cases held)
  case None
  with assms show ?thesis by (simp add: pcm_samples_def [of None] pcm_pairs_append)
next
  case (Some low)
  show ?thesis
  proof (cases xs)
    case Nil
    with assms Some show ?thesis by (simp add: pcm_samples_def [of "Some low" "[]"] split: prod.split)
  next
    case (Cons high rest)
    obtain ts rest_byte where rest: "pcm_pairs rest = (ts, rest_byte)" by (cases "pcm_pairs rest")
    with assms Some Cons have "ss = pcm_sample low high # ts" "held' = rest_byte" by (auto simp: pcm_samples_def)
    with Some Cons pcm_pairs_append [OF rest, of ys] show ?thesis
      by (auto simp: pcm_samples_def [of "Some low"] split: prod.splits)
  qed
qed

text \<open>The three ways a round of \<open>drain\<close> goes.\<close>

lemma drain_done: "rs_chunk ops = 0 \<or> length (lr_pending l) < rs_chunk ops \<Longrightarrow> drain ops l out = (Inr out, l)"
  by (subst drain.simps) simp

lemma drain_fails:
  "\<not> (rs_chunk ops = 0 \<or> length (lr_pending l) < rs_chunk ops) \<Longrightarrow>
   rs_process ops (lr_state l) (take (rs_chunk ops) (lr_pending l)) = Inl e \<Longrightarrow>
   drain ops l out = (Inl (internal e), l\<lparr>lr_pending := drop (rs_chunk ops) (lr_pending l)\<rparr>)"
  by (subst drain.simps) (simp add: Let_def)

definition drained :: "'r resampler \<Rightarrow> 'r live_resampler \<Rightarrow> f32 list \<Rightarrow> 'r \<Rightarrow> 'r live_resampler" where
  "drained ops l converted r =
     l\<lparr>lr_pending := drop (rs_chunk ops) (lr_pending l), lr_state := r, lr_skip := lr_skip l - min (lr_skip l) (length converted)\<rparr>"

lemma drain_next:
  "\<not> (rs_chunk ops = 0 \<or> length (lr_pending l) < rs_chunk ops) \<Longrightarrow>
   rs_process ops (lr_state l) (take (rs_chunk ops) (lr_pending l)) = Inr (converted, r) \<Longrightarrow>
   drain ops l out = drain ops (drained ops l converted r) (out @ drop (lr_skip l) converted)"
proof -
  have "drop (min n (length xs)) xs = drop n xs" for n and xs :: "f32 list" by (simp add: min_def)
  then show "\<not> (rs_chunk ops = 0 \<or> length (lr_pending l) < rs_chunk ops) \<Longrightarrow>
   rs_process ops (lr_state l) (take (rs_chunk ops) (lr_pending l)) = Inr (converted, r) \<Longrightarrow>
   drain ops l out = drain ops (drained ops l converted r) (out @ drop (lr_skip l) converted)"
    by (subst drain.simps) (simp add: Let_def emit_def drained_def)
qed

lemma drained_less:
  "\<not> (rs_chunk ops = 0 \<or> length (lr_pending l) < rs_chunk ops) \<Longrightarrow>
     length (lr_pending (drained ops l converted r)) < length (lr_pending l)"
  by (cases "lr_pending l") (auto simp: drained_def)

lemma drain_output: "drain ops l (xs @ out) = (case drain ops l out of (r, l') \<Rightarrow> (map_sum id ((@) xs) r, l'))"
proof (induction "length (lr_pending l)" arbitrary: l out rule: less_induct)
  case less
  show ?case
  proof (cases "rs_chunk ops = 0 \<or> length (lr_pending l) < rs_chunk ops")
    case True
    then show ?thesis by (simp add: drain_done)
  next
    case False
    show ?thesis
    proof (cases "rs_process ops (lr_state l) (take (rs_chunk ops) (lr_pending l))")
      case (Inl e)
      with False show ?thesis by (simp add: drain_fails)
    next
      case (Inr cr)
      obtain converted r where "cr = (converted, r)" by (cases cr)
      with Inr have step: "rs_process ops (lr_state l) (take (rs_chunk ops) (lr_pending l)) = Inr (converted, r)" by simp
      from less [OF drained_less [OF False]] drain_next [OF False step] show ?thesis by simp
    qed
  qed
qed

lemma drain_append:
  "drain ops l out = (Inr out', l') \<Longrightarrow>
     drain ops (l\<lparr>lr_pending := lr_pending l @ samples\<rparr>) out = drain ops (l'\<lparr>lr_pending := lr_pending l' @ samples\<rparr>) out'"
proof (induction "length (lr_pending l)" arbitrary: l out rule: less_induct)
  case less
  show ?case
  proof (cases "rs_chunk ops = 0 \<or> length (lr_pending l) < rs_chunk ops")
    case True
    with less.prems show ?thesis by (simp add: drain_done)
  next
    case False
    show ?thesis
    proof (cases "rs_process ops (lr_state l) (take (rs_chunk ops) (lr_pending l))")
      case (Inl e)
      with False less.prems show ?thesis by (simp add: drain_fails)
    next
      case (Inr cr)
      obtain converted r where "cr = (converted, r)" by (cases cr)
      with Inr have step: "rs_process ops (lr_state l) (take (rs_chunk ops) (lr_pending l)) = Inr (converted, r)" by simp
      let ?l = "l\<lparr>lr_pending := lr_pending l @ samples\<rparr>" and ?out = "out @ drop (lr_skip l) converted"
      have "\<not> (rs_chunk ops = 0 \<or> length (lr_pending ?l) < rs_chunk ops)" using False by auto
      moreover have "rs_process ops (lr_state ?l) (take (rs_chunk ops) (lr_pending ?l)) = Inr (converted, r)"
        using step False by simp
      ultimately have "drain ops ?l out = drain ops (drained ops ?l converted r) (out @ drop (lr_skip ?l) converted)"
        by (rule drain_next)
      also have "drained ops ?l converted r
        = (drained ops l converted r)\<lparr>lr_pending := lr_pending (drained ops l converted r) @ samples\<rparr>"
        using False by (simp add: drained_def)
      finally show ?thesis
        using less.hyps [OF drained_less [OF False], of converted r ?out] less.prems drain_next [OF False step] by simp
    qed
  qed
qed

text \<open>
  C39. Live audio is decoded the same however the client cuts it: if two chunks are taken one after the
  other, the samples that come out are those of the two chunks taken as one, and the decoder is left in
  the same state, wherever the cut is, also inside a sample, and whether or not the audio is resampled.
\<close>

theorem pcm_chunking_irrelevant:
  assumes "pcm_push ops s xs = (Inr out1, s1)" "pcm_push ops s1 ys = (Inr out2, s2)"
  shows "pcm_push ops s (xs @ ys) = (Inr (out1 @ out2), s2)"
proof -
  obtain ss held where xs: "pcm_samples (pc_odd s) xs = (ss, held)" by (cases "pcm_samples (pc_odd s) xs")
  obtain ts rest_byte where ys: "pcm_samples held ys = (ts, rest_byte)" by (cases "pcm_samples held ys")
  have both: "pcm_samples (pc_odd s) (xs @ ys) = (ss @ ts, rest_byte)"
    using pcm_samples_append [OF xs, of ys] ys by simp
  show ?thesis
  proof (cases "pc_resampler s")
    case None
    with assms xs ys both show ?thesis by (auto simp: pcm_push_def)
  next
    case (Some l)
    obtain l1 where d1: "drain ops (l\<lparr>lr_pending := lr_pending l @ ss\<rparr>) [] = (Inr out1, l1)"
      and s1: "s1 = s\<lparr>pc_odd := held, pc_resampler := Some l1\<rparr>"
      using assms(1) xs Some by (auto simp: pcm_push_def split: prod.splits)
    obtain l2 where d2: "drain ops (l1\<lparr>lr_pending := lr_pending l1 @ ts\<rparr>) [] = (Inr out2, l2)"
      and s2: "s2 = s1\<lparr>pc_odd := rest_byte, pc_resampler := Some l2\<rparr>"
      using assms(2) ys by (auto simp: s1 pcm_push_def split: prod.splits)
    have "drain ops (l\<lparr>lr_pending := lr_pending l @ ss @ ts\<rparr>) [] = drain ops (l1\<lparr>lr_pending := lr_pending l1 @ ts\<rparr>) out1"
      using drain_append [OF d1, of ts] by simp
    also have "\<dots> = (Inr (out1 @ out2), l2)"
      using drain_output [of ops "l1\<lparr>lr_pending := lr_pending l1 @ ts\<rparr>" out1 "[]"] d2 by simp
    finally show ?thesis using both Some s1 s2 by (simp add: pcm_push_def)
  qed
qed

text \<open>A resampler that only decimates, for the examples: chunks of two samples, the first kept.\<close>

definition halving :: "unit resampler" where
  "halving = \<lparr>rs_chunk = 2, rs_delay = 1, rs_new = Inr (), rs_process = (\<lambda>r xs. Inr (take 1 xs, r)),
     rs_process_partial = (\<lambda>r xs. Inr (unwrap_or [] xs, r))\<rparr>"

definition live_sample :: "unit pcm_stream" where
  "live_sample = \<lparr>pc_odd = None, pc_resampler = Some \<lparr>lr_state = (), lr_pending = [], lr_skip = 1\<rparr>\<rparr>"

theorem pcm_chunking_irrelevant_witness:
  "\<exists>a b s. pcm_push halving live_sample ([1, 2, 3, 4, 5] @ [6, 7, 8]) = (Inr (a @ b), s)"
proof -
  have "\<exists>a s1. pcm_push halving live_sample [1, 2, 3, 4, 5] = (Inr a, s1)"
    by (simp add: pcm_push_def pcm_samples_def live_sample_def halving_def drain.simps emit_def Let_def)
  then obtain a s1 where 1: "pcm_push halving live_sample [1, 2, 3, 4, 5] = (Inr a, s1)" by blast
  have total: "\<exists>out l'. drain halving l out0 = (Inr out, l')" for l out0
  proof (induction "length (lr_pending l)" arbitrary: l out0 rule: less_induct)
    case less
    show ?case
    proof (cases "rs_chunk halving = 0 \<or> length (lr_pending l) < rs_chunk halving")
      case True
      then show ?thesis by (simp add: drain_done)
    next
      case False
      have "rs_process halving (lr_state l) (take (rs_chunk halving) (lr_pending l)) = Inr (take 1 (take 2 (lr_pending l)), lr_state l)"
        by (simp add: halving_def)
      with drain_next [OF False this] less [OF drained_less [OF False]] show ?thesis by simp
    qed
  qed
  have "\<exists>b s2. pcm_push halving s1 [6, 7, 8] = (Inr b, s2)"
    using total by (auto simp: pcm_push_def split: prod.splits option.splits) (metis prod.inject)
  then obtain b s2 where "pcm_push halving s1 [6, 7, 8] = (Inr b, s2)" by blast
  from pcm_chunking_irrelevant [OF 1 this] show ?thesis by blast
qed

subsection \<open>The decoder always ends\<close>

text \<open>
  An FFT resampler may swallow several chunks before it has a block to transform: a flush may give nothing.
  The flushes that are made in a row, and what they give together.
\<close>

fun flushes :: "'r resampler \<Rightarrow> nat \<Rightarrow> 'r \<Rightarrow> string + f32 list \<times> 'r" where
  "flushes ops 0 r = Inr ([], r)"
| "flushes ops (Suc n) r =
     and_then (rs_process_partial ops r None) (\<lambda>(converted, r').
       map_sum id (\<lambda>(out, r''). (converted @ out, r'')) (flushes ops n r'))"

definition flush_yields :: "'r resampler \<Rightarrow> nat \<Rightarrow> bool" where
  "flush_yields ops p \<longleftrightarrow> (\<forall>r out r'. flushes ops p r = Inr (out, r') \<longrightarrow> out \<noteq> [])"

lemma resample_flush_done: "need \<le> length out \<Longrightarrow> resample_flush ops fuel need r out = Some (Inr out)"
  by (cases fuel) simp_all

lemma resample_flush_rounds:
  "(\<exists>result. resample_flush ops (n + fuel) need r out = Some result \<and> (\<forall>out'. result = Inr out' \<longrightarrow> need \<le> length out')) \<or>
   (\<exists>converted r'. flushes ops n r = Inr (converted, r') \<and>
      resample_flush ops (n + fuel) need r out = resample_flush ops fuel need r' (out @ converted))"
proof (induction n arbitrary: r out)
  case (Suc n)
  show ?case
  proof (cases "length out < need")
    case True
    show ?thesis
    proof (cases "rs_process_partial ops r None")
      case (Inr p)
      obtain converted r' where p: "p = (converted, r')" by (cases p)
      from Suc [of r' "out @ converted"] True Inr p show ?thesis by auto
    qed (use True in simp)
  qed simp
qed simp

lemma resample_flush_ends:
  assumes "flush_yields ops p" "need \<le> length out + k" "p * k \<le> fuel"
  shows "\<exists>result. resample_flush ops fuel need r out = Some result \<and> (\<forall>out'. result = Inr out' \<longrightarrow> need \<le> length out')"
  using assms(2,3)
proof (induction k arbitrary: fuel r out)
  case 0
  then show ?case by (simp add: resample_flush_done)
next
  case (Suc k)
  define rest where "rest = fuel - p"
  have fuel: "fuel = p + rest" "p * k \<le> rest" using Suc.prems(2) by (simp_all add: rest_def)
  show ?case
  proof (rule disjE [OF resample_flush_rounds [of ops p rest need r out]])
    assume "\<exists>converted r'. flushes ops p r = Inr (converted, r') \<and>
      resample_flush ops (p + rest) need r out = resample_flush ops rest need r' (out @ converted)"
    then obtain converted r' where got: "flushes ops p r = Inr (converted, r')"
      "resample_flush ops (p + rest) need r out = resample_flush ops rest need r' (out @ converted)" by blast
    from got(1) assms(1) have "converted \<noteq> []" by (auto simp: flush_yields_def)
    with Suc.prems(1) have "need \<le> length (out @ converted) + k" by (cases converted) auto
    from Suc.IH [OF this fuel(2)] show ?thesis unfolding fuel(1) got(2) .
  qed (simp add: fuel(1))
qed

lemma length_chunks: "0 < n \<Longrightarrow> n dvd length xs \<Longrightarrow> length (chunks n xs) = length xs div n"
proof (induction n xs rule: chunks.induct)
  case (1 n xs)
  show ?case
  proof (cases "xs = []")
    case True
    then show ?thesis by (subst chunks.simps) simp
  next
    case False
    with 1(3) have "n \<le> length xs" by (simp add: dvd_imp_le)
    then have "n dvd length (drop n xs)" using 1(3) by simp
    then have "length (chunks n (drop n xs)) = (length xs - n) div n" using 1 False by simp
    with False 1(2) \<open>n \<le> length xs\<close> show ?thesis
      by (subst chunks.simps) (simp add: le_div_geq)
  qed
qed

lemma check_wav_Inr:
  assumes "check_wav spec samples = Inr frames"
  shows "frames = length samples div wv_channels spec" "wv_channels spec dvd length samples"
    "frames \<le> wv_sample_rate spec * 600"
  using assms by (auto simp: check_wav_def Let_def split: if_splits)

text \<open>
  C40. A decoding ends: if any \<open>p\<close> flushes of the resampler that are made in a row and succeed give at least
  one sample together, as an FFT resampler's do once they fill a block, it is flushed often enough after \<open>p\<close>
  times as many rounds as ten minutes of audio at 16 kHz, and the resampler's delay, have samples. A decoded file has exactly the share of 16
  kHz samples its frames and its rate make, and never more than ten minutes of them.
\<close>
theorem decode_wav_ends:
  assumes flush: "flush_yields ops p"
    and fuel: "p * (9600000 + rs_delay ops) \<le> fuel"
  shows "\<exists>result. decode_wav ops fuel opened = Some result \<and>
    (\<forall>out. result = Inr out \<longrightarrow>
      (\<exists>r samples. opened = Inr r \<and> read_samples r = Inr samples
        \<and> length out = length samples div wv_channels (wr_spec r) * 16000 div wv_sample_rate (wr_spec r)
        \<and> length out \<le> 9600000))"
proof (cases opened)
  case (Inl e)
  then show ?thesis by (simp add: decode_wav_def)
next
  case (Inr r)
  define spec where "spec = wr_spec r"
  consider (bad) e where "decode_wav ops fuel opened = Some (Inl e)"
    | (good) samples frames where "1 \<le> wv_channels spec" "8000 \<le> wv_sample_rate spec"
        "read_samples r = Inr samples" "check_wav spec samples = Inr frames"
        "1 \<le> wv_channels spec \<and> wv_channels spec \<le> 2 \<and> 8000 \<le> wv_sample_rate spec \<and> wv_sample_rate spec \<le> 192000"
  proof (cases "1 \<le> wv_channels spec \<and> wv_channels spec \<le> 2 \<and> 8000 \<le> wv_sample_rate spec \<and> wv_sample_rate spec \<le> 192000")
    case False
    then show ?thesis using bad Inr unfolding decode_wav_def spec_def Let_def by auto
  next
    case True
    then show ?thesis using bad good Inr unfolding decode_wav_def spec_def Let_def
      by (cases "read_samples r"; cases "check_wav (wr_spec r) (projr (read_samples r))") auto
  qed
  then show ?thesis
  proof cases
    case bad
    then show ?thesis by auto
  next
    case good
    note facts = check_wav_Inr [OF good(4)]
    define mono where "mono = map (mix_frame (wv_channels spec)) (chunks (wv_channels spec) samples)"
    define n where "n = length mono * 16000 div wv_sample_rate spec"
    have mono: "length mono = length samples div wv_channels spec"
      using length_chunks [of "wv_channels spec" samples] facts good(1) by (simp add: mono_def)
    have "length mono * 16000 \<le> 9600000 * wv_sample_rate spec" using facts mono by simp
    then have n: "n \<le> 9600000" unfolding n_def
      using div_le_mono [of "length mono * 16000" "9600000 * wv_sample_rate spec" "wv_sample_rate spec"] good(2) by simp
    have run: "decode_wav ops fuel opened =
       (if wv_sample_rate spec = 16000 then Some (Inr mono)
        else case and_then (rs_new ops) (\<lambda>rs. resample_chunks ops (chunks 1024 mono) rs []) of
                Inl e \<Rightarrow> Some (Inl (internal e))
              | Inr (out, rs) \<Rightarrow>
                  map_option (map_sum internal (\<lambda>out. take n (drop (rs_delay ops) out)))
                    (resample_flush ops fuel (n + rs_delay ops) rs out))"
      using good Inr unfolding decode_wav_def spec_def mono_def n_def Let_def by simp
    have "\<exists>result. decode_wav ops fuel opened = Some result \<and> (\<forall>out. result = Inr out \<longrightarrow> length out = n)"
    proof (cases "wv_sample_rate spec = 16000")
      case True
      then show ?thesis by (simp add: run n_def)
    next
      case False
      show ?thesis
      proof (cases "and_then (rs_new ops) (\<lambda>rs. resample_chunks ops (chunks 1024 mono) rs [])")
        case (Inl e)
        with False show ?thesis by (simp add: run)
      next
        case (Inr p)
        obtain out rs where p: "p = (out, rs)" by (cases p)
        have enough: "n + rs_delay ops \<le> length out + (9600000 + rs_delay ops)" using n by simp
        have "\<exists>result. resample_flush ops fuel (n + rs_delay ops) rs out = Some result
            \<and> (\<forall>out'. result = Inr out' \<longrightarrow> n + rs_delay ops \<le> length out')"
          by (rule resample_flush_ends [OF flush enough fuel])
        then obtain result
          where "resample_flush ops fuel (n + rs_delay ops) rs out = Some result"
            "\<forall>out'. result = Inr out' \<longrightarrow> n + rs_delay ops \<le> length out'" by blast
        with False Inr p show ?thesis by (cases result) (auto simp: run)
      qed
    qed
    with Inr good(3) n mono show ?thesis unfolding spec_def n_def by auto
  qed
qed

text \<open>A resampler whose flushes give a sample every second time.\<close>

definition padding :: "bool resampler" where
  "padding = \<lparr>rs_chunk = 2, rs_delay = 1, rs_new = Inr False, rs_process = (\<lambda>r xs. Inr (take 1 xs, r)),
     rs_process_partial = (\<lambda>r xs. Inr (if xs = None \<and> r then [Fin 0] else [], \<not> r))\<rparr>"

definition short_wav :: wav_reader where
  "short_wav = \<lparr>wr_spec = \<lparr>wv_channels = 1, wv_sample_rate = 8000, wv_bits = 16, wv_format = Int_samples\<rparr>,
     wr_ints = Inr [1, 2], wr_floats = Inl ''''\<rparr>"

theorem decode_wav_ends_witness: "\<exists>result. decode_wav padding 19200002 (Inr short_wav) = Some result"
proof -
  have "flush_yields padding 2"
    by (simp add: flush_yields_def padding_def numeral_2_eq_2)
  from decode_wav_ends [OF this, of 19200002 "Inr short_wav"]
  show ?thesis by (auto simp: padding_def)
qed

end
