(* ===== verification/Model_Views.thy ===== *)
theory Model_Views
  imports Config Capabilities
begin

text \<open>
  The read-only routes of \<open>src/api.rs\<close> that report models: health and readiness, the catalog with
  what is installed, the OpenAI-style list, and the default. An \<open>app\<close> is the state they read: the
  server's settings and database, the loaded model, a background load with the milliseconds it has
  run, and the capabilities of every model loaded so far. A read of the database that fails is a 500
  and is left out here. JSON columns hold JSON values.
\<close>

record backend_diagnostic =
  bd_observed_backend :: string
  bd_fallback_reason :: "string option"

record loaded_model =
  lm_id :: string
  lm_model :: engine_model
  lm_diagnostic :: backend_diagnostic
  lm_caps :: loaded_caps

record app =
  ap_server :: server
  ap_catalog :: "catalog_model list"
  ap_loaded :: "loaded_model option"
  ap_loading :: "(string \<times> nat) option"
  ap_live_caps :: "string \<Rightarrow> loaded_caps option"
  ap_dir :: string
  ap_admin :: string
  ap_user :: string

abbreviation ap_data :: "app \<Rightarrow> sdata" where "ap_data a \<equiv> sv_data (ap_server a)"

abbreviation default_id :: "app \<Rightarrow> string option" where "default_id a \<equiv> selected_id (ap_data a)"

subsection \<open>Health and readiness\<close>

definition service_id :: string where "service_id = ''stt-server''"
definition api_level :: nat where "api_level = 1"

definition health :: "string \<Rightarrow> app \<Rightarrow> json" where
  "health version a =
     JObj [(''status'', JStr ''ok''), (''service'', JStr service_id), (''version'', JStr version),
       (''api_level'', jnat api_level), (''network'', report_to_json (sv_report (ap_server a))),
       (''default_model'', jopt JStr (default_id a)), (''loaded_model'', jopt JStr (map_option lm_id (ap_loaded a)))]"

definition diagnostic_json :: "backend_diagnostic \<Rightarrow> json" where
  "diagnostic_json b =
     JObj [(''observed_backend'', JStr (bd_observed_backend b)), (''fallback_reason'', jopt JStr (bd_fallback_reason b))]"

definition readiness :: "string option \<Rightarrow> app \<Rightarrow> api_error + nat \<times> json" where
  "readiness header a =
     and_then (authorize header (ap_admin a) (ap_user a) User) (\<lambda>_.
       let default = jopt JStr (default_id a) in
       case ap_loaded a of
         Some l \<Rightarrow> Inr (200, JObj [(''status'', JStr ''ready''), (''model'', JStr (lm_id l)),
             (''backend'', diagnostic_json (lm_diagnostic l)), (''default_model'', default), (''loaded_model'', JStr (lm_id l))])
       | None \<Rightarrow>
           (case ap_loading a of
              Some (m, ms) \<Rightarrow> Inr (503, JObj [(''status'', JStr ''not_ready''), (''reason'', JStr ''loading model''),
                (''model'', JStr m), (''elapsed_ms'', jnat ms), (''default_model'', default), (''loaded_model'', JNull)])
            | None \<Rightarrow> Inr (503, JObj [(''status'', JStr ''not_ready''), (''reason'', JStr ''No selected model loaded''),
                (''default_model'', default), (''loaded_model'', JNull)])))"

subsection \<open>Names of drop-in models\<close>

definition ascii_upper :: "char \<Rightarrow> char" where
  "ascii_upper c = (let n = of_char c :: nat in if 97 \<le> n \<and> n \<le> 122 then char_of (n - 32) else c)"

definition uppercase :: "string \<Rightarrow> string" where "uppercase s = map ascii_upper s"

definition is_quant_token :: "string \<Rightarrow> bool" where
  "is_quant_token word =
     (case uppercase word of
        [] \<Rightarrow> False
      | c # cs \<Rightarrow>
          if c = CHR ''Q'' then (case cs of [] \<Rightarrow> False | d # _ \<Rightarrow> is_digit d)
          else if c = CHR ''F'' then uppercase word = ''F16'' \<or> uppercase word = ''F32''
          else False)"

fun title_word :: "string \<Rightarrow> string" where
  "title_word [] = []"
| "title_word (c # cs) = ascii_upper c # lowercase cs"

fun join_words :: "string list \<Rightarrow> string" where
  "join_words [] = []"
| "join_words [w] = w"
| "join_words (w # ws) = w @ '' '' @ join_words ws"

definition friendly_model_name :: "string \<Rightarrow> string" where
  "friendly_model_name filename =
     (let stem = unwrap_or filename (strip_suffix ''.gguf'' filename);
          parts = filter (\<lambda>p. p \<noteq> []) (split_on (\<lambda>c. c = CHR ''-'' \<or> is_ws c) stem)
      in join_words (concat (map (\<lambda>p.
           if is_quant_token p then [uppercase p]
           else map title_word (filter (\<lambda>w. w \<noteq> []) (split_on (\<lambda>c. c = CHR ''_'') p))) parts)))"

definition custom_model_name :: "installed \<Rightarrow> string" where
  "custom_model_name r =
     (case in_custom_name r of
        Some n \<Rightarrow> n
      | None \<Rightarrow> (case in_filename r of Some f \<Rightarrow> friendly_model_name f | None \<Rightarrow> in_id r))"

text \<open>The language column, when it holds a list of strings.\<close>

definition custom_languages :: "installed \<Rightarrow> string list option" where
  "custom_languages r =
     (case in_custom_languages r of
        Some (JArr vs) \<Rightarrow> if list_all (\<lambda>v. as_str v \<noteq> None) vs then Some (List.map_filter as_str vs) else None
      | _ \<Rightarrow> None)"

subsection \<open>The list for management\<close>

definition status_only :: "string \<Rightarrow> json" where "status_only s = JObj [(''status'', JStr s)]"

definition custom_formats :: json where
  "custom_formats = JObj [(''json'', JStr ''supported''), (''text'', JStr ''unsupported''), (''verbose_json'', JStr ''unsupported'')]"

definition custom_model_view :: "installed \<Rightarrow> json" where
  "custom_model_view r =
     (let claims = unwrap_or JNull (in_custom_claims r);
          languages = unwrap_or [] (custom_languages r);
          effective = JObj
            [(''prompt'', status_only ''unknown''), (''temperature'', status_only ''unknown''),
             (''language_hint'', status_only (if length languages > 1 then ''unknown'' else ''unsupported'')),
             (''language_detect'', status_only ''unknown''), (''translation'', status_only ''unknown''),
             (''timestamp_granularity'', status_only ''unknown''),
             (''streaming'', status_only (if jindex claims ''streaming'' = JBool True then ''unknown'' else ''unsupported'')),
             (''response_formats'', custom_formats)]
      in JObj [(''id'', JStr (in_id r)), (''name'', JStr (custom_model_name r)), (''architecture'', jopt JStr (in_custom_arch r)),
           (''languages'', jstrs languages), (''source'', JStr (in_source r)), (''custom'', JBool True),
           (''evidence'', JStr ''gguf_header''), (''model_capabilities'', claims),
           (''effective_capabilities'', add_unverified_engine_controls effective), (''downloaded'', JBool True),
           (''installed_quant'', jopt JStr (in_quant r)), (''installable'', JBool False), (''recommended_rank'', JNull),
           (''needs_verification'', JBool (in_needs_verification r)), (''file_path'', JStr (in_path r))])"

definition effective_view_if_loaded :: "app \<Rightarrow> string \<Rightarrow> json option" where
  "effective_view_if_loaded a i =
     (case ap_loaded a of
        None \<Rightarrow> None
      | Some l \<Rightarrow>
          if lm_id l \<noteq> i then None
          else Some (let view = effective_to_json (lm_caps l) in
            case List.find (\<lambda>m. cm_slug m = i) (ap_catalog a) of
              None \<Rightarrow> view
            | Some m \<Rightarrow> jset ''catalog_mismatch'' (JArr (catalog_mismatch m (lm_caps l))) view))"

definition installed_custom_models :: "app \<Rightarrow> installed list" where
  "installed_custom_models a = filter is_custom (d_installed (ap_data a))"

definition local_model :: "app \<Rightarrow> catalog_model \<Rightarrow> json" where
  "local_model a m =
     (let row = find_installed (cm_slug m) (ap_data a);
          view = model_view m (Option.bind row in_quant);
          view = (case row of None \<Rightarrow> view
                  | Some r \<Rightarrow> jset ''needs_verification'' (JBool (in_needs_verification r)) (jset ''source'' (JStr (in_source r)) view));
          view = (case effective_view_if_loaded a (cm_slug m) of None \<Rightarrow> view | Some e \<Rightarrow> jset ''effective_capabilities'' e view)
      in jset ''default'' (JBool (default_id a = Some (cm_slug m))) view)"

definition local_models :: "string option \<Rightarrow> app \<Rightarrow> api_error + json" where
  "local_models header a =
     and_then (authorize header (ap_admin a) (ap_user a) User) (\<lambda>_.
       Inr (JObj [(''object'', JStr ''list''), (''data'', JArr (map (local_model a) (ap_catalog a)
         @ map (\<lambda>r. jset ''default'' (JBool (default_id a = Some (in_id r))) (custom_model_view r)) (installed_custom_models a)))]))"

text \<open>Ranks are 32-bit; a model without one comes last, and the sort is stable.\<close>

definition recommendations :: "string option \<Rightarrow> app \<Rightarrow> api_error + json" where
  "recommendations header a =
     and_then (authorize header (ap_admin a) (ap_user a) User) (\<lambda>_.
       Inr (JObj [(''object'', JStr ''list''), (''data'', JArr (map
         (\<lambda>m. model_view m (Option.bind (find_installed (cm_slug m) (ap_data a)) in_quant))
         (sort_key (\<lambda>m. unwrap_or (2 ^ 32 - 1) (cm_recommended_rank m)) (filter cm_recommended (ap_catalog a)))))]))"

subsection \<open>The list of callable models\<close>

definition unverified_custom_capabilities :: json where
  "unverified_custom_capabilities = add_unverified_engine_controls (JObj
     [(''prompt'', status_only ''unknown''), (''temperature'', status_only ''unknown''),
      (''language_hint'', status_only ''unknown''), (''language_detect'', status_only ''unknown''),
      (''translation'', status_only ''unknown''), (''timestamp_granularity'', status_only ''unknown''),
      (''streaming'', status_only ''unsupported''), (''response_formats'', custom_formats)])"

definition callable_capabilities :: "app \<Rightarrow> string \<Rightarrow> json option \<Rightarrow> json" where
  "callable_capabilities a i fallback =
     (case ap_live_caps a i of
        Some c \<Rightarrow> effective_to_json c
      | None \<Rightarrow> unwrap_or unverified_custom_capabilities fallback)"

definition openai_model_entry :: "app \<Rightarrow> string \<Rightarrow> json" where
  "openai_model_entry a i =
     (let m = List.find (\<lambda>m. cm_slug m = i) (ap_catalog a);
          row = find_installed i (ap_data a);
          capabilities = callable_capabilities a i (map_option capability_matrix m);
          name = (case m of Some m \<Rightarrow> cm_name m | None \<Rightarrow> (case row of Some r \<Rightarrow> custom_model_name r | None \<Rightarrow> i));
          live_languages = (case jindex (jindex capabilities ''language_hint'') ''languages'' of JArr vs \<Rightarrow> Some vs | _ \<Rightarrow> None);
          live_detect = (case jindex (jindex capabilities ''language_detect'') ''status'' of
              JStr s \<Rightarrow> if s \<noteq> ''unknown'' then Some (s = ''supported'') else None | _ \<Rightarrow> None);
          (languages, detect) =
            (case (live_languages, live_detect) of
               (Some ls, Some d) \<Rightarrow> (JArr ls, JBool d)
             | _ \<Rightarrow>
                 (case m of
                    Some m \<Rightarrow> (jstrs (cm_languages m), JBool (cl_lang_detect (cm_capabilities m)))
                  | None \<Rightarrow> (jstrs (unwrap_or [] (Option.bind row custom_languages)),
                      JBool (unwrap_or False (Option.bind (Option.bind (Option.bind row in_custom_claims)
                        (jget ''lang_detect'')) as_bool)))))
      in JObj [(''id'', JStr i), (''object'', JStr ''model''), (''owned_by'', JStr ''local''), (''name'', JStr name),
           (''default'', JBool (Some i = default_id a)), (''capabilities'', capabilities), (''languages'', languages),
           (''language_detect'', detect)])"

definition callable_model_ids :: "app \<Rightarrow> string list" where
  "callable_model_ids a =
     map cm_slug (filter (\<lambda>m. case find_installed (cm_slug m) (ap_data a) of
         None \<Rightarrow> False | Some r \<Rightarrow> \<not> in_needs_verification r) (ap_catalog a))
     @ map in_id (filter (\<lambda>r. \<not> in_needs_verification r) (installed_custom_models a))"

definition openai_models :: "string option \<Rightarrow> app \<Rightarrow> api_error + json" where
  "openai_models header a =
     and_then (authorize header (ap_admin a) (ap_user a) User) (\<lambda>_.
       Inr (JObj [(''object'', JStr ''list''), (''data'', JArr (map (openai_model_entry a) (callable_model_ids a)))]))"

definition openai_model_by_id :: "string option \<Rightarrow> string \<Rightarrow> app \<Rightarrow> api_error + json" where
  "openai_model_by_id header i a =
     and_then (authorize header (ap_admin a) (ap_user a) User) (\<lambda>_.
       if i \<notin> set (callable_model_ids a) then
         Inl (api_error_new 404 ''model_not_installed'' ''This model is not installed'')
       else Inr (openai_model_entry a i))"

subsection \<open>The default model\<close>

definition selected_model :: "string option \<Rightarrow> app \<Rightarrow> api_error + json" where
  "selected_model header a =
     and_then (authorize header (ap_admin a) (ap_user a) User) (\<lambda>_.
       case default_id a of
         None \<Rightarrow> Inr (JObj [(''model'', JNull), (''effective_capabilities'', JNull)])
       | Some i \<Rightarrow>
           and_then (catalog_model (ap_catalog a) i) (\<lambda>m.
             let diagnostic = (case ap_loaded a of None \<Rightarrow> None
                   | Some l \<Rightarrow> if lm_id l = i then Some (lm_diagnostic l) else None)
             in Inr (JObj [(''model'', JStr i),
                  (''effective_capabilities'', unwrap_or (capability_matrix m) (effective_view_if_loaded a i)),
                  (''backend'', jopt diagnostic_json diagnostic)])))"

end
