(* ===== verification/Model_Selection.thy ===== *)
theory Model_Selection
  imports Model_Views Inference_Queue
begin

text \<open>
  What changes the loaded and the installed models: loading with the engine (\<open>src/engine.rs\<close>) and the
  routes of \<open>src/api.rs\<close> that select, deselect, unload and remove a model. The engine answers a load
  request by a model or an error. Where a handler waits, \<open>others\<close> is what other requests make of the
  state meanwhile; a statement or call that can fail has a flag that says whether it succeeds.
\<close>

subsection \<open>Loading\<close>

datatype backend = Vulkan | Cpu

text \<open>The engine: whether Vulkan is there, and what loading a file gives, with the backend in use.\<close>

record engine =
  eg_vulkan :: bool
  eg_load :: "string \<Rightarrow> backend \<Rightarrow> string + engine_model \<times> string"

definition load_engine :: "engine \<Rightarrow> string \<Rightarrow> string \<Rightarrow> string + engine_model \<times> backend_diagnostic" where
  "load_engine eg path preference =
     (if preference \<noteq> ''cpu'' \<and> eg_vulkan eg then
        (case eg_load eg path Vulkan of
           Inr (m, b) \<Rightarrow> Inr (m, \<lparr>bd_observed_backend = b, bd_fallback_reason = None\<rparr>)
         | Inl vulkan_error \<Rightarrow>
             map_sum (\<lambda>cpu_error. ''Vulkan: '' @ vulkan_error @ ''; CPU: '' @ cpu_error)
               (\<lambda>(m, _). (m, \<lparr>bd_observed_backend = ''CPU'', bd_fallback_reason = Some vulkan_error\<rparr>))
               (eg_load eg path Cpu))
      else map_sum id (\<lambda>(m, _). (m, \<lparr>bd_observed_backend = ''CPU'',
             bd_fallback_reason = (if preference = ''cpu'' then None else Some ''Vulkan backend unavailable'')\<rparr>))
           (eg_load eg path Cpu))"

definition loaded_model_new :: "string \<Rightarrow> engine_model \<Rightarrow> backend_diagnostic \<Rightarrow> loaded_model" where
  "loaded_model_new i m b = \<lparr>lm_id = i, lm_model = m, lm_diagnostic = b, lm_caps = from_model m\<rparr>"

definition with_data :: "(sdata \<Rightarrow> sdata) \<Rightarrow> app \<Rightarrow> app" where
  "with_data f a = a\<lparr>ap_server := (ap_server a)\<lparr>sv_data := f (ap_data a)\<rparr>\<rparr>"

definition set_loaded :: "loaded_model option \<Rightarrow> app \<Rightarrow> app" where
  "set_loaded l a = with_data (\<lambda>d. d\<lparr>d_loaded := map_option lm_id l\<rparr>) (a\<lparr>ap_loaded := l\<rparr>)"

definition cache_caps :: "string \<Rightarrow> loaded_caps \<Rightarrow> app \<Rightarrow> app" where
  "cache_caps i c a = a\<lparr>ap_live_caps := (ap_live_caps a)(i \<mapsto> c)\<rparr>"

definition store_loaded :: "string \<Rightarrow> engine_model \<Rightarrow> backend_diagnostic \<Rightarrow> app \<Rightarrow> app" where
  "store_loaded i m b a = set_loaded (Some (loaded_model_new i m b)) (cache_caps i (from_model m) a)"

text \<open>The load of an opening runs beside the server: its beginning, and its end with the result.\<close>

definition begin_tracked_load :: "string \<Rightarrow> app \<Rightarrow> app" where
  "begin_tracked_load i a = a\<lparr>ap_loading := Some (i, 0)\<rparr>"

definition end_tracked_load :: "string \<Rightarrow> string + engine_model \<times> backend_diagnostic \<Rightarrow> app \<Rightarrow> app" where
  "end_tracked_load i r a =
     (case r of Inl e \<Rightarrow> a | Inr (m, b) \<Rightarrow> store_loaded i m b a)\<lparr>ap_loading := None\<rparr>"

subsection \<open>Selecting\<close>

definition known_or_installed :: "app \<Rightarrow> string \<Rightarrow> api_error + unit" where
  "known_or_installed a i =
     (if to_option (catalog_model (ap_catalog a) i) \<noteq> None \<or> find_installed i (ap_data a) \<noteq> None then Inr ()
      else Inl (api_error_new 404 ''model_not_found'' ''Unknown model ID''))"

definition loading_conflict :: "string \<Rightarrow> nat \<Rightarrow> api_error" where
  "loading_conflict m ms =
     with_details (JObj [(''model'', JStr m), (''elapsed_ms'', jnat ms)])
       (api_error_new 409 ''model_loading'' ''Another model is still loading; retry once it finishes'')"

definition select_checks :: "string option \<Rightarrow> string \<Rightarrow> app \<Rightarrow> api_error + installed" where
  "select_checks header i a =
     and_then (authorized header (ap_admin a) (ap_user a)) (\<lambda>_.
     and_then (case ap_loading a of None \<Rightarrow> Inr () | Some (m, ms) \<Rightarrow> Inl (loading_conflict m ms)) (\<lambda>_.
     and_then (known_or_installed a i) (\<lambda>_.
     and_then (ok_or (api_error_new 409 ''model_not_installed'' ''Install the model first'') (find_installed i (ap_data a))) (\<lambda>r.
       if in_needs_verification r then
         Inl (api_error_new 409 ''needs_verification''
           ''This model needs verification before selecting; run verify, or refresh for a drop-in model'')
       else Inr r))))"

definition select_model ::
    "engine \<Rightarrow> (app \<Rightarrow> app) \<Rightarrow> bool \<Rightarrow> string option \<Rightarrow> string \<Rightarrow> app \<Rightarrow> (api_error + json) \<times> app" where
  "select_model eg others save_ok header i a =
     (case select_checks header i a of
        Inl e \<Rightarrow> (Inl e, a)
      | Inr r \<Rightarrow>
          (case load_engine eg (in_path r) (backend_preference (ap_data a)) of
             Inl e \<Rightarrow> (Inl (api_error_new 409 ''model_load_failed'' e), others a)
           | Inr (m, b) \<Rightarrow>
               if \<not> save_ok then (Inl (internal ''database error''), others a)
               else (Inr (JObj [(''model'', JStr i), (''backend'', diagnostic_json b)]),
                 store_loaded i m b (with_data (put_setting ''selected_model'' (Some i)) (others a)))))"

text \<open>The wait for the inference slot: nothing within 30 seconds, or how the wait ended.\<close>

definition queue_api_error :: "queue_error \<Rightarrow> api_error" where
  "queue_api_error e =
     (case e of
        QueueFull \<Rightarrow> api_error_new 429 ''queue_full'' ''Too many transcriptions are already waiting''
      | QueueTimeout \<Rightarrow> api_error_new 503 ''queue_timeout'' ''Timed out waiting for a turn in the inference queue''
      | StreamActive \<Rightarrow> with_details (JObj [(''reason'', JStr ''stream_active'')])
          (api_error_new 503 ''engine_busy'' ''A live stream is using the requested model''))"

definition wait_for_idle_inference :: "(queue_error + nat) option \<Rightarrow> api_error + nat" where
  "wait_for_idle_inference w =
     (case w of
        None \<Rightarrow> Inl (api_error_new 409 ''model_in_use'' ''Inference did not finish before the unload timeout'')
      | Some r \<Rightarrow> map_sum queue_api_error id r)"

definition deselect_model ::
    "(app \<Rightarrow> app) \<Rightarrow> (queue_error + nat) option \<Rightarrow> bool \<Rightarrow> string option \<Rightarrow> app \<Rightarrow> (api_error + json) \<times> app" where
  "deselect_model others w delete_ok header a =
     (case authorized header (ap_admin a) (ap_user a) of
        Inl e \<Rightarrow> (Inl e, a)
      | Inr _ \<Rightarrow>
          (case wait_for_idle_inference w of
             Inl e \<Rightarrow> (Inl e, others a)
           | Inr _ \<Rightarrow>
               if \<not> delete_ok then (Inl (internal ''database error''), others a)
               else (Inr (JObj [(''model'', JNull), (''loaded'', JBool False)]),
                 set_loaded None (with_data (put_setting ''selected_model'' None) (others a)))))"

definition unload_model ::
    "(app \<Rightarrow> app) \<Rightarrow> (queue_error + nat) option \<Rightarrow> string option \<Rightarrow> app \<Rightarrow> (api_error + json) \<times> app" where
  "unload_model others w header a =
     (case authorized header (ap_admin a) (ap_user a) of
        Inl e \<Rightarrow> (Inl e, a)
      | Inr _ \<Rightarrow>
          (case wait_for_idle_inference w of
             Inl e \<Rightarrow> (Inl e, others a)
           | Inr _ \<Rightarrow> (Inr (JObj [(''unloaded'', JBool True), (''loaded'', JBool False)]), set_loaded None (others a))))"

subsection \<open>Removing\<close>

text \<open>
  What a removal meets: the fresh staging name, whether the models folder and a path can be resolved and the
  latter is inside the former, which of the calls succeed, and what other requests and workers do before each of
  its steps. The lock of the selection keeps out the other requests that take it; the database is locked only
  for one statement at a time, so operations may start and end in between.
\<close>

record removal =
  rv_stage :: string
  rv_root_ok :: bool
  rv_in_models :: "string \<Rightarrow> bool option"
  rv_rename_ok :: bool
  rv_delete_ok :: bool
  rv_undo_ok :: bool
  rv_unlink_ok :: bool
  rv_others :: "nat \<Rightarrow> app \<Rightarrow> app"

definition remove_checks :: "removal \<Rightarrow> string option \<Rightarrow> string \<Rightarrow> app \<Rightarrow> (api_error + installed) \<times> app" where
  "remove_checks rv header i a =
     (case and_then (authorized header (ap_admin a) (ap_user a)) (\<lambda>_. known_or_installed a i) of
        Inl e \<Rightarrow> (Inl e, a)
      | Inr _ \<Rightarrow>
          let a = rv_others rv 0 a in
          if active_count i (ap_data a) > 0
          then (Inl (api_error_new 409 ''operation_conflict'' ''Model has an active operation''), a)
          else let a = rv_others rv 1 a in
            if default_id a = Some i
            then (Inl (api_error_new 409 ''model_in_use'' ''The selected model cannot be removed''), a)
            else let a = rv_others rv 2 a in
              (ok_or (api_error_new 404 ''model_not_installed'' ''Model is not installed'') (find_installed i (ap_data a)), a))"

definition removed_json :: "string \<Rightarrow> bool \<Rightarrow> json" where
  "removed_json i deleted = JObj [(''model'', JStr i), (''removed'', JBool True), (''file_deleted'', JBool deleted)]"

text \<open>The steps on a managed file of the store: it is moved away, unregistered and deleted.\<close>

definition remove_staged :: "removal \<Rightarrow> string \<Rightarrow> string \<Rightarrow> app \<Rightarrow> (api_error + json) \<times> app" where
  "remove_staged rv path i a =
     (let staged = rv_others rv 4 (with_data (move_file path (rv_stage rv)) a) in
      if \<not> rv_delete_ok rv then
        (Inl (internal ''database error''),
         let a = rv_others rv 5 staged in if rv_undo_ok rv then with_data (move_file (rv_stage rv) path) a else a)
      else let gone = rv_others rv 5 (with_data (delete_installed i) staged) in
        if \<not> rv_unlink_ok rv \<or> d_files (ap_data gone) (rv_stage rv) = None then (Inl (internal ''I/O error''), gone)
        else (Inr (removed_json i True), with_data (put_data_file (rv_stage rv) None) gone))"

definition remove_managed :: "removal \<Rightarrow> string \<Rightarrow> string \<Rightarrow> app \<Rightarrow> (api_error + json) \<times> app" where
  "remove_managed rv path i a =
     (if \<not> rv_root_ok rv then (Inl (internal ''I/O error''), a)
      else case rv_in_models rv path of
        None \<Rightarrow> (Inl (internal ''I/O error''), a)
      | Some False \<Rightarrow> (Inl (api_error_new 409 ''unowned_model_path'' ''Refusing to remove a file outside the model store''), a)
      | Some True \<Rightarrow>
          if \<not> rv_rename_ok rv \<or> d_files (ap_data a) path = None then (Inl (internal ''I/O error''), a)
          else remove_staged rv path i a)"

definition remove_model :: "removal \<Rightarrow> string option \<Rightarrow> string \<Rightarrow> app \<Rightarrow> (api_error + json) \<times> app" where
  "remove_model rv header i a =
     (case remove_checks rv header i a of
        (Inl e, a) \<Rightarrow> (Inl e, a)
      | (Inr r, a) \<Rightarrow>
          let a = rv_others rv 3 a in
          if in_source r = source_user_folder then
            (if rv_delete_ok rv then (Inr (removed_json i False), with_data (delete_installed i) a)
             else (Inl (internal ''database error''), a))
          else remove_managed rv (in_path r) i a)"

subsection \<open>What selecting and removing change\<close>

lemma with_data_sel [simp]:
  "ap_data (with_data f a) = f (ap_data a)" "ap_catalog (with_data f a) = ap_catalog a"
  "ap_loaded (with_data f a) = ap_loaded a" "ap_loading (with_data f a) = ap_loading a"
  "ap_live_caps (with_data f a) = ap_live_caps a" "ap_admin (with_data f a) = ap_admin a"
  "ap_user (with_data f a) = ap_user a"
  by (simp_all add: with_data_def)

lemma set_loaded_sel [simp]:
  "ap_data (set_loaded l a) = (ap_data a)\<lparr>d_loaded := map_option lm_id l\<rparr>" "ap_catalog (set_loaded l a) = ap_catalog a"
  "ap_loaded (set_loaded l a) = l" "ap_live_caps (set_loaded l a) = ap_live_caps a" "ap_loading (set_loaded l a) = ap_loading a"
  by (simp_all add: set_loaded_def)

lemma store_loaded_sel [simp]:
  "ap_data (store_loaded i m b a) = (ap_data a)\<lparr>d_loaded := Some i\<rparr>"
  "ap_loaded (store_loaded i m b a) = Some (loaded_model_new i m b)" "ap_loading (store_loaded i m b a) = ap_loading a"
  "ap_catalog (store_loaded i m b a) = ap_catalog a"
  "ap_live_caps (store_loaded i m b a) = (ap_live_caps a)(i \<mapsto> from_model m)"
  by (simp_all add: store_loaded_def cache_caps_def loaded_model_new_def)

lemma loaded_model_new_sel [simp]:
  "lm_id (loaded_model_new i m b) = i" "lm_caps (loaded_model_new i m b) = from_model m"
  "lm_model (loaded_model_new i m b) = m" "lm_diagnostic (loaded_model_new i m b) = b"
  by (simp_all add: loaded_model_new_def)

lemma select_model_Inr:
  assumes "select_model eg others save_ok header i a = (Inr body, a')"
  obtains r m b where "select_checks header i a = Inr r"
    "load_engine eg (in_path r) (backend_preference (ap_data a)) = Inr (m, b)"
    "a' = store_loaded i m b (with_data (put_setting ''selected_model'' (Some i)) (others a))"
    "body = JObj [(''model'', JStr i), (''backend'', diagnostic_json b)]"
  using assms unfolding select_model_def by (auto split: sum.splits if_splits)

lemma select_checks_Inr:
  assumes "select_checks header i a = Inr r"
  shows "authorized header (ap_admin a) (ap_user a) = Inr ()" "ap_loading a = None"
    "find_installed i (ap_data a) = Some r" "\<not> in_needs_verification r"
  using assms by (auto simp: select_checks_def outcome_simps split: option.splits if_splits)

lemma admin_is_user: "authorized header admin user = Inr u \<Longrightarrow> authorize header admin user lvl = Inr ()"
  by (cases lvl) (simp_all add: authorized_def authorize_ok)

lemma put_setting_selected [simp]: "selected_id (put_setting ''selected_model'' v d) = v"
  by (simp add: put_setting_def selected_id_def)

lemma selected_id_loaded [simp]: "selected_id (d\<lparr>d_loaded := l\<rparr>) = selected_id d"
  by (simp add: selected_id_def)

text \<open>The invariant of the loaded model: the state tables agree with it, and its capabilities are cached.\<close>

definition loaded_ok :: "app \<Rightarrow> bool" where
  "loaded_ok a \<longleftrightarrow> d_loaded (ap_data a) = map_option lm_id (ap_loaded a)
     \<and> (\<forall>l. ap_loaded a = Some l \<longrightarrow> ap_live_caps a (lm_id l) \<noteq> None
          \<and> (lm_caps l = from_model (lm_model l) \<or> lm_caps l = mark_timestamp_granularity_rejected (from_model (lm_model l))))"

lemma loaded_ok_store: "loaded_ok (store_loaded i m b a)"
  by (simp add: loaded_ok_def)

lemma loaded_ok_unload: "loaded_ok (set_loaded None a)"
  by (simp add: loaded_ok_def)

lemma loaded_ok_data: "loaded_ok a \<Longrightarrow> d_loaded (f (ap_data a)) = d_loaded (ap_data a) \<Longrightarrow> loaded_ok (with_data f a)"
  by (simp add: loaded_ok_def)

lemma loaded_ok_loading: "loaded_ok a \<Longrightarrow> loaded_ok (a\<lparr>ap_loading := l\<rparr>)"
  by (simp add: loaded_ok_def)

lemma select_model_keeps:
  assumes "loaded_ok a" "loaded_ok (others a)"
  shows "loaded_ok (snd (select_model eg others save_ok header i a))"
  using assms by (auto simp: select_model_def loaded_ok_store split: sum.splits)

lemma deselect_model_keeps:
  assumes "loaded_ok a" "loaded_ok (others a)"
  shows "loaded_ok (snd (deselect_model others w delete_ok header a))"
    "loaded_ok (snd (unload_model others w header a))"
  using assms by (auto simp: deselect_model_def unload_model_def loaded_ok_unload split: sum.splits)

lemma delete_installed_loaded [simp]: "d_loaded (delete_installed i d) = d_loaded d"
  by (simp add: delete_installed_def)

lemma put_data_file_loaded [simp]: "d_loaded (put_data_file p f d) = d_loaded d"
  by (simp add: put_data_file_def)

lemma remove_model_keeps:
  assumes "loaded_ok a" "\<And>k b. loaded_ok b \<Longrightarrow> loaded_ok (rv_others rv k b)"
  shows "loaded_ok (snd (remove_model rv header i a))"
proof -
  have "loaded_ok (snd (remove_checks rv header i a))"
    using assms by (auto simp: remove_checks_def Let_def split: sum.splits)
  moreover have "loaded_ok (snd (remove_managed rv p i b))" if "loaded_ok b" for p b
    using that assms(2) by (auto simp: remove_managed_def remove_staged_def Let_def loaded_ok_data split: option.splits bool.splits)
  ultimately show ?thesis using assms(2)
    by (auto simp: remove_model_def Let_def loaded_ok_data split: sum.splits prod.splits)
qed

lemma tracked_load_keeps:
  assumes "loaded_ok a"
  shows "loaded_ok (begin_tracked_load i a)" "loaded_ok (end_tracked_load i r a)"
  using assms by (auto simp: begin_tracked_load_def end_tracked_load_def loaded_ok_loading loaded_ok_store split: sum.splits)

text \<open>
  C7. A selection is what the server reports afterwards, whatever other requests did during the load:
  the server is ready with the model, which is the saved default; unloading keeps the default and
  deselecting clears it. Only the route of the default does not follow: it looks the model up in the
  catalog, so a selected drop-in model answers 404.
\<close>

theorem selection_is_reported:
  assumes run: "select_model eg others save_ok header i a = (Inr body, a')"
    and same: "ap_catalog (others a) = ap_catalog a" "ap_admin (others a) = ap_admin a" "ap_user (others a) = ap_user a"
  shows "default_id a' = Some i \<and> loaded_ok a'
    \<and> (\<exists>v. readiness header a' = Inr (200, v) \<and> jindex v ''model'' = JStr i \<and> jindex v ''default_model'' = JStr i)
    \<and> (\<exists>a''. unload_model (\<lambda>x. x) (Some (Inr n)) header a'
          = (Inr (JObj [(''unloaded'', JBool True), (''loaded'', JBool False)]), a'')
        \<and> default_id a'' = Some i \<and> ap_loaded a'' = None)
    \<and> (\<exists>a''. deselect_model (\<lambda>x. x) (Some (Inr n)) True header a'
          = (Inr (JObj [(''model'', JNull), (''loaded'', JBool False)]), a'')
        \<and> default_id a'' = None \<and> ap_loaded a'' = None)
    \<and> (if i \<in> cm_slug ` set (ap_catalog a)
       then \<exists>v. selected_model header a' = Inr v \<and> jindex v ''model'' = JStr i \<and> jindex v ''backend'' = jindex body ''backend''
       else \<exists>e. selected_model header a' = Inl e \<and> status e = 404 \<and> code e = ''model_not_found'')"
proof -
  from run obtain r m b where "select_checks header i a = Inr r"
    and a': "a' = store_loaded i m b (with_data (put_setting ''selected_model'' (Some i)) (others a))"
    and body: "body = JObj [(''model'', JStr i), (''backend'', diagnostic_json b)]"
    by (rule select_model_Inr)
  then have admin: "authorized header (ap_admin a') (ap_user a') = Inr ()"
    using select_checks_Inr(1) same by (simp add: store_loaded_def set_loaded_def cache_caps_def)
  note user = admin_is_user [OF admin, of User]
  have default: "default_id a' = Some i" by (simp add: a')
  have loaded: "ap_loaded a' = Some (loaded_model_new i m b)" by (simp add: a')
  have catalog: "ap_catalog a' = ap_catalog a" using same by (simp add: a')
  have "\<exists>v. readiness header a' = Inr (200, v) \<and> jindex v ''model'' = JStr i \<and> jindex v ''default_model'' = JStr i"
    using user default loaded by (simp add: readiness_def Let_def jindex_def)
  moreover have "\<exists>a''. unload_model (\<lambda>x. x) (Some (Inr n)) header a'
        = (Inr (JObj [(''unloaded'', JBool True), (''loaded'', JBool False)]), a'')
      \<and> default_id a'' = Some i \<and> ap_loaded a'' = None"
    using admin default by (simp add: unload_model_def wait_for_idle_inference_def)
  moreover have "\<exists>a''. deselect_model (\<lambda>x. x) (Some (Inr n)) True header a'
        = (Inr (JObj [(''model'', JNull), (''loaded'', JBool False)]), a'')
      \<and> default_id a'' = None \<and> ap_loaded a'' = None"
    using admin by (simp add: deselect_model_def wait_for_idle_inference_def)
  moreover have "if i \<in> cm_slug ` set (ap_catalog a)
       then \<exists>v. selected_model header a' = Inr v \<and> jindex v ''model'' = JStr i \<and> jindex v ''backend'' = jindex body ''backend''
       else \<exists>e. selected_model header a' = Inl e \<and> status e = 404 \<and> code e = ''model_not_found''"
  proof (cases "List.find (\<lambda>m. cm_slug m = i) (ap_catalog a)")
    case None
    then have "i \<notin> cm_slug ` set (ap_catalog a)" by (auto simp: find_None_iff)
    with None user default catalog show ?thesis by (simp add: selected_model_def catalog_model_def)
  next
    case (Some cm)
    then have "i \<in> cm_slug ` set (ap_catalog a)" by (auto dest: find_Some_set)
    with Some user default catalog loaded body show ?thesis
      by (simp add: selected_model_def catalog_model_def jindex_def)
  qed
  ultimately show ?thesis using default by (simp add: a' loaded_ok_store)
qed

definition sample_engine :: engine where
  "sample_engine = \<lparr>eg_vulkan = True, eg_load = (\<lambda>p b. if b = Vulkan then Inl ''no device''
     else Inr (\<lparr>em_arch = ''whisper'', em_languages = [''en''], em_translate_targets = [], em_translate = False,
       em_language_detect = False, em_timestamp_kind = KSegment, em_streaming = False, em_spec_decode = False,
       em_native_sample_rate = 16000, em_supports = (\<lambda>f. False), em_accepts_whisper_run = True\<rparr>, ''CPU''))\<rparr>"

definition drop_in_row :: installed where
  "drop_in_row = \<lparr>in_id = ''custom-a'', in_path = ''/m/a.gguf'', in_sha256 = ''ab'', in_quant = None,
     in_filename = Some ''a.gguf'', in_size_bytes = Some 3, in_source = source_user_folder, in_custom_name = None,
     in_custom_arch = Some ''whisper'', in_custom_languages = None, in_custom_claims = None, in_mtime_ms = Some 1,
     in_needs_verification = False\<rparr>"

definition sample_app :: app where
  "sample_app = \<lparr>ap_server = sample_server\<lparr>sv_data := empty_data\<lparr>d_installed := [drop_in_row]\<rparr>\<rparr>, ap_catalog = [],
     ap_loaded = None, ap_loading = None, ap_live_caps = Map.empty, ap_dir = ''/d'', ap_admin = ''a'', ap_user = ''u''\<rparr>"

theorem selection_is_reported_witness:
  "\<exists>body a' e. select_model sample_engine (\<lambda>x. x) True (Some ''Bearer a'') ''custom-a'' sample_app = (Inr body, a')
     \<and> default_id a' = Some ''custom-a''
     \<and> selected_model (Some ''Bearer a'') a' = Inl e \<and> status e = 404"
proof -
  have "\<exists>body. fst (select_model sample_engine (\<lambda>x. x) True (Some ''Bearer a'') ''custom-a'' sample_app) = Inr body"
    by (simp add: select_model_def select_checks_def sample_app_def sample_engine_def drop_in_row_def known_or_installed_def
        find_installed_def load_engine_def authorized_def authorize_def bearer_token_def backend_preference_def empty_data_def)
  then obtain body a' where
    run: "select_model sample_engine (\<lambda>x. x) True (Some ''Bearer a'') ''custom-a'' sample_app = (Inr body, a')"
    by (metis prod.collapse)
  from selection_is_reported [OF run] have "default_id a' = Some ''custom-a''"
    "\<exists>e. selected_model (Some ''Bearer a'') a' = Inl e \<and> status e = 404"
    by (auto simp: sample_app_def)
  with run show ?thesis by blast
qed

subsection \<open>What a removal touches\<close>

text \<open>What the steps of a removal up to its first effect see: what the others have made of the state by then.\<close>

fun removal_sees :: "removal \<Rightarrow> nat \<Rightarrow> app \<Rightarrow> app" where
  "removal_sees rv 0 a = rv_others rv 0 a"
| "removal_sees rv (Suc k) a = rv_others rv (Suc k) (removal_sees rv k a)"

definition others_keep :: "removal \<Rightarrow> (sdata \<Rightarrow> 'v) \<Rightarrow> bool" where
  "others_keep rv view \<longleftrightarrow> (\<forall>k b. view (ap_data (rv_others rv k b)) = view (ap_data b))"

lemma others_keepD: "others_keep rv view \<Longrightarrow> view (ap_data (rv_others rv k b)) = view (ap_data b)"
  by (simp add: others_keep_def)

lemma removal_sees_keep: "others_keep rv view \<Longrightarrow> view (ap_data (removal_sees rv k a)) = view (ap_data a)"
  by (induction k) (simp_all add: others_keepD)

lemma removal_sees_numeral:
  "removal_sees rv 1 a = rv_others rv 1 (removal_sees rv 0 a)" "removal_sees rv 2 a = rv_others rv 2 (removal_sees rv 1 a)"
  "removal_sees rv 3 a = rv_others rv 3 (removal_sees rv 2 a)"
  by (simp_all add: numeral_eq_Suc)

lemma remove_checks_cases:
  assumes "remove_checks rv header i a = (c, b)"
  obtains (refused) e where "c = Inl e" "b = a \<or> (\<exists>k \<le> 3. b = removal_sees rv k a)"
  | (passed) r where "c = Inr r" "b = removal_sees rv 2 a" "active_count i (ap_data (removal_sees rv 0 a)) = 0"
      "default_id (removal_sees rv 1 a) \<noteq> Some i" "find_installed i (ap_data (removal_sees rv 2 a)) = Some r"
proof (cases c)
  case (Inl e)
  with assms have "b = a \<or> b = removal_sees rv 0 a \<or> b = removal_sees rv 1 a \<or> b = removal_sees rv 2 a"
    by (auto simp: remove_checks_def Let_def removal_sees_numeral split: sum.splits if_splits)
  then have "b = a \<or> (\<exists>k \<le> 3. b = removal_sees rv k a)" by (auto intro: exI [of _ 0] exI [of _ 1] exI [of _ 2])
  with Inl show thesis by (rule refused)
next
  case (Inr r)
  with assms show thesis
    by (intro passed)
      (auto simp: remove_checks_def Let_def removal_sees_numeral outcome_simps split: sum.splits if_splits option.splits)
qed

lemma remove_managed_cases:
  assumes "remove_managed rv path i a = (res, a')"
  obtains (refused) e where "res = Inl e" "a' = a"
  | (staged) "rv_in_models rv path = Some True" "d_files (ap_data a) path \<noteq> None" "remove_staged rv path i a = (res, a')"
  using assms by (auto simp: remove_managed_def split: if_splits option.splits bool.splits)

lemma remove_model_cases:
  assumes "remove_model rv header i a = (res, a')"
  obtains (refused) e where "res = Inl e" "a' = a \<or> (\<exists>k \<le> 3. a' = removal_sees rv k a)"
  | (unregistered) r where "active_count i (ap_data (removal_sees rv 0 a)) = 0" "default_id (removal_sees rv 1 a) \<noteq> Some i"
      "find_installed i (ap_data (removal_sees rv 2 a)) = Some r" "in_source r = source_user_folder"
      "res = Inr (removed_json i False)" "a' = with_data (delete_installed i) (removal_sees rv 3 a)"
  | (staged) r where "active_count i (ap_data (removal_sees rv 0 a)) = 0" "default_id (removal_sees rv 1 a) \<noteq> Some i"
      "find_installed i (ap_data (removal_sees rv 2 a)) = Some r" "in_source r \<noteq> source_user_folder"
      "rv_in_models rv (in_path r) = Some True" "d_files (ap_data (removal_sees rv 3 a)) (in_path r) \<noteq> None"
      "remove_staged rv (in_path r) i (removal_sees rv 3 a) = (res, a')"
proof (cases "remove_checks rv header i a")
  case (Pair c b)
  then show thesis
  proof (cases rule: remove_checks_cases)
    case (refused e)
    with assms Pair show thesis by (intro that(1)) (auto simp: remove_model_def)
  next
    case (passed r)
    have seen: "rv_others rv 3 b = removal_sees rv 3 a" by (simp add: passed removal_sees_numeral)
    show thesis
    proof (cases "in_source r = source_user_folder")
      case True
      with assms Pair passed(1) seen have "if rv_delete_ok rv
          then res = Inr (removed_json i False) \<and> a' = with_data (delete_installed i) (removal_sees rv 3 a)
          else res = Inl (internal ''database error'') \<and> a' = removal_sees rv 3 a"
        by (simp add: remove_model_def Let_def split: if_splits)
      with passed True show thesis by (cases "rv_delete_ok rv") (auto intro: that)
    next
      case False
      with assms Pair passed(1) seen have "remove_managed rv (in_path r) i (removal_sees rv 3 a) = (res, a')"
        by (simp add: remove_model_def Let_def)
      then show thesis
        by (cases rule: remove_managed_cases) (use passed False in \<open>auto intro: that\<close>)
    qed
  qed
qed

lemma find_delete_installed: "find_installed j (delete_installed i d) = (if j = i then None else find_installed j d)"
proof -
  have "List.find (\<lambda>r. in_id r = j) (filter (\<lambda>r. in_id r \<noteq> i) rs) = (if j = i then None else List.find (\<lambda>r. in_id r = j) rs)"
    for rs :: "installed list"
    by (induction rs) auto
  then show ?thesis by (simp add: find_installed_def delete_installed_def)
qed

lemma move_file_files: "d_files (move_file x y d) p =
    (case d_files d x of None \<Rightarrow> d_files d p | Some f \<Rightarrow> if p = y then Some f else if p = x then None else d_files d p)"
  by (auto simp: move_file_def put_data_file_def split: option.splits)

lemma delete_installed_sel [simp]:
  "d_files (delete_installed i d) = d_files d" "d_settings (delete_installed i d) = d_settings d"
  "d_operations (delete_installed i d) = d_operations d"
  by (simp_all add: delete_installed_def)

lemma put_data_file_sel [simp]:
  "find_installed j (put_data_file p f d) = find_installed j d" "d_settings (put_data_file p f d) = d_settings d"
  "d_operations (put_data_file p f d) = d_operations d" "d_files (put_data_file p f d) q = (if q = p then f else d_files d q)"
  by (simp_all add: put_data_file_def find_installed_def)

text \<open>A view of the tables and files that neither the steps of a removal nor the others change is as before.\<close>

lemma remove_staged_view:
  assumes "remove_staged rv path i b = (res, b')" "others_keep rv view"
    and "\<And>d. view (delete_installed i d) = view d" "\<And>x y d. {x, y} \<subseteq> {path, rv_stage rv} \<Longrightarrow> view (move_file x y d) = view d"
    and "\<And>d. view (put_data_file (rv_stage rv) None d) = view d"
  shows "view (ap_data b') = view (ap_data b)"
  using assms by (auto simp: remove_staged_def Let_def others_keepD split: if_splits)

lemma remove_model_view:
  assumes "remove_model rv header i a = (res, a')" "others_keep rv view"
    and "\<And>d. view (delete_installed i d) = view d"
    and "\<And>r x y d. find_installed i (ap_data (removal_sees rv 2 a)) = Some r \<Longrightarrow> in_source r \<noteq> source_user_folder
        \<Longrightarrow> rv_in_models rv (in_path r) = Some True \<Longrightarrow> {x, y} \<subseteq> {in_path r, rv_stage rv} \<Longrightarrow> view (move_file x y d) = view d"
    and "\<And>d. view (put_data_file (rv_stage rv) None d) = view d"
  shows "view (ap_data a') = view (ap_data a)"
  using assms(1)
proof (cases rule: remove_model_cases)
  case (refused e)
  with assms(2) show ?thesis by (auto simp: removal_sees_keep)
next
  case (unregistered r)
  with assms(2,3) show ?thesis by (simp add: removal_sees_keep)
next
  case (staged r)
  have "view (ap_data a') = view (ap_data (removal_sees rv 3 a))"
    by (rule remove_staged_view [OF staged(7) assms(2)]) (use assms(3,5) assms(4) [OF staged(3,4,5)] in auto)
  with assms(2) show ?thesis by (simp add: removal_sees_keep)
qed

lemma move_file_sel [simp]:
  "find_installed j (move_file x y d) = find_installed j d" "d_settings (move_file x y d) = d_settings d"
  "d_operations (move_file x y d) = d_operations d"
  by (simp_all add: move_file_def split: option.split)

lemma remove_staged_Inr:
  assumes "remove_staged rv path i b = (Inr body, b')" "path \<noteq> rv_stage rv"
  shows "body = removed_json i True \<and> d_files (ap_data b') (rv_stage rv) = None
    \<and> (others_keep rv (\<lambda>d. d_files d path) \<longrightarrow> d_files (ap_data b') path = None)
    \<and> (others_keep rv (find_installed i) \<longrightarrow> find_installed i (ap_data b') = None)"
  using assms
  by (auto simp: remove_staged_def Let_def others_keepD [where view = "\<lambda>d. d_files d path"] others_keepD [where view = "find_installed i"]
      find_delete_installed move_file_files split: if_splits option.splits)

lemma remove_staged_Inl:
  assumes "remove_staged rv path i b = (Inl e, b')" "d_files (ap_data b) path = Some f" "path \<noteq> rv_stage rv"
    and "others_keep rv (\<lambda>d. d_files d path)" "others_keep rv (\<lambda>d. d_files d (rv_stage rv))"
  shows "500 \<le> status e \<and> (d_files (ap_data b') path = Some f \<or> d_files (ap_data b') (rv_stage rv) = Some f)"
  using assms
  by (auto simp: remove_staged_def Let_def others_keepD [where view = "\<lambda>d. d_files d path"]
      others_keepD [where view = "\<lambda>d. d_files d (rv_stage rv)"] move_file_files split: if_splits)

text \<open>How a removal ends, for a staging name that is fresh and that the others leave alone.\<close>

lemma stage_free:
  assumes "d_files (ap_data a) (rv_stage rv) = None" "others_keep rv (\<lambda>d. d_files d (rv_stage rv))"
  shows "d_files (ap_data (removal_sees rv k a)) (rv_stage rv) = None"
  using assms removal_sees_keep [OF assms(2)] by simp

lemma remove_model_Inr:
  assumes "remove_model rv header i a = (Inr body, a')"
    and fresh: "d_files (ap_data a) (rv_stage rv) = None" "others_keep rv (\<lambda>d. d_files d (rv_stage rv))"
  obtains r where "active_count i (ap_data (removal_sees rv 0 a)) = 0" "default_id (removal_sees rv 1 a) \<noteq> Some i"
    "find_installed i (ap_data (removal_sees rv 2 a)) = Some r" "d_files (ap_data a') (rv_stage rv) = None"
    "others_keep rv (find_installed i) \<Longrightarrow> find_installed i (ap_data a') = None"
    "jindex body ''file_deleted'' = JBool (in_source r \<noteq> source_user_folder)"
    "in_source r \<noteq> source_user_folder \<Longrightarrow> others_keep rv (\<lambda>d. d_files d (in_path r)) \<Longrightarrow> d_files (ap_data a') (in_path r) = None"
  using assms(1)
proof (cases rule: remove_model_cases)
  case (unregistered r)
  with stage_free [OF fresh] show thesis by (intro that [of r]) (simp_all add: find_delete_installed removed_json_def jindex_def)
next
  case (staged r)
  then have "in_path r \<noteq> rv_stage rv" using stage_free [OF fresh] by auto
  from remove_staged_Inr [OF staged(7) this] staged show thesis by (intro that [of r]) (simp_all add: removed_json_def jindex_def)
qed simp

lemma remove_model_Inl:
  assumes "remove_model rv header i a = (Inl e, a')"
    and fresh: "d_files (ap_data a) (rv_stage rv) = None" "others_keep rv (\<lambda>d. d_files d (rv_stage rv))"
  shows "(status e < 500 \<longrightarrow> a' = a \<or> (\<exists>k \<le> 3. a' = removal_sees rv k a))
    \<and> (others_keep rv (\<lambda>d. d_files d p) \<longrightarrow> d_files (ap_data a) p \<noteq> None \<longrightarrow>
         d_files (ap_data a') p = d_files (ap_data a) p \<or> d_files (ap_data a') (rv_stage rv) = d_files (ap_data a) p)"
  using assms(1)
proof (cases rule: remove_model_cases)
  case (refused e')
  then show ?thesis by (auto simp: removal_sees_keep [where view = "\<lambda>d. d_files d p"])
next
  case (staged r)
  then have ne: "in_path r \<noteq> rv_stage rv" using stage_free [OF fresh] by auto
  obtain f where f: "d_files (ap_data (removal_sees rv 3 a)) (in_path r) = Some f" using staged(6) by blast
  have "d_files (ap_data a') p = d_files (ap_data a) p \<or> d_files (ap_data a') (rv_stage rv) = d_files (ap_data a) p"
    if p: "others_keep rv (\<lambda>d. d_files d p)" "d_files (ap_data a) p \<noteq> None"
  proof (cases "p = in_path r")
    case True
    with p(1) f have "d_files (ap_data a) p = Some f" using removal_sees_keep [OF p(1), of 3 a] by simp
    with True remove_staged_Inl [OF staged(7) f ne _ fresh(2)] p(1) show ?thesis by simp
  next
    case False
    moreover have "p \<noteq> rv_stage rv" using p(2) fresh(1) by auto
    ultimately have "d_files (ap_data a') p = d_files (ap_data (removal_sees rv 3 a)) p"
      using p(1) by (intro remove_staged_view [OF staged(7)]) (auto simp: move_file_files split: option.split)
    with removal_sees_keep [OF p(1), of 3 a] show ?thesis by simp
  qed
  moreover have "500 \<le> status e"
    using staged(7) by (auto simp: remove_staged_def Let_def internal_def split: if_splits)
  ultimately show ?thesis by auto
qed simp

text \<open>
  C8. What a removal does itself, whatever other requests and workers do between its steps. What the others leave
  alone, it leaves alone: every other model's row, the settings, the operations, and every file but the fresh
  staging name and the file of the row it read, which it touches only if the server manages that file and it lies
  in the models folder. A success means that when it looked the model had no active operation and was not the
  default; the row it read was unregistered, and its file deleted exactly if the server manages it. A refusal has
  done nothing, and after any error the content of a file the others left alone is in its place or under the
  staging name. What it saw can change before it acts: an operation that starts after the check is not noticed,
  as the witness shows.
\<close>

theorem remove_model_safe:
  assumes run: "remove_model rv header i a = (res, a')"
    and fresh: "d_files (ap_data a) (rv_stage rv) = None" "others_keep rv (\<lambda>d. d_files d (rv_stage rv))"
  shows "(\<forall>j. j \<noteq> i \<longrightarrow> others_keep rv (find_installed j) \<longrightarrow> find_installed j (ap_data a') = find_installed j (ap_data a))
    \<and> (others_keep rv d_settings \<longrightarrow> d_settings (ap_data a') = d_settings (ap_data a))
    \<and> (others_keep rv d_operations \<longrightarrow> d_operations (ap_data a') = d_operations (ap_data a))
    \<and> (\<forall>p. others_keep rv (\<lambda>d. d_files d p) \<longrightarrow> p \<noteq> rv_stage rv \<longrightarrow> d_files (ap_data a') p \<noteq> d_files (ap_data a) p \<longrightarrow>
         rv_in_models rv p = Some True
         \<and> (\<exists>r. find_installed i (ap_data (removal_sees rv 2 a)) = Some r \<and> in_path r = p \<and> in_source r \<noteq> source_user_folder))
    \<and> (case res of
         Inr body \<Rightarrow> active_count i (ap_data (removal_sees rv 0 a)) = 0 \<and> default_id (removal_sees rv 1 a) \<noteq> Some i
           \<and> (others_keep rv (find_installed i) \<longrightarrow> find_installed i (ap_data a') = None)
           \<and> d_files (ap_data a') (rv_stage rv) = None
           \<and> (\<exists>r. find_installed i (ap_data (removal_sees rv 2 a)) = Some r
                \<and> jindex body ''file_deleted'' = JBool (in_source r \<noteq> source_user_folder)
                \<and> (in_source r \<noteq> source_user_folder \<longrightarrow> others_keep rv (\<lambda>d. d_files d (in_path r)) \<longrightarrow>
                     d_files (ap_data a') (in_path r) = None))
       | Inl e \<Rightarrow> (status e < 500 \<longrightarrow> a' = a \<or> (\<exists>k \<le> 3. a' = removal_sees rv k a))
           \<and> (\<forall>p. others_keep rv (\<lambda>d. d_files d p) \<longrightarrow> d_files (ap_data a) p \<noteq> None \<longrightarrow>
                d_files (ap_data a') p = d_files (ap_data a) p \<or> d_files (ap_data a') (rv_stage rv) = d_files (ap_data a) p))"
proof (intro conjI allI impI)
  note view = remove_model_view [OF run]
  fix j assume "j \<noteq> i" "others_keep rv (find_installed j)"
  then show "find_installed j (ap_data a') = find_installed j (ap_data a)" by (intro view) (simp_all add: find_delete_installed)
next
  assume "others_keep rv d_settings"
  then show "d_settings (ap_data a') = d_settings (ap_data a)" by (intro remove_model_view [OF run]) simp_all
next
  assume "others_keep rv d_operations"
  then show "d_operations (ap_data a') = d_operations (ap_data a)" by (intro remove_model_view [OF run]) simp_all
next
  fix p assume p: "others_keep rv (\<lambda>d. d_files d p)" "p \<noteq> rv_stage rv" "d_files (ap_data a') p \<noteq> d_files (ap_data a) p"
  have "\<exists>r. find_installed i (ap_data (removal_sees rv 2 a)) = Some r \<and> in_source r \<noteq> source_user_folder
      \<and> rv_in_models rv (in_path r) = Some True \<and> in_path r = p"
  proof (rule ccontr)
    assume "\<not> ?thesis"
    then have "d_files (ap_data a') p = d_files (ap_data a) p"
      using p(1,2) by (intro remove_model_view [OF run, where view = "\<lambda>d. d_files d p"]) (auto simp: move_file_files split: option.split)
    with p(3) show False by blast
  qed
  then show "rv_in_models rv p = Some True"
    "\<exists>r. find_installed i (ap_data (removal_sees rv 2 a)) = Some r \<and> in_path r = p \<and> in_source r \<noteq> source_user_folder" by blast+
next
  show "case res of
         Inr body \<Rightarrow> active_count i (ap_data (removal_sees rv 0 a)) = 0 \<and> default_id (removal_sees rv 1 a) \<noteq> Some i
           \<and> (others_keep rv (find_installed i) \<longrightarrow> find_installed i (ap_data a') = None)
           \<and> d_files (ap_data a') (rv_stage rv) = None
           \<and> (\<exists>r. find_installed i (ap_data (removal_sees rv 2 a)) = Some r
                \<and> jindex body ''file_deleted'' = JBool (in_source r \<noteq> source_user_folder)
                \<and> (in_source r \<noteq> source_user_folder \<longrightarrow> others_keep rv (\<lambda>d. d_files d (in_path r)) \<longrightarrow>
                     d_files (ap_data a') (in_path r) = None))
       | Inl e \<Rightarrow> (status e < 500 \<longrightarrow> a' = a \<or> (\<exists>k \<le> 3. a' = removal_sees rv k a))
           \<and> (\<forall>p. others_keep rv (\<lambda>d. d_files d p) \<longrightarrow> d_files (ap_data a) p \<noteq> None \<longrightarrow>
                d_files (ap_data a') p = d_files (ap_data a) p \<or> d_files (ap_data a') (rv_stage rv) = d_files (ap_data a) p)"
  proof (cases res)
    case (Inl e)
    from remove_model_Inl [OF run [unfolded Inl] fresh] Inl show ?thesis by simp
  next
    case (Inr body)
    show ?thesis by (rule remove_model_Inr [OF run [unfolded Inr] fresh]) (use Inr in auto)
  qed
qed

text \<open>A model of the store, and a request that queues its verification when the removal has passed its checks.\<close>

definition stored_row :: installed where
  "stored_row = drop_in_row\<lparr>in_id := ''custom-b'', in_path := ''/d/models/b.gguf'', in_source := source_import_user\<rparr>"

definition queued_verify :: operation where
  "queued_verify = \<lparr>o_id = ''v'', o_model = ''custom-b'', o_kind = ''verify'', o_state = ''queued'', o_error = None,
     o_error_code = None, o_bytes = 0, o_total = 3, o_created = Some 1, o_updated = Some 1, o_finished = None, o_items = 0,
     o_total_items = 0, o_result = None\<rparr>"

definition store_app :: app where
  "store_app = sample_app\<lparr>ap_server := sample_server\<lparr>sv_data := empty_data\<lparr>d_installed := [drop_in_row, stored_row],
     d_files := [''/d/models/b.gguf'' \<mapsto> \<lparr>fi_bytes = [], fi_mtime = None\<rparr>]\<rparr>\<rparr>\<rparr>"

definition overtaken_removal :: removal where
  "overtaken_removal = \<lparr>rv_stage = ''/d/staging/x.deleting'', rv_root_ok = True, rv_in_models = (\<lambda>p. Some (take 9 p = ''/d/models'')),
     rv_rename_ok = True, rv_delete_ok = True, rv_undo_ok = True, rv_unlink_ok = True,
     rv_others = (\<lambda>k. if k = 3 then with_data (\<lambda>d. d\<lparr>d_operations := queued_verify # d_operations d\<rparr>) else (\<lambda>b. b))\<rparr>"

theorem remove_model_safe_witness:
  "\<exists>body a'. remove_model overtaken_removal (Some ''Bearer a'') ''custom-b'' store_app = (Inr body, a')
     \<and> find_installed ''custom-b'' (ap_data a') = None \<and> find_installed ''custom-a'' (ap_data a') = Some drop_in_row
     \<and> d_files (ap_data a') ''/d/models/b.gguf'' = None \<and> active_count ''custom-b'' (ap_data a') = 1"
proof -
  let ?rv = overtaken_removal
  have keep: "others_keep ?rv (find_installed j)" "others_keep ?rv (\<lambda>d. d_files d p)" for j p
    by (simp_all add: others_keep_def overtaken_removal_def find_installed_def)
  have rows: "find_installed ''custom-b'' (ap_data store_app) = Some stored_row" "find_installed ''custom-a'' (ap_data store_app) = Some drop_in_row"
    "d_files (ap_data store_app) ''/d/staging/x.deleting'' = None"
    by (simp_all add: store_app_def sample_app_def find_installed_def stored_row_def drop_in_row_def)
  have stage: "rv_stage ?rv = ''/d/staging/x.deleting''" by (simp add: overtaken_removal_def)
  have "\<exists>body a'. remove_model ?rv (Some ''Bearer a'') ''custom-b'' store_app = (Inr body, a') \<and> active_count ''custom-b'' (ap_data a') = 1"
    by (simp add: remove_model_def remove_checks_def remove_managed_def remove_staged_def Let_def overtaken_removal_def store_app_def
        sample_app_def drop_in_row_def stored_row_def known_or_installed_def find_installed_def authorized_def authorize_def
        bearer_token_def empty_data_def active_count_def selected_id_def move_file_def put_data_file_def delete_installed_def
        queued_verify_def with_data_def source_user_folder_def source_import_user_def active_def)
  then obtain body a' where run: "remove_model ?rv (Some ''Bearer a'') ''custom-b'' store_app = (Inr body, a')"
    "active_count ''custom-b'' (ap_data a') = 1" by blast
  have seen: "find_installed ''custom-b'' (ap_data (removal_sees ?rv 2 store_app)) = Some stored_row"
    using rows(1) removal_sees_keep [OF keep(1)] by simp
  from remove_model_safe [OF run(1)] keep rows have
    "find_installed ''custom-b'' (ap_data a') = None" "find_installed ''custom-a'' (ap_data a') = Some drop_in_row"
    "d_files (ap_data a') (in_path stored_row) = None"
    by (simp_all add: stage seen stored_row_def source_user_folder_def source_import_user_def)
  with run show ?thesis by (simp add: stored_row_def)
qed

end
