(* ===== verification/Transcription.thy ===== *)
theory Transcription
  imports Model_Selection Run_Plan Response_Format Audio Vad
begin

text \<open>
  The audio routes of \<open>src/api.rs\<close>: reading the form, finding the model a request names, waiting for
  the slot, loading the model if another one is loaded, running the engine, and the answer; and the
  speech-detection route, which needs no model. The form decoder, the WAV reader, the resampler, the
  engine and the parser of floating point numbers are libraries; waits and other requests are given by
  what they observe and do.
\<close>

subsection \<open>The form\<close>

datatype form_field = Field string "string + string" "string + byte list" | Broken_field string

record collected =
  co_file :: "byte list option"
  co_model :: "string option"
  co_language :: "string option"
  co_prompt :: "string option"
  co_temperature :: "string option"
  co_response_format :: "string option"
  co_timestamp_granularities :: "string list"
  co_target_language :: "string option"
  co_priority :: "string option"

record transcription_fields =
  tf_file :: "byte list"
  tf_model :: string
  tf_request :: parsed_request
  tf_priority :: priority

definition invalid_multipart :: "string \<Rightarrow> api_error" where
  "invalid_multipart m = api_error_new 400 ''invalid_multipart'' m"

definition duplicate_field :: "string \<Rightarrow> api_error" where
  "duplicate_field n = api_error_new 400 ''duplicate_field'' n"

text \<open>A field that may come once: the check comes before its content is read.\<close>

definition once :: "string \<Rightarrow> 'a option \<Rightarrow> string + 'a \<Rightarrow> api_error + 'a option" where
  "once n old content =
     (case old of Some x \<Rightarrow> Inl (duplicate_field n) | None \<Rightarrow> map_sum invalid_multipart Some content)"

definition collect_field :: "endpoint \<Rightarrow> form_field \<Rightarrow> collected \<Rightarrow> api_error + collected" where
  "collect_field ep fld c =
     (case fld of
        Broken_field e \<Rightarrow> Inl (invalid_multipart e)
      | Field n txt content \<Rightarrow>
          if n = ''file'' then map_sum id (\<lambda>v. c\<lparr>co_file := v\<rparr>) (once n (co_file c) content)
          else if n = ''model'' then map_sum id (\<lambda>v. c\<lparr>co_model := v\<rparr>) (once n (co_model c) txt)
          else if n = ''language'' then map_sum id (\<lambda>v. c\<lparr>co_language := v\<rparr>) (once n (co_language c) txt)
          else if n = ''prompt'' then map_sum id (\<lambda>v. c\<lparr>co_prompt := v\<rparr>) (once n (co_prompt c) txt)
          else if n = ''temperature'' then map_sum id (\<lambda>v. c\<lparr>co_temperature := v\<rparr>) (once n (co_temperature c) txt)
          else if n = ''response_format'' then
            map_sum id (\<lambda>v. c\<lparr>co_response_format := v\<rparr>) (once n (co_response_format c) txt)
          else if n = ''timestamp_granularities'' \<or> n = ''timestamp_granularities[]'' then
            map_sum invalid_multipart
              (\<lambda>v. c\<lparr>co_timestamp_granularities := co_timestamp_granularities c @ [v]\<rparr>) txt
          else if n = ''target_language'' \<and> ep = Translations then
            map_sum id (\<lambda>v. c\<lparr>co_target_language := v\<rparr>) (once n (co_target_language c) txt)
          else if n = ''priority'' then map_sum id (\<lambda>v. c\<lparr>co_priority := v\<rparr>) (once n (co_priority c) txt)
          else Inl (unsupported_capability (''Field '' @ n @ '' is not supported'')))"

fun collect_fields :: "endpoint \<Rightarrow> form_field list \<Rightarrow> collected \<Rightarrow> api_error + collected" where
  "collect_fields ep [] c = Inr c"
| "collect_fields ep (fld # rest) c = and_then (collect_field ep fld c) (collect_fields ep rest)"

definition nothing_collected :: collected where
  "nothing_collected = \<lparr>co_file = None, co_model = None, co_language = None, co_prompt = None, co_temperature = None,
     co_response_format = None, co_timestamp_granularities = [], co_target_language = None, co_priority = None\<rparr>"

definition parse_transcription_multipart ::
    "(string \<Rightarrow> f32 option) \<Rightarrow> endpoint \<Rightarrow> form_field list \<Rightarrow> api_error + transcription_fields" where
  "parse_transcription_multipart parse_f32 ep flds =
     and_then (collect_fields ep flds nothing_collected) (\<lambda>c.
     and_then (ok_or (api_error_new 400 ''missing_file'' ''file is required'') (co_file c)) (\<lambda>content.
     and_then (case co_temperature c of
         None \<Rightarrow> Inr None
       | Some raw \<Rightarrow> map_sum id Some
           (ok_or (api_error_new 400 ''invalid_temperature'' ''temperature must be a number'') (parse_f32 raw))) (\<lambda>temperature.
     and_then (case co_priority c of
         None \<Rightarrow> Inr Normal
       | Some raw \<Rightarrow>
           ok_or (api_error_new 400 ''invalid_priority'' (''priority must be '' @ double_quoted ''normal'' @ '' or '' @ double_quoted ''interactive''))
             (parse_priority raw)) (\<lambda>priority.
       Inr \<lparr>tf_file = content, tf_model = unwrap_or ''default'' (co_model c),
            tf_request = \<lparr>rq_language = co_language c, rq_prompt = co_prompt c, rq_temperature = temperature,
              rq_response_format = co_response_format c, rq_timestamp_granularities = co_timestamp_granularities c,
              rq_target_language = co_target_language c\<rparr>,
            tf_priority = priority\<rparr>))))"

subsection \<open>The model of a request\<close>

definition require_installed_verified :: "app \<Rightarrow> string \<Rightarrow> api_error + installed" where
  "require_installed_verified a i =
     (case find_installed i (ap_data a) of
        Some r \<Rightarrow>
          if \<not> in_needs_verification r then Inr r
          else Inl (api_error_new 409 ''needs_verification''
            ''This model needs verification before it can serve requests; run verify, or refresh for a drop-in model'')
      | None \<Rightarrow> Inl (api_error_new 404 ''model_not_installed'' ''This model is not installed''))"

definition resolve_requested_model :: "app \<Rightarrow> string \<Rightarrow> api_error + string" where
  "resolve_requested_model a requested =
     (if requested \<noteq> ''default'' then Inr requested
      else case default_id a of
        Some i \<Rightarrow> Inr i
      | None \<Rightarrow>
          (case ap_loading a of
             Some (m, ms) \<Rightarrow> Inl (with_details (JObj [(''model'', JStr m), (''elapsed_ms'', jnat ms)])
               (api_error_new 503 ''model_loading'' ''The selected model is still loading''))
           | None \<Rightarrow>
               let e = api_error_new 503 ''server_not_ready'' ''No model loaded'' in
               Inl (case active_operation_id (ap_data a) of
                      Some op \<Rightarrow> with_details (JObj [(''operation_id'', JStr op)]) e | None \<Rightarrow> e)))"

definition swap_poll_ms :: nat where "swap_poll_ms = 50"

definition still_loading :: "string \<Rightarrow> api_error" where
  "still_loading target =
     with_details (JObj [(''model'', JStr target)]) (api_error_new 503 ''model_loading'' ''The requested model is still loading'')"

definition load_failed :: "string \<Rightarrow> string \<Rightarrow> api_error" where
  "load_failed target e = with_details (JObj [(''model'', JStr target)]) (api_error_new 409 ''model_load_failed'' e)"

definition wait_over :: "nat option \<Rightarrow> nat \<Rightarrow> bool" where
  "wait_over wait_timeout waited = (case wait_timeout of None \<Rightarrow> False | Some t \<Rightarrow> t \<le> waited)"

text \<open>
  The loop that makes the requested model the loaded one. Each round, other requests and the
  background load act before it and during a load it makes; without further rounds the request still
  waits.
\<close>

fun bind_or_swap_model ::
    "engine \<Rightarrow> string \<Rightarrow> nat option \<Rightarrow> nat \<Rightarrow> ((app \<Rightarrow> app) \<times> (app \<Rightarrow> app)) list \<Rightarrow> app \<Rightarrow>
     ((api_error + loaded_model) \<times> app) option" where
  "bind_or_swap_model eg target wait_timeout waited [] a = None"
| "bind_or_swap_model eg target wait_timeout waited ((before, during) # rest) a0 =
     (let a = before a0;
          again = (if map_option fst (ap_loading a) = Some target then
              (if wait_over wait_timeout waited then Some (Inl (still_loading target), a)
               else bind_or_swap_model eg target wait_timeout (waited + swap_poll_ms) rest a)
            else case require_installed_verified a target of
              Inl e \<Rightarrow> Some (Inl e, a)
            | Inr r \<Rightarrow>
                (case load_engine eg (in_path r) (backend_preference (ap_data a)) of
                   Inl e \<Rightarrow> Some (Inl (load_failed target e), during a)
                 | Inr (m, b) \<Rightarrow> bind_or_swap_model eg target wait_timeout waited rest (store_loaded target m b (during a))))
      in case ap_loaded a of
           Some l \<Rightarrow> if lm_id l = target then Some (Inr l, a) else again
         | None \<Rightarrow> again)"

subsection \<open>Running the engine\<close>

text \<open>A session may fail to open; sessions and runs are numbered, because a retry opens a second one.\<close>

record runner =
  rn_session :: "nat \<Rightarrow> engine_error + unit"
  rn_run :: "nat \<Rightarrow> f32 list \<Rightarrow> run_options \<Rightarrow> engine_error + transcript"
  rn_tokenize :: "engine_model \<Rightarrow> string \<Rightarrow> nat option"
  rn_timings :: "transcript \<Rightarrow> rat \<times> rat \<times> rat"
  rn_late :: bool
  rn_panic :: "string option"
  rn_elapsed :: nat

definition run_with_retry :: "runner \<Rightarrow> bool \<Rightarrow> f32 list \<Rightarrow> run_options \<Rightarrow> engine_error + transcript \<times> bool" where
  "run_with_retry rn retry_eligible pcm opts =
     and_then (rn_session rn 0) (\<lambda>_.
       case rn_run rn 0 pcm opts of
         Inr t \<Rightarrow> Inr (t, False)
       | Inl (Unsupported m) \<Rightarrow>
           if retry_eligible then
             (case rn_session rn 1 of
                Inl _ \<Rightarrow> Inl (Unsupported m)
              | Inr _ \<Rightarrow>
                  (case rn_run rn 1 pcm (opts\<lparr>ro_timestamps := KNone\<rparr>) of
                     Inr t \<Rightarrow> Inr (t, True)
                   | Inl _ \<Rightarrow> Inl (Unsupported m)))
           else Inl (Unsupported m)
       | Inl e \<Rightarrow> Inl e)"

definition await_worker :: "runner \<Rightarrow> nat option \<Rightarrow> 'a \<Rightarrow> api_error + 'a" where
  "await_worker rn timeout_ms result =
     (case timeout_ms of
        Some ms \<Rightarrow> if rn_late rn
          then Inl (api_error_new 504 ''inference_timeout'' (''Inference exceeded the '' @ decimal ms @ ''ms limit''))
          else (case rn_panic rn of Some m \<Rightarrow> Inl (internal m) | None \<Rightarrow> Inr result)
      | None \<Rightarrow> (case rn_panic rn of Some m \<Rightarrow> Inl (internal m) | None \<Rightarrow> Inr result))"

text \<open>The loaded model's capabilities, when the engine has rejected its timestamps.\<close>

definition mark_rejected :: "string \<Rightarrow> app \<Rightarrow> app" where
  "mark_rejected i a =
     (case ap_loaded a of
        Some l \<Rightarrow>
          if lm_id l = i then a\<lparr>ap_loaded := Some (l\<lparr>lm_caps := mark_timestamp_granularity_rejected (lm_caps l)\<rparr>)\<rparr> else a
      | None \<Rightarrow> a)"

definition finish_transcription ::
    "runner \<Rightarrow> f32 list \<Rightarrow> nat \<Rightarrow> loaded_model \<Rightarrow> plan \<Rightarrow> engine_error + transcript \<times> bool \<Rightarrow> app \<Rightarrow> (api_error + formatted) \<times> app" where
  "finish_transcription rn pcm queue_wait_ms l p result a =
     (let retried = (case result of Inr (_, b) \<Rightarrow> b | Inl _ \<Rightarrow> False);
          finish = (\<lambda>t truncated.
            let a = (if retried then mark_rejected (lm_id l) a else a);
                (mel, enc, dec) = rn_timings rn t
            in (Inr (format_response t p (length pcm)
                 \<lparr>dx_queue_wait_ms = queue_wait_ms, dx_inference_ms = rn_elapsed rn,
                  dx_audio_ms = length pcm * 1000 div 16000, dx_model = lm_id l,
                  dx_backend = bd_observed_backend (lm_diagnostic l), dx_fallback_reason = bd_fallback_reason (lm_diagnostic l),
                  dx_mel_ms = mel, dx_encode_ms = enc, dx_decode_ms = dec, dx_truncated = truncated,
                  dx_prompt_applied = pl_initial_prompt p \<noteq> None,
                  dx_language_hint_applied = (if pl_language_hint_provided p then Some (pl_language_hint_applied p) else None),
                  dx_applied_language = pl_applied_language p,
                  dx_language_evidence = resolve_evidence (pl_language_evidence_hint p) (tr_language t \<noteq> None),
                  dx_timestamps_unavailable = retried, dx_target_language = pl_target_language p\<rparr>), a))
      in case classify_run_result (map_sum id fst result) of
           Failed e \<Rightarrow> (Inl e, a)
         | Success t \<Rightarrow> finish t False
         | Truncated t \<Rightarrow> finish t True)"

subsection \<open>The routes\<close>

text \<open>What a request meets on its way: its turns in the queue, the rounds of the swap, and the rest during its run.\<close>

record journey =
  jy_queue :: "round list"
  jy_binds :: "((app \<Rightarrow> app) \<times> (app \<Rightarrow> app)) list"
  jy_waiting :: "app \<Rightarrow> app"
  jy_running :: "app \<Rightarrow> app"

record 'r audio_library =
  al_open :: "byte list \<Rightarrow> string + wav_reader"
  al_resampler :: "'r resampler"
  al_fuel :: nat
  al_parse_f32 :: "string \<Rightarrow> f32 option"

definition decode_upload :: "'r audio_library \<Rightarrow> byte list \<Rightarrow> (api_error + f32 list) option" where
  "decode_upload al content = decode_wav (al_resampler al) (al_fuel al) (al_open al content)"

definition run_bound ::
    "runner \<Rightarrow> journey \<Rightarrow> runtime_limits \<Rightarrow> endpoint \<Rightarrow> transcription_fields \<Rightarrow> f32 list \<Rightarrow> nat \<Rightarrow> loaded_model \<Rightarrow> app \<Rightarrow>
     (api_error + formatted) \<times> app" where
  "run_bound rn jy limits ep f pcm queue_wait_ms l a =
     (case make_plan (tf_request f) (lm_caps l) ep (Some (rn_tokenize rn (lm_model l))) of
        Inl e \<Rightarrow> (Inl e, a)
      | Inr p \<Rightarrow>
          let eligible = should_retry_without_timestamps (pl_response_format p) (pl_timestamps p) (pl_timestamps_explicit p)
                ''engine_unsupported'';
              result = run_with_retry rn eligible pcm (to_run_options p)
          in case await_worker rn (rl_inference_timeout_ms limits) result of
               Inl e \<Rightarrow> (Inl e, jy_running jy a)
             | Inr result \<Rightarrow> finish_transcription rn pcm queue_wait_ms l p result (jy_running jy a))"

definition transcribe_or_translate ::
    "engine \<Rightarrow> runner \<Rightarrow> 'r audio_library \<Rightarrow> journey \<Rightarrow> endpoint \<Rightarrow> string option \<Rightarrow> form_field list \<Rightarrow> app \<Rightarrow>
     ((api_error + formatted) \<times> app) option" where
  "transcribe_or_translate eg rn al jy ep header flds a =
     (case and_then (authorize header (ap_admin a) (ap_user a) User)
             (\<lambda>_. parse_transcription_multipart (al_parse_f32 al) ep flds) of
        Inl e \<Rightarrow> Some (Inl e, a)
      | Inr f \<Rightarrow>
          (case decode_upload al (tf_file f) of
             None \<Rightarrow> None
           | Some (Inl e) \<Rightarrow> Some (Inl e, a)
           | Some (Inr pcm) \<Rightarrow>
               (case and_then (resolve_requested_model a (tf_model f))
                       (\<lambda>target. and_then (require_installed_verified a target) (\<lambda>_. Inr target)) of
                  Inl e \<Rightarrow> Some (Inl e, a)
                | Inr target \<Rightarrow>
                    let limits = sv_limits (ap_server a); wait = rl_queue_wait_timeout_ms limits in
                    (case acquire_for_model target wait (jy_queue jy) of
                       None \<Rightarrow> None
                     | Some (Inl e) \<Rightarrow> Some (Inl (queue_api_error e), jy_waiting jy a)
                     | Some (Inr waited_ms) \<Rightarrow>
                         (case bind_or_swap_model eg target wait 0 (jy_binds jy) (jy_waiting jy a) of
                            None \<Rightarrow> None
                          | Some (Inl e, a') \<Rightarrow> Some (Inl e, a')
                          | Some (Inr l, a') \<Rightarrow> Some (run_bound rn jy limits ep f pcm waited_ms l a'))))))"

definition transcriptions_route where
  "transcriptions_route eg rn al jy = transcribe_or_translate eg rn al jy Transcriptions"

definition translations_route where
  "translations_route eg rn al jy = transcribe_or_translate eg rn al jy Translations"

subsection \<open>Speech detection\<close>

definition invalid_vad_request :: "string \<Rightarrow> api_error" where
  "invalid_vad_request m = api_error_new 400 ''invalid_request_error'' m"

fun collect_vad :: "form_field list \<Rightarrow> byte list option \<Rightarrow> (string \<times> string) list \<Rightarrow>
    api_error + byte list option \<times> (string \<times> string) list" where
  "collect_vad [] content opts = Inr (content, opts)"
| "collect_vad (Broken_field e # rest) content opts = Inl (invalid_multipart e)"
| "collect_vad (Field n txt bytes # rest) content opts =
     (if n = ''file'' then and_then (once n content bytes) (\<lambda>c. collect_vad rest c opts)
      else if n \<in> set [''threshold'', ''min_speech_ms'', ''min_silence_ms'', ''speech_pad_ms''] then
        and_then (map_sum invalid_multipart id txt) (\<lambda>t.
          if map_of opts n \<noteq> None then Inl (duplicate_field n) else collect_vad rest content ((n, t) # opts))
      else Inl (invalid_vad_request (''Field '' @ n @ '' is not supported'')))"

definition vad_option :: "(string \<Rightarrow> 'a option) \<Rightarrow> (string \<times> string) list \<Rightarrow> string \<Rightarrow> api_error + 'a option" where
  "vad_option parse opts n =
     (case map_of opts n of
        None \<Rightarrow> Inr None
      | Some raw \<Rightarrow> map_sum id Some (ok_or (invalid_vad_request (n @ '' must be a number'')) (parse (trim raw))))"

definition vad_params :: "(string \<Rightarrow> f32 option) \<Rightarrow> (string \<times> string) list \<Rightarrow> api_error + params" where
  "vad_params parse_f32 opts =
     and_then (vad_option parse_f32 opts ''threshold'') (\<lambda>threshold.
     and_then (vad_option (parse_unsigned (2 ^ 32 - 1)) opts ''min_speech_ms'') (\<lambda>speech.
     and_then (vad_option (parse_unsigned (2 ^ 32 - 1)) opts ''min_silence_ms'') (\<lambda>silence.
     and_then (vad_option (parse_unsigned (2 ^ 32 - 1)) opts ''speech_pad_ms'') (\<lambda>pad.
     let p = \<lparr>vp_threshold = unwrap_or (vp_threshold default_params) threshold,
           vp_min_speech_ms = unwrap_or (vp_min_speech_ms default_params) speech,
           vp_min_silence_ms = unwrap_or (vp_min_silence_ms default_params) silence,
           vp_speech_pad_ms = unwrap_or (vp_speech_pad_ms default_params) pad\<rparr>
     in map_sum invalid_vad_request (\<lambda>_. p) (validate_params p)))))"

definition audio_vad ::
    "('s \<Rightarrow> f32 list \<Rightarrow> f32 \<times> 's) \<Rightarrow> 's \<Rightarrow> 'r audio_library \<Rightarrow> string option \<Rightarrow> form_field list \<Rightarrow> app \<Rightarrow>
     (api_error + json) option" where
  "audio_vad score st al header flds a =
     (case and_then (authorize header (ap_admin a) (ap_user a) User) (\<lambda>_.
           and_then (collect_vad flds None []) (\<lambda>(content, opts).
           and_then (ok_or (api_error_new 400 ''missing_file'' ''file is required'') content) (\<lambda>bytes.
           map_sum id (\<lambda>p. (bytes, p)) (vad_params (al_parse_f32 al) opts)))) of
        Inl e \<Rightarrow> Some (Inl e)
      | Inr (bytes, p) \<Rightarrow> map_option (map_sum id (\<lambda>samples. vad_report score st samples p)) (decode_upload al bytes))"

subsection \<open>Callable models\<close>

lemma require_installed_verified_Inr:
  "require_installed_verified a i = Inr r \<longleftrightarrow> find_installed i (ap_data a) = Some r \<and> \<not> in_needs_verification r"
  by (auto simp: require_installed_verified_def split: option.splits)

lemma find_installed_unique:
  assumes "distinct (map in_id (d_installed d))" "r \<in> set (d_installed d)"
  shows "find_installed (in_id r) d = Some r"
proof (cases "find_installed (in_id r) d")
  case None
  with assms(2) show ?thesis by (auto simp: find_installed_None)
next
  case (Some q)
  from find_installed_Some [OF this] assms have "q = r" by (auto simp: distinct_map inj_on_def)
  with Some show ?thesis by simp
qed

text \<open>
  The list of models is the list of what can be called: an id is listed, and has an entry of its
  own, exactly when a request that names it passes the check before the queue and it is a catalog model
  or a drop-in one; so no listed model is refused as missing or unverified.
\<close>

theorem listed_models_are_callable:
  assumes "distinct (map in_id (d_installed (ap_data a)))" "authorize header (ap_admin a) (ap_user a) User = Inr ()"
  shows "(i \<in> set (callable_model_ids a) \<longleftrightarrow>
      (\<exists>r. require_installed_verified a i = Inr r \<and> (i \<in> cm_slug ` set (ap_catalog a) \<or> is_custom r)))
    \<and> (openai_model_by_id header i a =
        (if i \<in> set (callable_model_ids a) then Inr (openai_model_entry a i)
         else Inl (api_error_new 404 ''model_not_installed'' ''This model is not installed'')))
    \<and> openai_models header a =
        Inr (JObj [(''object'', JStr ''list''), (''data'', JArr (map (openai_model_entry a) (callable_model_ids a)))])"
proof (intro conjI)
  show "openai_models header a =
        Inr (JObj [(''object'', JStr ''list''), (''data'', JArr (map (openai_model_entry a) (callable_model_ids a)))])"
    using assms(2) by (simp add: openai_models_def)
  show "openai_model_by_id header i a =
        (if i \<in> set (callable_model_ids a) then Inr (openai_model_entry a i)
         else Inl (api_error_new 404 ''model_not_installed'' ''This model is not installed''))"
    using assms(2) by (simp add: openai_model_by_id_def)
  have own: "find_installed (in_id r) (ap_data a) = Some r" if "r \<in> set (d_installed (ap_data a))" for r
    using find_installed_unique [OF assms(1) that] .
  show "i \<in> set (callable_model_ids a) \<longleftrightarrow>
      (\<exists>r. require_installed_verified a i = Inr r \<and> (i \<in> cm_slug ` set (ap_catalog a) \<or> is_custom r))"
  proof
    assume "i \<in> set (callable_model_ids a)"
    then show "\<exists>r. require_installed_verified a i = Inr r \<and> (i \<in> cm_slug ` set (ap_catalog a) \<or> is_custom r)"
      using own by (fastforce simp: callable_model_ids_def installed_custom_models_def require_installed_verified_Inr
          split: option.splits)
  next
    assume "\<exists>r. require_installed_verified a i = Inr r \<and> (i \<in> cm_slug ` set (ap_catalog a) \<or> is_custom r)"
    then obtain r where r: "find_installed i (ap_data a) = Some r" "\<not> in_needs_verification r"
      and which: "i \<in> cm_slug ` set (ap_catalog a) \<or> is_custom r" by (auto simp: require_installed_verified_Inr)
    from which show "i \<in> set (callable_model_ids a)"
    proof
      assume "i \<in> cm_slug ` set (ap_catalog a)"
      with r show ?thesis by (auto simp: callable_model_ids_def image_iff)
    next
      assume "is_custom r"
      with r find_installed_Some [OF r(1)] show ?thesis
        by (auto simp: callable_model_ids_def installed_custom_models_def image_iff)
    qed
  qed
qed

theorem listed_models_are_callable_witness:
  "''custom-a'' \<in> set (callable_model_ids sample_app)"
proof -
  have "distinct (map in_id (d_installed (ap_data sample_app)))"
    "authorize (Some ''Bearer u'') (ap_admin sample_app) (ap_user sample_app) User = Inr ()"
    by (simp_all add: sample_app_def authorize_ok)
  moreover have "require_installed_verified sample_app ''custom-a'' = Inr drop_in_row" "is_custom drop_in_row"
    by (simp_all add: require_installed_verified_Inr sample_app_def find_installed_def drop_in_row_def is_custom_def)
  ultimately show ?thesis using listed_models_are_callable [of sample_app "Some ''Bearer u''" "''custom-a''"] by blast
qed

subsection \<open>The loop that loads the requested model\<close>

lemma bind_or_swap_Inr:
  "bind_or_swap_model eg target wt waited rounds a = Some (Inr l, a') \<Longrightarrow> lm_id l = target \<and> ap_loaded a' = Some l"
proof (induction rounds arbitrary: waited a)
  case Nil
  then show ?case by simp
next
  case (Cons r rest)
  obtain before during where r: "r = (before, during)" by (cases r)
  from Cons.prems show ?case
    by (auto simp: r Let_def split: if_splits option.splits sum.splits dest: Cons.IH)
qed

lemma bind_or_swap_loaded:
  assumes "ap_loaded (before a) = Some l" "lm_id l = target"
  shows "bind_or_swap_model eg target wt waited ((before, during) # rest) a = Some (Inr l, before a)"
  using assms by (simp add: Let_def)

text \<open>
  The loop ends: with a limit on the wait, it has an answer after at most as many rounds as the
  limit has polls and three more, unless another request displaces the model the loop itself has just
  loaded; and its answer is the requested model, loaded, or an error.
\<close>

theorem bind_or_swap_ends:
  assumes limit: "limit + 150 \<le> 50 * length rounds"
    and kept: "\<And>before during b l. (before, during) \<in> set rounds \<Longrightarrow> ap_loaded b = Some l \<Longrightarrow> lm_id l = target \<Longrightarrow>
      \<exists>l'. ap_loaded (before b) = Some l' \<and> lm_id l' = target"
  shows "\<exists>r a'. bind_or_swap_model eg target (Some limit) 0 rounds a = Some (r, a')
    \<and> (case r of
         Inr l \<Rightarrow> lm_id l = target \<and> ap_loaded a' = Some l
       | Inl e \<Rightarrow> code e \<in> {''model_loading'', ''model_not_installed'', ''needs_verification'', ''model_load_failed''})"
proof -
  have answer: "code e \<in> {''model_loading'', ''model_not_installed'', ''needs_verification'', ''model_load_failed''}"
    if "bind_or_swap_model eg target wt waited rounds a = Some (Inl e, a')" for e waited wt rounds a a'
    using that
  proof (induction rounds arbitrary: waited a)
    case Nil
    then show ?case by simp
  next
    case (Cons r rest)
    obtain before during where r: "r = (before, during)" by (cases r)
    have "code e = ''model_not_installed'' \<or> code e = ''needs_verification''"
      if "require_installed_verified b target = Inl e" for b
      using that by (auto simp: require_installed_verified_def split: option.splits if_splits)
    note checks = this
    from Cons.prems show ?case
      by (auto simp: r Let_def still_loading_def load_failed_def split: if_splits option.splits sum.splits dest: Cons.IH checks)
  qed
  have "\<exists>x. bind_or_swap_model eg target (Some limit) waited rounds a = Some x"
    if "waited \<le> limit + 49" "limit + 100 \<le> waited + 50 * length rounds"
      "\<And>before during b l. (before, during) \<in> set rounds \<Longrightarrow> ap_loaded b = Some l \<Longrightarrow> lm_id l = target \<Longrightarrow>
      \<exists>l'. ap_loaded (before b) = Some l' \<and> lm_id l' = target" for waited rounds a
    using that
  proof (induction rounds arbitrary: waited a)
    case Nil
    then show ?case by simp
  next
    case (Cons r rest)
    obtain before during where r: "r = (before, during)" by (cases r)
    let ?a = "before a"
    show ?case
    proof (cases "\<exists>l. ap_loaded ?a = Some l \<and> lm_id l = target")
      case True
      then show ?thesis using bind_or_swap_loaded by (auto simp: r)
    next
      case other: False
      show ?thesis
      proof (cases "map_option fst (ap_loading ?a) = Some target")
        case True
        show ?thesis
        proof (cases "limit \<le> waited")
          case late: True
          with True other show ?thesis by (auto simp: r Let_def wait_over_def split: option.splits)
        next
          case early: False
          have "\<exists>x. bind_or_swap_model eg target (Some limit) (waited + 50) rest ?a = Some x"
            using Cons.prems early by (intro Cons.IH) (auto intro: Cons.prems(3))
          with True other early show ?thesis by (auto simp: r Let_def wait_over_def swap_poll_ms_def split: option.splits)
        qed
      next
        case idle: False
        have "rest \<noteq> []" using Cons.prems(1,2) by auto
        then obtain before' during' rest' where rest: "rest = (before', during') # rest'" by (cases rest) auto
        have next_round: "\<exists>x. bind_or_swap_model eg target (Some limit) waited rest (store_loaded target m b c) = Some x" for m b c
        proof -
          from Cons.prems(3) [of before' during' "store_loaded target m b c" "loaded_model_new target m b"]
          obtain l' where "ap_loaded (before' (store_loaded target m b c)) = Some l'" "lm_id l' = target"
            by (auto simp: rest)
          from bind_or_swap_loaded [of before', OF this] show ?thesis by (simp add: rest)
        qed
        with idle other show ?thesis
          by (auto simp: r Let_def split: option.splits sum.splits)
      qed
    qed
  qed
  from this [of 0 rounds a] limit kept obtain r a' where
    "bind_or_swap_model eg target (Some limit) 0 rounds a = Some (r, a')" by fastforce
  with answer bind_or_swap_Inr show ?thesis by (cases r) fastforce+
qed

theorem bind_or_swap_ends_witness:
  "\<exists>r a'. bind_or_swap_model sample_engine ''custom-a'' (Some 60) 0 (replicate 5 (\<lambda>x. x, \<lambda>x. x)) sample_app = Some (r, a')"
proof -
  have "60 + 150 \<le> 50 * length (replicate 5 (\<lambda>x::app. x, \<lambda>x::app. x))" by simp
  from bind_or_swap_ends [OF this, where target = "''custom-a''" and eg = sample_engine and a = sample_app]
  show ?thesis by auto
qed

subsection \<open>Rejected timestamps\<close>

text \<open>
  After a run whose timestamps the engine rejected, the management list says so, but the list of
  callable models still reports them as supported: it reads the capabilities cached at the load, which
  the run does not mark.
\<close>

theorem rejected_timestamps_still_listed:
  assumes "ap_loaded a = Some l" "ap_live_caps a (lm_id l) = Some (lm_caps l)"
    and "\<not> timestamp_granularity_rejected (lm_caps l)" "supports_segment_timestamps (lm_caps l)"
  shows "\<exists>v. effective_view_if_loaded (mark_rejected (lm_id l) a) (lm_id l) = Some v
      \<and> status_of v ''timestamp_granularity'' = Some ''unsupported''"
    and "status_of (callable_capabilities (mark_rejected (lm_id l) a) (lm_id l) fallback) ''timestamp_granularity''
      = Some ''supported''"
proof -
  have view: "status_of (jset ''catalog_mismatch'' x (effective_to_json c)) ''timestamp_granularity''
      = status_of (effective_to_json c) ''timestamp_granularity''" for x c
    by (simp add: status_of_def effective_to_json_def)
  show "\<exists>v. effective_view_if_loaded (mark_rejected (lm_id l) a) (lm_id l) = Some v
      \<and> status_of v ''timestamp_granularity'' = Some ''unsupported''"
    using assms(1) by (auto simp: effective_view_if_loaded_def mark_rejected_def Let_def view json_simps
        mark_timestamp_granularity_rejected_def split: option.splits)
  show "status_of (callable_capabilities (mark_rejected (lm_id l) a) (lm_id l) fallback) ''timestamp_granularity''
      = Some ''supported''"
    using assms by (simp add: callable_capabilities_def mark_rejected_def json_simps)
qed

subsection \<open>The whole way of a request\<close>

lemma run_with_retry_Inr:
  assumes "run_with_retry rn eligible pcm opts = Inr (t, retried)"
  shows "(retried \<longrightarrow> eligible)
    \<and> rn_run rn (if retried then 1 else 0) pcm (if retried then opts\<lparr>ro_timestamps := KNone\<rparr> else opts) = Inr t"
  using assms unfolding run_with_retry_def
  by (auto simp: outcome_simps split: sum.splits engine_error.splits if_splits)

lemma run_with_retry_truncated:
  assumes "run_with_retry rn eligible pcm opts = Inl (OutputTruncated q)" "rn_session rn 0 = Inr ()"
  shows "rn_run rn 0 pcm opts = Inl (OutputTruncated q)"
  using assms unfolding run_with_retry_def
  by (auto simp: outcome_simps split: sum.splits engine_error.splits if_splits)

lemma await_worker_Inr: "await_worker rn ms r = Inr x \<Longrightarrow> x = r"
  by (auto simp: await_worker_def split: option.splits if_splits)

definition started_from :: "runner \<Rightarrow> f32 list \<Rightarrow> plan \<Rightarrow> transcript \<Rightarrow> bool \<Rightarrow> bool" where
  "started_from rn pcm p t retried \<longleftrightarrow>
     rn_run rn (if retried then 1 else 0) pcm
       (if retried then (to_run_options p)\<lparr>ro_timestamps := KNone\<rparr> else to_run_options p) = Inr t
     \<or> \<not> retried \<and> (\<exists>q. (rn_run rn 0 pcm (to_run_options p) = Inl (OutputTruncated q)
            \<or> rn_session rn 0 = Inl (OutputTruncated q)) \<and> t = unwrap_or empty_transcript q)"

lemma run_bound_Inr:
  assumes "run_bound rn jy limits ep f pcm wait_ms l a = (Inr out, a')"
  obtains p t retried x where "make_plan (tf_request f) (lm_caps l) ep (Some (rn_tokenize rn (lm_model l))) = Inr p"
    "out = format_response t p (length pcm) x" "dx_model x = lm_id l" "dx_timestamps_unavailable x = retried"
    "started_from rn pcm p t retried"
    "retried \<longrightarrow> pl_response_format p = FmtVerboseJson \<and> pl_timestamps p = TsSegment \<and> \<not> pl_timestamps_explicit p"
proof -
  from assms obtain p where p: "make_plan (tf_request f) (lm_caps l) ep (Some (rn_tokenize rn (lm_model l))) = Inr p"
    by (auto simp: run_bound_def split: sum.splits)
  define eligible where "eligible = should_retry_without_timestamps (pl_response_format p) (pl_timestamps p)
    (pl_timestamps_explicit p) ''engine_unsupported''"
  define result where "result = run_with_retry rn eligible pcm (to_run_options p)"
  have fin: "finish_transcription rn pcm wait_ms l p result (jy_running jy a) = (Inr out, a')"
    using assms p unfolding run_bound_def result_def eligible_def
    by (auto simp: Let_def split: sum.splits dest: await_worker_Inr)
  show thesis
  proof (cases result)
    case (Inr y)
    obtain t retried where y: "y = (t, retried)" by (cases y)
    from fin obtain x where "out = format_response t p (length pcm) x" "dx_model x = lm_id l"
      "dx_timestamps_unavailable x = retried"
      by (auto simp: finish_transcription_def Let_def Inr y split: prod.splits)
    moreover have "started_from rn pcm p t retried" "retried \<longrightarrow> eligible"
      using run_with_retry_Inr [OF Inr [unfolded y result_def]] by (simp_all add: started_from_def)
    ultimately show thesis using that p by (auto simp: eligible_def should_retry_without_timestamps_def)
  next
    case (Inl e)
    with fin obtain q where e: "e = OutputTruncated q"
      by (cases e) (auto simp: finish_transcription_def Let_def)
    from fin obtain x where "out = format_response (unwrap_or empty_transcript q) p (length pcm) x" "dx_model x = lm_id l"
      "dx_timestamps_unavailable x = False"
      by (auto simp: finish_transcription_def Let_def Inl e split: prod.splits)
    moreover have "started_from rn pcm p (unwrap_or empty_transcript q) False"
    proof (cases "rn_session rn 0")
      case (Inl e')
      with \<open>result = Inl e\<close> e show ?thesis by (auto simp: started_from_def result_def run_with_retry_def)
    next
      case (Inr u)
      with run_with_retry_truncated [of rn eligible pcm "to_run_options p" q] \<open>result = Inl e\<close> e
      show ?thesis by (auto simp: started_from_def result_def)
    qed
    ultimately show thesis using that p by blast
  qed
qed

text \<open>
  C1. A transcription is the requested model's: an answer of either route means that the caller had
  access, the form and the audio were read, the named model (or the default) was installed and verified
  when the request came in, the slot was reached while no live stream held that model, that very model
  was loaded when the run was planned from its capabilities and the request, and the body is made from
  what the engine returned for the decoded audio and the plan's options; it names the model, and reports
  missing timestamps exactly when the run was retried without those the planner had added.
\<close>

theorem transcription_runs_requested_model:
  assumes "transcribe_or_translate eg rn al jy ep header flds a = Some (Inr out, a')"
  shows "authorize header (ap_admin a) (ap_user a) User = Inr ()
    \<and> (\<exists>f pcm target row l a1 p t retried x.
        parse_transcription_multipart (al_parse_f32 al) ep flds = Inr f
      \<and> decode_upload al (tf_file f) = Some (Inr pcm)
      \<and> resolve_requested_model a (tf_model f) = Inr target
      \<and> find_installed target (ap_data a) = Some row \<and> \<not> in_needs_verification row
      \<and> (\<exists>r \<in> set (jy_queue jy). checked r \<noteq> Some target)
      \<and> bind_or_swap_model eg target (rl_queue_wait_timeout_ms (sv_limits (ap_server a))) 0 (jy_binds jy) (jy_waiting jy a)
          = Some (Inr l, a1)
      \<and> lm_id l = target \<and> ap_loaded a1 = Some l
      \<and> make_plan (tf_request f) (lm_caps l) ep (Some (rn_tokenize rn (lm_model l))) = Inr p
      \<and> started_from rn pcm p t retried
      \<and> (retried \<longrightarrow> pl_response_format p = FmtVerboseJson \<and> pl_timestamps p = TsSegment \<and> \<not> pl_timestamps_explicit p)
      \<and> out = format_response t p (length pcm) x \<and> dx_model x = target \<and> dx_timestamps_unavailable x = retried)"
proof -
  let ?limits = "sv_limits (ap_server a)"
  let ?wait = "rl_queue_wait_timeout_ms ?limits"
  note steps = assms [unfolded transcribe_or_translate_def]
  obtain f where "and_then (authorize header (ap_admin a) (ap_user a) User)
      (\<lambda>_. parse_transcription_multipart (al_parse_f32 al) ep flds) = Inr f" (is "?form = _")
    using steps by (cases ?form) simp_all
  note 1 = this steps [unfolded this sum.case]
  obtain pcm where "decode_upload al (tf_file f) = Some (Inr pcm)"
    using 1(2) by (cases "decode_upload al (tf_file f)"; cases "the (decode_upload al (tf_file f))") simp_all
  note 2 = this 1(2) [unfolded this option.case sum.case]
  obtain target where "and_then (resolve_requested_model a (tf_model f))
      (\<lambda>target. and_then (require_installed_verified a target) (\<lambda>_. Inr target)) = Inr target" (is "?model = _")
    using 2(2) by (cases ?model) simp_all
  note 3 = this 2(2) [unfolded this sum.case Let_def]
  obtain ms where "acquire_for_model target ?wait (jy_queue jy) = Some (Inr ms)"
    using 3(2) by (cases "acquire_for_model target ?wait (jy_queue jy)";
        cases "the (acquire_for_model target ?wait (jy_queue jy))") simp_all
  note 4 = this 3(2) [unfolded this option.case sum.case]
  obtain l a1 where bind: "bind_or_swap_model eg target ?wait 0 (jy_binds jy) (jy_waiting jy a) = Some (Inr l, a1)" (is "?bind = _")
    using 4(2) by (cases ?bind; cases "fst (the ?bind)") (simp_all split: prod.splits)
  have "run_bound rn jy ?limits ep f pcm ms l a1 = (Inr out, a')"
    using 4(2) [unfolded bind option.case prod.case sum.case] by simp
  from run_bound_Inr [OF this] obtain p t retried x where 5:
    "make_plan (tf_request f) (lm_caps l) ep (Some (rn_tokenize rn (lm_model l))) = Inr p"
    "out = format_response t p (length pcm) x" "dx_model x = lm_id l" "dx_timestamps_unavailable x = retried"
    "started_from rn pcm p t retried"
    "retried \<longrightarrow> pl_response_format p = FmtVerboseJson \<and> pl_timestamps p = TsSegment \<and> \<not> pl_timestamps_explicit p" .
  from 1(1) have form: "authorize header (ap_admin a) (ap_user a) User = Inr ()"
    "parse_transcription_multipart (al_parse_f32 al) ep flds = Inr f" by (simp_all add: and_then_Inr)
  from 3(1) obtain row where model: "resolve_requested_model a (tf_model f) = Inr target"
    "find_installed target (ap_data a) = Some row" "\<not> in_needs_verification row"
    by (auto simp: and_then_Inr require_installed_verified_Inr)
  have slot: "\<exists>r \<in> set (jy_queue jy). checked r \<noteq> Some target" using acquire_for_model_Inr [OF 4(1)] by blast
  note l = bind_or_swap_Inr [OF bind]
  show ?thesis
    apply (rule conjI, rule form(1))
    apply (rule exI [of _ f], rule exI [of _ pcm], rule exI [of _ target], rule exI [of _ row], rule exI [of _ l])
    apply (rule exI [of _ a1], rule exI [of _ p], rule exI [of _ t], rule exI [of _ retried], rule exI [of _ x])
    apply (intro conjI form(2) 2(1) model slot bind conjunct1 [OF l] conjunct2 [OF l] 5(1,2,4,5,6))
    using 5(3) l by simp
qed

definition silent_wav :: wav_reader where
  "silent_wav = \<lparr>wr_spec = \<lparr>wv_channels = 1, wv_sample_rate = 16000, wv_bits = 16, wv_format = Int_samples\<rparr>,
     wr_ints = Inr (replicate 1600 0), wr_floats = Inl []\<rparr>"

definition sample_library :: "bool audio_library" where
  "sample_library = \<lparr>al_open = (\<lambda>_. Inr silent_wav), al_resampler = padding, al_fuel = 19200002, al_parse_f32 = (\<lambda>_. None)\<rparr>"

definition sample_runner :: runner where
  "sample_runner = \<lparr>rn_session = (\<lambda>_. Inr ()), rn_run = (\<lambda>_ _ _. Inr empty_transcript), rn_tokenize = (\<lambda>_ _. None),
     rn_timings = (\<lambda>_. (0, 0, 0)), rn_late = False, rn_panic = None, rn_elapsed = 7\<rparr>"

definition sample_journey :: journey where
  "sample_journey = \<lparr>jy_queue = [\<lparr>seen = [(0, None)], queued_end = Inr 3, ended_at = 3, checked = None\<rparr>],
     jy_binds = [(\<lambda>x. x, \<lambda>x. x), (\<lambda>x. x, \<lambda>x. x)], jy_waiting = (\<lambda>x. x), jy_running = (\<lambda>x. x)\<rparr>"

definition sample_form :: "form_field list" where
  "sample_form = [Field ''model'' (Inr ''custom-a'') (Inl []), Field ''file'' (Inl []) (Inr [1])]"

lemma sample_runner_sel [simp]:
  "rn_session sample_runner n = Inr ()" "rn_run sample_runner n pcm opts = Inr empty_transcript"
  "rn_timings sample_runner t = (0, 0, 0)" "rn_late sample_runner = False" "rn_panic sample_runner = None"
  by (simp_all add: sample_runner_def)

lemma await_sample_runner [simp]: "await_worker sample_runner ms r = Inr r"
  by (simp add: await_worker_def split: option.splits)

lemma sample_decodes: "\<exists>pcm. decode_upload sample_library bytes = Some (Inr pcm)"
proof -
  have "list_all is_finite (map (\<lambda>i. Fin (of_int i / 32768)) (replicate n 0))" for n
    by (induction n) auto
  then have "read_samples silent_wav = Inr (map (\<lambda>i. Fin (of_int i / 32768)) (replicate 1600 0))"
    "check_wav (wr_spec silent_wav) (map (\<lambda>i. Fin (of_int i / 32768)) (replicate 1600 0)) = Inr 1600"
    by (simp_all add: silent_wav_def read_samples_def check_wav_def del: map_replicate)
  then show ?thesis
    by (simp add: decode_upload_def decode_wav_def sample_library_def Let_def silent_wav_def del: map_replicate)
qed

lemma sample_run:
  "\<exists>out a'. transcribe_or_translate sample_engine sample_runner sample_library sample_journey Transcriptions
     (Some ''Bearer u'') sample_form sample_app = Some (Inr out, a')"
proof -
  obtain f where f: "parse_transcription_multipart (al_parse_f32 sample_library) Transcriptions sample_form = Inr f"
    and model: "tf_model f = ''custom-a''"
    and rq: "tf_request f = \<lparr>rq_language = None, rq_prompt = None, rq_temperature = None, rq_response_format = None,
      rq_timestamp_granularities = [], rq_target_language = None\<rparr>"
    by (simp add: parse_transcription_multipart_def sample_form_def collect_field_def once_def nothing_collected_def
        sample_library_def)
  from sample_decodes obtain pcm where pcm: "decode_upload sample_library (tf_file f) = Some (Inr pcm)" by blast
  have auth: "authorize (Some ''Bearer u'') (ap_admin sample_app) (ap_user sample_app) User = Inr ()"
    by (simp add: sample_app_def authorize_ok)
  have row: "require_installed_verified sample_app ''custom-a'' = Inr drop_in_row"
    by (simp add: require_installed_verified_Inr sample_app_def find_installed_def drop_in_row_def)
  have queue: "acquire_for_model ''custom-a'' wait (jy_queue sample_journey) = Some (Inr 3)" for wait
    by (simp add: sample_journey_def streams_on_def)
  obtain m where m: "eg_load sample_engine (in_path drop_in_row) Cpu = Inr (m, ''CPU'')" "em_arch m = ''whisper''"
      "em_languages m = [''en'']"
    by (simp add: sample_engine_def)
  have load: "load_engine sample_engine (in_path drop_in_row) pref
      = Inr (m, \<lparr>bd_observed_backend = ''CPU'', bd_fallback_reason = (if pref = ''cpu'' then None else Some ''no device'')\<rparr>)" for pref
    using m(1) by (auto simp: load_engine_def sample_engine_def)
  have fresh: "ap_loaded sample_app = None" "ap_loading sample_app = None" by (simp_all add: sample_app_def)
  have bind: "\<exists>l a1. bind_or_swap_model sample_engine ''custom-a'' wait 0 (jy_binds sample_journey) (jy_waiting sample_journey sample_app)
      = Some (Inr l, a1) \<and> lm_caps l = from_model m" for wait
    using row fresh by (simp add: sample_journey_def Let_def load)
  then obtain l a1 where bind: "bind_or_swap_model sample_engine ''custom-a'' (rl_queue_wait_timeout_ms (sv_limits (ap_server sample_app)))
      0 (jy_binds sample_journey) (jy_waiting sample_journey sample_app) = Some (Inr l, a1)" and l: "lm_caps l = from_model m" by blast
  obtain p where p: "make_plan (tf_request f) (lm_caps l) Transcriptions (Some (rn_tokenize sample_runner (lm_model l))) = Inr p"
    by (simp add: rq l make_plan_def Let_def plan_prompt_def plan_temperature_def plan_response_format_def plan_timestamps_def
        plan_task_def)
  obtain out a2 where "run_bound sample_runner sample_journey (sv_limits (ap_server sample_app)) Transcriptions f pcm 3 l a1
      = (Inr out, a2)"
    by (simp add: run_bound_def p Let_def run_with_retry_def finish_transcription_def)
  then show ?thesis using auth f model pcm row queue bind
    by (simp add: transcribe_or_translate_def resolve_requested_model_def Let_def)
qed

theorem transcription_runs_requested_model_witness:
  "\<exists>out a' (l :: loaded_model). transcribe_or_translate sample_engine sample_runner sample_library sample_journey Transcriptions
     (Some ''Bearer u'') sample_form sample_app = Some (Inr out, a') \<and> lm_id l = ''custom-a''"
proof -
  from sample_run obtain out a' where run: "transcribe_or_translate sample_engine sample_runner sample_library sample_journey
      Transcriptions (Some ''Bearer u'') sample_form sample_app = Some (Inr out, a')" by blast
  have "tf_model f = ''custom-a''"
    if "parse_transcription_multipart (al_parse_f32 sample_library) Transcriptions sample_form = Inr f" for f
    using that by (simp add: parse_transcription_multipart_def sample_form_def collect_field_def once_def nothing_collected_def
        outcome_simps) auto
  moreover from transcription_runs_requested_model [OF run] obtain f target and l :: loaded_model where
    "parse_transcription_multipart (al_parse_f32 sample_library) Transcriptions sample_form = Inr f"
    "resolve_requested_model sample_app (tf_model f) = Inr target" "lm_id l = target"
    by (elim conjE exE) (rule that, assumption+)
  ultimately have "lm_id l = ''custom-a''" by (simp add: resolve_requested_model_def)
  with run show ?thesis by blast
qed

end
