(* ===== verification/Api_Gates.thy ===== *)
theory Api_Gates
  imports Transcription Update_Transaction
begin

text \<open>
  The router of \<open>src/api.rs\<close> with the two checks in front of it: the table of routes with the access
  each handler asks for, the update gate that closes all but four routes while an update is validated
  or recovered, the answer the update worker validates, and its combination with the worker's check.
\<close>

subsection \<open>Routes\<close>

datatype verb = GET | HEAD | POST | PATCH | DELETE | OPTIONS | Other_verb string

text \<open>The access a handler asks for first; the health route asks for none.\<close>

datatype access = Open_to_all | User_token | Admin_token

datatype segment = Lit string | Param

definition routes :: "(segment list \<times> (verb \<times> access) list) list" where
  "routes =
     [([Lit ''health''], [(GET, Open_to_all)]),
      ([Lit ''v1'', Lit ''local'', Lit ''update'', Lit ''validation''], [(GET, Admin_token)]),
      ([Lit ''readiness''], [(GET, User_token)]),
      ([Lit ''v1'', Lit ''models''], [(GET, User_token)]),
      ([Lit ''v1'', Lit ''models'', Param], [(GET, User_token)]),
      ([Lit ''v1'', Lit ''audio'', Lit ''transcriptions''], [(POST, User_token)]),
      ([Lit ''v1'', Lit ''audio'', Lit ''translations''], [(POST, User_token)]),
      ([Lit ''v1'', Lit ''audio'', Lit ''vad''], [(POST, User_token)]),
      ([Lit ''v1'', Lit ''realtime''], [(GET, User_token)]),
      ([Lit ''v1'', Lit ''local'', Lit ''system''], [(GET, User_token)]),
      ([Lit ''v1'', Lit ''local'', Lit ''config''], [(GET, Admin_token), (PATCH, Admin_token)]),
      ([Lit ''v1'', Lit ''local'', Lit ''shutdown''], [(POST, Admin_token)]),
      ([Lit ''models'', Lit ''manage''], [(GET, User_token)]),
      ([Lit ''models'', Lit ''manage'', Lit ''refresh''], [(POST, Admin_token)]),
      ([Lit ''models'', Lit ''manage'', Lit ''unload''], [(POST, Admin_token)]),
      ([Lit ''models'', Lit ''manage'', Lit ''recommendations''], [(GET, User_token)]),
      ([Lit ''models'', Lit ''manage'', Lit ''default''], [(GET, User_token), (DELETE, Admin_token)]),
      ([Lit ''models'', Lit ''manage'', Param, Lit ''default''], [(POST, Admin_token)]),
      ([Lit ''models'', Lit ''manage'', Param], [(DELETE, Admin_token)]),
      ([Lit ''models'', Lit ''manage'', Param, Lit ''download''], [(POST, Admin_token)]),
      ([Lit ''models'', Lit ''manage'', Param, Lit ''verify''], [(POST, Admin_token)]),
      ([Lit ''models'', Lit ''manage'', Lit ''import''], [(POST, Admin_token)]),
      ([Lit ''models'', Lit ''manage'', Lit ''import-user''], [(POST, Admin_token)]),
      ([Lit ''models'', Lit ''manage'', Lit ''operations'', Param], [(GET, User_token)]),
      ([Lit ''models'', Lit ''manage'', Lit ''operations'', Param, Lit ''cancel''], [(POST, Admin_token)])]"

text \<open>
  Matching: at every segment the routes with that literal come before those with a parameter, which
  takes any segment but an empty one.
\<close>

definition advance_routes :: "segment \<Rightarrow> (segment list \<times> 'a) list \<Rightarrow> (segment list \<times> 'a) list" where
  "advance_routes seg rs =
     List.map_filter (\<lambda>(p, x). case p of [] \<Rightarrow> None | q # qs \<Rightarrow> if q = seg then Some (qs, x) else None) rs"

fun find_route :: "string list \<Rightarrow> (segment list \<times> 'a) list \<Rightarrow> 'a option" where
  "find_route [] rs = map_option snd (List.find (\<lambda>(p, x). p = []) rs)"
| "find_route (s # ss) rs =
     (if rs = [] then None
      else case find_route ss (advance_routes (Lit s) rs) of
        Some x \<Rightarrow> Some x
      | None \<Rightarrow> if s = [] then None else find_route ss (advance_routes Param rs))"

definition path_segments :: "string \<Rightarrow> string list" where
  "path_segments path = (case path of [] \<Rightarrow> [] | c # cs \<Rightarrow> split_on (\<lambda>x. x = CHR ''/'') cs)"

text \<open>
  The router answers HEAD with the handler of GET, unless a route has one of its own; OPTIONS is answered by the
  cross-origin layer in front of the routes.
\<close>

datatype dispatch = Preflight | Not_found | Method_not_allowed | Handled access

definition dispatch :: "verb \<Rightarrow> string \<Rightarrow> dispatch" where
  "dispatch m path =
     (if m = OPTIONS then Preflight
      else case find_route (path_segments path) routes of
        None \<Rightarrow> Not_found
      | Some ms \<Rightarrow>
          (case map_of ms m of
             Some acc \<Rightarrow> Handled acc
           | None \<Rightarrow>
               (if m = HEAD then case map_of ms GET of None \<Rightarrow> Method_not_allowed | Some acc \<Rightarrow> Handled acc
                else Method_not_allowed)))"

definition require_access :: "string option \<Rightarrow> string \<Rightarrow> string \<Rightarrow> access \<Rightarrow> api_error + unit" where
  "require_access header admin user acc =
     (case acc of Open_to_all \<Rightarrow> Inr () | User_token \<Rightarrow> authorize header admin user User
      | Admin_token \<Rightarrow> authorized header admin user)"

subsection \<open>The update gate\<close>

definition gate_allows :: "verb \<Rightarrow> string \<Rightarrow> bool" where
  "gate_allows m path \<longleftrightarrow>
     m = GET \<and> path \<in> {''/health'', ''/readiness'', ''/v1/local/update/validation''}
     \<or> m = POST \<and> path = ''/v1/local/shutdown''"

definition update_gate ::
    "journal_file option \<Rightarrow> string option \<Rightarrow> string \<Rightarrow> string \<Rightarrow> verb \<Rightarrow> string \<Rightarrow> api_error + unit" where
  "update_gate jf header admin user m path =
     (if maintenance jf \<and> \<not> gate_allows m path then
        and_then (authorize header admin user User)
          (\<lambda>_. Inl (api_error_new 503 ''update_in_progress'' ''Update validation/recovery is in progress''))
      else Inr ())"

text \<open>A request on its way in: the network gate, the update gate, the route, and the handler's check of the token.\<close>

definition admit ::
    "network_report \<Rightarrow> journal_file option \<Rightarrow> app \<Rightarrow> ip_addr \<Rightarrow> string option \<Rightarrow> verb \<Rightarrow> string \<Rightarrow> api_error + dispatch" where
  "admit report jf a peer header m path =
     and_then (network_gate (sv_network_mode (ap_server a)) (sv_network_custom (ap_server a)) report peer path) (\<lambda>_.
     and_then (update_gate jf header (ap_admin a) (ap_user a) m path) (\<lambda>_.
       case dispatch m path of
         Handled acc \<Rightarrow> and_then (require_access header (ap_admin a) (ap_user a) acc) (\<lambda>_. Inr (Handled acc))
       | d \<Rightarrow> Inr d))"

subsection \<open>The answer the update worker validates\<close>

definition update_validation :: "string \<Rightarrow> journal_file option \<Rightarrow> string option \<Rightarrow> app \<Rightarrow> api_error + json" where
  "update_validation version jf header a =
     and_then (authorized header (ap_admin a) (ap_user a)) (\<lambda>_.
     and_then (map_err internal (read_journal jf)) (\<lambda>jo.
       Inr (JObj [(''version'', JStr version), (''api_level'', jnat api_level),
         (''network_mode'', JStr (if sv_network_custom (ap_server a) then ''custom''
            else network_mode_str (sv_network_mode (ap_server a)))),
         (''ready_model'', jopt JStr (map_option lm_id (ap_loaded a))),
         (''loading'', JBool (ap_loading a \<noteq> None)),
         (''active_operations'', jnat (length (filter active (d_operations (ap_data a))))),
         (''transaction'', jopt JStr (Option.bind jo (\<lambda>j. if terminal (j_phase j) then None else Some (j_id j))))])))"

subsection \<open>Properties\<close>

lemma advance_routes_set:
  "(p, x) \<in> set (advance_routes seg rs) \<Longrightarrow> (seg # p, x) \<in> set rs"
  by (auto simp: advance_routes_def List.map_filter_def split: list.splits if_splits)

lemma find_route_set:
  "find_route ss rs = Some x \<Longrightarrow> \<exists>p. (p, x) \<in> set rs \<and> list_all2 (\<lambda>q s. case q of Lit l \<Rightarrow> l = s | Param \<Rightarrow> s \<noteq> []) p ss"
proof (induction ss arbitrary: rs)
  case Nil
  then show ?case by (auto dest: find_Some_set)
next
  case (Cons s ss)
  then consider "find_route ss (advance_routes (Lit s) rs) = Some x"
    | "s \<noteq> []" "find_route ss (advance_routes Param rs) = Some x"
    by (auto split: if_splits option.splits)
  then show ?case
  proof cases
    case 1
    from Cons.IH [OF this] show ?thesis by (fastforce dest: advance_routes_set)
  next
    case 2
    from Cons.IH [OF 2(2)] 2(1) show ?thesis by (fastforce dest: advance_routes_set)
  qed
qed

text \<open>
  C6. Who gets in, by method and path: a request with a method other than GET and HEAD that gets past the
  handler's check of its token carries the admin token, except a POST to one of the three routes that take
  audio; a GET or HEAD, and so the opening of a live connection, carries one of the two tokens, except for the
  health route. While an update is validated or recovered only GET of health, readiness and validation and
  POST of the shutdown get past the update gate.
\<close>

theorem admitted_requests:
  assumes "admit report jf a peer header m path = Inr (Handled acc)"
  shows "(m \<notin> {GET, HEAD} \<longrightarrow> header = Some (''Bearer '' @ ap_admin a)
       \<or> m = POST \<and> path_segments path \<in> {[''v1'', ''audio'', ''transcriptions''], [''v1'', ''audio'', ''translations''], [''v1'', ''audio'', ''vad'']})
    \<and> (path_segments path \<noteq> [''health''] \<longrightarrow>
         header = Some (''Bearer '' @ ap_admin a) \<or> header = Some (''Bearer '' @ ap_user a))
    \<and> (maintenance jf \<longrightarrow> gate_allows m path)"
proof -
  from assms have route: "dispatch m path = Handled acc"
    and access: "require_access header (ap_admin a) (ap_user a) acc = Inr ()"
    and gate: "update_gate jf header (ap_admin a) (ap_user a) m path = Inr ()"
    by (auto simp: admit_def outcome_simps split: dispatch.splits)
  from route obtain ms m' where found: "find_route (path_segments path) routes = Some ms" and acc: "map_of ms m' = Some acc"
    and m': "m' = m \<or> m = HEAD \<and> m' = GET"
    by (auto simp: dispatch_def split: option.splits if_splits)
  from find_route_set [OF found] obtain p where p: "(p, ms) \<in> set routes"
    "list_all2 (\<lambda>q s. case q of Lit l \<Rightarrow> l = s | Param \<Rightarrow> s \<noteq> []) p (path_segments path)" by blast
  have table: "(m \<notin> {GET, HEAD} \<longrightarrow> acc = Admin_token \<or> m = POST \<and> p \<in> {[Lit ''v1'', Lit ''audio'', Lit ''transcriptions''],
        [Lit ''v1'', Lit ''audio'', Lit ''translations''], [Lit ''v1'', Lit ''audio'', Lit ''vad'']})
      \<and> (acc = Open_to_all \<longrightarrow> p = [Lit ''health''])"
  proof -
    have "list_all (\<lambda>(p, ms). list_all (\<lambda>(m, acc).
        (m = GET \<or> acc = Admin_token \<or> m = POST \<and> List.member [[Lit ''v1'', Lit ''audio'', Lit ''transcriptions''],
          [Lit ''v1'', Lit ''audio'', Lit ''translations''], [Lit ''v1'', Lit ''audio'', Lit ''vad'']] p)
        \<and> (acc = Open_to_all \<longrightarrow> p = [Lit ''health''])) ms) routes"
      by code_simp
    with p(1) map_of_SomeD [OF acc] m' show ?thesis by (fastforce simp: list_all_iff)
  qed
  have literal: "path_segments path = ls" if "p = map Lit ls" for ls
  proof -
    have "list_all2 (\<lambda>q s. case q of Lit l \<Rightarrow> l = s | Param \<Rightarrow> s \<noteq> []) (map Lit ls) ss \<Longrightarrow> ss = ls" for ss
      by (induction ls arbitrary: ss) (auto simp: list_all2_Cons1)
    with p(2) that show ?thesis by blast
  qed
  have paths: "path_segments path \<in> {[''v1'', ''audio'', ''transcriptions''], [''v1'', ''audio'', ''translations''], [''v1'', ''audio'', ''vad'']}"
    if "p \<in> {[Lit ''v1'', Lit ''audio'', Lit ''transcriptions''],
        [Lit ''v1'', Lit ''audio'', Lit ''translations''], [Lit ''v1'', Lit ''audio'', Lit ''vad'']}"
    using that literal [of "[''v1'', ''audio'', ''transcriptions'']"] literal [of "[''v1'', ''audio'', ''translations'']"]
      literal [of "[''v1'', ''audio'', ''vad'']"] by auto
  have health: "path_segments path = [''health'']" if "p = [Lit ''health'']"
    using that literal [of "[''health'']"] by simp
  have tokens: "acc = Admin_token \<Longrightarrow> header = Some (''Bearer '' @ ap_admin a)"
    "acc \<noteq> Open_to_all \<Longrightarrow> header = Some (''Bearer '' @ ap_admin a) \<or> header = Some (''Bearer '' @ ap_user a)"
    using access by (auto simp: require_access_def authorized_def authorize_ok split: access.splits)
  from gate have "maintenance jf \<longrightarrow> gate_allows m path"
    by (auto simp: update_gate_def outcome_simps split: if_splits)
  with table paths health tokens show ?thesis by blast
qed

theorem admitted_requests_witness:
  "admit (report_local Local) None sample_app (V4 127 0 0 1) (Some ''Bearer a'') DELETE ''/models/manage/custom-a'' = Inr (Handled Admin_token)
   \<and> Some ''Bearer a'' = Some (''Bearer '' @ ap_admin sample_app)"
proof -
  have "is_loopback (V4 127 0 0 1)" by simp
  moreover have "dispatch DELETE ''/models/manage/custom-a'' = Handled Admin_token" by code_simp
  moreover have "authorized (Some ''Bearer a'') (ap_admin sample_app) (ap_user sample_app) = Inr ()"
    by (simp add: sample_app_def authorized_def authorize_ok)
  ultimately have run: "admit (report_local Local) None sample_app (V4 127 0 0 1) (Some ''Bearer a'') DELETE ''/models/manage/custom-a''
      = Inr (Handled Admin_token)"
    by (simp add: admit_def network_gate_def update_gate_def maintenance_def read_journal_def require_access_def)
  with admitted_requests [OF run] show ?thesis by auto
qed

text \<open>
  The answer a server gives to the update worker is accepted exactly when the running server is the
  expected version with a sufficient API level, its network mode is the one recorded, the journal it
  reads is that of the unfinished transaction, and it has loaded the model that was ready before the
  update, if there was one; the worker waits exactly while it lacks that model and loads one.
\<close>

theorem update_validation_accepted:
  assumes "update_validation version jf header a = Inr body"
  shows "validate_response j body rolling_back = Inr ok \<longleftrightarrow>
      version = (if rolling_back then j_old_version j else j_new_version j) \<and> j_api_level j \<le> api_level
      \<and> j_network_mode j = (if sv_network_custom (ap_server a) then ''custom'' else network_mode_str (sv_network_mode (ap_server a)))
      \<and> (\<exists>cur. jf = Some (Holds cur) \<and> \<not> terminal (j_phase cur) \<and> j_id cur = j_id j)
      \<and> ok = (j_ready_model j = None \<or> map_option lm_id (ap_loaded a) = j_ready_model j)
      \<and> (ok \<or> ap_loading a \<noteq> None)"
proof -
  from assms obtain jo where jo: "read_journal jf = Inr jo"
    and body: "body = JObj [(''version'', JStr version), (''api_level'', jnat api_level),
         (''network_mode'', JStr (if sv_network_custom (ap_server a) then ''custom''
            else network_mode_str (sv_network_mode (ap_server a)))),
         (''ready_model'', jopt JStr (map_option lm_id (ap_loaded a))),
         (''loading'', JBool (ap_loading a \<noteq> None)),
         (''active_operations'', jnat (length (filter active (d_operations (ap_data a))))),
         (''transaction'', jopt JStr (Option.bind jo (\<lambda>j. if terminal (j_phase j) then None else Some (j_id j))))]"
    by (auto simp: update_validation_def outcome_simps)
  have str: "as_str (jopt JStr x) = x" for x by (cases x) simp_all
  have fields: "as_str (jindex body ''version'') = Some version" "as_u64 (jindex body ''api_level'') = Some api_level"
    "as_str (jindex body ''network_mode'') = Some (if sv_network_custom (ap_server a) then ''custom''
        else network_mode_str (sv_network_mode (ap_server a)))"
    "as_str (jindex body ''ready_model'') = map_option lm_id (ap_loaded a)"
    "as_bool (jindex body ''loading'') = Some (ap_loading a \<noteq> None)"
    "as_str (jindex body ''transaction'') = Option.bind jo (\<lambda>j. if terminal (j_phase j) then None else Some (j_id j))"
    unfolding body by (simp_all add: jindex_def jnat_def api_level_def str)
  have same: "Option.bind jo (\<lambda>j. if terminal (j_phase j) then None else Some (j_id j)) = Some i
      \<longleftrightarrow> (\<exists>cur. jf = Some (Holds cur) \<and> \<not> terminal (j_phase cur) \<and> j_id cur = i)" for i
    using jo by (cases jf) (auto simp: read_journal_def split: journal_file.splits if_splits)
  show ?thesis
    by (cases "j_ready_model j"; cases ok) (auto simp: validate_response_def Let_def fields same)
qed

definition running_update :: journal where
  "running_update = \<lparr>j_id = ''u'', j_phase = Validating, j_data_dir = ''data'', j_work_dir = ''work'', j_executable = ''stt.exe'',
     j_service = False, j_was_running = True, j_ready_model = None, j_old_version = ''1'', j_new_version = ''2'',
     j_api_level = 1, j_network_mode = ''local'', j_old_sha256 = ''old'', j_new_sha256 = ''new'',
     j_database_existed = False, j_database_sha256 = None, j_ready_timeout_seconds = 60,
     j_task_name = ''t'', j_task_removed = False, j_armed = True, j_error = None\<rparr>"

theorem update_validation_accepted_witness:
  "\<exists>body. update_validation ''2'' (Some (Holds running_update)) (Some ''Bearer a'') sample_app = Inr body
     \<and> (validate_response running_update body False = Inr True \<longleftrightarrow>
          ''2'' = j_new_version running_update \<and> j_api_level running_update \<le> 1
          \<and> j_network_mode running_update = ''local'' \<and> j_ready_model running_update = None)"
proof -
  let ?jf = "Some (Holds running_update)"
  have "\<exists>body. update_validation ''2'' ?jf (Some ''Bearer a'') sample_app = Inr body"
    using authorize_ok [of "Some ''Bearer a''" "''a''" "''u''" Admin]
    by (simp add: update_validation_def sample_app_def authorized_def read_journal_def)
  then obtain body where run: "update_validation ''2'' ?jf (Some ''Bearer a'') sample_app = Inr body" by blast
  have "network_mode_str (sv_network_mode (ap_server sample_app)) = ''local''" "sv_network_custom (ap_server sample_app) = False"
    "ap_loaded sample_app = None" by (simp_all add: sample_app_def sample_server_def open_settings_def read_bind_settings_def
      empty_data_def read_network_mode_setting_def resolve_mode_def)
  then show ?thesis
    using update_validation_accepted [OF run, of running_update False True] run
    by (auto simp: api_level_def terminal_def running_update_def)
qed

end
