(* ===== verification/Realtime_Session.thy ===== *)
theory Realtime_Session
  imports Transcription
begin

text \<open>
  The pure parts of \<open>src/realtime.rs\<close>: the session configuration and its updates in both shapes, the
  events of the server, the texts of deltas, and the beginning of an item, which claims the stream slot
  and binds a model as a batch request does. Fresh ids are given.
\<close>

subsection \<open>The session\<close>

definition default_sample_rate :: nat where "default_sample_rate = 24000"

record session_config =
  sc_id :: string
  sc_model :: string
  sc_language :: "string option"
  sc_target_language :: "string option"
  sc_prompt :: "string option"
  sc_sample_rate :: nat

definition invalid :: "string \<Rightarrow> string \<Rightarrow> api_error" where
  "invalid c m = api_error_new 400 c m"

definition session_new :: "string \<Rightarrow> string option \<Rightarrow> session_config" where
  "session_new fresh m =
     \<lparr>sc_id = ''sess_'' @ fresh, sc_model = unwrap_or ''default'' m, sc_language = None, sc_target_language = None,
      sc_prompt = None, sc_sample_rate = default_sample_rate\<rparr>"

text \<open>The first of some paths that exists in a value.\<close>

fun first_pointer :: "string list list \<Rightarrow> json \<Rightarrow> json option" where
  "first_pointer [] v = None"
| "first_pointer (p # ps) v = or_else (pointer p v) (first_pointer ps v)"

definition nonempty_str :: "json \<Rightarrow> string option" where
  "nonempty_str v = (case as_str v of Some s \<Rightarrow> if s = [] then None else Some s | None \<Rightarrow> None)"

definition check_turn_detection :: "json \<Rightarrow> api_error + unit" where
  "check_turn_detection session =
     (case first_pointer [[''turn_detection''], [''audio'', ''input'', ''turn_detection'']] session of
        None \<Rightarrow> Inr ()
      | Some turn \<Rightarrow> if is_null turn then Inr ()
          else Inl (invalid ''turn_detection_unsupported'' ''turn_detection must be null: the client commits each turn''))"

definition check_formats :: "json \<Rightarrow> api_error + unit" where
  "check_formats session =
     (if \<not> if_given (\<lambda>f. f = JStr ''pcm16'') (jget ''input_audio_format'' session) then
        Inl (invalid ''unsupported_audio_format'' (''input_audio_format must be '' @ double_quoted ''pcm16''))
      else if \<not> if_given (\<lambda>f. if_given (\<lambda>t. t = JStr ''audio/pcm'') (jget ''type'' f))
          (pointer [''audio'', ''input'', ''format''] session) then
        Inl (invalid ''unsupported_audio_format'' (''audio.input.format.type must be '' @ double_quoted ''audio/pcm''))
      else Inr ())"

definition update_rate :: "json \<Rightarrow> session_config \<Rightarrow> api_error + session_config" where
  "update_rate session c =
     (case first_pointer [[''input_audio_sample_rate''], [''audio'', ''input'', ''format'', ''rate'']] session of
        None \<Rightarrow> Inr c
      | Some rate \<Rightarrow>
          map_sum id (\<lambda>r. c\<lparr>sc_sample_rate := r\<rparr>)
            (ok_or (invalid ''unsupported_audio_format'' ''the audio sample rate must be between 8000 and 48000'')
              (case as_u64 rate of Some r \<Rightarrow> if 8000 \<le> r \<and> r \<le> 48000 then Some r else None | None \<Rightarrow> None)))"

definition update_transcription :: "json \<Rightarrow> session_config \<Rightarrow> session_config" where
  "update_transcription session c =
     (case first_pointer [[''input_audio_transcription''], [''audio'', ''input'', ''transcription'']] session of
        None \<Rightarrow> c
      | Some t \<Rightarrow>
          (let c = (case Option.bind (jget ''model'' t) as_str of
                 Some m \<Rightarrow> c\<lparr>sc_model := (if m = [] then ''default'' else m)\<rparr> | None \<Rightarrow> c);
               language = or_else (Option.bind (jget ''language'' t) as_str) (Option.bind (pointer [''languages'', ''0''] t) as_str);
               c = (if jget ''language'' t \<noteq> None \<or> jget ''languages'' t \<noteq> None
                    then c\<lparr>sc_language := (case language of Some l \<Rightarrow> if l = [] then None else Some l | None \<Rightarrow> None)\<rparr> else c)
           in case jget ''prompt'' t of Some p \<Rightarrow> c\<lparr>sc_prompt := nonempty_str p\<rparr> | None \<Rightarrow> c))"

definition update_target :: "json \<Rightarrow> session_config \<Rightarrow> session_config" where
  "update_target session c =
     (case first_pointer [[''input_audio_transcription'', ''target_language''],
          [''audio'', ''input'', ''transcription'', ''target_language''], [''audio'', ''output'', ''language'']] session of
        None \<Rightarrow> c
      | Some target \<Rightarrow> c\<lparr>sc_target_language := nonempty_str target\<rparr>)"

definition session_update :: "json \<Rightarrow> session_config \<Rightarrow> api_error + session_config" where
  "session_update session c =
     and_then (check_turn_detection session) (\<lambda>_.
     and_then (check_formats session) (\<lambda>_.
     map_sum id (\<lambda>c. update_target session (update_transcription session c)) (update_rate session c)))"

definition session_to_json :: "session_config \<Rightarrow> json" where
  "session_to_json c =
     JObj [(''id'', JStr (sc_id c)), (''object'', JStr ''realtime.transcription_session''),
       (''input_audio_format'', JStr ''pcm16''), (''input_audio_sample_rate'', jnat (sc_sample_rate c)),
       (''input_audio_transcription'', JObj [(''model'', JStr (sc_model c)), (''language'', jopt JStr (sc_language c)),
          (''target_language'', jopt JStr (sc_target_language c)), (''prompt'', jopt JStr (sc_prompt c))]),
       (''turn_detection'', JNull)]"

subsection \<open>The events of the server\<close>

datatype server_event =
    Session_created session_config
  | Session_updated string session_config
  | Error_event api_error
  | Audio_committed "string option" string
  | Audio_cleared
  | Delta string string
  | Partial string string string int
  | Completed string string

definition event :: "string \<Rightarrow> string \<Rightarrow> (string \<times> json) list \<Rightarrow> json" where
  "event fresh kind body = JObj (body @ [(''type'', JStr kind), (''event_id'', JStr (''event_'' @ fresh))])"

definition error_json :: "api_error \<Rightarrow> json" where
  "error_json e =
     JObj [(''type'', JStr (if 400 \<le> status e \<and> status e < 500 then ''invalid_request_error'' else ''server_error'')),
       (''code'', JStr (code e)), (''message'', JStr (message e)), (''param'', JNull), (''event_id'', JNull)]"

definition event_json :: "string \<Rightarrow> server_event \<Rightarrow> json" where
  "event_json fresh ev =
     (case ev of
        Session_created c \<Rightarrow> event fresh ''transcription_session.created'' [(''session'', session_to_json c)]
      | Session_updated kind c \<Rightarrow> event fresh kind [(''session'', session_to_json c)]
      | Error_event e \<Rightarrow> event fresh ''error'' [(''error'', error_json e)]
      | Audio_committed prev i \<Rightarrow> event fresh ''input_audio_buffer.committed''
          [(''previous_item_id'', jopt JStr prev), (''item_id'', JStr i)]
      | Audio_cleared \<Rightarrow> event fresh ''input_audio_buffer.cleared'' []
      | Delta i t \<Rightarrow> event fresh ''conversation.item.input_audio_transcription.delta''
          [(''item_id'', JStr i), (''content_index'', JInt 0), (''delta'', JStr t)]
      | Partial i c t n \<Rightarrow> event fresh ''conversation.item.input_audio_transcription.partial''
          [(''item_id'', JStr i), (''content_index'', JInt 0), (''committed'', JStr c), (''tentative'', JStr t),
           (''revision'', JInt n)]
      | Completed i t \<Rightarrow> event fresh ''conversation.item.input_audio_transcription.completed''
          [(''item_id'', JStr i), (''content_index'', JInt 0), (''transcript'', JStr t)])"

definition delta_since :: "string \<Rightarrow> string \<Rightarrow> string option" where
  "delta_since previous committed =
     (case strip_prefix previous committed of Some d \<Rightarrow> if d = [] then None else Some d | None \<Rightarrow> None)"

subsection \<open>Beginning an item\<close>

definition check_streaming :: "loaded_caps \<Rightarrow> api_error + unit" where
  "check_streaming c =
     (if supports_streaming c then Inr ()
      else Inl (api_error_new 422 ''streaming_unsupported''
        ''This model does not support live streaming; use /v1/audio/transcriptions''))"

definition stream_busy :: api_error where
  "stream_busy = api_error_new 429 ''stream_busy'' ''Another live stream is already running''"

text \<open>
  What an item begins with: the model it runs on, the options, the decoder, and whether it is buffered
  until the commit. The slot taken first is given back on every error, and leased to the model only when
  the item streams. The thread of a streaming item may fail to start.
\<close>

record 'r started =
  st_model :: engine_model
  st_target :: string
  st_run :: run_options
  st_decoder :: "'r pcm_stream"
  st_buffered :: bool

definition start_request :: "session_config \<Rightarrow> parsed_request" where
  "start_request c = \<lparr>rq_language = sc_language c, rq_prompt = sc_prompt c, rq_temperature = None,
     rq_response_format = None, rq_timestamp_granularities = [], rq_target_language = sc_target_language c\<rparr>"

definition plan_item ::
    "(nat \<Rightarrow> 'r resampler) \<Rightarrow> session_config \<Rightarrow> string \<Rightarrow> loaded_model \<Rightarrow> api_error + 'r started" where
  "plan_item resamplers c target l =
     (let translating = sc_target_language c \<noteq> None;
          buffered = translating \<and> \<not> supports_streaming (lm_caps l)
      in and_then (if buffered then Inr () else check_streaming (lm_caps l)) (\<lambda>_.
         and_then (make_plan (start_request c) (lm_caps l) (if translating then Translations else Transcriptions) None) (\<lambda>p.
         and_then (pcm_new resamplers (sc_sample_rate c)) (\<lambda>decoder.
           Inr \<lparr>st_model = lm_model l, st_target = target, st_run = to_run_options p, st_decoder = decoder,
                st_buffered = buffered\<rparr>))))"

definition start_item ::
    "engine \<Rightarrow> (nat \<Rightarrow> 'r resampler) \<Rightarrow> bool \<Rightarrow> journey \<Rightarrow> (queue_error + nat) \<Rightarrow> (string + unit) \<Rightarrow> session_config \<Rightarrow>
     app \<Rightarrow> ((api_error + 'r started) \<times> app) option" where
  "start_item eg resamplers slot_free jy queued spawned c a =
     (if \<not> slot_free then Some (Inl stream_busy, a)
      else case and_then (resolve_requested_model a (sc_model c))
              (\<lambda>target. and_then (require_installed_verified a target) (\<lambda>_. Inr target)) of
        Inl e \<Rightarrow> Some (Inl e, a)
      | Inr target \<Rightarrow>
          (case queued of
             Inl e \<Rightarrow> Some (Inl (queue_api_error e), jy_waiting jy a)
           | Inr _ \<Rightarrow>
               (case bind_or_swap_model eg target (rl_queue_wait_timeout_ms (sv_limits (ap_server a))) 0 (jy_binds jy)
                       (jy_waiting jy a) of
                  None \<Rightarrow> None
                | Some (Inl e, a') \<Rightarrow> Some (Inl e, a')
                | Some (Inr l, a') \<Rightarrow>
                    Some (and_then (plan_item resamplers c target l)
                      (\<lambda>st. if st_buffered st then Inr st else map_sum internal (\<lambda>_. st) spawned), a'))))"

text \<open>The run of a buffered turn, once it has its turn in the queue.\<close>

definition translate_pcm ::
    "engine \<Rightarrow> (engine_model \<Rightarrow> f32 list \<Rightarrow> run_options \<Rightarrow> engine_error + transcript) \<Rightarrow> journey \<Rightarrow> string \<Rightarrow> run_options \<Rightarrow>
     f32 list \<Rightarrow> app \<Rightarrow> ((api_error + string) \<times> app) option" where
  "translate_pcm eg run jy target opts pcm a =
     (if pcm = [] then Some (Inr [], a)
      else let wait = rl_queue_wait_timeout_ms (sv_limits (ap_server a)) in
        (case acquire_for_model target wait (jy_queue jy) of
           None \<Rightarrow> None
         | Some (Inl e) \<Rightarrow> Some (Inl (queue_api_error e), jy_waiting jy a)
         | Some (Inr _) \<Rightarrow>
             (case bind_or_swap_model eg target wait 0 (jy_binds jy) (jy_waiting jy a) of
                None \<Rightarrow> None
              | Some (Inl e, a') \<Rightarrow> Some (Inl e, a')
              | Some (Inr l, a') \<Rightarrow>
                  Some (map_sum map_engine_error (\<lambda>t. trim (tr_text t)) (run (lm_model l) pcm opts), a'))))"

text \<open>The upgrade of a request to a connection.\<close>

definition realtime_route ::
    "string option \<Rightarrow> string option \<Rightarrow> string + unit \<Rightarrow> app \<Rightarrow> api_error + unit" where
  "realtime_route header intent upgrade a =
     and_then (authorize header (ap_admin a) (ap_user a) User) (\<lambda>_.
     and_then (if if_given (\<lambda>i. i = ''transcription'') intent then Inr ()
       else Inl (api_error_new 400 ''unsupported_intent'' ''Only intent=transcription is supported'')) (\<lambda>_.
     map_err (\<lambda>m. api_error_new 400 ''websocket_required'' m) upgrade))"

end
