(* ===== verification/Realtime.thy ===== *)
theory Realtime
  imports Realtime_Session "HOL-Library.Sublist"
begin

text \<open>
  The live connection of \<open>src/realtime.rs\<close> as a transition system: the task of the connection with its
  item in flight, the worker thread of the item, the command and update channels between them, and the
  stream slot. A step is one thing the task or the worker does between two waits. The engine's stream is
  a library: a state with the texts it reports. What the client sends, when it is silent or gone, and how
  an item's start ends are free.
\<close>

subsection \<open>State\<close>

record 'st live_engine =
  le_begin :: "engine_model \<Rightarrow> run_options \<Rightarrow> engine_error + 'st"
  le_feed :: "'st \<Rightarrow> f32 list \<Rightarrow> engine_error + 'st \<times> bool \<times> int"
  le_finalize :: "'st \<Rightarrow> engine_error + 'st \<times> int"
  le_committed :: "'st \<Rightarrow> string"
  le_tentative :: "'st \<Rightarrow> string"
  le_display :: "'st \<Rightarrow> string"
  le_full :: "'st \<Rightarrow> string"

record ('r, 'st) live =
  lv_engine :: engine
  lv_resamplers :: "nat \<Rightarrow> 'r resampler"
  lv_stream :: "'st live_engine"
  lv_run :: "engine_model \<Rightarrow> f32 list \<Rightarrow> run_options \<Rightarrow> engine_error + transcript"
  lv_base64 :: "string \<Rightarrow> byte list option"

datatype cmd = Feed "f32 list" | Finalize

datatype update = Partial_text string string int | Completed_text string | Failed_run api_error | Ended

text \<open>
  The worker: not running, before the stream has begun, streaming, running a buffered turn, and, when
  its run is over, what it will announce: before and after it has given the slot back.
\<close>

datatype 'st worker =
    No_worker
  | Beginning engine_model run_options
  | Streaming 'st
  | Translating string run_options "f32 list"
  | Outcome "update list"
  | Announcing "update list"

text \<open>How an item takes audio: it has the command channel, or collects a turn, or has handed the turn over.\<close>

datatype turn = Stream_turn | Buffer_turn string run_options "f32 list" | Running_turn

record 'r item =
  it_id :: string
  it_decoder :: "'r pcm_stream"
  it_rate :: nat
  it_committed :: string
  it_done :: bool
  it_turn :: turn

datatype message_left = Then_append "byte list" | Then_commit | Then_clear

datatype after = After_clear | After_idle | After_close

datatype control = Ready | Settling message_left | Discarding after | Closed_down

record ('r, 'st) conn =
  cn_config :: session_config
  cn_item :: "'r item option"
  cn_previous :: "string option"
  cn_control :: control
  cn_out :: "server_event list"
  ch_commands :: "cmd list"
  ch_open :: bool
  ch_updates :: "update list"
  cn_worker :: "'st worker"
  cn_slot :: bool

definition conn_new :: "string \<Rightarrow> string option \<Rightarrow> ('r, 'st) conn" where
  "conn_new fresh m =
     (let c = session_new fresh m in
      \<lparr>cn_config = c, cn_item = None, cn_previous = None, cn_control = Ready, cn_out = [Session_created c],
       ch_commands = [], ch_open = False, ch_updates = [], cn_worker = No_worker, cn_slot = False\<rparr>)"

subsection \<open>The worker\<close>

definition announce_stream :: "api_error + string option \<Rightarrow> update list" where
  "announce_stream r =
     (case r of Inr (Some t) \<Rightarrow> [Completed_text t, Ended] | Inr None \<Rightarrow> [Ended] | Inl e \<Rightarrow> [Failed_run e, Ended])"

definition announce_turn :: "api_error + string \<Rightarrow> update list" where
  "announce_turn r =
     (case r of
        Inr t \<Rightarrow> (if t = [] then [] else [Partial_text t [] 0]) @ [Completed_text t, Ended]
      | Inl e \<Rightarrow> [Failed_run e, Ended])"

definition run_stream_step :: "'st live_engine \<Rightarrow> 'st \<Rightarrow> ('r, 'st) conn \<Rightarrow> ('r, 'st) conn option" where
  "run_stream_step le st s =
     (case ch_commands s of
        [] \<Rightarrow> if ch_open s then None else Some (s\<lparr>cn_worker := Outcome (announce_stream (Inr None))\<rparr>)
      | Feed pcm # cs \<Rightarrow>
          Some (case le_feed le st pcm of
             Inl e \<Rightarrow> s\<lparr>ch_commands := cs, cn_worker := Outcome (announce_stream (Inl (map_engine_error e)))\<rparr>
           | Inr (st', changed, n) \<Rightarrow> s\<lparr>ch_commands := cs, cn_worker := Streaming st',
               ch_updates := ch_updates s @ (if changed then [Partial_text (le_committed le st') (le_tentative le st') n] else [])\<rparr>)
      | Finalize # cs \<Rightarrow>
          Some (case le_finalize le st of
             Inl e \<Rightarrow> s\<lparr>ch_commands := cs, cn_worker := Outcome (announce_stream (Inl (map_engine_error e)))\<rparr>
           | Inr (st', n) \<Rightarrow> s\<lparr>ch_commands := cs,
               ch_updates := ch_updates s @ [Partial_text (le_display le st') [] n],
               cn_worker := Outcome (announce_stream (Inr (Some (trim (le_full le st')))))\<rparr>))"

text \<open>A step of the worker thread; a buffered turn's run ends in a step of its own.\<close>

definition worker_step :: "'st live_engine \<Rightarrow> ('r, 'st) conn \<Rightarrow> ('r, 'st) conn option" where
  "worker_step le s =
     (case cn_worker s of
        Beginning m opts \<Rightarrow>
          Some (case le_begin le m opts of
             Inl e \<Rightarrow> s\<lparr>cn_worker := Outcome (announce_stream (Inl (map_engine_error e)))\<rparr>
           | Inr st \<Rightarrow> s\<lparr>cn_worker := Streaming st\<rparr>)
      | Streaming st \<Rightarrow> run_stream_step le st s
      | Outcome us \<Rightarrow> Some (s\<lparr>cn_slot := False, cn_worker := Announcing us\<rparr>)
      | Announcing (u # us) \<Rightarrow>
          Some (s\<lparr>ch_updates := ch_updates s @ [u], cn_worker := (if us = [] then No_worker else Announcing us)\<rparr>)
      | _ \<Rightarrow> None)"

subsection \<open>The task of the connection\<close>

definition send :: "server_event \<Rightarrow> ('r, 'st) conn \<Rightarrow> ('r, 'st) conn" where
  "send ev s = s\<lparr>cn_out := cn_out s @ [ev]\<rparr>"

definition send_error :: "api_error \<Rightarrow> ('r, 'st) conn \<Rightarrow> ('r, 'st) conn" where
  "send_error e = send (Error_event e)"

definition on_update :: "update option \<Rightarrow> ('r, 'st) conn \<Rightarrow> ('r, 'st) conn" where
  "on_update u s =
     (case u of
        None \<Rightarrow> s\<lparr>cn_item := None\<rparr>
      | Some u \<Rightarrow>
          (case cn_item s of
             None \<Rightarrow> s
           | Some it \<Rightarrow>
               (case u of
                  Partial_text c t n \<Rightarrow>
                    (let s1 = (case strip_prefix (it_committed it) c of
                           None \<Rightarrow> s | Some d \<Rightarrow> s\<lparr>cn_item := Some (it\<lparr>it_committed := c\<rparr>)\<rparr>);
                         s2 = (case delta_since (it_committed it) c of None \<Rightarrow> s1 | Some d \<Rightarrow> send (Delta (it_id it) d) s1)
                     in send (Partial (it_id it) c t n) s2)
                | Completed_text t \<Rightarrow> send (Completed (it_id it) t) (s\<lparr>cn_previous := Some (it_id it)\<rparr>)
                | Failed_run e \<Rightarrow> send_error e s
                | Ended \<Rightarrow> s\<lparr>cn_item := None\<rparr>)))"

text \<open>
  Receiving an update: the next one in the channel, or, when it is empty and no sender is left, none;
  otherwise the receiver waits. A turn being collected holds a sender.
\<close>

definition collecting :: "('r, 'st) conn \<Rightarrow> bool" where
  "collecting s \<longleftrightarrow> (case cn_item s of Some it \<Rightarrow> (case it_turn it of Buffer_turn _ _ _ \<Rightarrow> True | _ \<Rightarrow> False) | None \<Rightarrow> False)"

definition next_update :: "('r, 'st) conn \<Rightarrow> (update option \<times> ('r, 'st) conn) option" where
  "next_update s =
     (case ch_updates s of
        u # us \<Rightarrow> Some (Some u, s\<lparr>ch_updates := us\<rparr>)
      | [] \<Rightarrow> if cn_worker s = No_worker \<and> \<not> collecting s then Some (None, s) else None)"

definition feed :: "f32 list \<Rightarrow> 'r item \<Rightarrow> ('r, 'st) conn \<Rightarrow> 'r item \<times> ('r, 'st) conn" where
  "feed pcm it s =
     (if pcm = [] then (it, s)
      else case it_turn it of
        Stream_turn \<Rightarrow> (it, s\<lparr>ch_commands := ch_commands s @ [Feed pcm]\<rparr>)
      | Buffer_turn i opts pcm0 \<Rightarrow> (it\<lparr>it_turn := Buffer_turn i opts (pcm0 @ pcm)\<rparr>, s)
      | Running_turn \<Rightarrow> (it, s))"

definition finalize :: "'r item \<Rightarrow> ('r, 'st) conn \<Rightarrow> 'r item \<times> ('r, 'st) conn" where
  "finalize it s =
     (case it_turn it of
        Stream_turn \<Rightarrow> (it, s\<lparr>ch_commands := ch_commands s @ [Finalize]\<rparr>)
      | Buffer_turn i opts pcm0 \<Rightarrow> (it\<lparr>it_turn := Running_turn\<rparr>, s\<lparr>cn_worker := Translating i opts pcm0\<rparr>)
      | Running_turn \<Rightarrow> (it, s))"

text \<open>What follows a discarded item.\<close>

definition idle_timeout :: api_error where
  "idle_timeout = api_error_new 408 ''idle_timeout'' ''No audio or commit received; the buffered audio was discarded''"

definition proceed :: "after \<Rightarrow> ('r, 'st) conn \<Rightarrow> ('r, 'st) conn" where
  "proceed x s =
     (case x of
        After_clear \<Rightarrow> send Audio_cleared (s\<lparr>cn_control := Ready\<rparr>)
      | After_idle \<Rightarrow> send_error idle_timeout (s\<lparr>cn_control := Ready\<rparr>)
      | After_close \<Rightarrow> s\<lparr>cn_control := Closed_down\<rparr>)"

definition discard_item :: "after \<Rightarrow> ('r, 'st) conn \<Rightarrow> ('r, 'st) conn" where
  "discard_item x s =
     (case cn_item s of
        None \<Rightarrow> proceed x s
      | Some it \<Rightarrow>
          (case it_turn it of
             Buffer_turn _ _ _ \<Rightarrow> proceed x (s\<lparr>cn_item := None, cn_slot := False\<rparr>)
           | _ \<Rightarrow> s\<lparr>cn_item := None, ch_open := False, cn_control := Discarding x\<rparr>))"

text \<open>A message of the client, as its JSON if it is JSON. Audio and turns first wait for a committed item.\<close>

definition on_text :: "(string \<Rightarrow> byte list option) \<Rightarrow> json option \<Rightarrow> ('r, 'st) conn \<Rightarrow> ('r, 'st) conn" where
  "on_text base64 m s =
     (case m of
        None \<Rightarrow> send_error (invalid ''invalid_json'' ''The event is not valid JSON'') s
      | Some v \<Rightarrow>
          (let kind = Option.bind (jget ''type'' v) as_str in
           if kind = Some ''transcription_session.update'' \<or> kind = Some ''session.update'' then
             (let updated = (if kind = Some ''session.update'' then ''session.updated'' else ''transcription_session.updated'') in
              case session_update (jindex v ''session'') (cn_config s) of
                Inr c \<Rightarrow> send (Session_updated updated c) (s\<lparr>cn_config := c\<rparr>)
              | Inl e \<Rightarrow> send_error e s)
           else if kind = Some ''input_audio_buffer.append'' then
             (case Option.bind (Option.bind (jget ''audio'' v) as_str) base64 of
                None \<Rightarrow> send_error (invalid ''invalid_audio'' ''audio must be base64-encoded PCM16'') s
              | Some bytes \<Rightarrow> s\<lparr>cn_control := Settling (Then_append bytes)\<rparr>)
           else if kind = Some ''input_audio_buffer.commit'' then s\<lparr>cn_control := Settling Then_commit\<rparr>
           else if kind = Some ''input_audio_buffer.clear'' then s\<lparr>cn_control := Settling Then_clear\<rparr>
           else send_error (invalid ''invalid_event'' ''Unknown or missing event type'') s))"

text \<open>Audio for the item there is.\<close>

definition append_audio :: "(nat \<Rightarrow> 'r resampler) \<Rightarrow> byte list \<Rightarrow> 'r item \<Rightarrow> ('r, 'st) conn \<Rightarrow> ('r, 'st) conn" where
  "append_audio resamplers bytes it s =
     (case pcm_push (resamplers (it_rate it)) (it_decoder it) bytes of
        (r, decoder) \<Rightarrow>
          (let it = it\<lparr>it_decoder := decoder\<rparr>; s = s\<lparr>cn_control := Ready\<rparr> in
           case r of
             Inr pcm \<Rightarrow> (case feed pcm it s of (it, s) \<Rightarrow> s\<lparr>cn_item := Some it\<rparr>)
           | Inl e \<Rightarrow> send_error e (s\<lparr>cn_item := Some it\<rparr>)))"

definition install_item :: "string \<Rightarrow> nat \<Rightarrow> 'r started \<Rightarrow> ('r, 'st) conn \<Rightarrow> 'r item \<times> ('r, 'st) conn" where
  "install_item fresh rate st s =
     (let it = \<lparr>it_id = ''item_'' @ fresh, it_decoder = st_decoder st, it_rate = rate, it_committed = [], it_done = False,
            it_turn = (if st_buffered st then Buffer_turn (st_target st) (st_run st) [] else Stream_turn)\<rparr>
      in (it, s\<lparr>cn_item := Some it, cn_slot := True, ch_commands := [], ch_open := \<not> st_buffered st, ch_updates := [],
           cn_worker := (if st_buffered st then No_worker else Beginning (st_model st) (st_run st))\<rparr>))"

definition on_append_start ::
    "(nat \<Rightarrow> 'r resampler) \<Rightarrow> string \<Rightarrow> byte list \<Rightarrow> api_error + 'r started \<Rightarrow> ('r, 'st) conn \<Rightarrow> ('r, 'st) conn" where
  "on_append_start resamplers fresh bytes r s =
     (case r of
        Inl e \<Rightarrow>
          (let s = send_error e s in
           if code e = ''streaming_unsupported'' then discard_item After_close s else s\<lparr>cn_control := Ready\<rparr>)
      | Inr st \<Rightarrow> (case install_item fresh (sc_sample_rate (cn_config s)) st s of (it, s) \<Rightarrow> append_audio resamplers bytes it s))"

definition on_commit :: "(nat \<Rightarrow> 'r resampler) \<Rightarrow> ('r, 'st) conn \<Rightarrow> ('r, 'st) conn" where
  "on_commit resamplers s =
     (let s = s\<lparr>cn_control := Ready\<rparr> in
      case cn_item s of
        None \<Rightarrow> send_error (invalid ''input_audio_buffer_commit_empty'' ''There is no audio to commit'') s
      | Some it \<Rightarrow>
          (case pcm_finish (resamplers (it_rate it)) (it_decoder it) of
             (Inl e, decoder) \<Rightarrow> send_error e (s\<lparr>cn_item := Some (it\<lparr>it_decoder := decoder, it_done := True\<rparr>)\<rparr>)
           | (Inr pcm, decoder) \<Rightarrow>
               (case feed pcm (it\<lparr>it_decoder := decoder\<rparr>) s of (it, s) \<Rightarrow>
                 (case finalize it s of (it, s) \<Rightarrow>
                   send (Audio_committed (cn_previous s) (it_id it)) (s\<lparr>cn_item := Some (it\<lparr>it_done := True\<rparr>)\<rparr>)))))"

definition on_clear :: "('r, 'st) conn \<Rightarrow> ('r, 'st) conn" where
  "on_clear s = discard_item After_clear s"

definition discard_update :: "after \<Rightarrow> update option \<Rightarrow> ('r, 'st) conn \<Rightarrow> ('r, 'st) conn" where
  "discard_update x u s =
     (case u of None \<Rightarrow> proceed x s | Some Ended \<Rightarrow> proceed x (s\<lparr>ch_updates := []\<rparr>) | Some _ \<Rightarrow> s)"

subsection \<open>Steps\<close>

definition item_done :: "('r, 'st) conn \<Rightarrow> bool" where
  "item_done s \<longleftrightarrow> (case cn_item s of Some it \<Rightarrow> it_done it | None \<Rightarrow> False)"

text \<open>The items an event names; a fresh id is one no event has named.\<close>

fun event_item :: "server_event \<Rightarrow> string option" where
  "event_item (Audio_committed p i) = Some i"
| "event_item (Delta i t) = Some i"
| "event_item (Partial i c t n) = Some i"
| "event_item (Completed i t) = Some i"
| "event_item ev = None"

text \<open>When a send fails the task ends and drops what it holds: the sender, the receiver, a collected turn.\<close>

definition lost :: "('r, 'st) conn \<Rightarrow> ('r, 'st) conn" where
  "lost s = s\<lparr>cn_item := None, ch_open := False, cn_control := Closed_down,
     cn_slot := (if collecting s then False else cn_slot s)\<rparr>"

inductive turn_step :: "('r, 'st) live \<Rightarrow> ('r, 'st) conn \<Rightarrow> ('r, 'st) conn \<Rightarrow> bool" for v where
  Message: "cn_control s = Ready \<Longrightarrow> turn_step v s (on_text (lv_base64 v) m s)"
| Binary: "cn_control s = Ready \<Longrightarrow>
     turn_step v s (send_error (invalid ''invalid_event'' ''Binary frames are not accepted; send JSON events'') s)"
| Closing: "cn_control s = Ready \<Longrightarrow> turn_step v s (discard_item After_close s)"
| Idle: "cn_control s = Ready \<Longrightarrow> turn_step v s (discard_item After_idle s)"
| Update: "cn_control s = Ready \<Longrightarrow> cn_item s \<noteq> None \<Longrightarrow> next_update s = Some (u, s1) \<Longrightarrow> turn_step v s (on_update u s1)"
| Settle: "cn_control s = Settling p \<Longrightarrow> item_done s \<Longrightarrow> next_update s = Some (u, s1) \<Longrightarrow> turn_step v s (on_update u s1)"
| Start: "cn_control s = Settling (Then_append bytes) \<Longrightarrow> cn_item s = None \<Longrightarrow>
     start_item (lv_engine v) (lv_resamplers v) (free \<and> \<not> cn_slot s) jy queued spawned (cn_config s) a = Some (r, a') \<Longrightarrow>
     Some (''item_'' @ fresh) \<notin> event_item ` set (cn_out s) \<Longrightarrow>
     turn_step v s (on_append_start (lv_resamplers v) fresh bytes r s)"
| Append: "cn_control s = Settling (Then_append bytes) \<Longrightarrow> cn_item s = Some it \<Longrightarrow> \<not> it_done it \<Longrightarrow>
     turn_step v s (append_audio (lv_resamplers v) bytes it s)"
| Commit: "cn_control s = Settling Then_commit \<Longrightarrow> \<not> item_done s \<Longrightarrow> turn_step v s (on_commit (lv_resamplers v) s)"
| Clear: "cn_control s = Settling Then_clear \<Longrightarrow> \<not> item_done s \<Longrightarrow> turn_step v s (on_clear s)"
| Discard: "cn_control s = Discarding x \<Longrightarrow> next_update s = Some (u, s1) \<Longrightarrow> turn_step v s (discard_update x u s1)"
| Worker: "worker_step (lv_stream v) s = Some s1 \<Longrightarrow> turn_step v s s1"
| Translated: "cn_worker s = Translating i opts pcm \<Longrightarrow>
     translate_pcm (lv_engine v) (lv_run v) jy i opts pcm a = Some (r, a') \<Longrightarrow>
     turn_step v s (s\<lparr>cn_worker := Outcome (announce_turn r)\<rparr>)"

inductive rt_step :: "('r, 'st) live \<Rightarrow> ('r, 'st) conn \<Rightarrow> ('r, 'st) conn \<Rightarrow> bool" for v where
  Done: "turn_step v s s1 \<Longrightarrow> rt_step v s s1"
| Lost: "turn_step v s s1 \<Longrightarrow> cn_out s1 \<noteq> cn_out s \<Longrightarrow> rt_step v s (lost s1)"

inductive rt_reachable :: "('r, 'st) live \<Rightarrow> ('r, 'st) conn \<Rightarrow> bool" for v where
  Opened: "rt_reachable v (conn_new fresh m)"
| Stepped: "rt_reachable v s \<Longrightarrow> rt_step v s t \<Longrightarrow> rt_reachable v t"

inductive_cases turn_stepE: "turn_step v s t"

subsection \<open>The slot and the end of an item\<close>

text \<open>
  What a run reports ends with one \<open>Ended\<close>, and the slot is held exactly until the report of its end begins:
  the state of an item with a worker, of an item whose turn is collected, and of the connection in between.
\<close>

definition ended_once :: "update list \<Rightarrow> bool" where
  "ended_once us \<longleftrightarrow> us \<noteq> [] \<and> last us = Ended \<and> Ended \<notin> set (butlast us)"

fun closing :: "update \<Rightarrow> bool" where
  "closing (Partial_text c t n) = False"
| "closing (Failed_run e) = False"
| "closing (Completed_text t) = True"
| "closing Ended = True"

definition attached :: "('r, 'st) conn \<Rightarrow> bool" where
  "attached s \<longleftrightarrow>
     (case cn_worker s of
        No_worker \<Rightarrow> ended_once (ch_updates s) \<and> \<not> cn_slot s
      | Announcing us \<Rightarrow> us \<noteq> [] \<and> ended_once (ch_updates s @ us) \<and> \<not> cn_slot s
      | Outcome us \<Rightarrow> ended_once us \<and> (\<forall>u \<in> set (ch_updates s). \<not> closing u) \<and> cn_slot s
      | _ \<Rightarrow> (\<forall>u \<in> set (ch_updates s). \<not> closing u) \<and> cn_slot s)"

definition at_rest :: "('r, 'st) conn \<Rightarrow> bool" where
  "at_rest s \<longleftrightarrow> cn_worker s = No_worker \<and> ch_updates s = [] \<and> \<not> cn_slot s"

definition rt_ok :: "('r, 'st) conn \<Rightarrow> bool" where
  "rt_ok s \<longleftrightarrow>
     (case cn_control s of
        Closed_down \<Rightarrow> cn_item s = None \<and> (at_rest s \<or> attached s) \<and> (ch_open s \<longrightarrow> cn_worker s = No_worker)
      | Discarding x \<Rightarrow> cn_item s = None \<and> attached s \<and> \<not> ch_open s
      | _ \<Rightarrow> (if collecting s then cn_worker s = No_worker \<and> ch_updates s = [] \<and> cn_slot s
             else if cn_item s = None then at_rest s else attached s))"

lemma ended_once_Cons: "ended_once (u # us) \<longleftrightarrow> (if us = [] then u = Ended else u \<noteq> Ended \<and> ended_once us)"
  by (auto simp: ended_once_def)

lemma ended_once_Nil [simp]: "\<not> ended_once []"
  by (simp add: ended_once_def)

lemma ended_once_append: "\<forall>u \<in> set xs. \<not> closing u \<Longrightarrow> ended_once us \<Longrightarrow> ended_once (xs @ us)"
  by (auto simp: ended_once_def butlast_append)

lemma ended_once_announced [simp]: "ended_once (announce_stream r)" "ended_once (announce_turn r')"
  by (auto simp: announce_stream_def announce_turn_def ended_once_def split: sum.split option.split)

lemma send_fields [simp]:
  "cn_config (send ev s) = cn_config s" "cn_item (send ev s) = cn_item s" "cn_previous (send ev s) = cn_previous s"
  "cn_control (send ev s) = cn_control s" "cn_out (send ev s) = cn_out s @ [ev]" "ch_commands (send ev s) = ch_commands s"
  "ch_open (send ev s) = ch_open s" "ch_updates (send ev s) = ch_updates s" "cn_worker (send ev s) = cn_worker s"
  "cn_slot (send ev s) = cn_slot s"
  by (simp_all add: send_def)

lemma collecting_iff: "collecting s \<longleftrightarrow> (\<exists>it i opts p. cn_item s = Some it \<and> it_turn it = Buffer_turn i opts p)"
  by (auto simp: collecting_def split: option.splits turn.splits)

lemma collecting_cong: "cn_item s = cn_item s' \<Longrightarrow> collecting s = collecting s'"
  by (simp add: collecting_def)

lemma attached_cong:
  "cn_worker s = cn_worker s' \<Longrightarrow> ch_updates s = ch_updates s' \<Longrightarrow> cn_slot s = cn_slot s' \<Longrightarrow> attached s = attached s'"
  by (simp add: attached_def split: worker.split)

lemma at_rest_cong:
  "cn_worker s = cn_worker s' \<Longrightarrow> ch_updates s = ch_updates s' \<Longrightarrow> cn_slot s = cn_slot s' \<Longrightarrow> at_rest s = at_rest s'"
  by (simp add: at_rest_def)

lemma rt_ok_cong:
  assumes "cn_control s = cn_control s'" "cn_item s = cn_item s'" "cn_worker s = cn_worker s'" "ch_updates s = ch_updates s'"
    "cn_slot s = cn_slot s'" "ch_open s = ch_open s'"
  shows "rt_ok s = rt_ok s'"
proof -
  have "attached s = attached s'" "at_rest s = at_rest s'" "collecting s = collecting s'"
    by (rule attached_cong at_rest_cong collecting_cong; fact assms)+
  with assms show ?thesis by (auto simp: rt_ok_def split: control.split)
qed

lemma rt_ok_send [simp]: "rt_ok (send ev s) = rt_ok s" "rt_ok (send_error e s) = rt_ok s"
  unfolding send_error_def by (rule rt_ok_cong; simp)+

lemma collecting_send [simp]: "collecting (send ev s) = collecting s" "collecting (send_error e s) = collecting s"
  by (simp_all add: collecting_def send_error_def)

text \<open>Receiving an update leaves the run as it is; only the end takes the item away.\<close>

lemma on_update_fields [simp]:
  "cn_config (on_update u s) = cn_config s" "cn_control (on_update u s) = cn_control s" "ch_commands (on_update u s) = ch_commands s"
  "ch_open (on_update u s) = ch_open s" "ch_updates (on_update u s) = ch_updates s" "cn_worker (on_update u s) = cn_worker s"
  "cn_slot (on_update u s) = cn_slot s"
  by (auto simp: on_update_def send_error_def Let_def split: option.splits update.splits)

lemma on_update_item:
  "cn_item (on_update u s) =
     (case cn_item s of None \<Rightarrow> None
      | Some it \<Rightarrow> if u = None \<or> u = Some Ended then None
          else (case u of Some (Partial_text c t n) \<Rightarrow> if strip_prefix (it_committed it) c = None then Some it else Some (it\<lparr>it_committed := c\<rparr>)
                | _ \<Rightarrow> Some it))"
  by (auto simp: on_update_def send_error_def Let_def split: option.splits update.splits)


lemma collecting_on_update:
  "u \<noteq> Some Ended \<Longrightarrow> u \<noteq> None \<Longrightarrow> collecting (on_update u s) = collecting s"
  by (auto simp: collecting_def on_update_item split: option.splits update.splits)

lemma next_update_cases:
  assumes "next_update s = Some (u, s1)"
  obtains (message) x us where "u = Some x" "ch_updates s = x # us" "s1 = s\<lparr>ch_updates := us\<rparr>"
  | (gone) "u = None" "s1 = s" "ch_updates s = []" "cn_worker s = No_worker" "\<not> collecting s"
  using assms by (auto simp: next_update_def split: list.splits if_splits)

lemma attached_receive:
  assumes "attached s" "ch_updates s = x # us"
  shows "if x = Ended then at_rest (s\<lparr>ch_updates := us\<rparr>) else attached (s\<lparr>ch_updates := us\<rparr>)"
  using assms by (auto simp: attached_def at_rest_def ended_once_Cons split: worker.splits if_splits)

lemma attached_not_gone: "attached s \<Longrightarrow> ch_updates s = [] \<Longrightarrow> cn_worker s \<noteq> No_worker"
  by (auto simp: attached_def)

text \<open>The worker's own steps.\<close>

lemma run_stream_step_ok:
  assumes "run_stream_step le st s = Some t" "cn_worker s = Streaming st" "attached s"
  shows "attached t"
  using assms
  by (auto simp: run_stream_step_def attached_def split: list.splits cmd.splits sum.splits if_splits)

lemma worker_step_attached:
  assumes "worker_step le s = Some t" "attached s"
  shows "attached t"
proof (cases "cn_worker s")
  case (Streaming st)
  with assms show ?thesis using run_stream_step_ok by (fastforce simp: worker_step_def)
next
  case (Announcing us)
  with assms show ?thesis by (cases us) (auto simp: worker_step_def attached_def)
next
  case (Outcome us)
  with assms show ?thesis by (auto simp: worker_step_def attached_def intro: ended_once_append)
qed (use assms in \<open>auto simp: worker_step_def attached_def split: sum.splits\<close>)

lemma worker_step_fields:
  assumes "worker_step le s = Some t"
  shows "cn_item t = cn_item s" "cn_control t = cn_control s" "cn_out t = cn_out s" "ch_open t = ch_open s"
    "cn_previous t = cn_previous s" "cn_config t = cn_config s" "cn_worker s \<noteq> No_worker"
  using assms
  by (auto simp: worker_step_def run_stream_step_def
      split: worker.splits list.splits cmd.splits sum.splits if_splits)

lemma worker_step_ok:
  assumes "worker_step le s = Some t" "rt_ok s"
  shows "rt_ok t"
proof -
  note f = worker_step_fields [OF assms(1)]
  have "attached s" using assms(2) f(7) by (auto simp: rt_ok_def at_rest_def split: control.splits if_splits)
  then have "attached t" using worker_step_attached [OF assms(1)] by blast
  moreover have "collecting t = collecting s" using f(1) by (rule collecting_cong)
  ultimately show ?thesis using assms(2) f
    by (auto simp: rt_ok_def at_rest_def split: control.splits if_splits)
qed

lemma rt_ok_on_update:
  assumes "rt_ok s" "next_update s = Some (u, s1)" "cn_item s \<noteq> None" "\<And>x. cn_control s \<noteq> Discarding x"
    "cn_control s \<noteq> Closed_down"
  shows "rt_ok (on_update u s1)"
proof -
  from assms(1,3,4,5) have s: "if collecting s then cn_worker s = No_worker \<and> ch_updates s = [] \<and> cn_slot s else attached s"
    by (auto simp: rt_ok_def split: control.splits)
  from assms(2) show ?thesis
  proof (cases rule: next_update_cases)
    case (message x us)
    with s have a: "attached s" "\<not> collecting s" by (auto split: if_splits)
    note r = attached_receive [OF a(1) message(2)]
    show ?thesis
    proof (cases "x = Ended")
      case True
      with r have "at_rest (on_update u s1)" by (simp add: message at_rest_def)
      with assms(4,5) True show ?thesis
        by (auto simp: rt_ok_def message on_update_item collecting_def split: control.splits option.splits)
    next
      case False
      with r have "attached (on_update u s1)" by (simp add: message attached_def split: worker.splits)
      moreover have "collecting s1 = collecting s" by (rule collecting_cong) (simp add: message)
      then have "\<not> collecting (on_update u s1)" using False a(2) by (simp add: message collecting_on_update)
      moreover have "cn_item (on_update u s1) \<noteq> None"
        using False assms(3) by (auto simp: message on_update_item split: option.splits update.splits)
      ultimately show ?thesis using assms(4,5) by (auto simp: rt_ok_def message split: control.splits)
    qed
  next
    case gone
    with s attached_not_gone show ?thesis by (auto split: if_splits)
  qed
qed


text \<open>The task's own steps.\<close>

lemma proceed_ok:
  assumes "cn_item s = None" "at_rest s"
  shows "rt_ok (proceed x s)"
  using assms by (auto simp: rt_ok_def proceed_def at_rest_def collecting_def send_error_def split: after.splits)

lemma discard_item_ok:
  assumes "rt_ok s" "cn_control s \<in> {Ready} \<union> range Settling"
  shows "rt_ok (discard_item x s)"
proof (cases "cn_item s")
  case None
  with assms have "at_rest s" by (auto simp: rt_ok_def collecting_def)
  with None show ?thesis by (simp add: discard_item_def proceed_ok)
next
  case (Some it)
  show ?thesis
  proof (cases "collecting s")
    case True
    then obtain i opts p where "it_turn it = Buffer_turn i opts p" by (auto simp: collecting_iff Some)
    moreover from True assms have "cn_worker s = No_worker \<and> ch_updates s = []" by (auto simp: rt_ok_def)
    ultimately show ?thesis by (auto simp: discard_item_def Some intro: proceed_ok simp: at_rest_def)
  next
    case False
    then have "discard_item x s = s\<lparr>cn_item := None, ch_open := False, cn_control := Discarding x\<rparr>"
      by (auto simp: discard_item_def Some collecting_iff split: turn.split)
    moreover from False assms have "attached s" by (auto simp: rt_ok_def Some)
    ultimately show ?thesis by (auto simp: rt_ok_def attached_def split: worker.splits)
  qed
qed

lemma discard_update_ok:
  assumes "rt_ok s" "cn_control s = Discarding x" "next_update s = Some (u, s1)"
  shows "rt_ok (discard_update x u s1)"
proof -
  from assms have s: "attached s" "cn_item s = None" "\<not> ch_open s" by (auto simp: rt_ok_def)
  from assms(3) show ?thesis
  proof (cases rule: next_update_cases)
    case (message y us)
    note r = attached_receive [OF s(1) message(2)]
    show ?thesis
    proof (cases "y = Ended")
      case True
      with r s have "rt_ok (proceed x (s1\<lparr>ch_updates := []\<rparr>))" by (auto intro!: proceed_ok simp: message at_rest_def)
      with True show ?thesis by (simp add: discard_update_def message)
    next
      case False
      with r s assms(2) have "rt_ok s1" by (simp add: rt_ok_def message)
      with False show ?thesis by (simp add: discard_update_def message split: update.splits)
    qed
  next
    case gone
    with s attached_not_gone show ?thesis by blast
  qed
qed

lemma feed_ok:
  assumes "feed pcm it s = (it', s')" "cn_control s = Ready" "rt_ok (s\<lparr>cn_item := Some it\<rparr>)"
  shows "rt_ok (s'\<lparr>cn_item := Some it'\<rparr>)" "cn_control s' = Ready"
    "(\<exists>i opts p. it_turn it' = Buffer_turn i opts p) = (\<exists>i opts p. it_turn it = Buffer_turn i opts p)"
  using assms
  by (auto simp: feed_def rt_ok_def collecting_def attached_def split: if_splits turn.splits worker.splits)

lemma append_audio_ok:
  assumes "rt_ok (s\<lparr>cn_item := Some it\<rparr>)" "cn_control s \<in> {Ready} \<union> range Settling"
  shows "rt_ok (append_audio resamplers bytes it s)"
proof (cases "pcm_push (resamplers (it_rate it)) (it_decoder it) bytes")
  case (Pair r decoder)
  let ?it = "it\<lparr>it_decoder := decoder\<rparr>" and ?s = "s\<lparr>cn_control := Ready\<rparr>"
  from assms have ok: "rt_ok (?s\<lparr>cn_item := Some ?it\<rparr>)"
    by (auto simp: rt_ok_def collecting_def attached_def split: worker.splits turn.splits if_splits)
  show ?thesis
  proof (cases r)
    case (Inr pcm)
    obtain it' s' where f: "feed pcm ?it ?s = (it', s')" by (cases "feed pcm ?it ?s")
    from feed_ok(1) [OF f _ ok] f show ?thesis by (simp add: append_audio_def Pair Inr Let_def)
  next
    case (Inl e)
    with ok show ?thesis by (simp add: append_audio_def Pair Let_def)
  qed
qed

lemma install_item_ok:
  assumes "install_item fresh rate st s = (it, s')" "cn_control s \<in> {Ready} \<union> range Settling"
  shows "rt_ok (s'\<lparr>cn_item := Some it\<rparr>)" "cn_control s' = cn_control s" "s'\<lparr>cn_item := Some it\<rparr> = s'"
  using assms
  by (cases "st_buffered st"; auto simp: install_item_def Let_def rt_ok_def collecting_def attached_def)+

lemma on_append_start_ok:
  assumes "rt_ok s" "cn_control s \<in> range Settling" "cn_item s = None"
  shows "rt_ok (on_append_start resamplers fresh bytes r s)"
proof (cases r)
  case (Inl e)
  have "rt_ok (discard_item After_close (send_error e s))"
    by (rule discard_item_ok) (use assms in \<open>auto simp: send_error_def\<close>)
  moreover have "rt_ok ((send_error e s)\<lparr>cn_control := Ready\<rparr>)"
    using assms by (auto simp: rt_ok_def send_error_def send_def collecting_def at_rest_def)
  ultimately show ?thesis by (simp add: on_append_start_def Inl Let_def)
next
  case (Inr st)
  obtain it s' where i: "install_item fresh (sc_sample_rate (cn_config s)) st s = (it, s')"
    by (cases "install_item fresh (sc_sample_rate (cn_config s)) st s")
  with assms have "rt_ok (s'\<lparr>cn_item := Some it\<rparr>)" "cn_control s' \<in> {Ready} \<union> range Settling"
    using install_item_ok [OF i] by auto
  then have "rt_ok (append_audio resamplers bytes it s')" by (rule append_audio_ok)
  with i show ?thesis by (simp add: on_append_start_def Inr)
qed


lemma rt_ok_control:
  assumes "cn_control s \<in> {Ready} \<union> range Settling" "c \<in> {Ready} \<union> range Settling"
  shows "rt_ok (s\<lparr>cn_control := c\<rparr>) = rt_ok s"
proof -
  have "attached (s\<lparr>cn_control := c\<rparr>) = attached s" "at_rest (s\<lparr>cn_control := c\<rparr>) = at_rest s"
    "collecting (s\<lparr>cn_control := c\<rparr>) = collecting s"
    by (rule attached_cong at_rest_cong collecting_cong; simp)+
  with assms show ?thesis by (auto simp: rt_ok_def)
qed

lemma finalize_ok:
  assumes "finalize it s = (it', s')" "cn_control s = Ready" "rt_ok (s\<lparr>cn_item := Some it\<rparr>)"
  shows "rt_ok (s'\<lparr>cn_item := Some it'\<rparr>)" "cn_control s' = Ready"
  using assms
  by (auto simp: finalize_def rt_ok_def collecting_def attached_def split: if_splits turn.splits worker.splits)

lemma rt_ok_marked: "rt_ok (s\<lparr>cn_item := Some (it\<lparr>it_done := d\<rparr>)\<rparr>) = rt_ok (s\<lparr>cn_item := Some it\<rparr>)"
  "rt_ok (s\<lparr>cn_item := Some (it\<lparr>it_decoder := e\<rparr>)\<rparr>) = rt_ok (s\<lparr>cn_item := Some it\<rparr>)"
  "rt_ok (s\<lparr>cn_item := Some (it\<lparr>it_decoder := e, it_done := d\<rparr>)\<rparr>) = rt_ok (s\<lparr>cn_item := Some it\<rparr>)"
  by (auto simp: rt_ok_def collecting_def at_rest_def attached_def split: control.splits worker.splits)

lemma on_commit_ok:
  assumes "rt_ok s" "cn_control s \<in> range Settling"
  shows "rt_ok (on_commit resamplers s)"
proof -
  let ?s = "s\<lparr>cn_control := Ready\<rparr>"
  from assms have ok: "rt_ok ?s" "cn_control ?s = Ready" by (simp_all add: rt_ok_control)
  show ?thesis
  proof (cases "cn_item s")
    case None
    with ok show ?thesis by (simp add: on_commit_def Let_def)
  next
    case (Some it)
    then have "?s\<lparr>cn_item := Some it\<rparr> = ?s" by simp
    with ok have item: "rt_ok (?s\<lparr>cn_item := Some it\<rparr>)" by simp
    obtain r decoder where d: "pcm_finish (resamplers (it_rate it)) (it_decoder it) = (r, decoder)"
      by (cases "pcm_finish (resamplers (it_rate it)) (it_decoder it)")
    show ?thesis
    proof (cases r)
      case (Inl e)
      with item show ?thesis by (simp add: on_commit_def Let_def Some d rt_ok_marked)
    next
      case (Inr pcm)
      obtain it1 s1 where 1: "feed pcm (it\<lparr>it_decoder := decoder\<rparr>) ?s = (it1, s1)"
        by (cases "feed pcm (it\<lparr>it_decoder := decoder\<rparr>) ?s")
      obtain it2 s2 where 2: "finalize it1 s1 = (it2, s2)" by (cases "finalize it1 s1")
      from item have "rt_ok (?s\<lparr>cn_item := Some (it\<lparr>it_decoder := decoder\<rparr>)\<rparr>)" by (simp only: rt_ok_marked)
      from feed_ok [OF 1 _ this] finalize_ok [OF 2] have "rt_ok (s2\<lparr>cn_item := Some it2\<rparr>)" by simp
      then have "rt_ok (s2\<lparr>cn_item := Some (it2\<lparr>it_done := True\<rparr>)\<rparr>)" by (simp only: rt_ok_marked)
      with 1 2 show ?thesis by (simp add: on_commit_def Let_def Some d Inr)
    qed
  qed
qed

lemma on_text_ok:
  assumes "rt_ok s" "cn_control s = Ready"
  shows "rt_ok (on_text base64 m s)"
proof -
  from assms have "rt_ok (s\<lparr>cn_control := Settling p\<rparr>)" for p by (simp add: rt_ok_control)
  moreover have "rt_ok (s\<lparr>cn_config := c\<rparr>) = rt_ok s" for c by (rule rt_ok_cong; simp)
  ultimately show ?thesis using assms by (auto simp: on_text_def Let_def split: option.split sum.split)
qed

lemma turn_step_ok:
  assumes "turn_step v s t" "rt_ok s"
  shows "rt_ok t"
  using assms(1)
proof cases
  case (Start bytes free jy queued spawned a r a' fresh)
  with assms(2) show ?thesis by (auto intro!: on_append_start_ok)
next
  case (Append bytes it)
  then have "s\<lparr>cn_item := Some it\<rparr> = s" by simp
  with assms(2) have "rt_ok (s\<lparr>cn_item := Some it\<rparr>)" by simp
  with Append show ?thesis by (auto intro!: append_audio_ok)
next
  case (Settle p u s1)
  then have "cn_item s \<noteq> None" by (auto simp: item_done_def split: option.splits)
  with Settle assms(2) show ?thesis by (auto intro!: rt_ok_on_update)
next
  case (Translated i opts pcm jy a r a')
  with assms(2) show ?thesis
    by (auto simp: rt_ok_def at_rest_def attached_def collecting_def split: control.splits if_splits)
qed (use assms(2) in \<open>auto simp: on_clear_def intro!: on_text_ok discard_item_ok rt_ok_on_update on_commit_ok discard_update_ok
      elim: worker_step_ok\<close>)

lemma lost_ok:
  assumes "rt_ok s"
  shows "rt_ok (lost s)"
  using assms
  by (auto simp: rt_ok_def lost_def at_rest_def attached_def collecting_def split: control.splits if_splits worker.splits)

lemma rt_reachable_ok: "rt_reachable v s \<Longrightarrow> rt_ok s"
proof (induction rule: rt_reachable.induct)
  case (Opened fresh m)
  show ?case by (simp add: conn_new_def Let_def rt_ok_def collecting_def at_rest_def)
next
  case (Stepped s t)
  from Stepped.hyps(2) Stepped.IH show ?case by cases (auto intro: turn_step_ok lost_ok)
qed

end
