(* ===== verification/Realtime_Texts.thy ===== *)
theory Realtime_Texts
  imports Realtime
begin

text \<open>
  What a client of the live connection reads: the deltas of an item, put together, are the committed text
  of every partial event and the transcript of the completed event, up to the trimmed blanks. The laws of
  the engine's stream are those the source states: committed text only grows, and after the end it is the
  whole text.
\<close>

subsection \<open>Reading the events\<close>

definition deltas :: "string \<Rightarrow> server_event list \<Rightarrow> string" where
  "deltas i evs = concat (map (\<lambda>ev. case ev of Delta j t \<Rightarrow> if j = i then t else [] | _ \<Rightarrow> []) evs)"

definition agrees :: "server_event list \<Rightarrow> server_event \<Rightarrow> bool" where
  "agrees evs ev =
     (case ev of Partial i c t n \<Rightarrow> c = deltas i evs | Completed i t \<Rightarrow> t = trim (deltas i evs) | _ \<Rightarrow> True)"

definition told :: "server_event list \<Rightarrow> bool" where
  "told evs \<longleftrightarrow> (\<forall>k < length evs. agrees (take k evs) (evs ! k))"

definition completed :: "string \<Rightarrow> server_event list \<Rightarrow> bool" where
  "completed i evs \<longleftrightarrow> list_ex (\<lambda>ev. case ev of Completed j t \<Rightarrow> j = i | _ \<Rightarrow> False) evs"

lemma deltas_simps [simp]:
  "deltas i [] = []" "deltas i (evs @ evs') = deltas i evs @ deltas i evs'"
  "deltas i (ev # evs) = (case ev of Delta j t \<Rightarrow> if j = i then t else [] | _ \<Rightarrow> []) @ deltas i evs"
  by (simp_all add: deltas_def)

lemma completed_simps [simp]:
  "\<not> completed i []" "completed i (evs @ evs') \<longleftrightarrow> completed i evs \<or> completed i evs'"
  "completed i (ev # evs) \<longleftrightarrow> (case ev of Completed j t \<Rightarrow> j = i | _ \<Rightarrow> False) \<or> completed i evs"
  by (simp_all add: completed_def)

lemma told_snoc [simp]: "told (evs @ [ev]) \<longleftrightarrow> told evs \<and> agrees evs ev"
  by (auto simp: told_def less_Suc_eq nth_append)

lemma told_snoc2 [simp]: "told (evs @ [ev, ev']) \<longleftrightarrow> told evs \<and> agrees evs ev \<and> agrees (evs @ [ev]) ev'"
  using told_snoc [of "evs @ [ev]" ev'] by (simp del: told_snoc) (simp add: told_snoc)

lemma told_Nil [simp]: "told []"
  by (simp add: told_def)

lemma fresh_item:
  assumes "Some i \<notin> event_item ` set evs"
  shows "deltas i evs = []" "\<not> completed i evs"
  using assms by (induction evs) (auto simp: deltas_def completed_def split: server_event.splits)

text \<open>The reports of a run: each text extends the one before, and the end repeats the last.\<close>

fun faithful :: "string \<Rightarrow> update list \<Rightarrow> bool" where
  "faithful c [] = True"
| "faithful c (Partial_text c' t n # us) = (prefix c c' \<and> faithful c' us)"
| "faithful c (Completed_text t # us) = (t = trim c \<and> faithful c us)"
| "faithful c (_ # us) = faithful c us"

fun last_text :: "string \<Rightarrow> update list \<Rightarrow> string" where
  "last_text c [] = c"
| "last_text c (Partial_text c' t n # us) = last_text c' us"
| "last_text c (_ # us) = last_text c us"

lemma faithful_append: "faithful c (us @ vs) \<longleftrightarrow> faithful c us \<and> faithful (last_text c us) vs"
  by (induction c us rule: faithful.induct) auto

lemma last_text_append [simp]: "last_text c (us @ vs) = last_text (last_text c us) vs"
  by (induction c us rule: last_text.induct) auto

lemma trim_end_split: "\<exists>b. s = trim_end s @ b"
proof -
  have "rev s = takeWhile is_ws (rev s) @ dropWhile is_ws (rev s)" by simp
  then have "s = rev (dropWhile is_ws (rev s)) @ rev (takeWhile is_ws (rev s))"
    by (metis rev_append rev_rev_ident)
  then show ?thesis unfolding trim_end_def by blast
qed

lemma trim_end_idem [simp]: "trim_end (trim_end s) = trim_end s"
  by (simp add: trim_end_def)

lemma trim_idem [simp]: "trim (trim s) = trim s"
proof (cases "trim s = []")
  case False
  obtain b where b: "trim_start s = trim s @ b" using trim_end_split [of "trim_start s"] by (auto simp: trim_def)
  with False have "trim_start s \<noteq> []" "hd (trim_start s) = hd (trim s)" by auto
  then have "\<not> is_ws (hd (trim s))" using hd_dropWhile [of is_ws s] by (auto simp: trim_start_def)
  with False have "trim_start (trim s) = trim s" by (cases "trim s") (auto simp: trim_start_def)
  then have "trim (trim s) = trim_end (trim s)" by (simp add: trim_def)
  also have "\<dots> = trim s" by (simp add: trim_def)
  finally show ?thesis .
qed (simp add: trim_Nil)

lemma translate_pcm_trimmed:
  assumes "translate_pcm eg run jy i opts pcm a = Some (Inr t, a')"
  shows "trim t = t"
  using assms
  by (auto simp: translate_pcm_def Let_def trim_Nil map_sum_def split: if_splits option.splits sum.splits)

subsection \<open>The texts of the item in flight\<close>

text \<open>
  What the worker still has to report agrees with what has been sent; while it runs no end of its item has
  been announced.
\<close>

definition item_told :: "'st live_engine \<Rightarrow> ('r, 'st) conn \<Rightarrow> 'r item \<Rightarrow> bool" where
  "item_told le s it \<longleftrightarrow>
     it_committed it = deltas (it_id it) (cn_out s) \<and>
     (case cn_worker s of
        No_worker \<Rightarrow> faithful (it_committed it) (ch_updates s) \<and>
          (collecting s \<longrightarrow> it_committed it = [] \<and> \<not> completed (it_id it) (cn_out s))
      | Streaming st \<Rightarrow> faithful (it_committed it) (ch_updates s) \<and>
          prefix (last_text (it_committed it) (ch_updates s)) (le_committed le st) \<and> \<not> completed (it_id it) (cn_out s)
      | Outcome us \<Rightarrow> faithful (it_committed it) (ch_updates s @ us) \<and> \<not> completed (it_id it) (cn_out s)
      | Announcing us \<Rightarrow> faithful (it_committed it) (ch_updates s @ us)
      | _ \<Rightarrow> it_committed it = [] \<and> ch_updates s = [] \<and> \<not> completed (it_id it) (cn_out s))"

definition rt_told :: "'st live_engine \<Rightarrow> ('r, 'st) conn \<Rightarrow> bool" where
  "rt_told le s \<longleftrightarrow> told (cn_out s) \<and> (case cn_item s of Some it \<Rightarrow> item_told le s it | None \<Rightarrow> True)"

text \<open>The laws of the engine's stream.\<close>

definition grows :: "'st live_engine \<Rightarrow> bool" where
  "grows le \<longleftrightarrow>
     (\<forall>st pcm st' b n. le_feed le st pcm = Inr (st', b, n) \<longrightarrow> prefix (le_committed le st) (le_committed le st')) \<and>
     (\<forall>st st' n. le_finalize le st = Inr (st', n) \<longrightarrow>
        prefix (le_committed le st) (le_display le st') \<and> trim (le_full le st') = trim (le_display le st'))"

lemma item_told_cong:
  assumes "cn_worker s = cn_worker s'" "ch_updates s = ch_updates s'" "collecting s = collecting s'"
    "it_committed it = it_committed it'" "it_id it = it_id it'"
    "deltas (it_id it') (cn_out s) = deltas (it_id it') (cn_out s')"
    "completed (it_id it') (cn_out s) = completed (it_id it') (cn_out s')"
  shows "item_told le s it = item_told le s' it'"
  using assms by (simp add: item_told_def split: worker.split)

text \<open>Events that carry no text of an item.\<close>

fun textless :: "server_event \<Rightarrow> bool" where
  "textless (Delta i t) = False"
| "textless (Partial i c t n) = False"
| "textless (Completed i t) = False"
| "textless ev = True"

lemma textless_events:
  assumes "textless ev"
  shows "deltas i (evs @ [ev]) = deltas i evs" "completed i (evs @ [ev]) = completed i evs" "told (evs @ [ev]) = told evs"
  using assms by (cases ev; simp add: agrees_def)+

lemma rt_told_send: "textless ev \<Longrightarrow> rt_told le (send ev s) = rt_told le s"
proof -
  assume ev: "textless ev"
  then have "item_told le (send ev s) it = item_told le s it" for it
    by (intro item_told_cong) (simp_all only: send_fields collecting_send textless_events)
  with ev show ?thesis by (simp only: rt_told_def send_fields textless_events)
qed

lemma rt_told_send_error [simp]: "rt_told le (send_error e s) = rt_told le s"
  by (simp add: send_error_def rt_told_send)

lemma rt_told_cong:
  assumes "cn_item s = cn_item s'" "cn_worker s = cn_worker s'" "ch_updates s = ch_updates s'" "cn_out s = cn_out s'"
  shows "rt_told le s = rt_told le s'"
proof -
  have "collecting s = collecting s'" by (rule collecting_cong) (fact assms)
  then have "item_told le s it = item_told le s' it" for it by (intro item_told_cong; simp add: assms)
  then show ?thesis by (simp add: rt_told_def assms split: option.split)
qed


text \<open>The worker.\<close>

lemma run_stream_told:
  assumes "run_stream_step le st s = Some t" "cn_worker s = Streaming st" "item_told le s it" "grows le"
  shows "item_told le t it"
proof -
  have fed: "prefix (le_committed le st) (le_committed le st')" if "le_feed le st pcm = Inr (st', b, n)" for pcm st' b n
    using assms(4) that unfolding grows_def by blast
  have ended: "prefix (le_committed le st) (le_display le st') \<and> trim (le_full le st') = trim (le_display le st')"
    if "le_finalize le st = Inr (st', n)" for st' n
    using assms(4) that unfolding grows_def by blast
  from assms(3) have told: "it_committed it = deltas (it_id it) (cn_out s)" "faithful (it_committed it) (ch_updates s)"
    "prefix (last_text (it_committed it) (ch_updates s)) (le_committed le st)" "\<not> completed (it_id it) (cn_out s)"
    unfolding item_told_def assms(2) worker.case by blast+
  show ?thesis
  proof (cases "ch_commands s")
    case Nil
    with assms(1) told show ?thesis
      by (auto simp: run_stream_step_def item_told_def announce_stream_def faithful_append split: if_splits)
  next
    case (Cons x cs)
    show ?thesis
    proof (cases x)
      case (Feed pcm)
      with assms(1) Cons told show ?thesis
        by (auto simp: run_stream_step_def item_told_def announce_stream_def faithful_append
            dest!: fed intro: prefix_order.trans split: sum.splits)
    next
      case Finalize
      with assms(1) Cons told show ?thesis
        by (auto simp: run_stream_step_def item_told_def announce_stream_def faithful_append
            dest!: ended intro: prefix_order.trans split: sum.splits)
    qed
  qed
qed

lemma worker_step_told:
  assumes "worker_step le s = Some t" "rt_told le s" "rt_ok s" "grows le"
  shows "rt_told le t"
proof (cases "cn_item s")
  case None
  with assms worker_step_fields [OF assms(1)] show ?thesis by (simp add: rt_told_def)
next
  case (Some it)
  note f = worker_step_fields [OF assms(1)]
  from assms(3) f(7) Some have idle: "\<not> collecting s" by (auto simp: rt_ok_def split: control.splits if_splits)
  have collects: "collecting t = collecting s" by (rule collecting_cong) (fact f)
  from assms(2) Some have it: "item_told le s it" by (simp add: rt_told_def)
  have "item_told le t it"
  proof (cases "cn_worker s")
    case (Streaming st)
    with assms it run_stream_told show ?thesis by (fastforce simp: worker_step_def)
  next
    case (Announcing us)
    with assms(1) it idle collects show ?thesis
      by (cases us) (auto simp: worker_step_def item_told_def)
  qed (use assms(1) it in \<open>auto simp: worker_step_def item_told_def announce_stream_def split: sum.splits\<close>)
  with Some assms(2) f show ?thesis by (simp add: rt_told_def)
qed

lemma translated_told:
  assumes "cn_worker s = Translating i opts pcm" "translate_pcm eg run jy i opts pcm a = Some (r, a')" "rt_told le s"
  shows "rt_told le (s\<lparr>cn_worker := Outcome (announce_turn r)\<rparr>)"
proof -
  have "faithful [] (announce_turn r)"
    using assms(2) translate_pcm_trimmed by (cases r) (auto simp: announce_turn_def trim_Nil)
  with assms(1,3) show ?thesis by (auto simp: rt_told_def item_told_def split: option.split)
qed

text \<open>An update read from the channel and passed on.\<close>

lemma on_update_partial:
  assumes "cn_item s = Some it" "c = it_committed it @ d"
  shows "on_update (Some (Partial_text c t n)) s =
     send (Partial (it_id it) c t n) ((if d = [] then id else send (Delta (it_id it) d)) (s\<lparr>cn_item := Some (it\<lparr>it_committed := c\<rparr>)\<rparr>))"
proof -
  have "strip_prefix (it_committed it) c = Some d" using assms(2) by (simp add: strip_prefix_Some)
  with assms(1) show ?thesis by (simp add: on_update_def delta_since_def Let_def)
qed

lemma item_told_partial:
  assumes "item_told le s it" "ch_updates s = Partial_text c t n # us" "\<not> collecting s" "cn_item s = Some it"
  obtains d where "c = it_committed it @ d"
    "item_told le (s\<lparr>ch_updates := us, cn_item := Some (it\<lparr>it_committed := c\<rparr>), cn_out := cn_out s @ (if d = [] then [] else [Delta (it_id it) d])\<rparr>)
       (it\<lparr>it_committed := c\<rparr>)"
proof -
  from assms(1,2) have "prefix (it_committed it) c" by (auto simp: item_told_def split: worker.splits)
  then obtain d where d: "c = it_committed it @ d" by (auto elim: prefixE)
  with assms show thesis
    by (intro that [of d]) (auto simp: item_told_def collecting_def split: worker.splits)
qed

lemma on_update_told:
  assumes "rt_told le s" "rt_ok s" "next_update s = Some (u, s1)" "cn_item s = Some it" "\<And>x. cn_control s \<noteq> Discarding x"
    "cn_control s \<noteq> Closed_down"
  shows "rt_told le (on_update u s1)"
  using assms(3)
proof (cases rule: next_update_cases)
  case gone
  with assms show ?thesis by (auto simp: on_update_def rt_told_def)
next
  case (message x us)
  from assms(2,4-6) message have a: "attached s" "\<not> collecting s" by (auto simp: rt_ok_def split: control.splits if_splits)
  from assms(1,4) have it: "item_told le s it" and told: "told (cn_out s)" by (simp_all add: rt_told_def)
  show ?thesis
  proof (cases x)
    case (Partial_text c t n)
    with it message a(2) assms(4) obtain d where d: "c = it_committed it @ d"
      "item_told le (s\<lparr>ch_updates := us, cn_item := Some (it\<lparr>it_committed := c\<rparr>), cn_out := cn_out s @ (if d = [] then [] else [Delta (it_id it) d])\<rparr>)
         (it\<lparr>it_committed := c\<rparr>)" (is "item_told le ?s ?it")
      by (rule_tac item_told_partial) auto
    from d(2) have c: "c = deltas (it_id it) (cn_out ?s)" by (simp add: item_told_def)
    have "on_update u s1 = send (Partial (it_id it) c t n) ?s"
      unfolding message Partial_text by (subst on_update_partial [OF _ d(1)]) (simp_all add: assms(4) send_def)
    moreover have "item_told le (send (Partial (it_id it) c t n) ?s) ?it = item_told le ?s ?it"
      by (rule item_told_cong) simp_all
    moreover have "told (cn_out ?s @ [Partial (it_id it) c t n])"
      using told c by (auto simp: agrees_def)
    ultimately show ?thesis using d(2) by (simp add: rt_told_def)
  next
    case (Completed_text t)
    from it message Completed_text have t: "t = trim (deltas (it_id it) (cn_out s))"
      by (auto simp: item_told_def split: worker.splits)
    have "on_update u s1 = send (Completed (it_id it) t) (s\<lparr>ch_updates := us, cn_previous := Some (it_id it)\<rparr>)"
      by (simp add: on_update_def message Completed_text assms(4))
    moreover from a it message Completed_text
    have "item_told le (send (Completed (it_id it) t) (s\<lparr>ch_updates := us, cn_previous := Some (it_id it)\<rparr>)) it"
      by (auto simp: item_told_def attached_def collecting_def split: worker.splits)
    ultimately show ?thesis using told t assms(4) by (simp add: rt_told_def agrees_def)
  next
    case (Failed_run e)
    from it message Failed_run a(2) have "item_told le s1 it"
      by (auto simp: item_told_def collecting_def split: worker.splits)
    with told assms(4) have "rt_told le s1" by (simp add: rt_told_def message)
    moreover have "on_update u s1 = send_error e s1" by (simp add: on_update_def message Failed_run assms(4))
    ultimately show ?thesis by simp
  next
    case Ended
    with told show ?thesis by (simp add: on_update_def message assms(4) rt_told_def)
  qed
qed


text \<open>The task's own steps.\<close>

lemma rt_told_item:
  "rt_told le (s\<lparr>cn_item := Some it\<rparr>) \<longleftrightarrow> told (cn_out s) \<and> item_told le (s\<lparr>cn_item := Some it\<rparr>) it"
  by (simp add: rt_told_def)

lemma rt_told_swap:
  assumes "rt_told le (s\<lparr>cn_item := Some it\<rparr>)" "it_id it' = it_id it" "it_committed it' = it_committed it"
    "collecting (s'\<lparr>cn_item := Some it'\<rparr>) = collecting (s\<lparr>cn_item := Some it\<rparr>)"
    "cn_worker s' = cn_worker s" "ch_updates s' = ch_updates s" "cn_out s' = cn_out s"
  shows "rt_told le (s'\<lparr>cn_item := Some it'\<rparr>)"
proof -
  have "item_told le (s'\<lparr>cn_item := Some it'\<rparr>) it' = item_told le (s\<lparr>cn_item := Some it\<rparr>) it"
    by (rule item_told_cong) (simp_all add: assms)
  with assms(1,7) show ?thesis by (simp add: rt_told_item)
qed

lemma feed_told:
  assumes "feed pcm it s = (it', s')" "rt_told le (s\<lparr>cn_item := Some it\<rparr>)"
  shows "rt_told le (s'\<lparr>cn_item := Some it'\<rparr>)"
  by (rule rt_told_swap [OF assms(2)])
    (use assms(1) in \<open>auto simp: feed_def collecting_def split: if_splits turn.splits\<close>)

lemma finalize_told:
  assumes "finalize it s = (it', s')" "rt_told le (s\<lparr>cn_item := Some it\<rparr>)" "rt_ok (s\<lparr>cn_item := Some it\<rparr>)"
    "cn_control s = Ready"
  shows "rt_told le (s'\<lparr>cn_item := Some it'\<rparr>)"
proof (cases "collecting (s\<lparr>cn_item := Some it\<rparr>)")
  case True
  then obtain i opts p where "it_turn it = Buffer_turn i opts p" by (auto simp: collecting_iff)
  with assms True show ?thesis
    by (auto simp: finalize_def rt_told_item item_told_def rt_ok_def)
next
  case False
  show ?thesis
    by (rule rt_told_swap [OF assms(2)])
      (use assms(1) False in \<open>auto simp: finalize_def collecting_def split: turn.splits\<close>)
qed

lemma rt_told_control: "rt_told le (s\<lparr>cn_control := c\<rparr>) = rt_told le s"
  by (rule rt_told_cong) simp_all

lemma rt_told_none: "told (cn_out s) \<Longrightarrow> cn_item s = None \<Longrightarrow> rt_told le s"
  by (simp add: rt_told_def)

lemma append_audio_told:
  assumes "rt_told le (s\<lparr>cn_item := Some it\<rparr>)"
  shows "rt_told le (append_audio resamplers bytes it s)"
proof (cases "pcm_push (resamplers (it_rate it)) (it_decoder it) bytes")
  case (Pair r decoder)
  let ?it = "it\<lparr>it_decoder := decoder\<rparr>" and ?s = "s\<lparr>cn_control := Ready\<rparr>"
  have item: "rt_told le (?s\<lparr>cn_item := Some ?it\<rparr>)"
    by (rule rt_told_swap [OF assms]) (simp_all add: collecting_def)
  show ?thesis
  proof (cases r)
    case (Inr pcm)
    obtain it' s' where f: "feed pcm ?it ?s = (it', s')" by (cases "feed pcm ?it ?s")
    from feed_told [OF f item] f show ?thesis by (simp add: append_audio_def Pair Inr Let_def)
  next
    case (Inl e)
    with item show ?thesis by (simp add: append_audio_def Pair Let_def)
  qed
qed

lemma proceed_told: "told (cn_out s) \<Longrightarrow> cn_item s = None \<Longrightarrow> rt_told le (proceed x s)"
  by (auto simp: proceed_def rt_told_send rt_told_control intro: rt_told_none split: after.split)

lemma discard_item_told: "rt_told le s \<Longrightarrow> rt_told le (discard_item x s)"
  by (auto simp: discard_item_def rt_told_def [of le s] intro: proceed_told rt_told_none split: option.splits turn.splits)

lemma discard_update_told:
  assumes "next_update s = Some (u, s1)" "rt_told le s" "cn_item s = None"
  shows "rt_told le (discard_update x u s1)"
proof -
  from assms have "told (cn_out s)" by (simp add: rt_told_def)
  with assms(1,3) show ?thesis
    by (cases rule: next_update_cases)
      (auto simp: discard_update_def intro: proceed_told rt_told_none split: option.split update.split)
qed

lemma on_append_start_told:
  assumes "rt_told le s" "cn_item s = None" "Some (''item_'' @ fresh) \<notin> event_item ` set (cn_out s)"
  shows "rt_told le (on_append_start resamplers fresh bytes r s)"
proof (cases r)
  case (Inl e)
  have "rt_told le (discard_item After_close (send_error e s))" "rt_told le ((send_error e s)\<lparr>cn_control := Ready\<rparr>)"
    using assms(1) by (simp_all add: discard_item_told rt_told_control)
  then show ?thesis by (simp add: on_append_start_def Inl Let_def)
next
  case (Inr st)
  obtain it s' where i: "install_item fresh (sc_sample_rate (cn_config s)) st s = (it, s')"
    by (cases "install_item fresh (sc_sample_rate (cn_config s)) st s")
  note fresh = fresh_item [OF assms(3)]
  from i have "it_id it = ''item_'' @ fresh" "it_committed it = []" "cn_item s' = Some it" "cn_out s' = cn_out s"
    "ch_updates s' = []" "cn_worker s' = (if st_buffered st then No_worker else Beginning (st_model st) (st_run st))"
    by (auto simp: install_item_def Let_def)
  with assms(1) fresh have "rt_told le s'" by (cases "st_buffered st") (auto simp: rt_told_def item_told_def)
  moreover have "s'\<lparr>cn_item := Some it\<rparr> = s'" using \<open>cn_item s' = Some it\<close> by simp
  ultimately have "rt_told le (s'\<lparr>cn_item := Some it\<rparr>)" by simp
  then have "rt_told le (append_audio resamplers bytes it s')" by (rule append_audio_told)
  with i show ?thesis by (simp add: on_append_start_def Inr)
qed

lemma on_commit_told:
  assumes "rt_told le s" "rt_ok s" "cn_control s \<in> range Settling"
  shows "rt_told le (on_commit resamplers s)"
proof -
  let ?s = "s\<lparr>cn_control := Ready\<rparr>"
  from assms have ok: "rt_ok ?s" "rt_told le ?s" by (simp_all add: rt_ok_control rt_told_control)
  show ?thesis
  proof (cases "cn_item s")
    case None
    with ok show ?thesis by (simp add: on_commit_def Let_def)
  next
    case (Some it)
    then have s: "?s\<lparr>cn_item := Some it\<rparr> = ?s" by simp
    obtain r decoder where d: "pcm_finish (resamplers (it_rate it)) (it_decoder it) = (r, decoder)"
      by (cases "pcm_finish (resamplers (it_rate it)) (it_decoder it)")
    let ?it = "it\<lparr>it_decoder := decoder\<rparr>"
    have base: "rt_told le (?s\<lparr>cn_item := Some it\<rparr>)" using ok(2) s by (simp only:)
    have item: "rt_told le (?s\<lparr>cn_item := Some ?it\<rparr>)" "rt_told le (?s\<lparr>cn_item := Some (?it\<lparr>it_done := True\<rparr>)\<rparr>)"
      by (rule rt_told_swap [OF base]; simp add: collecting_def)+
    have item_ok: "rt_ok (?s\<lparr>cn_item := Some ?it\<rparr>)" using ok(1) s by (simp only: rt_ok_marked)
    show ?thesis
    proof (cases r)
      case (Inl e)
      with item(2) show ?thesis by (simp add: on_commit_def Let_def Some d)
    next
      case (Inr pcm)
      obtain it1 s1 where 1: "feed pcm ?it ?s = (it1, s1)" by (cases "feed pcm ?it ?s")
      obtain it2 s2 where 2: "finalize it1 s1 = (it2, s2)" by (cases "finalize it1 s1")
      have "cn_control ?s = Ready" by simp
      note f = feed_ok [OF 1 this item_ok]
      have 3: "rt_told le (s2\<lparr>cn_item := Some it2\<rparr>)"
        by (rule finalize_told [OF 2 feed_told [OF 1 item(1)] f(1,2)])
      have "rt_told le (s2\<lparr>cn_item := Some (it2\<lparr>it_done := True\<rparr>)\<rparr>)"
        by (rule rt_told_swap [OF 3]) (simp_all add: collecting_def)
      with 1 2 show ?thesis by (simp add: on_commit_def Let_def Some d Inr rt_told_send)
    qed
  qed
qed

lemma on_text_told: "rt_told le s \<Longrightarrow> rt_told le (on_text base64 m s)"
proof -
  assume "rt_told le s"
  moreover have "rt_told le (s\<lparr>cn_config := c\<rparr>) = rt_told le s" for c by (rule rt_told_cong) simp_all
  ultimately show ?thesis
    by (auto simp: on_text_def Let_def rt_told_send rt_told_control split: option.split sum.split)
qed

lemma turn_step_told:
  assumes "turn_step v s t" "rt_told (lv_stream v) s" "rt_ok s" "grows (lv_stream v)"
  shows "rt_told (lv_stream v) t"
  using assms(1)
proof cases
  case (Update u s1)
  with assms(2,3) show ?thesis by (auto intro: on_update_told)
next
  case (Settle p u s1)
  then obtain it where "cn_item s = Some it" by (auto simp: item_done_def split: option.splits)
  with Settle assms(2,3) show ?thesis by (auto intro: on_update_told)
next
  case (Append bytes it)
  then have "s\<lparr>cn_item := Some it\<rparr> = s" by simp
  with assms(2) have "rt_told (lv_stream v) (s\<lparr>cn_item := Some it\<rparr>)" by simp
  with Append show ?thesis by (auto intro!: append_audio_told)
next
  case (Discard x u s1)
  with assms(2,3) show ?thesis by (auto simp: rt_ok_def intro: discard_update_told)
qed (use assms(2-4) in \<open>auto simp: on_clear_def intro: on_text_told discard_item_told on_commit_told on_append_start_told
      worker_step_told translated_told\<close>)

lemma lost_told: "rt_told le s \<Longrightarrow> rt_told le (lost s)"
  by (simp add: rt_told_def lost_def)

lemma rt_reachable_told: "rt_reachable v s \<Longrightarrow> grows (lv_stream v) \<Longrightarrow> rt_told (lv_stream v) s"
proof (induction rule: rt_reachable.induct)
  case (Opened fresh m)
  have "told [Session_created c]" for c by (simp add: told_def agrees_def)
  then show ?case by (simp add: conn_new_def Let_def rt_told_def)
next
  case (Stepped s t)
  note ok = rt_reachable_ok [OF Stepped.hyps(1)]
  from Stepped.hyps(2) show ?case
    by cases (use Stepped.IH Stepped.prems ok in \<open>auto intro: turn_step_told lost_told\<close>)
qed

end
