(* ===== verification/Realtime_Settle.thy ===== *)
theory Realtime_Settle
  imports Realtime
begin

text \<open>
  The end of a committed item of the live connection. While the task waits for it, every step uses up part
  of what is left to do, and, when the conversion of the last samples cannot fail, a step is left to do until
  the end is read.
\<close>

subsection \<open>What is left to do\<close>

definition worker_left :: "'st worker \<Rightarrow> nat" where
  "worker_left w =
     (case w of
        No_worker \<Rightarrow> 0
      | Beginning m opts \<Rightarrow> 11
      | Streaming st \<Rightarrow> 10
      | Translating i opts pcm \<Rightarrow> 12
      | Outcome us \<Rightarrow> 2 * length us + 1
      | Announcing us \<Rightarrow> 2 * length us)"

definition backlog :: "('r, 'st) conn \<Rightarrow> nat" where
  "backlog s = length (ch_updates s) + 2 * length (ch_commands s) + worker_left (cn_worker s)"

lemma announced_length: "length (announce_stream r) \<le> 2" "length (announce_turn r') \<le> 3"
  by (auto simp: announce_stream_def announce_turn_def split: sum.split option.split)

lemma worker_step_backlog:
  assumes "worker_step le s = Some t"
  shows "backlog t < backlog s"
proof -
  have shorter: "2 * length (announce_stream r) < 9" for r using announced_length(1) [of r] by simp
  show ?thesis using assms
    by (auto simp: worker_step_def run_stream_step_def backlog_def worker_left_def shorter announce_stream_def
        split: worker.splits list.splits cmd.splits sum.splits if_splits)
qed

lemma translated_backlog:
  assumes "cn_worker s = Translating i opts pcm"
  shows "backlog (s\<lparr>cn_worker := Outcome (announce_turn r)\<rparr>) < backlog s"
  using assms announced_length(2) [of r] by (simp add: backlog_def worker_left_def)

subsection \<open>The command that ends a committed item\<close>

definition in_stream :: "('r, 'st) conn \<Rightarrow> bool" where
  "in_stream s \<longleftrightarrow> (case cn_worker s of Beginning m opts \<Rightarrow> True | Streaming st \<Rightarrow> True | _ \<Rightarrow> False)"

definition rt_final :: "('r, 'st) conn \<Rightarrow> bool" where
  "rt_final s \<longleftrightarrow>
     (case cn_item s of
        None \<Rightarrow> True
      | Some it \<Rightarrow> (in_stream s \<longrightarrow> it_turn it = Stream_turn) \<and>
          (it_done it \<longrightarrow> \<not> collecting s \<and> (in_stream s \<longrightarrow> Finalize \<in> set (ch_commands s))))"

definition finish_succeeds :: "('r, 'st) live \<Rightarrow> bool" where
  "finish_succeeds v \<longleftrightarrow> (\<forall>rate decoder. \<exists>pcm decoder'. pcm_finish (lv_resamplers v rate) decoder = (Inr pcm, decoder'))"

lemma rt_final_cong:
  assumes "cn_item s = cn_item s'" "cn_worker s = cn_worker s'" "ch_commands s = ch_commands s'"
  shows "rt_final s = rt_final s'"
proof -
  have "collecting s = collecting s'" by (rule collecting_cong) (fact assms)
  moreover have "in_stream s = in_stream s'" by (simp add: in_stream_def assms)
  ultimately show ?thesis by (simp add: rt_final_def assms split: option.split)
qed

lemma rt_final_send [simp]: "rt_final (send ev s) = rt_final s" "rt_final (send_error e s) = rt_final s"
  unfolding send_error_def by (rule rt_final_cong; simp)+

lemma rt_final_none: "cn_item s = None \<Longrightarrow> rt_final s"
  by (simp add: rt_final_def)

lemma rt_final_control: "rt_final (s\<lparr>cn_control := c\<rparr>) = rt_final s"
  by (rule rt_final_cong) simp_all

lemma worker_step_final:
  assumes "worker_step le s = Some t" "rt_final s"
  shows "rt_final t"
proof -
  note f = worker_step_fields [OF assms(1)]
  have "collecting t = collecting s" by (rule collecting_cong) (fact f)
  moreover have "in_stream t \<longrightarrow> in_stream s \<and> (Finalize \<in> set (ch_commands s) \<longrightarrow> Finalize \<in> set (ch_commands t))"
    using assms(1)
    by (auto simp: in_stream_def worker_step_def run_stream_step_def
        split: worker.splits list.splits cmd.splits sum.splits if_splits)
  ultimately show ?thesis using assms(2) f by (auto simp: rt_final_def split: option.splits)
qed

lemma on_update_final:
  assumes "next_update s = Some (u, s1)" "rt_final s"
  shows "rt_final (on_update u s1)"
proof -
  have s1: "cn_item s1 = cn_item s" "cn_worker s1 = cn_worker s" "ch_commands s1 = ch_commands s"
    using assms(1) by (auto elim: next_update_cases)
  have same: "in_stream (on_update u s1) = in_stream s" by (simp add: in_stream_def s1)
  show ?thesis
  proof (cases "cn_item (on_update u s1)")
    case (Some it)
    then obtain it0 where it: "cn_item s = Some it0" "it_turn it = it_turn it0" "it_done it = it_done it0"
      by (auto simp: on_update_item s1 split: option.splits if_splits update.splits)
    with Some have "collecting (on_update u s1) = collecting s" by (simp add: collecting_def)
    with assms(2) Some it same show ?thesis by (simp add: rt_final_def s1)
  qed (simp add: rt_final_def)
qed

lemma discard_item_final: "rt_final s \<Longrightarrow> rt_final (discard_item x s)"
  by (auto simp: discard_item_def proceed_def rt_final_control intro: rt_final_none
      split: option.splits turn.splits after.splits)

lemma discard_update_final:
  assumes "next_update s = Some (u, s1)" "cn_item s = None"
  shows "rt_final (discard_update x u s1)"
  using assms
  by (cases rule: next_update_cases)
    (auto simp: discard_update_def proceed_def intro!: rt_final_none split: option.split update.split after.split)

lemma feed_final:
  assumes "feed pcm it s = (it', s')"
  shows "it_done it' = it_done it" "cn_worker s' = cn_worker s" "cn_item s' = cn_item s"
    "(it_turn it' = Stream_turn) = (it_turn it = Stream_turn)"
    "Finalize \<in> set (ch_commands s) \<Longrightarrow> Finalize \<in> set (ch_commands s')"
    "collecting (s'\<lparr>cn_item := Some it'\<rparr>) = collecting (s\<lparr>cn_item := Some it\<rparr>)"
  using assms by (auto simp: feed_def collecting_def split: if_splits turn.splits)

lemma append_audio_final:
  assumes "rt_final s" "cn_item s = Some it" "\<not> it_done it"
  shows "rt_final (append_audio resamplers bytes it s)"
proof (cases "pcm_push (resamplers (it_rate it)) (it_decoder it) bytes")
  case (Pair r decoder)
  let ?it = "it\<lparr>it_decoder := decoder\<rparr>" and ?s = "s\<lparr>cn_control := Ready\<rparr>"
  from assms have turn: "in_stream s \<longrightarrow> it_turn it = Stream_turn" by (simp add: rt_final_def)
  show ?thesis
  proof (cases r)
    case (Inr pcm)
    obtain it' s' where f: "feed pcm ?it ?s = (it', s')" by (cases "feed pcm ?it ?s")
    note g = feed_final [OF f]
    from turn assms g have "rt_final (s'\<lparr>cn_item := Some it'\<rparr>)" by (simp add: rt_final_def in_stream_def)
    with f show ?thesis by (simp add: append_audio_def Pair Inr Let_def)
  next
    case (Inl e)
    from turn assms have "rt_final (?s\<lparr>cn_item := Some ?it\<rparr>)" by (simp add: rt_final_def in_stream_def)
    with Inl show ?thesis by (simp add: append_audio_def Pair Let_def)
  qed
qed

lemma on_append_start_final:
  assumes "rt_final s" "cn_item s = None"
  shows "rt_final (on_append_start resamplers fresh bytes r s)"
proof (cases r)
  case (Inl e)
  have "rt_final (discard_item After_close (send_error e s))" "rt_final ((send_error e s)\<lparr>cn_control := Ready\<rparr>)"
    using assms(1) by (simp_all add: discard_item_final rt_final_control)
  then show ?thesis by (simp add: on_append_start_def Inl Let_def)
next
  case (Inr st)
  obtain it s' where i: "install_item fresh (sc_sample_rate (cn_config s)) st s = (it, s')"
    by (cases "install_item fresh (sc_sample_rate (cn_config s)) st s")
  then have "cn_item s' = Some it" "\<not> it_done it" "rt_final s'"
    by (cases "st_buffered st"; auto simp: install_item_def Let_def rt_final_def in_stream_def)+
  then have "rt_final (append_audio resamplers bytes it s')" by (intro append_audio_final)
  with i show ?thesis by (simp add: on_append_start_def Inr)
qed

lemma on_commit_final:
  assumes "rt_final s" "finish_succeeds v" "\<not> item_done s"
  shows "rt_final (on_commit (lv_resamplers v) s)"
proof (cases "cn_item s")
  case None
  then show ?thesis by (simp add: on_commit_def Let_def rt_final_none)
next
  case (Some it)
  let ?s = "s\<lparr>cn_control := Ready\<rparr>"
  obtain pcm decoder where d: "pcm_finish (lv_resamplers v (it_rate it)) (it_decoder it) = (Inr pcm, decoder)"
    using assms(2) unfolding finish_succeeds_def by blast
  let ?it = "it\<lparr>it_decoder := decoder\<rparr>"
  obtain it1 s1 where 1: "feed pcm ?it ?s = (it1, s1)" by (cases "feed pcm ?it ?s")
  obtain it2 s2 where 2: "finalize it1 s1 = (it2, s2)" by (cases "finalize it1 s1")
  note f = feed_final [OF 1]
  from assms(1) Some f have turn: "in_stream s1 \<longrightarrow> it_turn it1 = Stream_turn" by (auto simp: rt_final_def in_stream_def)
  from 2 turn have "(in_stream s2 \<longrightarrow> it_turn it2 = Stream_turn \<and> Finalize \<in> set (ch_commands s2)) \<and>
      \<not> collecting (s2\<lparr>cn_item := Some it2\<rparr>)"
    by (auto simp: finalize_def in_stream_def collecting_def split: turn.splits)
  then have "rt_final (s2\<lparr>cn_item := Some (it2\<lparr>it_done := True\<rparr>)\<rparr>)"
    by (simp add: rt_final_def in_stream_def collecting_def)
  with 1 2 show ?thesis by (simp add: on_commit_def Let_def Some d)
qed

lemma on_text_final: "rt_final s \<Longrightarrow> rt_final (on_text base64 m s)"
proof -
  assume "rt_final s"
  moreover have "rt_final (s\<lparr>cn_config := c\<rparr>) = rt_final s" for c by (rule rt_final_cong) simp_all
  ultimately show ?thesis
    by (auto simp: on_text_def Let_def rt_final_control split: option.split sum.split)
qed

lemma turn_step_final:
  assumes "turn_step v s t" "rt_final s" "finish_succeeds v" "rt_ok s"
  shows "rt_final t"
  using assms(1)
proof cases
  case (Translated i opts pcm jy a r a')
  with assms(2) show ?thesis by (auto simp: rt_final_def in_stream_def collecting_def split: option.splits)
next
  case (Discard x u s1)
  with assms(4) show ?thesis by (auto simp: rt_ok_def intro: discard_update_final)
qed (use assms(2,3) in \<open>auto simp: on_clear_def intro: on_text_final discard_item_final on_commit_final
      on_append_start_final worker_step_final on_update_final append_audio_final\<close>)

lemma rt_reachable_final: "rt_reachable v s \<Longrightarrow> finish_succeeds v \<Longrightarrow> rt_final s"
proof (induction rule: rt_reachable.induct)
  case (Opened fresh m)
  then show ?case by (simp add: conn_new_def Let_def rt_final_def)
next
  case (Stepped s t)
  note ok = rt_reachable_ok [OF Stepped.hyps(1)]
  from Stepped.hyps(2) show ?case
    by cases (use Stepped.IH Stepped.prems ok in \<open>auto simp: lost_def intro: turn_step_final rt_final_none\<close>)
qed

subsection \<open>Waiting for the end\<close>

text \<open>The steps there are while a committed item ends.\<close>

lemma settling_step:
  assumes "turn_step v s t" "cn_control s = Settling p" "item_done s" "rt_ok s"
  shows "backlog t < backlog s" "cn_control t = Settling p"
proof -
  from assms(2,3) have settling: "cn_item s \<noteq> None" "\<not> (\<exists>it. cn_item s = Some it \<and> \<not> it_done it)"
    by (auto simp: item_done_def split: option.splits)
  have read: "backlog (on_update u s1) < backlog s" if "next_update s = Some (u, s1)" for u s1
    using that
  proof (cases rule: next_update_cases)
    case gone
    with assms(2,4) settling attached_not_gone show ?thesis by (auto simp: rt_ok_def split: if_splits)
  qed (simp add: backlog_def)
  have control: "cn_control (on_update u s1) = Settling p" if "next_update s = Some (u, s1)" for u s1
    using that assms(2) by (cases rule: next_update_cases) simp_all
  from assms(1) have "backlog t < backlog s \<and> cn_control t = Settling p"
  proof cases
    case (Settle q u s1)
    with read control show ?thesis by simp
  next
    case Worker
    with assms(2) show ?thesis by (simp add: worker_step_backlog worker_step_fields)
  next
    case (Translated i opts pcm jy a r a')
    with assms(2) show ?thesis by (simp add: translated_backlog)
  qed (use assms(2,3) settling in auto)
  then show "backlog t < backlog s" "cn_control t = Settling p" by simp_all
qed

lemma settling_progress:
  assumes "cn_control s = Settling p" "item_done s" "rt_ok s" "rt_final s"
    and runs: "\<And>i opts pcm. cn_worker s = Translating i opts pcm \<Longrightarrow>
      \<exists>jy a r a'. translate_pcm (lv_engine v) (lv_run v) jy i opts pcm a = Some (r, a')"
  shows "\<exists>t. turn_step v s t"
proof -
  from assms(2) obtain it where it: "cn_item s = Some it" "it_done it" by (auto simp: item_done_def split: option.splits)
  with assms(1,3,4) have a: "\<not> collecting s" "attached s" by (auto simp: rt_final_def rt_ok_def)
  have worker: "\<exists>t. turn_step v s t" if "worker_step (lv_stream v) s \<noteq> None"
    using that by (auto intro: Worker)
  show ?thesis
  proof (cases "cn_worker s")
    case No_worker
    with a have "next_update s \<noteq> None" by (auto simp: attached_def next_update_def split: list.split)
    then obtain u s1 where "next_update s = Some (u, s1)" by auto
    with assms(1,2) show ?thesis by (auto intro: Settle)
  next
    case (Streaming st)
    with assms(4) it have "ch_commands s \<noteq> []" by (auto simp: rt_final_def in_stream_def)
    with Streaming show ?thesis
      by (intro worker) (auto simp: worker_step_def run_stream_step_def split: list.split cmd.split)
  next
    case (Translating i opts pcm)
    with runs show ?thesis by (blast intro: Translated)
  next
    case (Announcing us)
    with a show ?thesis by (intro worker) (auto simp: attached_def worker_step_def split: list.split)
  qed (auto intro!: worker simp: worker_step_def)
qed

end
