(* ===== verification/Realtime_Properties.thy ===== *)
theory Realtime_Properties
  imports Realtime_Texts Realtime_Settle
begin

text \<open>
  The properties of the live connection, over the lemmas on its slot, its texts and the end of its items,
  with an example run: a session on a loaded streaming model, one turn of two chunks of audio.
\<close>

subsection \<open>An example run\<close>

definition live_model :: engine_model where
  "live_model = \<lparr>em_arch = ''parakeet'', em_languages = [''en''], em_translate_targets = [], em_translate = False,
     em_language_detect = False, em_timestamp_kind = KSegment, em_streaming = True, em_spec_decode = False,
     em_native_sample_rate = 16000, em_supports = (\<lambda>f. False), em_accepts_whisper_run = False\<rparr>"

definition live_app :: app where
  "live_app = sample_app\<lparr>ap_loaded := Some (loaded_model_new ''custom-a'' live_model
     \<lparr>bd_observed_backend = ''CPU'', bd_fallback_reason = None\<rparr>)\<rparr>"

definition hello_stream :: "nat live_engine" where
  "hello_stream = \<lparr>le_begin = (\<lambda>m opts. Inr 0), le_feed = (\<lambda>n pcm. Inr (n + 1, True, int n)), le_finalize = (\<lambda>n. Inr (n, 9)),
     le_committed = (\<lambda>n. if n = 0 then [] else ''hello''), le_tentative = (\<lambda>n. '' wor''),
     le_display = (\<lambda>n. ''hello world''), le_full = (\<lambda>n. '' hello world'')\<rparr>"

definition hello_live :: "unit resampler \<Rightarrow> (unit, nat) live" where
  "hello_live r = \<lparr>lv_engine = sample_engine, lv_resamplers = (\<lambda>rate. r), lv_stream = hello_stream,
     lv_run = (\<lambda>m pcm opts. Inr empty_transcript), lv_base64 = (\<lambda>s. Some [0, 64, 0, 64])\<rparr>"

definition plain_halving :: "unit resampler" where "plain_halving = halving\<lparr>rs_delay := 0\<rparr>"

definition broken_halving :: "unit resampler" where
  "broken_halving = plain_halving\<lparr>rs_process_partial := (\<lambda>r xs. Inl ''resampler'')\<rparr>"

definition client_event :: "string \<Rightarrow> json" where
  "client_event kind = JObj [(''type'', JStr kind), (''audio'', JStr ''AEAAQA=='')]"

lemma hello_grows: "grows hello_stream"
  by (auto simp: grows_def hello_stream_def text_defs)

lemma hello_live_sel [simp]:
  "lv_engine (hello_live r) = sample_engine" "lv_resamplers (hello_live r) = (\<lambda>rate. r)" "lv_stream (hello_live r) = hello_stream"
  "lv_base64 (hello_live r) = (\<lambda>s. Some [0, 64, 0, 64])"
  by (simp_all add: hello_live_def)

lemma hello_start:
  assumes "rs_new r = Inr ()" "rs_delay r = 0"
  shows "\<exists>st. start_item sample_engine (\<lambda>rate. r) True sample_journey (Inr 3) (Inr ()) (session_new ''a'' (Some ''custom-a'')) live_app
      = Some (Inr st, live_app) \<and> \<not> st_buffered st
    \<and> st_decoder st = \<lparr>pc_odd = None, pc_resampler = Some \<lparr>lr_state = (), lr_pending = [], lr_skip = 0\<rparr>\<rparr>"
proof -
  have row: "require_installed_verified live_app ''custom-a'' = Inr drop_in_row"
    by (simp add: require_installed_verified_Inr live_app_def sample_app_def find_installed_def drop_in_row_def)
  have target: "resolve_requested_model live_app ''custom-a'' = Inr ''custom-a''"
    by (simp add: resolve_requested_model_def)
  obtain l where l: "ap_loaded live_app = Some l" "lm_id l = ''custom-a''" "lm_caps l = from_model live_model"
    by (simp add: live_app_def loaded_model_new_def)
  have bind: "bind_or_swap_model sample_engine ''custom-a'' wait 0 (jy_binds sample_journey) (jy_waiting sample_journey live_app)
      = Some (Inr l, live_app)" for wait
    using l by (simp add: sample_journey_def Let_def)
  let ?c = "session_new ''a'' (Some ''custom-a'')"
  obtain p where p: "make_plan (start_request ?c) (from_model live_model) Transcriptions None = Inr p"
    by (simp add: start_request_def session_new_def live_model_def from_model_def make_plan_def Let_def plan_prompt_def
        plan_temperature_def plan_response_format_def plan_timestamps_def plan_task_def)
  have "\<exists>st. plan_item (\<lambda>rate. r) ?c ''custom-a'' l = Inr st \<and> \<not> st_buffered st
    \<and> st_decoder st = \<lparr>pc_odd = None, pc_resampler = Some \<lparr>lr_state = (), lr_pending = [], lr_skip = 0\<rparr>\<rparr>"
    using p l(3) assms
    by (simp add: plan_item_def check_streaming_def pcm_new_def session_new_def default_sample_rate_def Let_def)
      (simp add: live_model_def from_model_def)
  then show ?thesis
    using row target bind by (auto simp: start_item_def session_new_def)
qed

lemma reach_turn: "rt_reachable v s \<Longrightarrow> turn_step v s t \<Longrightarrow> rt_reachable v t"
  by (blast intro: Stepped Done)

text \<open>The run up to the commit.\<close>

lemma hello_streaming:
  assumes r: "r \<in> {plain_halving, broken_halving}"
  obtains s it where "rt_reachable (hello_live r) s" "cn_control s = Settling Then_commit" "cn_item s = Some it"
    "it_id it = ''item_b''" "\<not> it_done it" "it_turn it = Stream_turn" "it_committed it = ''hello''"
    "it_decoder it = \<lparr>pc_odd = None, pc_resampler = Some \<lparr>lr_state = (), lr_pending = [], lr_skip = 0\<rparr>\<rparr>"
    "cn_worker s = Streaming 1" "ch_commands s = []" "ch_open s" "ch_updates s = []" "cn_slot s" "cn_previous s = None"
    "cn_out s = [Session_created (session_new ''a'' (Some ''custom-a'')), Delta ''item_b'' ''hello'',
       Partial ''item_b'' ''hello'' '' wor'' 0]"
proof -
  let ?v = "hello_live r" and ?c = "session_new ''a'' (Some ''custom-a'')"
  let ?append = "Settling (Then_append [0, 64, 0, 64])"
  have ops: "rs_new r = Inr ()" "rs_delay r = 0" "rs_chunk r = 2" "\<And>u xs. rs_process r u xs = Inr (take 1 xs, u)"
    using r by (auto simp: broken_halving_def plain_halving_def halving_def)
  obtain st where st: "start_item sample_engine (\<lambda>rate. r) True sample_journey (Inr 3) (Inr ()) ?c live_app = Some (Inr st, live_app)"
    "\<not> st_buffered st" "st_decoder st = \<lparr>pc_odd = None, pc_resampler = Some \<lparr>lr_state = (), lr_pending = [], lr_skip = 0\<rparr>\<rparr>"
    using hello_start [OF ops(1,2)] by blast
  let ?s0 = "conn_new ''a'' (Some ''custom-a'') :: (unit, nat) conn"
  let ?s1 = "?s0\<lparr>cn_control := ?append\<rparr>"
  have "on_text (lv_base64 ?v) (Some (client_event ''input_audio_buffer.append'')) ?s0 = ?s1"
    by (simp add: on_text_def client_event_def)
  moreover have "cn_control ?s0 = Ready" by (simp add: conn_new_def Let_def)
  ultimately have 1: "rt_reachable ?v ?s1"
    by (metis Message Opened reach_turn)
  obtain pcm where pcm: "pcm_push r (st_decoder st) [0, 64, 0, 64] = (Inr [pcm], st_decoder st)"
    by (simp add: st(3) pcm_push_def pcm_samples_def drain.simps ops emit_def Let_def)
  let ?it = "\<lparr>it_id = ''item_b'', it_decoder = st_decoder st, it_rate = 24000, it_committed = [], it_done = False, it_turn = Stream_turn\<rparr>"
  let ?s2 = "\<lparr>cn_config = ?c, cn_item = Some ?it, cn_previous = None, cn_control = Ready, cn_out = [Session_created ?c],
     ch_commands = [Feed [pcm]], ch_open = True, ch_updates = [], cn_worker = Beginning (st_model st) (st_run st), cn_slot = True\<rparr>"
  have "on_append_start (lv_resamplers ?v) ''b'' [0, 64, 0, 64] (Inr st) ?s1 = ?s2"
    using st(2) pcm by (simp add: on_append_start_def install_item_def append_audio_def feed_def conn_new_def Let_def
        session_new_def default_sample_rate_def)
  moreover have "turn_step ?v ?s1 (on_append_start (lv_resamplers ?v) ''b'' [0, 64, 0, 64] (Inr st) ?s1)"
    by (rule Start [where free = True and jy = sample_journey and queued = "Inr 3" and spawned = "Inr ()" and a = live_app and a' = live_app])
      (use st(1) in \<open>simp_all add: conn_new_def Let_def\<close>)
  ultimately have 2: "rt_reachable ?v ?s2" using 1 by (metis reach_turn)
  let ?s3 = "?s2\<lparr>cn_worker := Streaming 0\<rparr>"
  have "worker_step (lv_stream ?v) ?s2 = Some ?s3" by (simp add: worker_step_def hello_stream_def)
  with 2 have 3: "rt_reachable ?v ?s3" by (blast intro: reach_turn Worker)
  let ?s4 = "?s3\<lparr>cn_worker := Streaming 1, ch_commands := [], ch_updates := [Partial_text ''hello'' '' wor'' 0]\<rparr>"
  have "worker_step (lv_stream ?v) ?s3 = Some ?s4" by (simp add: worker_step_def run_stream_step_def hello_stream_def)
  with 3 have 4: "rt_reachable ?v ?s4" by (blast intro: reach_turn Worker)
  let ?s5 = "?s4\<lparr>ch_updates := [], cn_item := Some (?it\<lparr>it_committed := ''hello''\<rparr>),
     cn_out := [Session_created ?c, Delta ''item_b'' ''hello'', Partial ''item_b'' ''hello'' '' wor'' 0]\<rparr>"
  have "turn_step ?v ?s4 (on_update (Some (Partial_text ''hello'' '' wor'' 0)) (?s4\<lparr>ch_updates := []\<rparr>))"
    by (rule Update) (simp_all add: next_update_def)
  moreover have "on_update (Some (Partial_text ''hello'' '' wor'' 0)) (?s4\<lparr>ch_updates := []\<rparr>) = ?s5"
    by (simp add: on_update_def send_def delta_since_def Let_def)
  ultimately have 5: "rt_reachable ?v ?s5" using 4 by (metis reach_turn)
  let ?s6 = "?s5\<lparr>cn_control := Settling Then_commit\<rparr>"
  have "on_text (lv_base64 ?v) (Some (client_event ''input_audio_buffer.commit'')) ?s5 = ?s6"
    by (simp add: on_text_def client_event_def)
  moreover have "cn_control ?s5 = Ready" by simp
  ultimately have "rt_reachable ?v ?s6" using 5 by (metis Message reach_turn)
  then show thesis
    by (rule that [where it = "?it\<lparr>it_committed := ''hello''\<rparr>"]) (simp_all add: st(3))
qed


text \<open>The commit, and the run up to the completed event.\<close>

lemma hello_committed:
  obtains s it where "rt_reachable (hello_live plain_halving) s" "cn_control s = Ready" "cn_item s = Some it"
    "it_id it = ''item_b''" "it_done it" "it_turn it = Stream_turn" "it_committed it = ''hello''"
    "cn_worker s = Streaming 1" "ch_commands s = [Finalize]" "ch_updates s = []"
    "cn_out s = [Session_created (session_new ''a'' (Some ''custom-a'')), Delta ''item_b'' ''hello'',
       Partial ''item_b'' ''hello'' '' wor'' 0, Audio_committed None ''item_b'']"
proof -
  let ?v = "hello_live plain_halving"
  obtain s it where s: "rt_reachable ?v s" "cn_control s = Settling Then_commit" "cn_item s = Some it"
    "it_id it = ''item_b''" "\<not> it_done it" "it_turn it = Stream_turn" "it_committed it = ''hello''"
    "it_decoder it = \<lparr>pc_odd = None, pc_resampler = Some \<lparr>lr_state = (), lr_pending = [], lr_skip = 0\<rparr>\<rparr>"
    "cn_worker s = Streaming 1" "ch_commands s = []" "ch_updates s = []" "cn_previous s = None"
    "cn_out s = [Session_created (session_new ''a'' (Some ''custom-a'')), Delta ''item_b'' ''hello'',
       Partial ''item_b'' ''hello'' '' wor'' 0]"
    by (rule hello_streaming [of plain_halving]) auto
  have finish: "pcm_finish plain_halving (it_decoder it) = (Inr [], it_decoder it)"
    by (simp add: s pcm_finish_def plain_halving_def halving_def emit_def Let_def)
  let ?t = "on_commit (lv_resamplers ?v) s"
  have "turn_step ?v s ?t" by (rule Commit) (simp_all add: s item_done_def)
  with s(1) have "rt_reachable ?v ?t" by (rule reach_turn)
  moreover have "?t = send (Audio_committed (cn_previous s) (it_id it))
      (s\<lparr>cn_control := Ready, ch_commands := [Finalize], cn_item := Some (it\<lparr>it_done := True\<rparr>)\<rparr>)"
    by (simp add: on_commit_def s(3) finish feed_def finalize_def Let_def s(6,10))
  ultimately show thesis
    by (intro that [of ?t "it\<lparr>it_done := True\<rparr>"]) (simp_all add: s)
qed

lemma hello_announced:
  obtains s it where "rt_reachable (hello_live plain_halving) s" "cn_control s = Ready" "cn_item s = Some it" "it_id it = ''item_b''"
    "cn_out s = [Session_created (session_new ''a'' (Some ''custom-a'')), Delta ''item_b'' ''hello'',
       Partial ''item_b'' ''hello'' '' wor'' 0, Audio_committed None ''item_b'', Delta ''item_b'' '' world'',
       Partial ''item_b'' ''hello world'' [] 9, Completed ''item_b'' ''hello world'']"
proof -
  let ?v = "hello_live plain_halving"
  obtain s it where s: "rt_reachable ?v s" "cn_control s = Ready" "cn_item s = Some it"
    "it_id it = ''item_b''" "it_done it" "it_turn it = Stream_turn" "it_committed it = ''hello''"
    "cn_worker s = Streaming 1" "ch_commands s = [Finalize]" "ch_updates s = []"
    "cn_out s = [Session_created (session_new ''a'' (Some ''custom-a'')), Delta ''item_b'' ''hello'',
       Partial ''item_b'' ''hello'' '' wor'' 0, Audio_committed None ''item_b'']"
    by (rule hello_committed)
  have trimmed: "trim '' hello world'' = ''hello world''" by (simp add: text_defs)
  let ?u = "Partial_text ''hello world'' [] 9"
  let ?s1 = "s\<lparr>ch_commands := [], ch_updates := [?u], cn_worker := Outcome [Completed_text ''hello world'', Ended]\<rparr>"
  have "worker_step (lv_stream ?v) s = Some ?s1"
    by (simp add: worker_step_def run_stream_step_def s hello_stream_def announce_stream_def trimmed)
  with s(1) have 1: "rt_reachable ?v ?s1" by (blast intro: reach_turn Worker)
  let ?s2 = "?s1\<lparr>cn_slot := False, cn_worker := Announcing [Completed_text ''hello world'', Ended]\<rparr>"
  have "worker_step (lv_stream ?v) ?s1 = Some ?s2" by (simp add: worker_step_def)
  with 1 have 2: "rt_reachable ?v ?s2" by (blast intro: reach_turn Worker)
  let ?s3 = "?s2\<lparr>ch_updates := [?u, Completed_text ''hello world''], cn_worker := Announcing [Ended]\<rparr>"
  have "worker_step (lv_stream ?v) ?s2 = Some ?s3" by (simp add: worker_step_def)
  with 2 have 3: "rt_reachable ?v ?s3" by (blast intro: reach_turn Worker)
  let ?s4 = "on_update (Some ?u) (?s3\<lparr>ch_updates := [Completed_text ''hello world'']\<rparr>)"
  have "turn_step ?v ?s3 ?s4" by (rule Update) (simp_all add: next_update_def s)
  with 3 have 4: "rt_reachable ?v ?s4" by (rule reach_turn)
  have "cn_item ?s4 = Some (it\<lparr>it_committed := ''hello world''\<rparr>)" "cn_control ?s4 = Ready"
    "cn_out ?s4 = cn_out s @ [Delta ''item_b'' '' world'', Partial ''item_b'' ''hello world'' [] 9]"
    "ch_updates ?s4 = [Completed_text ''hello world'']"
    by (simp_all add: on_update_def s delta_since_def Let_def)
  with 4 obtain s4 where s4: "rt_reachable ?v s4" "cn_item s4 = Some (it\<lparr>it_committed := ''hello world''\<rparr>)" "cn_control s4 = Ready"
    "cn_out s4 = cn_out s @ [Delta ''item_b'' '' world'', Partial ''item_b'' ''hello world'' [] 9]"
    "ch_updates s4 = [Completed_text ''hello world'']" by blast
  let ?s5 = "on_update (Some (Completed_text ''hello world'')) (s4\<lparr>ch_updates := []\<rparr>)"
  have "turn_step ?v s4 ?s5" by (rule Update) (simp_all add: next_update_def s4)
  with s4(1) have "rt_reachable ?v ?s5" by (rule reach_turn)
  moreover have "?s5 = send (Completed ''item_b'' ''hello world'') (s4\<lparr>ch_updates := [], cn_previous := Some ''item_b''\<rparr>)"
    by (simp add: on_update_def s4 s)
  ultimately show thesis using s4 s
    by (intro that [of ?s5 "it\<lparr>it_committed := ''hello world''\<rparr>"]) simp_all
qed


subsection \<open>Texts and slot\<close>

text \<open>
  C2. What the client has read by the time an event of an item arrives agrees with that event: the deltas
  of the item, put together, are the committed text of a partial event and, trimmed, the transcript of the
  completed event. This needs only that the engine's committed text grows and that its final text is the
  displayed one up to blanks at the ends.
\<close>
theorem live_texts_agree:
  assumes "rt_reachable v s" "grows (lv_stream v)" "cn_out s = before @ ev # later"
  shows "(\<forall>i c t n. ev = Partial i c t n \<longrightarrow> deltas i before = c) \<and> (\<forall>i t. ev = Completed i t \<longrightarrow> trim (deltas i before) = t)"
proof -
  from rt_reachable_told [OF assms(1,2)] have "told (before @ ev # later)" by (simp add: rt_told_def assms(3))
  then have "agrees (take (length before) (before @ ev # later)) ((before @ ev # later) ! length before)"
    unfolding told_def by (metis add_gr_0 length_append length_Cons less_add_same_cancel1 zero_less_Suc)
  then show ?thesis by (auto simp: agrees_def)
qed

theorem live_texts_agree_witness:
  "\<exists>s before. rt_reachable (hello_live plain_halving) s \<and> cn_out s = before @ [Completed ''item_b'' ''hello world'']
     \<and> deltas ''item_b'' before = ''hello world'' \<and> trim (deltas ''item_b'' before) = ''hello world''"
proof -
  obtain s where s: "rt_reachable (hello_live plain_halving) s"
    "cn_out s = [Session_created (session_new ''a'' (Some ''custom-a'')), Delta ''item_b'' ''hello'',
       Partial ''item_b'' ''hello'' '' wor'' 0, Audio_committed None ''item_b'', Delta ''item_b'' '' world'',
       Partial ''item_b'' ''hello world'' [] 9, Completed ''item_b'' ''hello world'']"
    by (rule hello_announced)
  let ?before = "[Session_created (session_new ''a'' (Some ''custom-a'')), Delta ''item_b'' ''hello'',
       Partial ''item_b'' ''hello'' '' wor'' 0, Audio_committed None ''item_b'', Delta ''item_b'' '' world'',
       Partial ''item_b'' ''hello world'' [] 9]"
  have out: "cn_out s = ?before @ [Completed ''item_b'' ''hello world'']" using s(2) by simp
  have "grows (lv_stream (hello_live plain_halving))" by (simp add: hello_grows)
  from live_texts_agree [OF s(1) this out] have "trim (deltas ''item_b'' ?before) = ''hello world''" by simp
  with s(1) out show ?thesis by (intro exI [of _ s] exI [of _ ?before]) simp
qed

text \<open>
  C3. Once the completed event of the current item has been sent, whatever the task is doing, the stream slot is
  free and the item's worker is gone or announces only its end; and whenever the connection has no item and its
  task reads messages or handles one, the slot is free and there is no worker. A client that answers the
  completed event with the next audio never finds the slot taken by its own last item. (An item being discarded
  is no longer the connection's; its worker gives the slot back before the task goes on.)
\<close>
theorem completed_frees_slot:
  assumes "rt_reachable v s" "grows (lv_stream v)"
    and "(\<exists>it. cn_item s = Some it \<and> completed (it_id it) (cn_out s))
       \<or> cn_item s = None \<and> (cn_control s = Ready \<or> (\<exists>p. cn_control s = Settling p))"
  shows "\<not> cn_slot s \<and> (cn_worker s = No_worker \<or> cn_item s \<noteq> None \<and> (\<exists>us. cn_worker s = Announcing us))"
proof -
  note ok = rt_reachable_ok [OF assms(1)]
  show ?thesis
  proof (cases "cn_item s")
    case None
    with ok assms(3) show ?thesis by (auto simp: rt_ok_def collecting_def at_rest_def)
  next
    case (Some it)
    with rt_reachable_told [OF assms(1,2)] assms(3) have it: "item_told (lv_stream v) s it" "completed (it_id it) (cn_out s)"
      by (simp_all add: rt_told_def)
    from ok Some have control: "cn_control s = Ready \<or> (\<exists>p. cn_control s = Settling p)"
      by (auto simp: rt_ok_def split: control.splits)
    have "\<not> collecting s"
    proof
      assume c: "collecting s"
      with ok control have "cn_worker s = No_worker" by (auto simp: rt_ok_def)
      with it c show False by (simp add: item_told_def)
    qed
    with ok control Some have "attached s" by (auto simp: rt_ok_def)
    with it Some show ?thesis by (auto simp: attached_def item_told_def split: worker.splits)
  qed
qed

theorem completed_frees_slot_witness:
  "\<exists>s. rt_reachable (hello_live plain_halving) s \<and> completed ''item_b'' (cn_out s) \<and> \<not> cn_slot s
     \<and> (cn_worker s = No_worker \<or> (\<exists>us. cn_worker s = Announcing us))"
proof -
  obtain s it where s: "rt_reachable (hello_live plain_halving) s" "cn_control s = Ready" "cn_item s = Some it" "it_id it = ''item_b''"
    "cn_out s = [Session_created (session_new ''a'' (Some ''custom-a'')), Delta ''item_b'' ''hello'',
       Partial ''item_b'' ''hello'' '' wor'' 0, Audio_committed None ''item_b'', Delta ''item_b'' '' world'',
       Partial ''item_b'' ''hello world'' [] 9, Completed ''item_b'' ''hello world'']"
    by (rule hello_announced)
  have "grows (lv_stream (hello_live plain_halving))" by (simp add: hello_grows)
  moreover have finished: "completed ''item_b'' (cn_out s)" by (simp add: s(5))
  then have "\<exists>it. cn_item s = Some it \<and> completed (it_id it) (cn_out s)" using s(3,4) by auto
  ultimately have "\<not> cn_slot s \<and> (cn_worker s = No_worker \<or> cn_item s \<noteq> None \<and> (\<exists>us. cn_worker s = Announcing us))"
    using completed_frees_slot [OF s(1)] by blast
  with s(1) finished show ?thesis by blast
qed

subsection \<open>The end of a committed item\<close>

text \<open>
  C4. When a message waits for a committed item to end, the wait ends: as long as the item is there, some
  step is possible, and no run takes more steps than the backlog before the item is gone and the message is
  next. This needs that the resampler's last conversion succeeds and that the run of a buffered turn returns.
\<close>
theorem committed_item_ends:
  assumes "rt_reachable v s" "cn_control s = Settling p" "finish_succeeds v"
    and returns: "\<And>i opts pcm. \<exists>jy a r a'. translate_pcm (lv_engine v) (lv_run v) jy i opts pcm a = Some (r, a')"
  shows "(item_done s \<longrightarrow> (\<exists>t. turn_step v s t)) \<and>
    (\<forall>run. run 0 = s \<and> (\<forall>k. turn_step v (run k) (run (Suc k))) \<longrightarrow>
       (\<exists>k \<le> backlog s. cn_control (run k) = Settling p \<and> \<not> item_done (run k)))"
proof (intro conjI impI allI)
  assume "item_done s"
  with assms show "\<exists>t. turn_step v s t"
    by (intro settling_progress) (auto intro: rt_reachable_ok rt_reachable_final)
next
  fix run assume run: "run 0 = s \<and> (\<forall>k. turn_step v (run k) (run (Suc k)))"
  show "\<exists>k \<le> backlog s. cn_control (run k) = Settling p \<and> \<not> item_done (run k)"
  proof (rule ccontr)
    assume no: "\<not> ?thesis"
    have "rt_reachable v (run k) \<and> cn_control (run k) = Settling p \<and> backlog (run k) + k \<le> backlog s"
      if "k \<le> Suc (backlog s)" for k
      using that
    proof (induction k)
      case (Suc k)
      then have k: "rt_reachable v (run k)" "cn_control (run k) = Settling p" "backlog (run k) + k \<le> backlog s" by simp_all
      with no Suc.prems have "item_done (run k)" by auto
      with k run settling_step [OF _ k(2) _ rt_reachable_ok [OF k(1)], of v "run (Suc k)"]
      have "backlog (run (Suc k)) < backlog (run k)" "cn_control (run (Suc k)) = Settling p" by auto
      with k run show ?case by (auto intro: reach_turn)
    qed (use run assms in simp)
    from this [of "Suc (backlog s)"] show False by simp
  qed
qed


lemma halving_finishes: "finish_succeeds (hello_live plain_halving)"
  by (auto simp: finish_succeeds_def pcm_finish_def plain_halving_def halving_def emit_def Let_def split: option.split)

lemma hello_translates:
  "\<exists>jy a r a'. translate_pcm (lv_engine v) (lv_run v) jy i opts pcm a = Some (r, a')"
proof -
  have "acquire_for_model i wait [\<lparr>seen = [(0, None)], queued_end = Inl QueueFull, ended_at = 0, checked = None\<rparr>] = Some (Inl QueueFull)" for wait
    by (simp add: streams_on_def)
  then have "\<exists>r a'. translate_pcm (lv_engine v) (lv_run v)
      (sample_journey\<lparr>jy_queue := [\<lparr>seen = [(0, None)], queued_end = Inl QueueFull, ended_at = 0, checked = None\<rparr>]\<rparr>)
      i opts pcm sample_app = Some (r, a')"
    by (simp add: translate_pcm_def Let_def)
  then show ?thesis by blast
qed

theorem committed_item_ends_witness:
  "\<exists>s t. rt_reachable (hello_live plain_halving) s \<and> cn_control s = Settling Then_clear \<and> item_done s
     \<and> turn_step (hello_live plain_halving) s t"
proof -
  let ?v = "hello_live plain_halving"
  obtain s it where s: "rt_reachable ?v s" "cn_control s = Ready" "cn_item s = Some it" "it_done it"
    by (rule hello_committed)
  let ?s = "s\<lparr>cn_control := Settling Then_clear\<rparr>"
  have "on_text (lv_base64 ?v) (Some (client_event ''input_audio_buffer.clear'')) s = ?s"
    by (simp add: on_text_def client_event_def)
  then have r: "rt_reachable ?v ?s" using s(1,2) by (metis Message reach_turn)
  have "cn_control ?s = Settling Then_clear" "item_done ?s" by (simp_all add: item_done_def s)
  with committed_item_ends [OF r _ halving_finishes hello_translates] r show ?thesis by blast
qed

text \<open>
  C5. When the conversion of the last samples of a commit fails, the stream is not told to end, so a worker that has
  taken every command, and whose updates have all been read, waits for commands. If the client then sends audio, a commit or a clear, nothing can happen any more: the
  task waits for the item, the worker for the task, the client's messages are not read and the slot stays
  taken, though only an error was reported.
\<close>
theorem failed_commit_wedges:
  assumes "cn_control s = Settling Then_commit" "cn_item s = Some it" "\<not> it_done it" "cn_worker s = Streaming st"
    and "ch_commands s = []" "ch_open s" "ch_updates s = []" "cn_slot s"
    and "pcm_finish (lv_resamplers v (it_rate it)) (it_decoder it) = (Inl e, decoder)"
    and "rt_reachable v s"
  shows "\<exists>t. turn_step v s t \<and> cn_out t = cn_out s @ [Error_event e] \<and> cn_control t = Ready \<and>
    (\<forall>p. cn_slot (t\<lparr>cn_control := Settling p\<rparr>) \<and> (\<forall>u. \<not> rt_step v (t\<lparr>cn_control := Settling p\<rparr>) u))"
proof -
  let ?t = "on_commit (lv_resamplers v) s"
  have "turn_step v s ?t" by (rule Commit) (simp_all add: assms item_done_def)
  moreover have t: "?t = send_error e (s\<lparr>cn_control := Ready, cn_item := Some (it\<lparr>it_decoder := decoder, it_done := True\<rparr>)\<rparr>)"
    by (simp add: on_commit_def assms Let_def)
  moreover have "\<not> rt_step v (?t\<lparr>cn_control := Settling p\<rparr>) u" for p u
  proof -
    let ?w = "?t\<lparr>cn_control := Settling p\<rparr>"
    have "next_update ?w = None" "worker_step (lv_stream v) ?w = None" "item_done ?w" "cn_worker ?w = Streaming st" "cn_item ?w \<noteq> None"
      by (simp_all add: t send_error_def next_update_def worker_step_def run_stream_step_def item_done_def assms)
    then have "\<not> turn_step v ?w u'" for u' by (auto elim!: turn_stepE simp: item_done_def)
    then show ?thesis by (auto elim: rt_step.cases)
  qed
  ultimately show ?thesis using assms by (intro exI [of _ ?t]) (simp add: send_error_def)
qed

theorem failed_commit_wedges_witness:
  "\<exists>s t. rt_reachable (hello_live broken_halving) s \<and> turn_step (hello_live broken_halving) s t \<and>
     (\<forall>p. cn_slot (t\<lparr>cn_control := Settling p\<rparr>) \<and> (\<forall>u. \<not> rt_step (hello_live broken_halving) (t\<lparr>cn_control := Settling p\<rparr>) u))"
proof -
  let ?v = "hello_live broken_halving"
  obtain s it where s: "rt_reachable ?v s" "cn_control s = Settling Then_commit" "cn_item s = Some it" "\<not> it_done it"
    "it_decoder it = \<lparr>pc_odd = None, pc_resampler = Some \<lparr>lr_state = (), lr_pending = [], lr_skip = 0\<rparr>\<rparr>"
    "cn_worker s = Streaming 1" "ch_commands s = []" "ch_open s" "ch_updates s = []" "cn_slot s"
    by (rule hello_streaming [of broken_halving]) auto
  obtain e decoder where "pcm_finish (lv_resamplers ?v (it_rate it)) (it_decoder it) = (Inl e, decoder)"
    by (simp add: s pcm_finish_def broken_halving_def Let_def)
  from failed_commit_wedges [OF s(2,3,4,6-10) this s(1)] s(1) show ?thesis by blast
qed


subsection \<open>The session\<close>

text \<open>A configuration with a rate the decoder takes and no empty text where an absent one is meant.\<close>

definition session_valid :: "session_config \<Rightarrow> bool" where
  "session_valid c \<longleftrightarrow> 8000 \<le> sc_sample_rate c \<and> sc_sample_rate c \<le> 48000 \<and>
     sc_language c \<noteq> Some [] \<and> sc_target_language c \<noteq> Some [] \<and> sc_prompt c \<noteq> Some []"

lemma nonempty_str_not_empty: "nonempty_str v \<noteq> Some []"
  by (simp add: nonempty_str_def split: option.split)

lemma update_rate_valid: "update_rate j c = Inr c' \<Longrightarrow> session_valid c \<Longrightarrow> session_valid c'"
  by (auto simp: update_rate_def  session_valid_def split: option.splits if_splits)

lemma update_transcription_valid: "session_valid c \<Longrightarrow> session_valid (update_transcription j c)"
  by (auto simp: update_transcription_def Let_def session_valid_def nonempty_str_not_empty split: option.split)

lemma update_target_valid: "session_valid c \<Longrightarrow> session_valid (update_target j c)"
  by (auto simp: update_target_def session_valid_def nonempty_str_not_empty split: option.split)

lemma update_id [simp]:
  "sc_id (update_transcription j c) = sc_id c" "sc_id (update_target j c) = sc_id c"
  by (simp_all add: update_transcription_def update_target_def Let_def split: option.split)

lemma update_rate_id: "update_rate j c = Inr d \<Longrightarrow> sc_id d = sc_id c"
  by (auto simp: update_rate_def split: option.splits if_splits)

lemma session_update_Inr:
  assumes "session_update j c = Inr c'"
  obtains d where "update_rate j c = Inr d" "c' = update_target j (update_transcription j d)"
proof -
  from assms show thesis
    by (cases "check_turn_detection j"; cases "check_formats j"; cases "update_rate j c")
      (simp_all add: session_update_def that)
qed

lemma session_update_valid: "session_update j c = Inr c' \<Longrightarrow> session_valid c \<Longrightarrow> session_valid c'"
  by (elim session_update_Inr) (simp add: update_rate_valid update_transcription_valid update_target_valid)

lemma session_update_id: "session_update j c = Inr c' \<Longrightarrow> sc_id c' = sc_id c"
  by (elim session_update_Inr) (simp add: update_rate_id)

text \<open>Only an update of the session changes its configuration.\<close>

lemma send_error_config [simp]: "cn_config (send_error e s) = cn_config s"
  by (simp add: send_error_def)

lemma discard_config [simp]: "cn_config (proceed x s) = cn_config s" "cn_config (discard_item x s) = cn_config s"
  by (simp_all add: discard_item_def proceed_def split: option.split turn.split after.split)

lemma feed_config: "feed pcm it s = (it', s') \<Longrightarrow> cn_config s' = cn_config s"
  by (auto simp: feed_def split: if_splits turn.splits)

lemma finalize_config: "finalize it s = (it', s') \<Longrightarrow> cn_config s' = cn_config s"
  by (auto simp: finalize_def split: turn.splits)

lemma append_audio_config [simp]: "cn_config (append_audio rs bytes it s) = cn_config s"
  by (auto simp: append_audio_def Let_def dest!: feed_config split: prod.split sum.split)

lemma on_append_start_config: "cn_config (on_append_start rs fresh bytes r s) = cn_config s"
proof (cases r)
  case (Inr st)
  then show ?thesis by (simp add: on_append_start_def install_item_def Let_def)
qed (simp add: on_append_start_def Let_def)

lemma on_commit_config: "cn_config (on_commit rs s) = cn_config s"
  by (auto simp: on_commit_def Let_def dest!: feed_config finalize_config split: option.split prod.split sum.split)

lemma turn_step_config:
  assumes "turn_step v s t"
  shows "cn_config t = cn_config s \<or> (\<exists>j. session_update j (cn_config s) = Inr (cn_config t))"
proof -
  have read: "cn_config s1 = cn_config s" if "next_update s = Some (u, s1)" for u s1
    using that by (auto elim: next_update_cases)
  from assms show ?thesis
  proof cases
    case (Message m)
    show ?thesis unfolding Message(1) on_text_def Let_def by (auto split: option.splits sum.splits)
  next
    case (Discard x u s1)
    with read [OF Discard(3)] show ?thesis by (simp add: discard_update_def split: option.split update.split)
  next
    case (Update u s1)
    with read show ?thesis by simp
  next
    case (Settle p u s1)
    with read show ?thesis by simp
  next
    case Worker
    then show ?thesis by (simp add: worker_step_fields)
  qed (simp_all add: on_clear_def on_append_start_config on_commit_config)
qed

text \<open>
  C9. Whatever a client sends, the session of a connection keeps the id it was opened with and settings the
  server can work with: a sample rate from 8000 to 48000, and a language, a target language and a prompt that
  are absent rather than empty.
\<close>
theorem session_stays_valid:
  assumes "rt_reachable v s"
  shows "session_valid (cn_config s) \<and> (\<forall>t. rt_step v s t \<longrightarrow> sc_id (cn_config t) = sc_id (cn_config s))"
proof -
  have config: "cn_config t = cn_config s \<or> (\<exists>j. session_update j (cn_config s) = Inr (cn_config t))"
    if "rt_step v s t" for s t :: "('a, 'b) conn"
    using that by cases (auto simp: lost_def dest: turn_step_config)
  have "session_valid (cn_config s)" using assms
  proof (induction rule: rt_reachable.induct)
    case (Opened fresh m)
    show ?case by (simp add: conn_new_def Let_def session_new_def session_valid_def default_sample_rate_def)
  next
    case (Stepped s t)
    from config [OF Stepped.hyps(2)] Stepped.IH show ?case by (metis session_update_valid)
  qed
  moreover have "sc_id (cn_config t) = sc_id (cn_config s)" if "rt_step v s t" for t
    using config [OF that] session_update_id by metis
  ultimately show ?thesis by blast
qed

theorem session_stays_valid_witness:
  "\<exists>s. rt_reachable (hello_live plain_halving) s \<and> session_valid (cn_config s) \<and> cn_item s \<noteq> None"
proof -
  obtain s it where "rt_reachable (hello_live plain_halving) s" "cn_item s = Some it" by (rule hello_committed)
  with session_stays_valid [of "hello_live plain_halving" s] show ?thesis by blast
qed

text \<open>
  The session object the server reports can be sent back to it: an update with it restores the reported
  settings, whatever the session was changed to in between.
\<close>
theorem session_restores:
  assumes "session_valid c" "sc_model c \<noteq> []"
  shows "session_update (session_to_json c) c' = Inr (c\<lparr>sc_id := sc_id c'\<rparr>)"
proof -
  have "update_rate (session_to_json c) c' = Inr (c'\<lparr>sc_sample_rate := sc_sample_rate c\<rparr>)"
    using assms(1)
    by (simp add: update_rate_def session_to_json_def pointer_step_def session_valid_def jnat_def)
  moreover have "update_transcription (session_to_json c) d
      = d\<lparr>sc_model := sc_model c, sc_language := sc_language c, sc_prompt := sc_prompt c\<rparr>" for d
    using assms
    by (cases "sc_language c"; cases "sc_prompt c")
      (auto simp: update_transcription_def session_to_json_def pointer_step_def session_valid_def nonempty_str_def Let_def)
  moreover have "update_target (session_to_json c) d = d\<lparr>sc_target_language := sc_target_language c\<rparr>" for d
    using assms
    by (cases "sc_target_language c")
      (auto simp: update_target_def session_to_json_def pointer_step_def session_valid_def nonempty_str_def)
  moreover have "check_turn_detection (session_to_json c) = Inr ()" "check_formats (session_to_json c) = Inr ()"
    by (simp_all add: check_turn_detection_def check_formats_def session_to_json_def pointer_step_def)
  ultimately show ?thesis by (simp add: session_update_def)
qed

theorem session_restores_witness:
  "\<exists>c c'. session_update (session_to_json c) c' = Inr (c\<lparr>sc_id := ''sess_b''\<rparr>) \<and> sc_language c = Some ''de'' \<and> sc_language c' = None"
proof -
  let ?c = "(session_new ''a'' (Some ''m''))\<lparr>sc_language := Some ''de'', sc_sample_rate := 16000\<rparr>"
  let ?d = "session_new ''b'' None"
  have "session_valid ?c" "sc_model ?c \<noteq> []" by (simp_all add: session_valid_def session_new_def)
  from session_restores [OF this, of ?d] show ?thesis by (intro exI [of _ ?c] exI [of _ ?d]) (simp add: session_new_def)
qed

end
