(* ===== verification/Dropin_Safety.thy ===== *)
theory Dropin_Safety
  imports Dropin Task_Triples
begin

text \<open>
  What a refresh leaves behind: downloaded and uploaded models and all files as they were, and, when it completes, every
  row of the folder either marked or describing the file at its path.
\<close>

subsection \<open>Rows that describe their files\<close>

definition describes :: "(string \<Rightarrow> file_state option) \<Rightarrow> (byte list \<Rightarrow> string) \<Rightarrow> installed \<Rightarrow> bool" where
  "describes F sha256 r \<longleftrightarrow>
     (\<exists>c. F (in_path r) = Some c \<and> in_size_bytes r = Some (file_size c) \<and> in_sha256 r = sha256 (fi_bytes c)
        \<and> (in_mtime_ms r = fi_mtime c \<or> in_mtime_ms r = None))"

definition settled :: "(string \<Rightarrow> file_state option) \<Rightarrow> (byte list \<Rightarrow> string) \<Rightarrow> installed \<Rightarrow> bool" where
  "settled F sha256 r \<longleftrightarrow> in_needs_verification r \<or> describes F sha256 r"

definition downloaded_or_uploaded :: "installed \<Rightarrow> bool" where
  "downloaded_or_uploaded r \<longleftrightarrow> in_source r = source_catalog_download \<or> in_source r = source_import"

text \<open>The invariant: \<open>M\<close> are rows of downloaded or uploaded models, \<open>T\<close> the rows still to be checked.\<close>

definition refresh_inv ::
    "installed set \<Rightarrow> (string \<Rightarrow> file_state option) \<Rightarrow> (byte list \<Rightarrow> string) \<Rightarrow> string \<Rightarrow> installed set \<Rightarrow> sdata \<Rightarrow> bool" where
  "refresh_inv M F sha256 op T d \<longleftrightarrow>
     tables_ok d \<and> d_files d = F \<and> not_completed op d \<and> M \<subseteq> set (d_installed d) \<and>
     (\<forall>r \<in> set (d_installed d). in_source r = source_user_folder \<longrightarrow> settled F sha256 r \<or> r \<in> T)"

definition spares :: "installed set \<Rightarrow> string \<Rightarrow> bool" where "spares M i \<longleftrightarrow> i \<notin> in_id ` M"

lemma refresh_inv_mono: "refresh_inv M F h op T d \<Longrightarrow> T \<subseteq> T' \<Longrightarrow> refresh_inv M F h op T' d"
  by (auto simp: refresh_inv_def)

lemma refresh_inv_same:
  assumes "refresh_inv M F h op T d" "tables_ok d'" "d_files d' = d_files d" "d_installed d' = d_installed d" "not_completed op d'"
  shows "refresh_inv M F h op T d'"
  using assms by (simp add: refresh_inv_def)

lemma delete_installed_fields [simp]:
  "d_operations (delete_installed i d) = d_operations d" "d_files (delete_installed i d) = d_files d"
  "d_settings (delete_installed i d) = d_settings d"
  by (simp_all add: delete_installed_def)

text \<open>The actions of a refresh.\<close>

lemma inv_rows:
  assumes "refresh_inv M F h op T d" "tables_ok d'" "d_files d' = d_files d" "d_operations d' = d_operations d"
    "spares M i" "{q \<in> set (d_installed d). in_id q \<noteq> i} \<subseteq> set (d_installed d')"
    "\<And>q. q \<in> set (d_installed d') \<Longrightarrow> q \<in> set (d_installed d) \<and> in_id q \<noteq> i \<or> in_id q = i \<and> settled F h q"
  shows "refresh_inv M F h op T d'"
proof -
  have "M \<subseteq> {q \<in> set (d_installed d). in_id q \<noteq> i}"
    using assms(1,5) by (auto simp: refresh_inv_def spares_def)
  with assms(6) have "M \<subseteq> set (d_installed d')" by blast
  moreover have "settled F h q \<or> q \<in> T" if "q \<in> set (d_installed d')" "in_source q = source_user_folder" for q
    using assms(7) [OF that(1)] that(2) assms(1) by (auto simp: refresh_inv_def)
  ultimately show ?thesis using assms(1-4) not_completed_same [OF assms(4), of op] by (simp add: refresh_inv_def)
qed

lemma inv_delete:
  assumes "refresh_inv M F h op T d" "spares M i"
  shows "refresh_inv M F h op T (perform (Delete_installed i) d)"
    "r \<in> set (d_installed (perform (Delete_installed i) d)) \<Longrightarrow> in_id r \<noteq> i"
proof -
  have "tables_ok (perform (Delete_installed i) d)"
    using assms(1) by (intro tables_ok_perform) (simp add: refresh_inv_def)
  then show "refresh_inv M F h op T (perform (Delete_installed i) d)"
    by (intro inv_rows [OF assms(1) _ _ _ assms(2)]) (auto simp: delete_installed_def)
qed (simp add: delete_installed_def)

lemma needs_verification_fields [simp]:
  "d_files (needs_verification i d) = d_files d" "d_operations (needs_verification i d) = d_operations d"
  by (simp_all add: needs_verification_def)

lemma needs_verification_rows:
  "d_installed (needs_verification i d)
     = map (\<lambda>r. if in_id r = i then r\<lparr>in_needs_verification := True\<rparr> else r) (d_installed d)"
  by (simp add: needs_verification_def update_installed_def)

lemma inv_mark:
  assumes "refresh_inv M F h op T d" "spares M i"
  shows "refresh_inv M F h op T (perform (Needs_verification i) d)"
    "r \<in> set (d_installed (perform (Needs_verification i) d)) \<Longrightarrow> in_id r = i \<Longrightarrow> settled F h r"
proof -
  have tables: "tables_ok (needs_verification i d)"
    using assms(1) tables_ok_perform [of d "Needs_verification i"] by (simp add: refresh_inv_def)
  have new: "q \<in> set (d_installed d) \<and> in_id q \<noteq> i \<or> in_id q = i \<and> settled F h q"
    if "q \<in> set (d_installed (needs_verification i d))" for q
    using that by (auto simp: needs_verification_rows settled_def split: if_splits)
  have old: "{q \<in> set (d_installed d). in_id q \<noteq> i} \<subseteq> set (d_installed (needs_verification i d))"
  proof
    fix q assume "q \<in> {q \<in> set (d_installed d). in_id q \<noteq> i}"
    then have q: "q \<in> set (d_installed d)" "in_id q \<noteq> i" by simp_all
    show "q \<in> set (d_installed (needs_verification i d))"
      unfolding needs_verification_rows set_map by (rule image_eqI [OF _ q(1)]) (use q(2) in simp)
  qed
  show "refresh_inv M F h op T (perform (Needs_verification i) d)"
    unfolding perform.simps
    by (rule inv_rows [OF assms(1) tables _ _ assms(2) old new]) (simp_all only: needs_verification_fields)
  show "settled F h r" if "r \<in> set (d_installed (perform (Needs_verification i) d))" "in_id r = i"
    using new [of r] that by simp
qed

lemma upsert_rows:
  assumes "in_source r = source_user_folder" "\<not> in_needs_verification r"
  shows "d_installed (upsert_user_folder_row r d) =
     (if find_installed (in_id r) d = None then d_installed d @ [r]
      else map (\<lambda>q. if in_id q = in_id r then r else q) (d_installed d))"
proof -
  have "r\<lparr>in_source := source_user_folder, in_needs_verification := False\<rparr> = r" using assms by simp
  then show ?thesis by (simp add: upsert_user_folder_row_def Let_def update_installed_def)
qed

lemma inv_upsert:
  assumes "refresh_inv M F h op T d" "spares M (in_id r)" "describes F h r" "in_source r = source_user_folder"
    "\<not> in_needs_verification r"
  shows "refresh_inv M F h op T (perform (Upsert_user_folder r) d)"
    "q \<in> set (d_installed (perform (Upsert_user_folder r) d)) \<Longrightarrow> in_id q = in_id r \<Longrightarrow> settled F h q"
proof -
  note rows = upsert_rows [OF assms(4,5), of d]
  have settled: "settled F h r" using assms(3) by (simp add: settled_def)
  have new: "q \<in> set (d_installed d) \<and> in_id q \<noteq> in_id r \<or> in_id q = in_id r \<and> settled F h q"
    if "q \<in> set (d_installed (upsert_user_folder_row r d))" for q
  proof (cases "find_installed (in_id r) d = None")
    case True
    then have "\<forall>x \<in> set (d_installed d). in_id x \<noteq> in_id r" by (auto simp: find_installed_None image_iff)
    with that settled True show ?thesis by (auto simp: rows)
  next
    case False
    with that settled show ?thesis by (auto simp: rows split: if_splits)
  qed
  have old: "{q \<in> set (d_installed d). in_id q \<noteq> in_id r} \<subseteq> set (d_installed (upsert_user_folder_row r d))"
    by (auto simp: rows image_iff)
  have "tables_ok (perform (Upsert_user_folder r) d)"
    using assms(1) by (intro tables_ok_perform) (simp add: refresh_inv_def)
  with new old show "refresh_inv M F h op T (perform (Upsert_user_folder r) d)"
    by (intro inv_rows [OF assms(1) _ _ _ assms(2)]) simp_all
  show "settled F h q" if "q \<in> set (d_installed (perform (Upsert_user_folder r) d))" "in_id q = in_id r"
    using new [of q] that by auto
qed

lemma refresh_inv_books:
  assumes "refresh_inv M F h op T d" "d_files (perform a d) = d_files d" "d_installed (perform a d) = d_installed d"
    "not_completed op (perform a d)"
  shows "refresh_inv M F h op T (perform a d)"
  using assms tables_ok_perform [of d a] by (simp add: refresh_inv_def)

lemma inv_books:
  assumes "refresh_inv M F h op T d"
  shows "refresh_inv M F h op T (perform (Deselect i) d)" "refresh_inv M F h op T (perform (Unload_if i) d)"
    "refresh_inv M F h op T (perform (Set_items j k n t) d)" "refresh_inv M F h op T (perform (Set_result j v) d)"
    "st \<noteq> ''completed'' \<Longrightarrow> refresh_inv M F h op T (perform (Update_operation j st e c b t) d)"
proof -
  from assms have ok: "not_completed op d" by (simp add: refresh_inv_def)
  show "refresh_inv M F h op T (perform (Deselect i) d)"
    by (rule refresh_inv_books [OF assms]) (use ok in \<open>simp_all add: deselect_def not_completed_def find_operation_def\<close>)
  show "refresh_inv M F h op T (perform (Unload_if i) d)"
    by (rule refresh_inv_books [OF assms]) (use ok in \<open>simp_all add: unload_if_def not_completed_def find_operation_def\<close>)
  show "refresh_inv M F h op T (perform (Set_items j k n t) d)"
    by (rule refresh_inv_books [OF assms]) (auto simp: set_progress_items_def intro!: not_completed_update [OF ok])
  show "refresh_inv M F h op T (perform (Set_result j v) d)"
    by (rule refresh_inv_books [OF assms]) (auto simp: set_operation_result_def intro!: not_completed_update [OF ok])
  show "refresh_inv M F h op T (perform (Update_operation j st e c b t) d)" if "st \<noteq> ''completed''"
    by (rule refresh_inv_books [OF assms])
      (use that in \<open>auto simp: update_operation_with_code_def intro!: not_completed_update [OF ok]\<close>)
qed

subsection \<open>The steps of a refresh\<close>

lemma refresh_inv_any: "refresh_inv M F h op T d \<Longrightarrow> refresh_inv M F h op UNIV d"
  by (rule refresh_inv_mono) auto

lemma refresh_inv_drop:
  assumes "refresh_inv M F h op (insert r T) d" "\<And>q. q \<in> set (d_installed d) \<Longrightarrow> in_id q = in_id r \<Longrightarrow> settled F h q"
  shows "refresh_inv M F h op T d"
  using assms unfolding refresh_inv_def by blast

lemma refresh_inv_settled: "refresh_inv M F h op (insert r T) d \<Longrightarrow> settled F h r \<Longrightarrow> refresh_inv M F h op T d"
  unfolding refresh_inv_def by blast

lemma triple_items: "triple (refresh_inv M F h op T) (set_items_task op' k n) (\<lambda>_. refresh_inv M F h op T) E"
  unfolding set_items_task_def
  by (rule triple_ignore, rule triple_statement) (assumption | rule inv_books)+

lemma triple_unregister:
  assumes "spares M i"
  shows "triple (refresh_inv M F h op T) (unregister_and_deselect i)
    (\<lambda>_ d. refresh_inv M F h op T d \<and> (\<forall>r \<in> set (d_installed d). in_id r \<noteq> i)) (refresh_inv M F h op UNIV)"
  unfolding unregister_and_deselect_def
proof (rule triple_then)
  show "triple (refresh_inv M F h op T)
      (act_torn (\<lambda>e d. if se_torn e = 0 then [] else [Delete_installed i]) (\<lambda>e d. Inr ()) (\<lambda>e d. [Delete_installed i, Deselect i]))
      (\<lambda>_ d. refresh_inv M F h op T d \<and> (\<forall>r \<in> set (d_installed d). in_id r \<noteq> i)) (refresh_inv M F h op UNIV)"
  proof (rule triple_act_torn)
    fix e d assume I: "refresh_inv M F h op T d"
    note D = inv_delete [OF I assms]
    show "refresh_inv M F h op UNIV (performs (if se_torn e = 0 then [] else [Delete_installed i]) d)"
      using refresh_inv_any [OF I] refresh_inv_any [OF D(1)] by simp
    fix x :: unit
    have "d_installed (deselect i d') = d_installed d'" for d' by (simp add: deselect_def)
    then show "refresh_inv M F h op T (performs [Delete_installed i, Deselect i] d)
        \<and> (\<forall>r \<in> set (d_installed (performs [Delete_installed i, Deselect i] d)). in_id r \<noteq> i)"
      using D(2) inv_books(1) [OF D(1), of i] by simp
  qed simp
  have "d_installed (unload_if i d') = d_installed d'" for d' by (simp add: unload_if_def)
  then show "triple (\<lambda>d. refresh_inv M F h op T d \<and> (\<forall>r \<in> set (d_installed d). in_id r \<noteq> i))
      (t_ignore (statement (\<lambda>e. Unload_if i)))
      (\<lambda>_ d. refresh_inv M F h op T d \<and> (\<forall>r \<in> set (d_installed d). in_id r \<noteq> i)) (refresh_inv M F h op UNIV)"
    by (intro triple_ignore triple_statement) (use inv_books(2) in auto)
qed

definition hashed :: "(string \<Rightarrow> file_state option) \<Rightarrow> (byte list \<Rightarrow> string) \<Rightarrow> string \<Rightarrow> nat \<Rightarrow> string \<Rightarrow> bool" where
  "hashed F h p bytes hash \<longleftrightarrow> (\<exists>c. F p = Some c \<and> bytes = file_size c \<and> hash = h (fi_bytes c))"

lemma triple_hash_and_probe:
  "triple (refresh_inv M F h op T) (hash_and_probe h p)
     (\<lambda>(bytes, hash, probe) d. refresh_inv M F h op T d \<and> hashed F h p bytes hash) (refresh_inv M F h op T)"
proof -
  let ?I = "refresh_inv M F h op T"
  let ?sized = "\<lambda>bytes d. ?I d \<and> (\<exists>c. F p = Some c \<and> bytes = file_size c)"
  have files: "d_files d = F" if "?I d" for d using that by (simp add: refresh_inv_def)
  have probe: "triple (\<lambda>d. ?I d \<and> A) (probe_file p) (\<lambda>_ d. ?I d \<and> A) ?I" for A
    unfolding probe_file_def
  proof (rule triple_catch [where F = "\<lambda>d. ?I d \<and> A"])
    show "triple (\<lambda>d. ?I d \<and> A) (t_bind (file_at p) (\<lambda>f. t_lift (probe_gguf_file (Some (fi_bytes f)))))
        (\<lambda>_ d. ?I d \<and> A) (\<lambda>d. ?I d \<and> A)"
      by (rule triple_bind [where Q = "\<lambda>_ d. ?I d \<and> A"]; rule triple_file_at triple_lift; simp)
  qed
  have mtime: "triple (\<lambda>d. ?I d \<and> A) (mtime_of p) (\<lambda>_ d. ?I d \<and> A) ?I" for A
    by (rule triple_mtime_of) simp
  have rest: "triple (\<lambda>d. ?I d \<and> hashed F h p bytes hash)
      (t_bind (probe_file p) (\<lambda>probe. t_bind (mtime_of p) (\<lambda>after.
       t_bind (if before \<noteq> after then t_return True else t_bind (size_of p) (\<lambda>again. t_return (again \<noteq> bytes))) (\<lambda>changed.
       if changed then t_fail msg else t_return (bytes, hash, probe)))))
      (\<lambda>(bytes, hash, probe) d. ?I d \<and> hashed F h p bytes hash) ?I" for bytes hash before msg
  proof (rule triple_bind [OF probe], rule triple_bind [OF mtime])
    fix pr and after :: int
    have again: "triple (\<lambda>d. ?I d \<and> A) (t_bind (size_of p) (\<lambda>again. t_return (again \<noteq> bytes))) (\<lambda>_ d. ?I d \<and> A) ?I" for A
      by (rule triple_bind [where Q = "\<lambda>_ d. ?I d \<and> A"]; rule triple_size_of triple_return; simp)
    have "triple (\<lambda>d. ?I d \<and> A)
        (if before \<noteq> after then t_return True else t_bind (size_of p) (\<lambda>again. t_return (again \<noteq> bytes))) (\<lambda>_ d. ?I d \<and> A) ?I" for A
      by (rule triple_cases(1)) (auto intro: triple_return again)
    then show "triple (\<lambda>d. ?I d \<and> hashed F h p bytes hash)
        (t_bind (if before \<noteq> after then t_return True else t_bind (size_of p) (\<lambda>again. t_return (again \<noteq> bytes))) (\<lambda>changed.
         if changed then t_fail msg else t_return (bytes, hash, pr)))
        (\<lambda>(bytes, hash, probe) d. ?I d \<and> hashed F h p bytes hash) ?I"
      by (rule triple_bind, intro triple_cases(1)) (auto intro: triple_return triple_fail)
  qed
  show ?thesis unfolding hash_and_probe_def
  proof (rule triple_bind [where Q = ?sized], goal_cases)
    case 1
    show ?case by (rule triple_size_of) (use files in auto)
  next
    case (2 bytes)
    show ?case
    proof (rule triple_bind [OF mtime], rule triple_bind [OF _ rest])
      show "triple (?sized bytes) (sha256_of h p) (\<lambda>hash d. ?I d \<and> hashed F h p bytes hash) ?I"
        by (rule triple_sha256_of) (use files in \<open>auto simp: hashed_def\<close>)
    qed
  qed
qed

definition dated :: "(string \<Rightarrow> file_state option) \<Rightarrow> string \<Rightarrow> int option \<Rightarrow> bool" where
  "dated F p m \<longleftrightarrow> (\<forall>c. F p = Some c \<longrightarrow> m = fi_mtime c \<or> m = None)"

lemma triple_file_mtime:
  "triple (refresh_inv M F h op T) (file_mtime_ms p)
     (\<lambda>m d. refresh_inv M F h op T d \<and> dated F p m) E"
proof -
  let ?I = "refresh_inv M F h op T"
  have "triple ?I (t_catch (file_at p)) (\<lambda>r d. ?I d \<and> (\<forall>f. r = Inr f \<longrightarrow> F p = Some f)) E"
    by (rule triple_catch [where F = ?I], rule triple_file_at) (auto simp: refresh_inv_def)
  then show ?thesis unfolding file_mtime_ms_def
    by (rule triple_bind) (auto simp: dated_def intro!: triple_return split: sum.split)
qed

definition no_custom :: "installed set \<Rightarrow> bool" where
  "no_custom M \<longleftrightarrow> (\<forall>r \<in> M. strip_prefix ''custom-'' (in_id r) = None)"

lemma spares_custom: "no_custom M \<Longrightarrow> spares M (probe_id p hash pr)"
proof -
  have "strip_prefix ''custom-'' (probe_id p hash pr) \<noteq> None" by (simp add: probe_id_def custom_model_id_def)
  moreover assume "no_custom M"
  ultimately show ?thesis unfolding no_custom_def spares_def by (metis imageE)
qed

lemma new_rows:
  assumes "hashed F h p bytes hash" "dated F p mtime"
  shows "describes F h (catalog_row i p hash bytes mtime f)" "describes F h (custom_row p hash bytes mtime pr)"
  using assms by (auto simp: hashed_def dated_def describes_def catalog_row_def custom_row_def)

lemma new_rows_sel [simp]:
  "in_id (catalog_row i p hash bytes mtime f) = i" "in_source (catalog_row i p hash bytes mtime f) = source_user_folder"
  "\<not> in_needs_verification (catalog_row i p hash bytes mtime f)"
  "in_id (custom_row p hash bytes mtime pr) = probe_id p hash pr" "in_source (custom_row p hash bytes mtime pr) = source_user_folder"
  "\<not> in_needs_verification (custom_row p hash bytes mtime pr)"
  by (simp_all add: catalog_row_def custom_row_def)

lemma triple_upsert:
  assumes "spares M (in_id r)" "describes F h r" "in_source r = source_user_folder" "\<not> in_needs_verification r"
  shows "triple (refresh_inv M F h op T) (statement (\<lambda>e. Upsert_user_folder r))
    (\<lambda>_ d. refresh_inv M F h op T d \<and> (\<forall>q \<in> set (d_installed d). in_id q = in_id r \<longrightarrow> settled F h q))
    (refresh_inv M F h op UNIV)"
proof (rule triple_statement)
  fix d assume I: "refresh_inv M F h op T d"
  from inv_upsert [OF I assms]
  show "refresh_inv M F h op T (perform (Upsert_user_folder r) d) \<and>
      (\<forall>q \<in> set (d_installed (perform (Upsert_user_folder r) d)). in_id q = in_id r \<longrightarrow> settled F h q)" by blast
qed (rule refresh_inv_any)

lemma triple_mark:
  assumes "spares M i"
  shows "triple (refresh_inv M F h op T) (statement (\<lambda>e. Needs_verification i))
    (\<lambda>_ d. refresh_inv M F h op T d \<and> (\<forall>q \<in> set (d_installed d). in_id q = i \<longrightarrow> settled F h q))
    (refresh_inv M F h op UNIV)"
proof (rule triple_statement)
  fix d assume I: "refresh_inv M F h op T d"
  from inv_mark [OF I assms]
  show "refresh_inv M F h op T (perform (Needs_verification i) d) \<and>
      (\<forall>q \<in> set (d_installed (perform (Needs_verification i) d)). in_id q = i \<longrightarrow> settled F h q)" by blast
qed (rule refresh_inv_any)

text \<open>After each of these statements the row checked is settled or gone.\<close>

lemma triple_dropped:
  assumes "triple (refresh_inv M F h op (insert r T)) m
      (\<lambda>_ d. refresh_inv M F h op (insert r T) d \<and> (\<forall>q \<in> set (d_installed d). in_id q = in_id r \<longrightarrow> settled F h q)) E"
  shows "triple (refresh_inv M F h op (insert r T)) (t_then m (t_return s)) (\<lambda>_. refresh_inv M F h op T) E"
  by (rule triple_then [OF assms], rule triple_return) (blast intro: refresh_inv_drop)

lemma triple_gone:
  assumes "spares M (in_id r)"
  shows "triple (refresh_inv M F h op (insert r T)) (t_then (unregister_and_deselect (in_id r)) (t_return s))
    (\<lambda>_. refresh_inv M F h op T) (refresh_inv M F h op UNIV)"
  by (rule triple_dropped, rule triple_mono [OF triple_unregister [OF assms]]) auto

lemma triple_register_changed:
  assumes "hashed F h (in_path r) bytes hash" "dated F (in_path r) mtime" "spares M (in_id r)" "no_custom M"
  shows "triple (refresh_inv M F h op (insert r T)) (register_changed catalog r mtime (bytes, hash, probe) s)
    (\<lambda>_. refresh_inv M F h op T) (refresh_inv M F h op UNIV)"
proof (cases "catalog_match_by_hash catalog bytes hash")
  case (Some mf)
  obtain m f where mf: "mf = (m, f)" by force
  have "triple (refresh_inv M F h op (insert r T))
      (statement (\<lambda>e. Upsert_user_folder (catalog_row (in_id r) (in_path r) hash bytes mtime f)))
      (\<lambda>_ d. refresh_inv M F h op (insert r T) d \<and> (\<forall>q \<in> set (d_installed d). in_id q = in_id r \<longrightarrow> settled F h q))
      (refresh_inv M F h op UNIV)"
    using triple_upsert [of M "catalog_row (in_id r) (in_path r) hash bytes mtime f"] new_rows(1) [OF assms(1,2)] assms(3) by simp
  from triple_dropped [OF this] show ?thesis by (simp add: register_changed_def Some mf Let_def)
next
  case None
  show ?thesis
  proof (cases probe)
    case (Inl reason)
    with None triple_gone [OF assms(3)] show ?thesis by (simp add: register_changed_def Let_def)
  next
    case (Inr pr)
    let ?row = "custom_row (in_path r) hash bytes mtime pr"
    have up: "triple (refresh_inv M F h op (insert r T)) (statement (\<lambda>e. Upsert_user_folder ?row))
        (\<lambda>_ d. refresh_inv M F h op (insert r T) d \<and>
           (\<forall>q \<in> set (d_installed d). in_id q = probe_id (in_path r) hash pr \<longrightarrow> settled F h q)) (refresh_inv M F h op UNIV)"
      using triple_upsert [of M ?row] new_rows(2) [OF assms(1,2)] spares_custom [OF assms(4)] by simp
    have old: "triple (\<lambda>d. refresh_inv M F h op (insert r T) d \<and>
           (\<forall>q \<in> set (d_installed d). in_id q = probe_id (in_path r) hash pr \<longrightarrow> settled F h q))
        (t_when (probe_id (in_path r) hash pr \<noteq> in_id r) (unregister_and_deselect (in_id r)))
        (\<lambda>_. refresh_inv M F h op T) (refresh_inv M F h op UNIV)"
      by (rule triple_when, rule triple_mono [OF triple_unregister [OF assms(3)]]) (auto intro: refresh_inv_drop)
    have gone: "triple (refresh_inv M F h op T) (t_return x) (\<lambda>_. refresh_inv M F h op T) (refresh_inv M F h op UNIV)" for x :: drop_scan
      by (rule triple_return)
    have "triple (refresh_inv M F h op (insert r T))
        (t_then (statement (\<lambda>e. Upsert_user_folder ?row))
          (t_then (t_when (probe_id (in_path r) hash pr \<noteq> in_id r) (unregister_and_deselect (in_id r))) (t_return x)))
        (\<lambda>_. refresh_inv M F h op T) (refresh_inv M F h op UNIV)" for x :: drop_scan
      by (rule triple_then [OF up triple_then [OF old gone]])
    with None Inr show ?thesis by (simp add: register_changed_def Let_def triple_gone [OF assms(3)])
  qed
qed

text \<open>A row that is not hashed again must be honest: if size and time are those of the file, so is the hash.\<close>

definition honest :: "(string \<Rightarrow> file_state option) \<Rightarrow> (byte list \<Rightarrow> string) \<Rightarrow> installed \<Rightarrow> bool" where
  "honest F h r \<longleftrightarrow>
     (\<forall>c. \<not> in_needs_verification r \<and> F (in_path r) = Some c \<and> in_size_bytes r = Some (file_size c) \<and> dated F (in_path r) (in_mtime_ms r)
        \<longrightarrow> in_sha256 r = h (fi_bytes c))"

lemma honest_settled:
  assumes "honest F h r" "\<not> in_needs_verification r" "F (in_path r) = Some c" "in_size_bytes r = Some (file_size c)" "dated F (in_path r) (in_mtime_ms r)"
  shows "settled F h r"
  using assms by (auto simp: honest_def settled_def describes_def dated_def)

lemma triple_check_row:
  assumes "spares M (in_id r)" "no_custom M" "honest F h r"
  shows "triple (refresh_inv M F h op (insert r T)) (check_row h canonical catalog r s)
    (\<lambda>_. refresh_inv M F h op T) (refresh_inv M F h op UNIV)"
proof -
  let ?I = "refresh_inv M F h op (insert r T)" and ?J = "\<lambda>_ :: drop_scan. refresh_inv M F h op T" and ?E = "refresh_inv M F h op UNIV"
  let ?p = "in_path r"
  have unreadable: "triple ?I (t_then (statement (\<lambda>e. Needs_verification (in_id r))) (t_return x)) ?J ?E" for x
    by (rule triple_dropped [OF triple_mark [OF assms(1)]])
  have checked: "triple (\<lambda>d. ?I d \<and> (\<forall>bytes hash probe. c = Inr (bytes, hash, probe) \<longrightarrow> hashed F h ?p bytes hash))
      (case c of
         Inl reason \<Rightarrow> t_then (statement (\<lambda>e. Needs_verification (in_id r))) (t_return (l reason))
       | Inr c \<Rightarrow> t_bind (register_changed catalog r mtime c s) (\<lambda>s. t_return (k s))) ?J ?E"
    if "dated F ?p mtime" for c mtime l k
  proof (rule triple_fact)
    assume h: "\<forall>bytes hash probe. c = Inr (bytes, hash, probe) \<longrightarrow> hashed F h ?p bytes hash"
    show "triple ?I (case c of
         Inl reason \<Rightarrow> t_then (statement (\<lambda>e. Needs_verification (in_id r))) (t_return (l reason))
       | Inr c \<Rightarrow> t_bind (register_changed catalog r mtime c s) (\<lambda>s. t_return (k s))) ?J ?E"
    proof (cases c)
      case (Inr x)
      obtain bytes hash probe where x: "x = (bytes, hash, probe)" by (cases x)
      with h Inr have "hashed F h ?p bytes hash" by simp
      from triple_register_changed [OF this that assms(1,2)]
      have "triple ?I (t_bind (register_changed catalog r mtime x s) (\<lambda>s. t_return (k s))) ?J ?E"
        unfolding x by (rule triple_bind) (rule triple_return)
      then show ?thesis by (simp add: Inr)
    qed (simp add: unreadable)
  qed
  have again: "triple ?I (t_catch (hash_and_probe h ?p))
      (\<lambda>c d. ?I d \<and> (\<forall>bytes hash probe. c = Inr (bytes, hash, probe) \<longrightarrow> hashed F h ?p bytes hash)) ?E"
    by (rule triple_catch, rule triple_mono [OF triple_hash_and_probe]) auto
  have stat: "triple ?I (stat_file ?p) (\<lambda>c d. ?I d \<and> (\<forall>f. c = Inr (Some f) \<longrightarrow> F ?p = Some f)) ?E"
    unfolding stat_file_def
    by (rule triple_catch [where F = ?I], rule triple_act) (auto simp: refresh_inv_def)
  have found: "triple ?I (t_bind (file_mtime_ms ?p) (\<lambda>mtime.
       if \<not> in_needs_verification r \<and> in_size_bytes r = Some (file_size f) \<and> in_mtime_ms r = mtime
       then t_return (add_known (canonical ?p) s)
       else t_bind (t_catch (hash_and_probe h ?p)) (\<lambda>checked. case checked of
           Inl reason \<Rightarrow> t_then (statement (\<lambda>e. Needs_verification (in_id r))) (t_return (l reason))
         | Inr c \<Rightarrow> t_bind (register_changed catalog r mtime c s) (\<lambda>s. t_return (k s))))) ?J ?E"
    if f: "F ?p = Some f" for f l k
  proof (rule triple_bind [OF triple_file_mtime], rule triple_fact, rule triple_cases(1))
    fix m assume m: "dated F ?p m" "\<not> in_needs_verification r \<and> in_size_bytes r = Some (file_size f) \<and> in_mtime_ms r = m"
    have "settled F h r" by (rule honest_settled [OF assms(3) _ f]) (use m in auto)
    then show "triple ?I (t_return (add_known (canonical ?p) s)) ?J ?E"
      by (intro triple_return) (rule refresh_inv_settled)
  next
    fix m assume "dated F ?p m"
    then show "triple ?I (t_bind (t_catch (hash_and_probe h ?p)) (\<lambda>checked. case checked of
           Inl reason \<Rightarrow> t_then (statement (\<lambda>e. Needs_verification (in_id r))) (t_return (l reason))
         | Inr c \<Rightarrow> t_bind (register_changed catalog r m c s) (\<lambda>s. t_return (k s)))) ?J ?E"
      by (intro triple_bind [OF again]) (rule checked)
  qed
  show ?thesis unfolding check_row_def Let_def
  proof (rule triple_bind [OF stat], rule triple_fact)
    fix c :: "string + file_state option" assume c: "\<forall>f. c = Inr (Some f) \<longrightarrow> F ?p = Some f"
    show "triple ?I
      (case c of
         Inl reason \<Rightarrow> t_then (statement (\<lambda>e. Needs_verification (in_id r)))
            (t_return (add_known (canonical ?p) (add_unsupported (retryable ?p reason) s)))
       | Inr None \<Rightarrow> t_then (unregister_and_deselect (in_id r))
            (t_return (add_removed (JObj [(''id'', JStr (in_id r)), (''path'', JStr ?p)]) s))
       | Inr (Some f) \<Rightarrow> t_bind (file_mtime_ms ?p) (\<lambda>mtime.
           if \<not> in_needs_verification r \<and> in_size_bytes r = Some (file_size f) \<and> in_mtime_ms r = mtime
           then t_return (add_known (canonical ?p) s)
           else t_bind (t_catch (hash_and_probe h ?p)) (\<lambda>checked. case checked of
               Inl reason \<Rightarrow> t_then (statement (\<lambda>e. Needs_verification (in_id r)))
                 (t_return (add_known (canonical ?p) (add_unsupported (retryable ?p reason) s)))
             | Inr c \<Rightarrow> t_bind (register_changed catalog r mtime c s) (\<lambda>s. t_return (add_known (canonical ?p) s)))))
      ?J ?E"
    proof (cases c)
      case (Inl reason)
      then show ?thesis by (simp add: unreadable)
    next
      case (Inr x)
      show ?thesis
      proof (cases x)
        case None
        with Inr show ?thesis by (simp add: triple_gone [OF assms(1)])
      next
        case (Some f)
        with Inr c have f: "F ?p = Some f" by simp
        show ?thesis unfolding Inr Some sum.case option.case by (rule found [OF f])
      qed
    qed
  qed
qed

lemma triple_check_rows:
  assumes "\<forall>r \<in> set rows. spares M (in_id r) \<and> honest F h r" "no_custom M"
  shows "triple (refresh_inv M F h op (set rows)) (check_rows h canonical catalog op' n rows s)
    (\<lambda>_. refresh_inv M F h op {}) (refresh_inv M F h op UNIV)"
  using assms(1)
proof (induction rows arbitrary: s)
  case Nil
  show ?case by (simp add: triple_return)
next
  case (Cons r rows)
  have row: "triple (refresh_inv M F h op (insert r (set rows))) (check_row h canonical catalog r s)
      (\<lambda>_. refresh_inv M F h op (set rows)) (refresh_inv M F h op UNIV)"
    by (rule triple_check_row) (use Cons.prems assms(2) in auto)
  have rest: "triple (refresh_inv M F h op (set rows)) (check_rows h canonical catalog op' n rows s')
      (\<lambda>_. refresh_inv M F h op {}) (refresh_inv M F h op UNIV)" for s'
    by (rule Cons.IH) (use Cons.prems in auto)
  show ?case
    unfolding check_rows.simps Let_def list.set
    by (rule triple_bind [OF row], rule triple_then [OF triple_items rest])
qed

lemma managed_spares:
  assumes "refresh_inv M F h op T d" "\<forall>r \<in> M. downloaded_or_uploaded r"
    "\<not> (case find_installed i d of Some r \<Rightarrow> in_source r = source_catalog_download \<or> in_source r = source_import | None \<Rightarrow> False)"
  shows "spares M i"
proof -
  have "in_id r \<noteq> i" if "r \<in> M" for r
  proof
    assume i: "in_id r = i"
    from assms(1) that have r: "r \<in> set (d_installed d)" "distinct (map in_id (d_installed d))"
      by (auto simp: refresh_inv_def tables_ok_def)
    with i find_installed_None [of i d] obtain q where q: "find_installed i d = Some q" by fastforce
    with find_installed_Some [OF q] r i have "q = r" by (metis inj_onD distinct_map)
    with q assms(2,3) that show False by (auto simp: downloaded_or_uploaded_def)
  qed
  then show ?thesis by (auto simp: spares_def)
qed

lemma triple_register_candidate:
  assumes "hashed F h p bytes hash" "no_custom M" "\<forall>r \<in> M. downloaded_or_uploaded r"
  shows "triple (refresh_inv M F h op T) (register_candidate catalog p (bytes, hash, probe) s)
    (\<lambda>_. refresh_inv M F h op T) (refresh_inv M F h op UNIV)"
proof -
  let ?I = "refresh_inv M F h op T" and ?E = "refresh_inv M F h op UNIV"
  have insert: "triple ?I (t_bind (file_mtime_ms p) (\<lambda>mtime. t_then (statement (\<lambda>e. Upsert_user_folder (row mtime))) (t_return s'))) (\<lambda>_. ?I) ?E"
    if "\<And>m. dated F p m \<Longrightarrow> spares M (in_id (row m)) \<and> describes F h (row m) \<and> in_source (row m) = source_user_folder
        \<and> \<not> in_needs_verification (row m)" for row and s' :: drop_scan
  proof (rule triple_bind [OF triple_file_mtime], rule triple_fact)
    fix m assume "dated F p m"
    from that [OF this] have "triple ?I (statement (\<lambda>e. Upsert_user_folder (row m)))
      (\<lambda>_ d. ?I d \<and> (\<forall>q \<in> set (d_installed d). in_id q = in_id (row m) \<longrightarrow> settled F h q)) ?E"
      by (intro triple_upsert) auto
    then show "triple ?I (t_then (statement (\<lambda>e. Upsert_user_folder (row m))) (t_return s')) (\<lambda>_. ?I) ?E"
      by (rule triple_then) (auto intro: triple_return)
  qed
  have nothing: "triple ?I (t_return s' :: (string, drop_scan) task) (\<lambda>_. ?I) ?E" for s' by (rule triple_return)
  show ?thesis
  proof (cases "catalog_match_by_hash catalog bytes hash")
    case (Some mf)
    obtain m f where mf: "mf = (m, f)" by force
    have managed: "triple ?I (installed_from_managed_store (cm_slug m)) (\<lambda>b d. ?I d \<and> (\<not> b \<longrightarrow> spares M (cm_slug m))) ?E"
      unfolding installed_from_managed_store_def
      by (rule triple_query) (use managed_spares assms(3) refresh_inv_any in blast)+
    have "triple ?I (t_bind (installed_from_managed_store (cm_slug m)) (\<lambda>managed.
        if managed then t_return s1
        else t_bind (file_mtime_ms p) (\<lambda>mtime.
          t_then (statement (\<lambda>e. Upsert_user_folder (catalog_row (cm_slug m) p hash bytes mtime f))) (t_return s2)))) (\<lambda>_. ?I) ?E"
      for s1 s2 :: drop_scan
    proof (rule triple_bind [OF managed], rule triple_fact, rule triple_cases(1))
      show "triple ?I (t_return s1 :: (string, drop_scan) task) (\<lambda>_. ?I) ?E" by (rule triple_return)
    next
      fix b assume "\<not> b \<longrightarrow> spares M (cm_slug m)" "\<not> b"
      then show "triple ?I (t_bind (file_mtime_ms p) (\<lambda>mtime.
          t_then (statement (\<lambda>e. Upsert_user_folder (catalog_row (cm_slug m) p hash bytes mtime f))) (t_return s2))) (\<lambda>_. ?I) ?E"
        by (intro insert) (simp add: new_rows [OF assms(1)])
    qed
    then show ?thesis by (simp add: register_candidate_def Some mf)
  next
    case None
    have "triple ?I (t_bind (file_mtime_ms p) (\<lambda>mtime.
        t_then (statement (\<lambda>e. Upsert_user_folder (custom_row p hash bytes mtime pr))) (t_return s'))) (\<lambda>_. ?I) ?E" for pr and s' :: drop_scan
      by (intro insert) (simp add: new_rows [OF assms(1)] spares_custom [OF assms(2)])
    then show ?thesis by (simp add: register_candidate_def None triple_return split: sum.split)
  qed
qed

lemma triple_register_candidates:
  assumes "no_custom M" "\<forall>r \<in> M. downloaded_or_uploaded r"
  shows "triple (refresh_inv M F h op T) (register_candidates h catalog op' n ps s)
    (\<lambda>_. refresh_inv M F h op T) (refresh_inv M F h op UNIV)"
proof (induction ps arbitrary: s)
  case Nil
  show ?case by (simp add: triple_return)
next
  case (Cons p ps)
  let ?I = "refresh_inv M F h op T" and ?E = "refresh_inv M F h op UNIV"
  have checked: "triple ?I (t_catch (hash_and_probe h p))
      (\<lambda>c d. ?I d \<and> (\<forall>bytes hash probe. c = Inr (bytes, hash, probe) \<longrightarrow> hashed F h p bytes hash)) ?E"
    by (rule triple_catch, rule triple_mono [OF triple_hash_and_probe]) auto
  have one: "triple ?I (case c of Inl reason \<Rightarrow> t_return (add_unsupported (retryable p reason) s)
      | Inr c \<Rightarrow> register_candidate catalog p c s) (\<lambda>_. ?I) ?E"
    if "\<forall>bytes hash probe. c = Inr (bytes, hash, probe) \<longrightarrow> hashed F h p bytes hash" for c
  proof (cases c)
    case (Inr x)
    obtain bytes hash probe where x: "x = (bytes, hash, probe)" by (cases x)
    with that Inr have "hashed F h p bytes hash" by simp
    with triple_register_candidate [OF _ assms] show ?thesis by (simp add: Inr x)
  qed (simp add: triple_return)
  show ?case
    unfolding register_candidates.simps Let_def
    by (rule triple_bind [OF checked], rule triple_fact, rule triple_bind [OF one], assumption,
        rule triple_then [OF triple_items Cons.IH])
qed

subsection \<open>The whole refresh\<close>

lemma settled_honest: "settled F h r \<Longrightarrow> honest F h r"
  by (auto simp: settled_def describes_def honest_def)

lemma triple_rows:
  assumes "\<forall>r \<in> M. downloaded_or_uploaded r"
  shows "triple (refresh_inv M F h op {r. honest F h r}) registered_user_folder_rows
    (\<lambda>rows d. refresh_inv M F h op (set rows) d \<and> (\<forall>r \<in> set rows. spares M (in_id r) \<and> honest F h r)) (refresh_inv M F h op UNIV)"
  unfolding registered_user_folder_rows_def
proof (rule triple_query)
  fix d assume d: "refresh_inv M F h op {r. honest F h r} d"
  let ?rows = "filter (\<lambda>r. in_source r = source_user_folder) (d_installed d)"
  have "refresh_inv M F h op (set ?rows) d" using d by (auto simp: refresh_inv_def)
  moreover have "spares M (in_id r) \<and> honest F h r" if r: "r \<in> set ?rows" for r
  proof
    from r d settled_honest [of F h r] show "honest F h r" by (auto simp: refresh_inv_def)
    have "in_id q \<noteq> in_id r" if q: "q \<in> M" for q
    proof
      assume "in_id q = in_id r"
      moreover have "q \<in> set (d_installed d)" "r \<in> set (d_installed d)" "inj_on in_id (set (d_installed d))"
        using d q r by (auto simp: refresh_inv_def tables_ok_def distinct_map)
      ultimately have "q = r" by (simp add: inj_on_def)
      with q r assms show False
        by (auto simp: downloaded_or_uploaded_def source_user_folder_def source_catalog_download_def source_import_def)
    qed
    then show "spares M (in_id r)" unfolding spares_def by (metis imageE)
  qed
  ultimately show "refresh_inv M F h op (set ?rows) d \<and> (\<forall>r \<in> set ?rows. spares M (in_id r) \<and> honest F h r)" by blast
qed (rule refresh_inv_any)

lemma triple_scan:
  assumes "no_custom M" "\<forall>r \<in> M. downloaded_or_uploaded r"
  shows "triple (refresh_inv M F h op {r. honest F h r}) (scan_and_register h entry_error canonical catalog op dir)
    (\<lambda>_. refresh_inv M F h op {}) (refresh_inv M F h op UNIV)"
proof -
  let ?I = "refresh_inv M F h op" and ?H = "{r. honest F h r}"
  have entries: "triple (?I ?H) (t_map_err (\<lambda>e. ''Cannot read model folder: '' @ e)
      (act (\<lambda>e d. case se_listing e of Dir_missing \<Rightarrow> Inl ''not found'' | Entries es \<Rightarrow> Inr es) (\<lambda>e d. [])))
      (\<lambda>_. ?I ?H) (?I UNIV)"
    by (rule triple_map_err, rule triple_act) (auto intro: refresh_inv_any)
  have rest: "triple (?I {}) (case candidates entry_error canonical dir entries s of
         (ps, s) \<Rightarrow>
           let n = n0 + length ps in
           t_then (set_items_task op (sn_done s) n)
           (t_bind (register_candidates h catalog op n ps s) (\<lambda>s. t_return (build_result s))))
      (\<lambda>_. ?I {}) (?I UNIV)" for entries s n0
  proof (cases "candidates entry_error canonical dir entries s")
    case (Pair ps s')
    have "triple (?I {}) (t_then (set_items_task op (sn_done s') n)
           (t_bind (register_candidates h catalog op n ps s') (\<lambda>s. t_return (build_result s)))) (\<lambda>_. ?I {}) (?I UNIV)" for n
      by (rule triple_then [OF triple_items], rule triple_bind [OF triple_register_candidates [OF assms]])
        (rule triple_return)
    then show ?thesis by (simp add: Pair Let_def)
  qed
  show ?thesis unfolding scan_and_register_def
  proof (rule triple_bind [OF entries], rule triple_bind [OF triple_rows [OF assms(2)]], rule triple_fact, goal_cases)
    case (1 entries rows)
    show ?case by (rule triple_bind [OF triple_check_rows [OF 1 assms(1)]]) (rule rest)
  qed
qed

definition refreshed ::
    "installed set \<Rightarrow> (string \<Rightarrow> file_state option) \<Rightarrow> (byte list \<Rightarrow> string) \<Rightarrow> string \<Rightarrow> sdata \<Rightarrow> bool" where
  "refreshed M F h op d \<longleftrightarrow>
     d_files d = F \<and> M \<subseteq> set (d_installed d) \<and>
     (completed op d \<longrightarrow> (\<forall>r \<in> set (d_installed d). in_source r = source_user_folder \<longrightarrow> settled F h r))"

lemma refreshed_inv:
  "refresh_inv M F h op T d \<Longrightarrow> refreshed M F h op d"
  "refresh_inv M F h op {} d \<Longrightarrow> refreshed M F h op (perform (Update_operation i st e c b t) d)"
  by (auto simp: refreshed_def refresh_inv_def completed_not [symmetric] update_operation_with_code_def)

lemma triple_run_refresh:
  assumes "no_custom M" "\<forall>r \<in> M. downloaded_or_uploaded r" "\<And>dir. dir_exists dir"
  shows "triple (refresh_inv M F h op {r. honest F h r})
    (run_refresh h entry_error canonical dir_exists catalog default_dir op) (\<lambda>_. refreshed M F h op) (\<lambda>d. False)"
proof -
  let ?I = "refresh_inv M F h op" and ?H = "{r. honest F h r}" and ?Q = "\<lambda>_ :: unit. refreshed M F h op"
  have failed: "triple (?I T) (t_ignore (update_operation_task op ''failed'' e c 0)) ?Q (\<lambda>d. False)" for T e c
  proof -
    have "triple (?I T) (t_ignore (update_operation_task op ''failed'' e c 0)) (\<lambda>_. ?I T) (\<lambda>d. False)"
      by (rule triple_ignore, rule triple_update_operation) (assumption | rule inv_books | simp)+
    then show ?thesis by (rule triple_mono) (auto intro: refreshed_inv)
  qed
  have running: "triple (?I ?H) (t_ignore (update_operation_task op ''running'' None None 0)) (\<lambda>_. ?I ?H) (\<lambda>d. False)"
    by (rule triple_ignore, rule triple_update_operation) (assumption | rule inv_books | simp)+
  have setting: "triple (?I ?H) (t_catch (query user_models_dir_setting)) (\<lambda>_. ?I ?H) (\<lambda>d. False)"
    by (rule triple_catch [where F = "?I ?H"], rule triple_query)
  have drop_scan: "triple (?I ?H) (t_catch (scan_and_register h entry_error canonical catalog op dir))
      (\<lambda>r d. ?I UNIV d \<and> (\<forall>v. r = Inr v \<longrightarrow> ?I {} d)) (\<lambda>d. False)" for dir
    by (rule triple_catch [where F = "?I UNIV"], rule triple_mono [OF triple_scan [OF assms(1,2)]]) (auto intro: refresh_inv_any)
  have finish: "triple (\<lambda>d. ?I UNIV d \<and> (\<forall>v. r = Inr v \<longrightarrow> ?I {} d))
      (case r of
         Inr v \<Rightarrow> t_then (t_ignore (statement (\<lambda>e. Set_result op v))) (t_ignore (update_operation_task op ''completed'' None None 0))
       | Inl e \<Rightarrow> t_ignore (update_operation_task op ''failed'' (Some e) None 0)) ?Q (\<lambda>d. False)" for r :: "string + json"
  proof (cases r)
    case (Inl e)
    with failed [of UNIV] show ?thesis by (simp add: triple_mono)
  next
    case (Inr v)
    have "triple (?I {}) (t_ignore (statement (\<lambda>e. Set_result op v))) (\<lambda>_. ?I {}) (\<lambda>d. False)"
      by (rule triple_ignore, rule triple_statement) (assumption | rule inv_books)+
    moreover have "triple (?I {}) (t_ignore (update_operation_task op ''completed'' None None 0)) ?Q (\<lambda>d. False)"
    proof -
      have "triple (?I {}) (update_operation_task op ''completed'' None None 0) ?Q (refreshed M F h op)"
        by (rule triple_update_operation) (auto intro: refreshed_inv simp del: perform.simps)
      then show ?thesis unfolding triple_def twp_basic by (blast intro: twp_mono)
    qed
    ultimately have "triple (?I {}) (t_then (t_ignore (statement (\<lambda>e. Set_result op v)))
        (t_ignore (update_operation_task op ''completed'' None None 0))) ?Q (\<lambda>d. False)"
      by (rule triple_then)
    then show ?thesis unfolding Inr sum.case by (rule triple_mono) auto
  qed
  have folder: "triple (?I ?H) (case z of
         None \<Rightarrow> t_ignore (update_operation_task op ''failed'' (Some ''user_models_dir is not configured'')
           (Some ''user_models_dir_not_configured'') 0)
       | Some dir \<Rightarrow>
           t_bind (t_catch (if dir_exists dir then scan_and_register h entry_error canonical catalog op dir
             else t_return (build_result nothing_scanned))) (\<lambda>result.
           case result of
             Inr v \<Rightarrow> t_then (t_ignore (statement (\<lambda>e. Set_result op v)))
               (t_ignore (update_operation_task op ''completed'' None None 0))
           | Inl e \<Rightarrow> t_ignore (update_operation_task op ''failed'' (Some e) None 0))) ?Q (\<lambda>d. False)" for z
  proof (cases z)
    case (Some dir)
    show ?thesis unfolding Some option.case if_P [OF assms(3)] by (rule triple_bind [OF drop_scan finish])
  qed (simp add: failed)
  show ?thesis unfolding run_refresh_def
  proof (rule triple_then [OF running], rule triple_bind [OF setting])
    fix c :: "string + string option"
    show "triple (?I ?H) (case c of
        Inl e \<Rightarrow> t_ignore (update_operation_task op ''failed'' (Some (message (internal e))) None 0)
      | Inr setting \<Rightarrow>
          (case or_else setting default_dir of
             None \<Rightarrow> t_ignore (update_operation_task op ''failed'' (Some ''user_models_dir is not configured'')
               (Some ''user_models_dir_not_configured'') 0)
           | Some dir \<Rightarrow>
               t_bind (t_catch (if dir_exists dir then scan_and_register h entry_error canonical catalog op dir
                 else t_return (build_result nothing_scanned))) (\<lambda>result.
               case result of
                 Inr v \<Rightarrow> t_then (t_ignore (statement (\<lambda>e. Set_result op v)))
                   (t_ignore (update_operation_task op ''completed'' None None 0))
               | Inl e \<Rightarrow> t_ignore (update_operation_task op ''failed'' (Some e) None 0)))) ?Q (\<lambda>d. False)"
      by (cases c) (simp_all add: failed folder)
  qed
qed

text \<open>
  C26. A refresh runs alone on an existing folder, and the drop-in rows are honest: a row that would not be
  hashed again, because size and time agree, has the right hash. Whatever fails on the way, it changes no file
  and no row of a model that was downloaded from the catalog or uploaded (a row copied in by an import from the
  user's folders may change, see C28); and when its operation completes, every registered drop-in model is
  marked for verification, or there is a file at its path whose size, hash and time are the recorded ones.
\<close>
theorem refresh_registers_what_is_there:
  assumes "alone w" "tables_ok (ts_data w)" "\<not> completed op (ts_data w)" "\<And>dir. dir_exists dir"
    and "\<forall>r \<in> set (d_installed (ts_data w)). in_source r = source_user_folder \<longrightarrow> honest (d_files (ts_data w)) sha256 r"
    and "\<forall>r \<in> set (d_installed (ts_data w)). downloaded_or_uploaded r \<longrightarrow> strip_prefix ''custom-'' (in_id r) = None"
  shows "let d = ts_data w; d' = ts_data (snd (run_refresh sha256 entry_error canonical dir_exists catalog default_dir op w)) in
    d_files d' = d_files d \<and> (\<forall>r \<in> set (d_installed d). downloaded_or_uploaded r \<longrightarrow> r \<in> set (d_installed d')) \<and>
    (completed op d' \<longrightarrow> (\<forall>r \<in> set (d_installed d'). in_source r = source_user_folder \<longrightarrow> settled (d_files d) sha256 r))"
proof -
  let ?M = "{r \<in> set (d_installed (ts_data w)). downloaded_or_uploaded r}" and ?F = "d_files (ts_data w)"
  obtain r w' where run: "run_refresh sha256 entry_error canonical dir_exists catalog default_dir op w = (r, w')" by force
  have "refresh_inv ?M ?F sha256 op {r. honest ?F sha256 r} (ts_data w)"
    using assms(2,3,5) by (auto simp: refresh_inv_def completed_not)
  moreover have "no_custom ?M" "\<forall>r \<in> ?M. downloaded_or_uploaded r" using assms(6) by (auto simp: no_custom_def)
  ultimately have "case r of Inr x \<Rightarrow> refreshed ?M ?F sha256 op (ts_data w') | Inl e \<Rightarrow> False"
    using tripleD [OF triple_run_refresh [OF _ _ assms(4)] assms(1) _ run] by blast
  then show ?thesis by (auto simp: run refreshed_def Let_def split: sum.splits)
qed

lemma upsert_found:
  assumes "in_source row = source_user_folder" "\<not> in_needs_verification row"
  shows "find_installed (in_id row) (upsert_user_folder_row row d) = Some row"
proof -
  have row: "row\<lparr>in_source := source_user_folder, in_needs_verification := False\<rparr> = row" using assms by simp
  show ?thesis
  proof (cases "find_installed (in_id row) d")
    case None
    then show ?thesis by (simp add: upsert_user_folder_row_def Let_def row find_installed_def find_append)
  next
    case (Some q)
    then have "in_id q = in_id row" by (simp add: find_installed_Some)
    with Some show ?thesis
      by (simp add: upsert_user_folder_row_def Let_def row) (subst find_installed_update, simp_all)
  qed
qed

lemma upsert_catalog_row:
  "find_installed i (perform (Upsert_user_folder (catalog_row i p hash bytes mtime f)) d) = Some (catalog_row i p hash bytes mtime f)"
  using upsert_found [of "catalog_row i p hash bytes mtime f" d] by simp

text \<open>
  C36. A registered file that has been replaced by the file of another catalog model keeps its row's id: the
  row of the one model then carries the hash, size and quant of the other, and counts as verified.
\<close>
theorem replaced_file_keeps_old_id:
  assumes "alone w" "register_changed catalog r mtime (bytes, hash, probe) s w = (Inr s', w')"
    and "catalog_match_by_hash catalog bytes hash = Some (m, f)"
  shows "find_installed (in_id r) (ts_data w') = Some (catalog_row (in_id r) (in_path r) hash bytes mtime f)"
proof -
  have "triple (\<lambda>d. True) (register_changed catalog r mtime (bytes, hash, probe) s)
      (\<lambda>_ d. find_installed (in_id r) d = Some (catalog_row (in_id r) (in_path r) hash bytes mtime f)) (\<lambda>d. True)"
    unfolding register_changed_def Let_def prod.case assms(3) option.case
    by (intro triple_then triple_statement triple_return) (simp_all only: upsert_catalog_row)
  from tripleD [OF this assms(1) _ assms(2)] show ?thesis by simp
qed

text \<open>
  C28. A refresh that finds the stored file of a model imported from another installation takes the model over:
  its row becomes one of the drop-in folder, which is no longer that of a downloaded or uploaded model.
\<close>
theorem refresh_takes_over_import:
  assumes "alone w" "register_candidate catalog p (bytes, hash, probe) s w = (Inr s', w')"
    and "catalog_match_by_hash catalog bytes hash = Some (m, f)"
    and "find_installed (cm_slug m) (ts_data w) = Some r" "in_source r = source_import_user"
  shows "\<exists>row. find_installed (cm_slug m) (ts_data w') = Some row \<and> in_source row = source_user_folder \<and> \<not> downloaded_or_uploaded row"
proof -
  let ?I = "\<lambda>d. find_installed (cm_slug m) d = Some r"
  let ?Q = "\<lambda>_ d. \<exists>mtime. find_installed (cm_slug m) d = Some (catalog_row (cm_slug m) p hash bytes mtime f)"
  have unmanaged: "triple ?I (installed_from_managed_store (cm_slug m)) (\<lambda>x d. ?I d \<and> \<not> x) (\<lambda>d. True)"
    unfolding installed_from_managed_store_def
    by (rule triple_query)
      (simp_all add: assms(5) source_import_user_def source_catalog_download_def source_import_def)
  have mtime: "triple ?I (file_mtime_ms p) (\<lambda>_. ?I) (\<lambda>d. True)"
    unfolding file_mtime_ms_def
    by (rule triple_bind [where Q = "\<lambda>_. ?I"], rule triple_catch [where F = ?I], rule triple_file_at) (simp_all add: triple_return)
  have stored: "triple ?I (t_then (statement (\<lambda>e. Upsert_user_folder (catalog_row (cm_slug m) p hash bytes t f))) (t_return x)) ?Q (\<lambda>d. True)" for t x
    by (rule triple_then [where J = "?Q ()"], rule triple_statement, rule exI, rule upsert_catalog_row, rule TrueI, rule triple_return)
  have "triple ?I (register_candidate catalog p (bytes, hash, probe) s) ?Q (\<lambda>d. True)"
    unfolding register_candidate_def prod.case assms(3) option.case
    by (rule triple_bind [OF unmanaged], rule triple_fact, simp only: if_False, rule triple_bind [OF mtime stored])
  from tripleD [OF this assms(1,4,2)] show ?thesis
    by (auto simp: downloaded_or_uploaded_def source_user_folder_def source_catalog_download_def source_import_def)
qed

definition other_model :: catalog_model where
  "other_model = sample_model\<lparr>cm_slug := ''b'', cm_files := [\<lparr>cf_filename = ''b.gguf'', cf_quant = ''q'', cf_size_bytes = 3, cf_sha256 = ''new''\<rparr>]\<rparr>"

definition replaced_row :: installed where
  "replaced_row = \<lparr>in_id = ''a'', in_path = ''f/a.gguf'', in_sha256 = ''old'', in_quant = Some ''q'', in_filename = Some ''a.gguf'',
     in_size_bytes = Some 2, in_source = source_user_folder, in_custom_name = None, in_custom_arch = None,
     in_custom_languages = None, in_custom_claims = None, in_mtime_ms = Some 1, in_needs_verification = False\<rparr>"

definition kept_row :: installed where
  "kept_row = replaced_row\<lparr>in_id := ''c'', in_source := source_import, in_path := ''f/c.gguf''\<rparr>"

definition refresh_state :: task_state where
  "refresh_state =
     \<lparr>ts_data = \<lparr>d_installed = [kept_row, replaced_row], d_operations = [refresh_operation ''refresh'' ''op'' 1],
        d_settings = [''user_models_dir'' \<mapsto> ''f''],
        d_files = [''f/a.gguf'' \<mapsto> \<lparr>fi_bytes = [1, 2, 3], fi_mtime = Some 5\<rparr>], d_loaded = None\<rparr>,
      ts_script = (\<lambda>_. quiet\<lparr>se_listing := Entries [Some (''a.gguf'', False)]\<rparr>), ts_step = 0, ts_own = [], ts_stage = []\<rparr>"

abbreviation refreshed_state :: task_state where
  "refreshed_state \<equiv> snd (run_refresh (\<lambda>b. ''new'') [] (\<lambda>p. p) (\<lambda>p. True) [other_model] None ''op'' refresh_state)"

lemma refreshed_rows:
  "map_option in_sha256 (find_installed ''a'' (ts_data refreshed_state)) = Some ''new''"
  "map_option o_state (find_operation ''op'' (ts_data refreshed_state)) = Some ''completed''"
  "map_option in_source (find_installed ''a'' (ts_data refreshed_state)) = Some source_user_folder"
  by code_simp+

lemma refresh_state_alone: "alone refresh_state"
  by (simp add: alone_def refresh_state_def quiet_def)

theorem refresh_registers_what_is_there_witness:
  "completed ''op'' (ts_data refreshed_state) \<and> kept_row \<in> set (d_installed (ts_data refreshed_state)) \<and>
   (\<exists>r. find_installed ''a'' (ts_data refreshed_state) = Some r \<and> settled (d_files (ts_data refresh_state)) (\<lambda>b. ''new'') r)"
proof -
  have "tables_ok (ts_data refresh_state)" "\<not> completed ''op'' (ts_data refresh_state)"
    by (simp_all add: refresh_state_def tables_ok_def kept_row_def replaced_row_def completed_def find_operation_def
        refresh_operation_def queued_operation_def)
  moreover have "\<forall>r \<in> set (d_installed (ts_data refresh_state)). in_source r = source_user_folder \<longrightarrow>
      honest (d_files (ts_data refresh_state)) (\<lambda>b. ''new'') r"
    by (simp add: refresh_state_def kept_row_def replaced_row_def honest_def file_size_def source_import_def source_user_folder_def)
  moreover have "\<forall>r \<in> set (d_installed (ts_data refresh_state)). downloaded_or_uploaded r \<longrightarrow> strip_prefix ''custom-'' (in_id r) = None"
    by (simp add: refresh_state_def kept_row_def replaced_row_def)
  moreover have completed: "completed ''op'' (ts_data refreshed_state)"
    using refreshed_rows(2) by (auto simp: completed_def)
  moreover have "kept_row \<in> set (d_installed (ts_data refresh_state))" "downloaded_or_uploaded kept_row"
    by (simp_all add: refresh_state_def downloaded_or_uploaded_def kept_row_def)
  ultimately have "kept_row \<in> set (d_installed (ts_data refreshed_state))"
    "\<forall>r \<in> set (d_installed (ts_data refreshed_state)). in_source r = source_user_folder \<longrightarrow>
       settled (d_files (ts_data refresh_state)) (\<lambda>b. ''new'') r"
    using refresh_registers_what_is_there [OF refresh_state_alone, of "''op''" "\<lambda>p. True" "\<lambda>b. ''new''" "[]" "\<lambda>p. p" "[other_model]" None]
    unfolding Let_def by blast+
  moreover obtain r where "find_installed ''a'' (ts_data refreshed_state) = Some r" "in_source r = source_user_folder"
    using refreshed_rows(3) by auto
  ultimately show ?thesis using completed find_installed_Some by blast
qed

theorem replaced_file_keeps_old_id_witness:
  "\<exists>s' w'. register_changed [other_model] replaced_row (Some 5) (3, ''new'', Inl []) nothing_scanned refresh_state = (Inr s', w')
     \<and> find_installed ''a'' (ts_data w') = Some (catalog_row ''a'' ''f/a.gguf'' ''new'' 3 (Some 5)
         \<lparr>cf_filename = ''b.gguf'', cf_quant = ''q'', cf_size_bytes = 3, cf_sha256 = ''new''\<rparr>)
     \<and> cm_slug other_model = ''b''"
proof -
  let ?f = "\<lparr>cf_filename = ''b.gguf'', cf_quant = ''q'', cf_size_bytes = 3, cf_sha256 = ''new''\<rparr>"
  have match: "catalog_match_by_hash [other_model] 3 ''new'' = Some (other_model, ?f)" by code_simp
  obtain r w' where run: "register_changed [other_model] replaced_row (Some 5) (3, ''new'', Inl []) nothing_scanned refresh_state = (r, w')"
    by force
  have "\<exists>s'. r = Inr s'"
    using run unfolding register_changed_def prod.case Let_def match option.case
    by (auto simp: statement_def act_def act_torn_def t_then_def t_bind_def
        t_return_def refresh_state_def quiet_def split: prod.splits sum.splits)
  then obtain s' where s': "r = Inr s'" by blast
  from replaced_file_keeps_old_id [OF refresh_state_alone run [unfolded s'] match]
  have "find_installed ''a'' (ts_data w') = Some (catalog_row ''a'' ''f/a.gguf'' ''new'' 3 (Some 5) ?f)"
    by (simp add: replaced_row_def)
  moreover have "cm_slug other_model = ''b''" by (simp add: other_model_def)
  ultimately show ?thesis using run s' by blast
qed

definition imported_row :: installed where
  "imported_row = kept_row\<lparr>in_id := ''b'', in_source := source_import_user, in_path := ''f/b.gguf''\<rparr>"

definition takeover_state :: task_state where
  "takeover_state = refresh_state\<lparr>ts_data := (ts_data refresh_state)\<lparr>d_installed := [imported_row]\<rparr>\<rparr>"

theorem refresh_takes_over_import_witness:
  "\<exists>s' w' row. register_candidate [other_model] ''f/b.gguf'' (3, ''new'', Inl []) nothing_scanned takeover_state = (Inr s', w') \<and>
     find_installed ''b'' (ts_data w') = Some row \<and> in_source row = source_user_folder"
proof -
  let ?f = "\<lparr>cf_filename = ''b.gguf'', cf_quant = ''q'', cf_size_bytes = 3, cf_sha256 = ''new''\<rparr>"
  have match: "catalog_match_by_hash [other_model] 3 ''new'' = Some (other_model, ?f)" by code_simp
  let ?run = "register_candidate [other_model] ''f/b.gguf'' (3, ''new'', Inl []) nothing_scanned takeover_state"
  have "(case fst ?run of Inl e \<Rightarrow> False | Inr s \<Rightarrow> True)" by code_simp
  then obtain s' w' where run: "?run = (Inr s', w')" by (cases ?run) (auto split: sum.splits)
  have "alone takeover_state" using refresh_state_alone by (simp add: alone_def takeover_state_def)
  moreover have "find_installed (cm_slug other_model) (ts_data takeover_state) = Some imported_row" "cm_slug other_model = ''b''"
    by (simp_all add: takeover_state_def imported_row_def other_model_def find_installed_def)
  moreover have "in_source imported_row = source_import_user" by (simp add: imported_row_def)
  ultimately show ?thesis using refresh_takes_over_import [OF _ run match] run by metis
qed

end
