(* ===== verification/Server_Control.thy ===== *)
theory Server_Control
  imports Command_Line
begin

text \<open>
  \<open>src/bin/server.rs\<close> and \<open>src/discovery.rs\<close>: the commands that start, stop and ask for the server of a data
  folder. A server holds \<open>server.lock\<close> while it lives and publishes \<open>server.json\<close> once it listens. A command
  is a function on the folder's state and a script: before each of its steps servers and other commands may do
  anything the lock allows them, and the script has the answers of the system and of the server asked.
\<close>

subsection \<open>The data folder and who acts on it\<close>

text \<open>What \<open>server.json\<close> says; how the server was launched is read by updates only and left out.\<close>

record server_info =
  vi_pid :: nat
  vi_host :: string
  vi_port :: nat
  vi_version :: string
  vi_api_level :: nat
  vi_started_at :: int

datatype lock_holder = Free | Server nat | This_command | Other_command

record folder_state =
  ct_lock :: lock_holder
  ct_json :: "server_info option"
  ct_children :: "string list list"

definition server_holds :: "folder_state \<Rightarrow> bool" where
  "server_holds c \<longleftrightarrow> (case ct_lock c of Server p \<Rightarrow> True | _ \<Rightarrow> False)"

datatype env_event =
    Server_locks nat | Server_publishes server_info | Server_withdraws | Lock_released | Other_locks | Json_forgotten

fun env :: "env_event \<Rightarrow> folder_state \<Rightarrow> folder_state" where
  "env (Server_locks p) c = (if ct_lock c = Free then c\<lparr>ct_lock := Server p\<rparr> else c)"
| "env (Server_publishes i) c = (if server_holds c then c\<lparr>ct_json := Some i\<rparr> else c)"
| "env Server_withdraws c = (if server_holds c then c\<lparr>ct_json := None\<rparr> else c)"
| "env Lock_released c = (if ct_lock c = This_command then c else c\<lparr>ct_lock := Free\<rparr>)"
| "env Other_locks c = (if ct_lock c = Free then c\<lparr>ct_lock := Other_command\<rparr> else c)"
| "env Json_forgotten c = c\<lparr>ct_json := None\<rparr>"

fun envs :: "env_event list \<Rightarrow> folder_state \<Rightarrow> folder_state" where
  "envs [] c = c"
| "envs (e # es) c = envs es (env e c)"

text \<open>
  What a step finds: the events before it, its own failure, and the answers. The answer of \<open>/health\<close> is a
  status and a body, if there is one in time; \<open>mo_late\<close> is how far the clock is past the sleeps so far.
\<close>

record moment =
  mo_events :: "env_event list"
  mo_fault :: "string option"
  mo_lock_fails :: bool
  mo_alive :: "nat \<Rightarrow> bool"
  mo_health :: "string \<Rightarrow> nat \<Rightarrow> (nat \<times> json) option"
  mo_token :: string
  mo_shutdown :: "string \<Rightarrow> nat \<Rightarrow> string \<Rightarrow> string + unit"
  mo_late :: nat

record control_run =
  cr_control :: folder_state
  cr_script :: "nat \<Rightarrow> moment"
  cr_step :: nat

definition c_step :: "(moment \<Rightarrow> folder_state \<Rightarrow> 'a \<times> folder_state) \<Rightarrow> control_run \<Rightarrow> 'a \<times> control_run" where
  "c_step f w =
     (let m = cr_script w (cr_step w) in
      case f m (envs (mo_events m) (cr_control w)) of
        (x, c) \<Rightarrow> (x, w\<lparr>cr_control := c, cr_step := cr_step w + 1\<rparr>))"

subsection \<open>The lock, the discovery file and the server\<close>

datatype lock_answer = Locked | Would_block | Lock_error string

text \<open>A lock that cannot be taken, for whatever reason, counts as held.\<close>

definition acquire_lock :: "control_run \<Rightarrow> lock_answer \<times> control_run" where
  "acquire_lock = c_step (\<lambda>m c.
     case mo_fault m of
       Some e \<Rightarrow> (Lock_error e, c)
     | None \<Rightarrow> if ct_lock c = Free \<and> \<not> mo_lock_fails m then (Locked, c\<lparr>ct_lock := This_command\<rparr>) else (Would_block, c))"

definition read_server_json :: "control_run \<Rightarrow> server_info option \<times> control_run" where
  "read_server_json = c_step (\<lambda>m c. (if mo_fault m = None then ct_json c else None, c))"

definition remove_server_json :: "control_run \<Rightarrow> unit \<times> control_run" where
  "remove_server_json = c_step (\<lambda>m c. ((), if mo_fault m = None then c\<lparr>ct_json := None\<rparr> else c))"

definition pid_is_alive :: "nat \<Rightarrow> control_run \<Rightarrow> bool \<times> control_run" where
  "pid_is_alive p = c_step (\<lambda>m c. (mo_fault m = None \<and> mo_alive m p, c))"

definition probe_host :: "string \<Rightarrow> string" where
  "probe_host host = (if host = ''0.0.0.0'' \<or> host = ''::'' then default_bind_host else host)"

definition identifies :: "(nat \<times> json) option \<Rightarrow> bool" where
  "identifies answer =
     (case answer of
        None \<Rightarrow> False
      | Some (st, body) \<Rightarrow> 200 \<le> st \<and> st < 300 \<and> Option.bind (jget ''service'' body) as_str = Some ''stt-server'')"

definition health_ok :: "string \<Rightarrow> nat \<Rightarrow> control_run \<Rightarrow> bool \<times> control_run" where
  "health_ok host port = c_step (\<lambda>m c. (mo_fault m = None \<and> identifies (mo_health m host port), c))"

definition clock_late :: "control_run \<Rightarrow> nat \<times> control_run" where
  "clock_late = c_step (\<lambda>m c. (mo_late m, c))"

text \<open>The result of a command: its exit code and what it prints. The lock it holds is released.\<close>

datatype printed = Line string | Body json

definition finish :: "nat \<Rightarrow> printed \<Rightarrow> control_run \<Rightarrow> (nat \<times> printed) \<times> control_run" where
  "finish c out w =
     ((c, out), if ct_lock (cr_control w) = This_command then w\<lparr>cr_control := (cr_control w)\<lparr>ct_lock := Free\<rparr>\<rparr> else w)"

definition server_line :: "string \<Rightarrow> server_info \<Rightarrow> string" where
  "server_line what i = what @ '': pid '' @ decimal (vi_pid i) @ '' on '' @ vi_host i @ '':'' @ decimal (vi_port i)"

subsection \<open>stop\<close>

definition ask_shutdown :: "server_info \<Rightarrow> control_run \<Rightarrow> (string + unit) \<times> control_run" where
  "ask_shutdown i w =
     (case c_step (\<lambda>m c. (case mo_fault m of Some e \<Rightarrow> Inl e | None \<Rightarrow> Inr (mo_token m), c)) w of
        (Inl e, w) \<Rightarrow> (Inl e, w)
      | (Inr token, w) \<Rightarrow> c_step (\<lambda>m c. (mo_shutdown m (probe_host (vi_host i)) (vi_port i) (trim token), c)) w)"

text \<open>The wait for the lock, round \<open>k\<close>: 200 ms between two rounds, 15 s in all.\<close>

function stop_wait :: "nat \<Rightarrow> control_run \<Rightarrow> (nat \<times> printed) \<times> control_run" where
  "stop_wait k w =
     (case acquire_lock w of
        (Locked, w) \<Rightarrow> (case remove_server_json w of (_, w) \<Rightarrow> finish 0 (Line ''stopped via shutdown endpoint'') w)
      | (Lock_error e, w) \<Rightarrow> finish 1 (Line (''error: cannot confirm shutdown: '' @ e)) w
      | (Would_block, w) \<Rightarrow>
          (case clock_late w of
             (late, w) \<Rightarrow>
               if 15000 \<le> 200 * k + late
               then finish 1 (Line ''error: shutdown is still pending; retry status or stop; no process was forcibly terminated'') w
               else stop_wait (k + 1) w))"
  by pat_completeness auto

termination stop_wait by (relation "measure (\<lambda>(k, w). 75 - k)") auto

declare stop_wait.simps [simp del]

definition cmd_stop :: "control_run \<Rightarrow> (nat \<times> printed) \<times> control_run" where
  "cmd_stop w =
     (case acquire_lock w of
        (Locked, w) \<Rightarrow>
          (case remove_server_json w of (_, w) \<Rightarrow> finish 0 (Line ''not running (stale discovery information cleared)'') w)
      | (Lock_error e, w) \<Rightarrow> finish 1 (Line (''error: cannot determine server ownership: '' @ e)) w
      | (Would_block, w) \<Rightarrow>
          (case read_server_json w of
             (None, w) \<Rightarrow>
               finish 1 (Line ''error: server is starting or discovery information is unavailable; retry stop'') w
           | (Some i, w) \<Rightarrow>
               (case ask_shutdown i w of
                  (Inl e, w) \<Rightarrow>
                    finish 1 (Line (''error: graceful shutdown failed: '' @ e @ ''; no process was forcibly terminated'')) w
                | (Inr _, w) \<Rightarrow> stop_wait 0 w)))"

subsection \<open>start, restart and status\<close>

definition effective_data_dir :: "string \<Rightarrow> string option \<Rightarrow> string" where
  "effective_data_dir default_dir given = unwrap_or default_dir given"

text \<open>The wait for the server to answer, round \<open>k\<close>: 300 ms between two rounds, 30 s in all.\<close>

definition poll_started :: "control_run \<Rightarrow> server_info option \<times> control_run" where
  "poll_started w =
     (case read_server_json w of
        (None, w) \<Rightarrow> (None, w)
      | (Some i, w) \<Rightarrow>
          (case health_ok (probe_host (vi_host i)) (vi_port i) w of (ok, w) \<Rightarrow> (if ok then Some i else None, w)))"

function start_wait :: "nat \<Rightarrow> control_run \<Rightarrow> (nat \<times> printed) \<times> control_run" where
  "start_wait k w =
     (case poll_started w of
        (Some i, w) \<Rightarrow> finish 0 (Line (server_line ''started'' i)) w
      | (None, w) \<Rightarrow>
          (case clock_late w of
             (late, w) \<Rightarrow>
               if 30000 \<le> 300 * k + late then finish 1 (Line ''error: server did not become healthy within 30s'') w
               else start_wait (k + 1) w))"
  by pat_completeness auto

termination start_wait by (relation "measure (\<lambda>(k, w). 100 - k)") auto

declare start_wait.simps [simp del]

definition spawn_server :: "run_flags \<Rightarrow> string \<Rightarrow> control_run \<Rightarrow> (string + unit) \<times> control_run" where
  "spawn_server flags dir = c_step (\<lambda>m c.
     case mo_fault m of
       Some e \<Rightarrow> (Inl e, c)
     | None \<Rightarrow> (Inr (), c\<lparr>ct_children := ct_children c @ [''run'' # run_flags_arguments flags dir]\<rparr>))"

definition current_exe :: "control_run \<Rightarrow> (string + unit) \<times> control_run" where
  "current_exe = c_step (\<lambda>m c. (case mo_fault m of Some e \<Rightarrow> Inl e | None \<Rightarrow> Inr (), c))"

definition spawn_and_wait :: "run_flags \<Rightarrow> string \<Rightarrow> control_run \<Rightarrow> (nat \<times> printed) \<times> control_run" where
  "spawn_and_wait flags dir w =
     (case current_exe w of
        (Inl e, w) \<Rightarrow> finish 1 (Line (''error: could not resolve current executable: '' @ e)) w
      | (Inr _, w) \<Rightarrow>
          (case spawn_server flags dir w of
             (Inl e, w) \<Rightarrow> finish 1 (Line (''error: could not spawn detached server: '' @ e)) w
           | (Inr _, w) \<Rightarrow> start_wait 0 w))"

text \<open>The server of a discovery file: alive, and answering as this program does.\<close>

definition answering :: "server_info \<Rightarrow> control_run \<Rightarrow> bool \<times> control_run" where
  "answering i w =
     (case pid_is_alive (vi_pid i) w of
        (alive, w) \<Rightarrow> if alive then health_ok (probe_host (vi_host i)) (vi_port i) w else (False, w))"

definition cmd_start :: "run_flags \<Rightarrow> string \<Rightarrow> control_run \<Rightarrow> (nat \<times> printed) \<times> control_run" where
  "cmd_start flags dir w =
     (case read_server_json w of
        (None, w) \<Rightarrow> spawn_and_wait flags dir w
      | (Some i, w) \<Rightarrow>
          (case answering i w of
             (ok, w) \<Rightarrow>
               if ok then finish 0 (Line (server_line ''already running'' i)) w
               else (case remove_server_json w of (_, w) \<Rightarrow> spawn_and_wait flags dir w)))"

definition cmd_restart :: "run_flags \<Rightarrow> string \<Rightarrow> control_run \<Rightarrow> (nat \<times> printed) \<times> control_run" where
  "cmd_restart flags dir w =
     (case cmd_stop w of ((c, out), w) \<Rightarrow> if c \<noteq> 0 then ((c, out), w) else cmd_start flags dir w)"

definition not_running :: "bool \<Rightarrow> printed" where
  "not_running js = (if js then Body (JObj [(''running'', JBool False)]) else Line ''not running'')"

definition status_report :: "bool \<Rightarrow> string \<Rightarrow> server_info \<Rightarrow> printed" where
  "status_report js dir i =
     (if js then Body (JObj [(''running'', JBool True), (''pid'', JInt (int (vi_pid i))), (''host'', JStr (vi_host i)),
        (''port'', JInt (int (vi_port i))), (''data_dir'', JStr dir), (''version'', JStr (vi_version i)),
        (''api_level'', JInt (int (vi_api_level i)))])
      else Line (server_line ''running'' i @ '' (data dir: '' @ dir @ '')'' @ [CHR 0x0A] @
        ''version: '' @ vi_version i @ '' (api_level '' @ decimal (vi_api_level i) @ '')''))"

definition cmd_status :: "bool \<Rightarrow> string \<Rightarrow> control_run \<Rightarrow> (nat \<times> printed) \<times> control_run" where
  "cmd_status js dir w =
     (case read_server_json w of
        (None, w) \<Rightarrow> finish 1 (not_running js) w
      | (Some i, w) \<Rightarrow>
          (case answering i w of
             (healthy, w) \<Rightarrow>
               if healthy then finish 0 (status_report js dir i) w
               else (case remove_server_json w of (_, w) \<Rightarrow> finish 1 (not_running js) w)))"

text \<open>The exit code of \<open>run\<close>.\<close>

definition run_exit_code :: "serve_error + unit \<Rightarrow> nat" where
  "run_exit_code r =
     (case r of
        Inr _ \<Rightarrow> 0
      | Inl AlreadyRunning \<Rightarrow> 3
      | Inl BindFailed \<Rightarrow> 4
      | Inl (ServeOther e) \<Rightarrow> 1)"

subsection \<open>What the environment may do\<close>

lemma env_this: "ct_lock (env e c) = This_command \<longleftrightarrow> ct_lock c = This_command"
  by (cases e) (auto simp: server_holds_def split: lock_holder.splits)

lemma envs_this: "ct_lock (envs es c) = This_command \<longleftrightarrow> ct_lock c = This_command"
  by (induction es arbitrary: c) (simp_all add: env_this)

lemma envs_append: "envs (es @ fs) c = envs fs (envs es c)"
  by (induction es arbitrary: c) simp_all

text \<open>A server that goes on as it is keeps the lock, and publishes nothing again.\<close>

fun goes_on :: "env_event \<Rightarrow> bool" where
  "goes_on (Server_locks p) = True"
| "goes_on Other_locks = True"
| "goes_on Json_forgotten = True"
| "goes_on e = False"

lemma envs_goes_on:
  "list_all goes_on es \<Longrightarrow> ct_lock c = Server p \<Longrightarrow>
     ct_lock (envs es c) = Server p \<and> (ct_json (envs es c) = ct_json c \<or> ct_json (envs es c) = None)"
proof (induction es arbitrary: c)
  case (Cons e es)
  have "ct_lock (env e c) = Server p \<and> (ct_json (env e c) = ct_json c \<or> ct_json (env e c) = None)"
    using Cons.prems by (cases e) simp_all
  with Cons.IH [of "env e c"] Cons.prems(1) show ?case by auto
qed simp

subsection \<open>Steps that change nothing themselves\<close>

text \<open>The state is what it was, but for the events in between.\<close>

definition env_only :: "control_run \<Rightarrow> control_run \<Rightarrow> bool" where
  "env_only w w' \<longleftrightarrow>
     cr_script w' = cr_script w \<and> cr_step w \<le> cr_step w' \<and>
     cr_control w' = envs (concat (map (\<lambda>n. mo_events (cr_script w n)) [cr_step w ..< cr_step w'])) (cr_control w)"

lemma env_only_refl: "env_only w w"
  by (simp add: env_only_def)

lemma env_only_trans:
  assumes "env_only w u" "env_only u v"
  shows "env_only w v"
proof -
  have "[cr_step w ..< cr_step v] = [cr_step w ..< cr_step u] @ [cr_step u ..< cr_step v]"
    using assms by (metis env_only_def le_add_diff_inverse upt_add_eq_append)
  with assms show ?thesis by (simp add: env_only_def envs_append)
qed

lemma env_only_this: "env_only w w' \<Longrightarrow> ct_lock (cr_control w') = This_command \<longleftrightarrow> ct_lock (cr_control w) = This_command"
  by (simp add: env_only_def envs_this)

lemma c_step_run:
  assumes "c_step f w = (x, w')"
  shows "cr_script w' = cr_script w" "cr_step w' = cr_step w + 1"
    "(x, cr_control w') = f (cr_script w (cr_step w)) (envs (mo_events (cr_script w (cr_step w))) (cr_control w))"
  using assms by (auto simp: c_step_def Let_def split: prod.splits)

lemma env_only_step:
  assumes "c_step f w = (x, w')" "\<And>m c. snd (f m c) = c"
  shows "env_only w w'"
  using c_step_run [OF assms(1)] assms(2) by (simp add: env_only_def) (metis snd_conv)

lemma env_only_asks:
  "read_server_json w = (i, w') \<Longrightarrow> env_only w w'" "clock_late w = (k, w') \<Longrightarrow> env_only w w'"
  "pid_is_alive p w = (b, w') \<Longrightarrow> env_only w w'" "health_ok host port w = (b, w') \<Longrightarrow> env_only w w'"
  unfolding read_server_json_def clock_late_def pid_is_alive_def health_ok_def
  by (erule env_only_step; simp split: option.split)+

lemma env_only_shutdown: "ask_shutdown i w = (r, w') \<Longrightarrow> env_only w w'"
  unfolding ask_shutdown_def
  by (auto split: prod.splits sum.splits elim!: env_only_step dest!: env_only_step intro: env_only_trans)

lemma acquire_lock_run:
  assumes "acquire_lock w = (a, w')"
  shows "a = Locked \<Longrightarrow> ct_lock (cr_control w') = This_command" "a \<noteq> Locked \<Longrightarrow> env_only w w'"
  using c_step_run [OF assms [unfolded acquire_lock_def]]
  by (auto simp: env_only_def split: option.splits if_splits)

lemma remove_keeps_lock:
  "remove_server_json w = (u, w') \<Longrightarrow> ct_lock (cr_control w) = This_command \<Longrightarrow> ct_lock (cr_control w') = This_command"
  unfolding remove_server_json_def by (drule c_step_run(3)) (auto simp: envs_this split: if_splits)

subsection \<open>A stop\<close>

definition stop_answer :: "control_run \<Rightarrow> (nat \<times> printed) \<times> control_run \<Rightarrow> bool" where
  "stop_answer w r \<longleftrightarrow>
     (case r of ((c, out), w') \<Rightarrow> if c = 0 then ct_lock (cr_control w') = Free else c = 1 \<and> env_only w w')"

lemma stop_answer_failed:
  "env_only w u \<Longrightarrow> ct_lock (cr_control w) \<noteq> This_command \<Longrightarrow> stop_answer w (finish 1 out u)"
  using env_only_this [of w u] by (simp add: stop_answer_def finish_def)

lemma stop_answer_done:
  assumes "acquire_lock w = (Locked, u)"
  shows "stop_answer w0 (case remove_server_json u of (_, v) \<Rightarrow> finish 0 out v)"
proof -
  obtain x v where v: "remove_server_json u = (x, v)" by (cases "remove_server_json u")
  have "ct_lock (cr_control v) = This_command"
    by (rule remove_keeps_lock [OF v acquire_lock_run(1) [OF assms]]) simp
  with v show ?thesis by (simp add: stop_answer_def finish_def)
qed

lemma stop_wait_answer:
  "env_only w0 w \<Longrightarrow> ct_lock (cr_control w0) \<noteq> This_command \<Longrightarrow> stop_answer w0 (stop_wait k w)"
proof (induction k w rule: stop_wait.induct)
  case (1 k w)
  obtain a u where a: "acquire_lock w = (a, u)" by force
  obtain late v where v: "clock_late u = (late, v)" by force
  show ?case
  proof (cases a)
    case Locked
    with stop_answer_done [of w u] a show ?thesis by (simp add: stop_wait.simps [of k])
  next
    case Would_block
    have u: "env_only w0 u" using env_only_trans [OF 1(2)] acquire_lock_run(2) [OF a] Would_block by simp
    from env_only_trans [OF u env_only_asks(2) [OF v]] have v': "env_only w0 v" .
    show ?thesis
    proof (cases "15000 \<le> 200 * k + late")
      case True
      with a Would_block v stop_answer_failed [OF v' 1(3)] show ?thesis by (simp add: stop_wait.simps [of k])
    next
      case False
      with a Would_block v 1(1) [OF a [symmetric] Would_block v [symmetric] False v' 1(3)] show ?thesis by (simp add: stop_wait.simps [of k])
    qed
  next
    case (Lock_error e)
    have u: "env_only w0 u" using env_only_trans [OF 1(2)] acquire_lock_run(2) [OF a] Lock_error by simp
    with a Lock_error stop_answer_failed [OF u 1(3)] show ?thesis by (simp add: stop_wait.simps [of k])
  qed
qed

text \<open>
  C30. Whatever servers, other commands and the system do, a stop that reports success leaves the data folder
  held by no server; one that does not has itself changed nothing: the folder is as the others left it.
\<close>
theorem stop_reports_truth:
  assumes "ct_lock (cr_control w) \<noteq> This_command" "cmd_stop w = ((c, out), w')"
  shows "if c = 0 then ct_lock (cr_control w') = Free else c = 1 \<and> env_only w w'"
proof -
  obtain a u where a: "acquire_lock w = (a, u)" by force
  obtain r v where v: "read_server_json u = (r, v)" by force
  have "stop_answer w (cmd_stop w)"
  proof (cases a)
    case Locked
    with stop_answer_done [of w u w] a show ?thesis by (simp add: cmd_stop_def)
  next
    case (Lock_error e)
    with acquire_lock_run(2) [OF a] a stop_answer_failed [OF _ assms(1)] show ?thesis by (simp add: cmd_stop_def)
  next
    case Would_block
    with acquire_lock_run(2) [OF a] have u: "env_only w u" by simp
    from env_only_trans [OF u env_only_asks(1) [OF v]] have v': "env_only w v" .
    show ?thesis
    proof (cases r)
      case None
      with a Would_block v stop_answer_failed [OF v' assms(1)] show ?thesis by (simp add: cmd_stop_def)
    next
      case (Some i)
      obtain s x where x: "ask_shutdown i v = (s, x)" by force
      from env_only_trans [OF v' env_only_shutdown [OF x]] have x': "env_only w x" .
      from a Would_block v Some x stop_answer_failed [OF x' assms(1)] stop_wait_answer [OF x' assms(1)] show ?thesis
        by (cases s) (simp_all add: cmd_stop_def)
    qed
  qed
  with assms(2) show ?thesis by (simp add: stop_answer_def)
qed

subsection \<open>A server whose discovery file is gone\<close>

definition lost :: "nat \<Rightarrow> control_run \<Rightarrow> bool" where
  "lost p w \<longleftrightarrow> ct_lock (cr_control w) = Server p \<and> ct_json (cr_control w) = None \<and>
     (\<forall>n. list_all goes_on (mo_events (cr_script w n)))"

lemma lost_events: "lost p w \<Longrightarrow> list_all goes_on es \<Longrightarrow> ct_lock (envs es (cr_control w)) = Server p \<and> ct_json (envs es (cr_control w)) = None"
  using envs_goes_on [of es "cr_control w" p] by (auto simp: lost_def)

lemma lost_env:
  assumes "lost p w" "env_only w w'"
  shows "lost p w'"
proof -
  have "list_all goes_on (concat (map (\<lambda>n. mo_events (cr_script w n)) [cr_step w ..< cr_step w']))"
    using assms(1) by (auto simp: lost_def list_all_iff)
  with lost_events [OF assms(1)] assms show ?thesis by (auto simp: lost_def env_only_def)
qed

lemma lost_finish: "lost p w \<Longrightarrow> fst (fst (finish c out w)) = c"
  by (simp add: finish_def)

lemma lost_read: "lost p w \<Longrightarrow> read_server_json w = (i, w') \<Longrightarrow> i = None"
  unfolding read_server_json_def
  by (drule c_step_run(3)) (use lost_events in \<open>auto simp: lost_def split: if_splits\<close>)

lemma lost_acquire: "lost p w \<Longrightarrow> acquire_lock w = (a, w') \<Longrightarrow> a \<noteq> Locked"
  unfolding acquire_lock_def
  by (drule c_step_run(3)) (use lost_events in \<open>auto simp: lost_def split: option.splits if_splits\<close>)

lemma lost_stop:
  assumes "lost p w"
  shows "fst (fst (cmd_stop w)) = 1"
proof -
  obtain a u where a: "acquire_lock w = (a, u)" by force
  obtain r v where v: "read_server_json u = (r, v)" by force
  from lost_acquire [OF assms a] have a': "a \<noteq> Locked" .
  with lost_read [OF lost_env [OF assms acquire_lock_run(2) [OF a]] v] have "r = None" by simp
  with a a' v show ?thesis by (cases a) (simp_all add: cmd_stop_def finish_def)
qed

lemma lost_start_wait: "lost p w \<Longrightarrow> fst (fst (start_wait k w)) = 1"
proof (induction k w rule: start_wait.induct)
  case (1 k w)
  obtain i u where u: "read_server_json w = (i, u)" by force
  have i: "i = None" by (rule lost_read [OF 1(2) u])
  then have polled: "poll_started w = (None, u)" by (simp add: poll_started_def u)
  obtain late v where v: "clock_late u = (late, v)" by force
  have "lost p v" using lost_env [OF lost_env [OF 1(2) env_only_asks(1) [OF u]] env_only_asks(2) [OF v]] .
  with 1(1) polled v show ?case by (simp add: start_wait.simps [of k] finish_def)
qed

lemma lost_spawn:
  assumes "lost p w" "spawn_server flags dir w = (r, w')"
  shows "lost p w'"
proof -
  note run = c_step_run [OF assms(2) [unfolded spawn_server_def]]
  have "list_all goes_on (mo_events (cr_script w (cr_step w)))" using assms(1) by (simp add: lost_def)
  from lost_events [OF assms(1) this] run assms(1) show ?thesis
    by (auto simp: lost_def split: option.splits)
qed

lemma lost_start:
  assumes "lost p w"
  shows "fst (fst (cmd_start flags dir w)) = 1"
proof -
  obtain i u where u: "read_server_json w = (i, u)" by force
  have u': "lost p u" by (rule lost_env [OF assms env_only_asks(1) [OF u]])
  obtain r v where v: "current_exe u = (r, v)" by force
  have v': "lost p v" by (rule lost_env [OF u' env_only_step [OF v [unfolded current_exe_def]]]) simp
  obtain s x where x: "spawn_server flags dir v = (s, x)" by force
  from lost_read [OF assms u] u v x lost_start_wait [OF lost_spawn [OF v' x]] show ?thesis
    by (cases r; cases s) (simp_all add: cmd_start_def spawn_and_wait_def finish_def)
qed

lemma lost_status: "lost p w \<Longrightarrow> fst (fst (cmd_status js dir w)) = 1"
  using lost_read [of p w] by (cases "read_server_json w") (auto simp: cmd_status_def finish_def)

lemma lost_removed:
  assumes "remove_server_json w = (x, w')" "mo_fault (cr_script w (cr_step w)) = None" "ct_lock (cr_control w) = Server p"
    "\<forall>n. list_all goes_on (mo_events (cr_script w n))"
  shows "lost p w'"
  using c_step_run [OF assms(1) [unfolded remove_server_json_def]] envs_goes_on [OF _ assms(3)] assms(2,4)
  by (auto simp: lost_def)

lemma going_on:
  assumes "env_only w w'" "ct_lock (cr_control w) = Server p" "\<forall>n. list_all goes_on (mo_events (cr_script w n))"
  shows "ct_lock (cr_control w') = Server p" "cr_script w' = cr_script w"
proof -
  have "list_all goes_on (concat (map (\<lambda>n. mo_events (cr_script w n)) [cr_step w ..< cr_step w']))"
    using assms(3) by (auto simp: list_all_iff)
  from envs_goes_on [OF this assms(2)] assms(1) show "ct_lock (cr_control w') = Server p" "cr_script w' = cr_script w"
    by (auto simp: env_only_def)
qed

text \<open>
  C31. When a living server misses one health probe, \<open>status\<close> removes its discovery file, which it writes only
  when it starts: from then on, although it holds the data folder, no \<open>status\<close>, \<open>stop\<close>, \<open>start\<close> or \<open>restart\<close>
  succeeds, whatever it answers.
\<close>
theorem status_hides_live_server:
  assumes "ct_lock (cr_control w) = Server p" "\<forall>n. list_all goes_on (mo_events (cr_script w n))"
    and "\<forall>k < 4. mo_fault (cr_script w (cr_step w + k)) = None"
    and "\<forall>host port. \<not> identifies (mo_health (cr_script w (cr_step w + 2)) host port)"
    and "cmd_status js dir w = ((c, out), w')"
  shows "c = 1 \<and> ct_lock (cr_control w') = Server p \<and> fst (fst (cmd_status js' dir w')) = 1 \<and>
    fst (fst (cmd_stop w')) = 1 \<and> fst (fst (cmd_start flags dir w')) = 1 \<and> fst (fst (cmd_restart flags dir w')) = 1"
proof -
  obtain r u where u: "read_server_json w = (r, u)" by force
  note ru = c_step_run [OF u [unfolded read_server_json_def]]
  have u': "ct_lock (cr_control u) = Server p" "cr_script u = cr_script w"
    by (rule going_on [OF env_only_asks(1) [OF u] assms(1,2)])+
  have "c = 1 \<and> lost p w'"
  proof (cases r)
    case None
    then have "lost p u" using ru(3) u' assms(2) assms(3) [rule_format, of 0] by (auto simp: lost_def split: if_splits)
    with None u assms(5) show ?thesis by (auto simp: cmd_status_def finish_def lost_def)
  next
    case (Some i)
    obtain alive v where v: "pid_is_alive (vi_pid i) u = (alive, v)" by force
    note rv = c_step_run [OF v [unfolded pid_is_alive_def]]
    have v': "ct_lock (cr_control v) = Server p" "cr_script v = cr_script w" "cr_step v = cr_step w + 2"
      using going_on [OF env_only_asks(3) [OF v] u'(1)] u'(2) assms(2) rv(2) ru(2) by simp_all
    obtain ok x where x: "answering i u = (ok, x)" by force
    have probed: "\<not> ok \<and> ct_lock (cr_control x) = Server p \<and> cr_script x = cr_script w \<and> cr_step x \<in> {cr_step w + 2, cr_step w + 3}"
    proof (cases alive)
      case True
      with x v have h: "health_ok (probe_host (vi_host i)) (vi_port i) v = (ok, x)" by (simp add: answering_def)
      note rx = c_step_run [OF h [unfolded health_ok_def]]
      from going_on [OF env_only_asks(4) [OF h] v'(1)] rx v' assms(2,4) show ?thesis by simp
    next
      case False
      with x v have "ok = False" "x = v" by (simp_all add: answering_def)
      with v' show ?thesis by simp
    qed
    obtain y z where z: "remove_server_json x = (y, z)" by (cases "remove_server_json x")
    have "mo_fault (cr_script x (cr_step x)) = None"
      using probed assms(3) [rule_format, of 2] assms(3) [rule_format, of 3] by auto
    from lost_removed [OF z this] probed assms(2) have lost: "lost p z" by simp
    from u Some x probed z assms(5) have "c = 1" "w' = z"
      using lost by (auto simp: cmd_status_def finish_def lost_def)
    with lost show ?thesis by simp
  qed
  then have w': "c = 1" "lost p w'" by simp_all
  obtain s t where "cmd_stop w' = (s, t)" by (cases "cmd_stop w'")
  with lost_stop [OF w'(2)] have "fst (fst (cmd_restart flags dir w')) = 1" by (auto simp: cmd_restart_def split: prod.splits)
  moreover have "ct_lock (cr_control w') = Server p" using w'(2) by (simp add: lost_def)
  ultimately show ?thesis using w'(1) lost_stop [OF w'(2)] lost_start [OF w'(2)] lost_status [OF w'(2)] by simp
qed

subsection \<open>Examples\<close>

definition quiet_moment :: moment where
  "quiet_moment =
     \<lparr>mo_events = [], mo_fault = None, mo_lock_fails = False, mo_alive = (\<lambda>p. True),
      mo_health = (\<lambda>host port. Some (200, JObj [(''service'', JStr ''stt-server'')])), mo_token = ''t'',
      mo_shutdown = (\<lambda>host port token. Inr ()), mo_late = 0\<rparr>"

definition listening :: server_info where
  "listening = \<lparr>vi_pid = 7, vi_host = ''127.0.0.1'', vi_port = 8000, vi_version = ''1'', vi_api_level = 1, vi_started_at = 0\<rparr>"

text \<open>A server that ends while a stop waits for its lock, and one that misses the probe of a status.\<close>

definition ending_server :: control_run where
  "ending_server =
     \<lparr>cr_control = \<lparr>ct_lock = Server 7, ct_json = Some listening, ct_children = []\<rparr>,
      cr_script = (\<lambda>n. if n = 5 then quiet_moment\<lparr>mo_events := [Server_withdraws, Lock_released]\<rparr> else quiet_moment), cr_step = 0\<rparr>"

definition busy_server :: control_run where
  "busy_server =
     \<lparr>cr_control = \<lparr>ct_lock = Server 7, ct_json = Some listening, ct_children = []\<rparr>,
      cr_script = (\<lambda>n. if n = 2 then quiet_moment\<lparr>mo_health := (\<lambda>host port. None)\<rparr> else quiet_moment), cr_step = 0\<rparr>"

theorem stop_reports_truth_witness:
  "\<exists>out w'. cmd_stop ending_server = ((0, out), w') \<and> ct_lock (cr_control w') = Free"
proof -
  have "fst (fst (cmd_stop ending_server)) = 0" by code_simp
  then obtain out w' where run: "cmd_stop ending_server = ((0, out), w')" by (metis prod.collapse)
  have "ct_lock (cr_control ending_server) \<noteq> This_command" by (simp add: ending_server_def)
  from stop_reports_truth [OF this run] run show ?thesis by simp
qed

theorem status_hides_live_server_witness:
  "\<exists>out w'. cmd_status False [] busy_server = ((1, out), w') \<and> ct_lock (cr_control w') = Server 7 \<and>
     ct_json (cr_control busy_server) = Some listening \<and> fst (fst (cmd_stop w')) = 1"
proof -
  obtain c out w' where run: "cmd_status False [] busy_server = ((c, out), w')" by (metis prod.collapse)
  have "ct_lock (cr_control busy_server) = Server 7" "\<forall>n. list_all goes_on (mo_events (cr_script busy_server n))"
    "\<forall>k < 4. mo_fault (cr_script busy_server (cr_step busy_server + k)) = None"
    "\<forall>host port. \<not> identifies (mo_health (cr_script busy_server (cr_step busy_server + 2)) host port)"
    by (simp_all add: busy_server_def quiet_moment_def identifies_def)
  from status_hides_live_server [OF this run] run show ?thesis by (simp add: busy_server_def)
qed

end
