(* ===== verification/Self_Update.thy ===== *)
theory Self_Update
  imports Import Gguf_Probe Task_Triples
begin

text \<open>
  \<open>src/selfupdate.rs\<close>: releases and their versions, and the download of a new executable that is verified
  against the checksum published beside it. Decoding the release's JSON and the answers of the web are given;
  files are those of a task. The swap of executables of this module is no longer used by the program.
\<close>

subsection \<open>Releases\<close>

record release_asset =
  ra_name :: string
  ra_url :: string
  ra_size :: "nat option"

record release_info =
  ri_version :: string
  ri_exe :: release_asset
  ri_checksum :: release_asset

definition exe_asset_name :: string where "exe_asset_name = ''stt-server.exe''"
definition checksum_asset_name :: string where "checksum_asset_name = ''stt-server.exe.sha256''"

text \<open>The tag and the assets of a release, or the decoder's error.\<close>

definition parse_release :: "string + string \<times> release_asset list \<Rightarrow> string + release_info" where
  "parse_release raw =
     and_then (map_err (\<lambda>e. ''invalid release JSON: '' @ e) raw) (\<lambda>(tag, assets).
       let asset = (\<lambda>name. ok_or (''release is missing required asset '' @ quoted name) (List.find (\<lambda>a. ra_name a = name) assets)) in
       and_then (asset exe_asset_name) (\<lambda>exe.
       and_then (asset checksum_asset_name) (\<lambda>checksum.
         Inr \<lparr>ri_version = unwrap_or tag (strip_prefix ''v'' tag), ri_exe = exe, ri_checksum = checksum\<rparr>)))"

text \<open>Versions: \<open>Vec\<close>s are compared as words, so that a longer one is greater than its prefix.\<close>

fun parse_parts :: "string list \<Rightarrow> nat list option" where
  "parse_parts [] = Some []"
| "parse_parts (p # ps) =
     (case parse_u64 p of None \<Rightarrow> None | Some n \<Rightarrow> map_option ((#) n) (parse_parts ps))"

definition parse_numeric_version :: "string \<Rightarrow> nat list option" where
  "parse_numeric_version v = parse_parts (split_on (\<lambda>c. c = CHR ''.'') v)"

fun vec_less :: "nat list \<Rightarrow> nat list \<Rightarrow> bool" where
  "vec_less xs [] = False"
| "vec_less [] (y # ys) = True"
| "vec_less (x # xs) (y # ys) = (x < y \<or> x = y \<and> vec_less xs ys)"

definition is_newer :: "string \<Rightarrow> string \<Rightarrow> bool" where
  "is_newer current candidate =
     (case (parse_numeric_version current, parse_numeric_version candidate) of
        (Some a, Some b) \<Rightarrow> vec_less a b
      | _ \<Rightarrow> current \<noteq> candidate)"

subsection \<open>The web\<close>

datatype update_error = Http_error string | Parse_error string | Verify_error string | Io_error string

text \<open>What a GET of an address yields: no answer, or a status, how it prints, and a body that may break off.\<close>

datatype web_answer = No_answer string | Answer nat string "string + byte list"

definition get_body :: "(string \<Rightarrow> string) \<Rightarrow> web_answer \<Rightarrow> update_error + byte list" where
  "get_body refused_text answer =
     (case answer of
        No_answer e \<Rightarrow> Inl (Http_error e)
      | Answer st shown body \<Rightarrow>
          if \<not> (200 \<le> st \<and> st < 300) then Inl (Http_error (refused_text shown))
          else map_err Http_error body)"

record update_check =
  uc_current_version :: string
  uc_release :: release_info
  uc_available :: bool

definition check_latest ::
    "(byte list \<Rightarrow> string + string \<times> release_asset list) \<Rightarrow> (string \<Rightarrow> web_answer) \<Rightarrow> string \<Rightarrow> string \<Rightarrow>
     update_error + update_check" where
  "check_latest from_json web current endpoint =
     and_then (get_body (\<lambda>shown. ''release source returned HTTP '' @ shown) (web endpoint)) (\<lambda>body.
     and_then (map_err Parse_error (parse_release (from_json body))) (\<lambda>release.
       Inr \<lparr>uc_current_version = current, uc_release = release, uc_available = is_newer current (ri_version release)\<rparr>))"

subsection \<open>The download\<close>

text \<open>Making the folder, creating the file, writing it (perhaps in part) and flushing it; each may fail.\<close>

definition download_to_file :: "(string \<Rightarrow> web_answer) \<Rightarrow> string \<Rightarrow> string \<Rightarrow> (update_error, nat) task" where
  "download_to_file web url dest =
     t_bind (t_lift (get_body (\<lambda>shown. ''asset download returned HTTP '' @ shown @ '' for '' @ url) (web url))) (\<lambda>bytes.
     t_then (t_map_err Io_error (act (\<lambda>e d. Inr ()) (\<lambda>e d. []) :: (string, unit) task))
     (t_then (t_map_err Io_error (create_stage dest))
     (t_then (t_map_err Io_error (write_all dest bytes))
     (t_then (t_map_err Io_error (act (\<lambda>e d. Inr ()) (\<lambda>e d. []) :: (string, unit) task))
       (t_return (length bytes))))))"

text \<open>The first word of a checksum file; a text is its bytes when they are well-formed.\<close>

definition parse_checksum_body :: "string \<Rightarrow> string option" where
  "parse_checksum_body body =
     (let word = takeWhile (\<lambda>c. \<not> is_ws c) (dropWhile is_ws body) in if word = [] then None else Some (lowercase word))"

definition utf8_text :: "byte list \<Rightarrow> string option" where
  "utf8_text bs = (if utf8_lossy bs = bs then Some (text_of bs) else None)"

definition read_to_string :: "string \<Rightarrow> (string, string) task" where
  "read_to_string p =
     t_bind (file_at p) (\<lambda>f. t_lift (ok_or ''stream did not contain valid UTF-8'' (utf8_text (fi_bytes f))))"

definition staged_exe :: "string \<Rightarrow> release_info \<Rightarrow> string" where
  "staged_exe dir r = join dir (''stt-server-'' @ ri_version r @ ''.exe'')"

definition staged_checksum :: "string \<Rightarrow> release_info \<Rightarrow> string" where
  "staged_checksum dir r = join dir (''stt-server-'' @ ri_version r @ ''.exe.sha256'')"

definition check_staged :: "(byte list \<Rightarrow> string) \<Rightarrow> string \<Rightarrow> string \<Rightarrow> (update_error, string) task" where
  "check_staged sha256 exe expected =
     t_bind (t_map_err Io_error (sha256_of sha256 exe)) (\<lambda>actual.
     if \<not> eq_ignore_case actual expected then
       t_then (t_ignore (remove_task_file exe))
         (t_fail (Verify_error (''downloaded executable's SHA-256 ('' @ actual @
           '') does not match the release's checksum ('' @ expected @ '')'')))
     else t_return exe)"

definition download_and_verify ::
    "(byte list \<Rightarrow> string) \<Rightarrow> (string \<Rightarrow> web_answer) \<Rightarrow> release_info \<Rightarrow> string \<Rightarrow> (update_error, string) task" where
  "download_and_verify sha256 web release dir =
     (let exe = staged_exe dir release; checksum = staged_checksum dir release in
      t_then (download_to_file web (ra_url (ri_exe release)) exe)
      (t_bind (t_catch (download_to_file web (ra_url (ri_checksum release)) checksum)) (\<lambda>got.
       case got of
         Inl e \<Rightarrow> t_then (t_ignore (remove_task_file exe)) (t_fail e)
       | Inr n \<Rightarrow>
           t_bind (t_map_err Io_error (read_to_string checksum)) (\<lambda>body.
           t_then (t_ignore (remove_task_file checksum))
           (case parse_checksum_body body of
              None \<Rightarrow> t_then (t_ignore (remove_task_file exe)) (t_fail (Parse_error ''checksum asset was empty or unparseable''))
            | Some expected \<Rightarrow> check_staged sha256 exe expected)))))"

subsection \<open>Versions\<close>

lemma vec_less_irrefl: "\<not> vec_less xs xs"
  by (induction xs) auto

lemma vec_less_trans: "vec_less xs ys \<Longrightarrow> vec_less ys zs \<Longrightarrow> vec_less xs zs"
proof (induction xs ys arbitrary: zs rule: vec_less.induct)
  case (2 y ys)
  then show ?case by (cases zs) auto
next
  case (3 x xs y ys)
  then show ?case by (cases zs) auto
qed simp

text \<open>No version is newer than itself, and among numeric versions, being newer is transitive.\<close>

lemma is_newer_irrefl: "\<not> is_newer v v"
  by (simp add: is_newer_def vec_less_irrefl split: option.split)

lemma is_newer_trans:
  "parse_numeric_version a \<noteq> None \<Longrightarrow> parse_numeric_version b \<noteq> None \<Longrightarrow> parse_numeric_version c \<noteq> None \<Longrightarrow>
     is_newer a b \<Longrightarrow> is_newer b c \<Longrightarrow> is_newer a c"
  by (auto simp: is_newer_def intro: vec_less_trans)

text \<open>A missing component does not count as 0: version 1.2.0 is newer than version 1.2.\<close>

lemma vec_less_append: "ys \<noteq> [] \<Longrightarrow> vec_less xs (xs @ ys)"
  by (induction xs) (auto simp: neq_Nil_conv)

lemma missing_component_is_newer: "is_newer ''1.2'' ''1.2.0''"
  by code_simp

subsection \<open>What the download leaves\<close>

definition served :: "(string \<Rightarrow> web_answer) \<Rightarrow> string \<Rightarrow> byte list \<Rightarrow> bool" where
  "served web url bs \<longleftrightarrow> (\<exists>st shown. 200 \<le> st \<and> st < 300 \<and> web url = Answer st shown (Inr bs))"

definition file_holds :: "string \<Rightarrow> byte list \<Rightarrow> sdata \<Rightarrow> bool" where
  "file_holds p bs d \<longleftrightarrow> (\<exists>c. d_files d p = Some c \<and> fi_bytes c = bs)"

lemma get_body_Inr: "get_body f (web url) = Inr bs \<longleftrightarrow> served web url bs"
  by (auto simp: get_body_def served_def outcome_simps split: web_answer.split)

lemma staged_paths: "staged_exe dir r \<noteq> staged_checksum dir r"
  by (simp add: staged_exe_def staged_checksum_def join_def)

lemma file_holds_other: "q \<noteq> p \<Longrightarrow> file_holds p bs (perform (Write_file q f) d) \<longleftrightarrow> file_holds p bs d"
  by (simp add: file_holds_def put_data_file_def)

lemma triple_io:
  "(\<And>d. I d \<Longrightarrow> E d) \<Longrightarrow> triple I (t_map_err Io_error (act (\<lambda>e d. Inr ()) (\<lambda>e d. []) :: (string, unit) task)) (\<lambda>_. I) E"
  by (rule triple_map_err, rule triple_act) auto

lemma triple_download:
  assumes "\<And>d f. I d \<Longrightarrow> I (perform (Write_file dest f) d)"
  shows "triple I (download_to_file web url dest) (\<lambda>_ d. I d \<and> (\<exists>bs. served web url bs \<and> file_holds dest bs d)) I"
proof -
  have created: "triple I (t_map_err Io_error (create_stage dest)) (\<lambda>_ d. I d \<and> file_holds dest [] d) I"
    unfolding create_stage_def
  proof (rule triple_map_err, rule triple_act)
    fix e d assume "I d"
    with assms [of d] show "I (performs [Write_file dest (Some (append_bytes (se_now e) None []))] d) \<and>
        file_holds dest [] (performs [Write_file dest (Some (append_bytes (se_now e) None []))] d)"
      by (simp add: file_holds_def put_data_file_def append_bytes_def)
  qed simp_all
  have stored: "triple (\<lambda>d. I d \<and> file_holds dest [] d) (t_map_err Io_error (write_all dest bs)) (\<lambda>_ d. I d \<and> file_holds dest bs d) I" for bs
    unfolding write_all_def
  proof (rule triple_map_err, rule triple_act_torn)
    fix e d assume "I d \<and> file_holds dest [] d"
    then show "I (performs [Write_file dest (Some (append_bytes (se_now e) (d_files d dest) bs))] d) \<and>
        file_holds dest bs (performs [Write_file dest (Some (append_bytes (se_now e) (d_files d dest) bs))] d)"
      using assms [of d] by (auto simp: file_holds_def put_data_file_def append_bytes_def)
  qed (use assms in \<open>auto simp del: perform.simps\<close>)
  have "triple (\<lambda>d. I d \<and> served web url bs)
      (t_then (t_map_err Io_error (act (\<lambda>e d. Inr ()) (\<lambda>e d. []) :: (string, unit) task))
       (t_then (t_map_err Io_error (create_stage dest)) (t_then (t_map_err Io_error (write_all dest bs))
       (t_then (t_map_err Io_error (act (\<lambda>e d. Inr ()) (\<lambda>e d. []) :: (string, unit) task)) (t_return (length bs))))))
      (\<lambda>_ d. I d \<and> (\<exists>bs. served web url bs \<and> file_holds dest bs d)) I" for bs
    by (rule triple_fact, rule triple_then [OF triple_io [of I I] triple_then [OF created triple_then [OF stored triple_then [OF triple_io]]]])
      (auto intro: triple_return)
  moreover have "triple I (t_lift (get_body f (web url))) (\<lambda>bs d. I d \<and> served web url bs) I" for f
    by (rule triple_lift) (simp_all add: get_body_Inr)
  ultimately show ?thesis unfolding download_to_file_def by (intro triple_bind)
qed

text \<open>What is known of the staged executable and of the text of its checksum.\<close>

definition published ::
    "(byte list \<Rightarrow> string) \<Rightarrow> (string \<Rightarrow> web_answer) \<Rightarrow> release_info \<Rightarrow> byte list \<Rightarrow> bool" where
  "published sha256 web release bs \<longleftrightarrow>
     served web (ra_url (ri_exe release)) bs \<and>
     (\<exists>sum_bytes body expected. served web (ra_url (ri_checksum release)) sum_bytes \<and> utf8_text sum_bytes = Some body \<and>
        parse_checksum_body body = Some expected \<and> eq_ignore_case (sha256 bs) expected)"

lemma triple_check_staged:
  assumes "served web (ra_url (ri_exe release)) bs" "served web (ra_url (ri_checksum release)) sum_bytes"
    "utf8_text sum_bytes = Some body" "parse_checksum_body body = Some expected"
  shows "triple (file_holds exe bs) (check_staged sha256 exe expected)
    (\<lambda>p d. p = exe \<and> (\<exists>bs. published sha256 web release bs \<and> file_holds exe bs d)) (\<lambda>d. True)"
proof -
  have "triple (file_holds exe bs) (t_map_err Io_error (sha256_of sha256 exe)) (\<lambda>h d. file_holds exe bs d \<and> h = sha256 bs) (\<lambda>d. True)"
    by (rule triple_map_err, rule triple_sha256_of) (auto simp: file_holds_def)
  moreover have "triple (\<lambda>d. file_holds exe bs d \<and> h = sha256 bs)
      (if \<not> eq_ignore_case h expected then t_then (t_ignore (remove_task_file exe)) (t_fail (msg h)) else t_return exe)
      (\<lambda>p d. p = exe \<and> (\<exists>bs. published sha256 web release bs \<and> file_holds exe bs d)) (\<lambda>d. True)" for h msg
  proof (rule triple_fact, rule triple_cases(1))
    have "triple (file_holds exe bs) (t_ignore (remove_task_file exe)) (\<lambda>_ d. True) (\<lambda>d. True)"
      unfolding remove_task_file_def by (rule triple_ignore, rule triple_statement) simp_all
    then show "triple (file_holds exe bs) (t_then (t_ignore (remove_task_file exe)) (t_fail (msg h)))
        (\<lambda>p d. p = exe \<and> (\<exists>bs. published sha256 web release bs \<and> file_holds exe bs d)) (\<lambda>d. True)"
      by (rule triple_then) (simp add: triple_fail)
  next
    assume "h = sha256 bs" "\<not> \<not> eq_ignore_case h expected"
    with assms have "published sha256 web release bs" by (auto simp: published_def)
    then show "triple (file_holds exe bs) (t_return exe)
        (\<lambda>p d. p = exe \<and> (\<exists>bs. published sha256 web release bs \<and> file_holds exe bs d)) (\<lambda>d. True)"
      by (intro triple_return) auto
  qed
  ultimately show ?thesis unfolding check_staged_def by (intro triple_bind)
qed


lemma triple_download_and_verify:
  "triple (\<lambda>d. True) (download_and_verify sha256 web release dir)
     (\<lambda>p d. p = staged_exe dir release \<and> (\<exists>bs. published sha256 web release bs \<and> file_holds p bs d)) (\<lambda>d. True)"
proof -
  let ?exe = "staged_exe dir release" and ?sum = "staged_checksum dir release"
  let ?R = "\<lambda>p d. p = ?exe \<and> (\<exists>bs. published sha256 web release bs \<and> file_holds ?exe bs d)"
  let ?H = "\<lambda>d. \<exists>bs. served web (ra_url (ri_exe release)) bs \<and> file_holds ?exe bs d"
  let ?K = "\<lambda>d. \<exists>bs. served web (ra_url (ri_checksum release)) bs \<and> file_holds ?sum bs d"
  have other: "?H (perform (Write_file ?sum f) d)" if "?H d" for d f
    using that file_holds_other [of ?sum ?exe] staged_paths [of dir release] by metis
  have exe: "triple (\<lambda>d. True) (download_to_file web (ra_url (ri_exe release)) ?exe) (\<lambda>_. ?H) (\<lambda>d. True)"
    by (rule triple_mono [OF triple_download [of "\<lambda>d. True"]]) simp_all
  have sum: "triple ?H (t_catch (download_to_file web (ra_url (ri_checksum release)) ?sum))
      (\<lambda>got d. ?H d \<and> (\<forall>n. got = Inr n \<longrightarrow> ?K d)) (\<lambda>d. True)"
    by (rule triple_catch, rule triple_mono [OF triple_download [of ?H, OF other]]) auto
  have gone: "triple ?H (t_then (t_ignore (remove_task_file ?exe)) (t_fail e)) ?R (\<lambda>d. True)" for e
  proof (rule triple_then)
    show "triple ?H (t_ignore (remove_task_file ?exe)) (\<lambda>_ d. True) (\<lambda>d. True)"
      unfolding remove_task_file_def by (rule triple_ignore, rule triple_statement) simp_all
  qed (simp add: triple_fail)
  have read: "triple (\<lambda>d. ?H d \<and> ?K d) (t_map_err Io_error (read_to_string ?sum))
      (\<lambda>body d. ?H d \<and> (\<exists>bs. served web (ra_url (ri_checksum release)) bs \<and> utf8_text bs = Some body)) (\<lambda>d. True)"
    unfolding read_to_string_def
    by (rule triple_map_err, rule triple_bind
        [where Q = "\<lambda>f d. ?H d \<and> (\<exists>bs. served web (ra_url (ri_checksum release)) bs \<and> fi_bytes f = bs)"];
        rule triple_file_at triple_lift) (auto simp: file_holds_def outcome_simps)
  have cleaned: "triple ?H (t_ignore (remove_task_file ?sum)) (\<lambda>_. ?H) (\<lambda>d. True)"
    unfolding remove_task_file_def by (rule triple_ignore, rule triple_statement) (rule other)
  have judged: "triple ?H (case parse_checksum_body body of
        None \<Rightarrow> t_then (t_ignore (remove_task_file ?exe)) (t_fail e)
      | Some expected \<Rightarrow> check_staged sha256 ?exe expected) ?R (\<lambda>d. True)"
    if sum: "\<exists>bs. served web (ra_url (ri_checksum release)) bs \<and> utf8_text bs = Some body" for body e
  proof (cases "parse_checksum_body body")
    case None
    then show ?thesis by (simp add: gone)
  next
    case (Some expected)
    from sum obtain bs where bs: "served web (ra_url (ri_checksum release)) bs" "utf8_text bs = Some body" by blast
    have "triple (\<lambda>d. file_holds ?exe eb d) (check_staged sha256 ?exe expected) ?R (\<lambda>d. True)"
      if "served web (ra_url (ri_exe release)) eb" for eb
      by (rule triple_check_staged [OF that bs Some])
    then have "triple ?H (check_staged sha256 ?exe expected) ?R (\<lambda>d. True)"
      unfolding triple_def by blast
    then show ?thesis by (simp add: Some)
  qed
  have rest: "triple (\<lambda>d. ?H d \<and> (\<forall>n. got = Inr n \<longrightarrow> ?K d)) (case got of
       Inl e \<Rightarrow> t_then (t_ignore (remove_task_file ?exe)) (t_fail e)
     | Inr n \<Rightarrow> t_bind (t_map_err Io_error (read_to_string ?sum)) (\<lambda>body.
           t_then (t_ignore (remove_task_file ?sum))
           (case parse_checksum_body body of
              None \<Rightarrow> t_then (t_ignore (remove_task_file ?exe)) (t_fail e')
            | Some expected \<Rightarrow> check_staged sha256 ?exe expected))) ?R (\<lambda>d. True)" for got :: "update_error + nat" and e'
  proof (cases got)
    case (Inl e)
    have "triple (\<lambda>d. ?H d \<and> (\<forall>n. got = Inr n \<longrightarrow> ?K d)) (t_then (t_ignore (remove_task_file ?exe)) (t_fail e)) ?R (\<lambda>d. True)"
      by (rule triple_mono [OF gone]) auto
    then show ?thesis by (simp add: Inl)
  next
    case (Inr n)
    have "triple (\<lambda>d. ?H d \<and> ?K d) (t_bind (t_map_err Io_error (read_to_string ?sum)) (\<lambda>body.
           t_then (t_ignore (remove_task_file ?sum))
           (case parse_checksum_body body of
              None \<Rightarrow> t_then (t_ignore (remove_task_file ?exe)) (t_fail e')
            | Some expected \<Rightarrow> check_staged sha256 ?exe expected))) ?R (\<lambda>d. True)"
      by (rule triple_bind [OF read], rule triple_fact, rule triple_then [OF cleaned judged])
    then show ?thesis by (simp add: Inr)
  qed
  have "triple (\<lambda>d. True) (download_and_verify sha256 web release dir) ?R (\<lambda>d. True)"
    unfolding download_and_verify_def Let_def
    by (rule triple_then [OF exe triple_bind [OF sum rest]])
  then show ?thesis by (rule triple_mono) auto
qed

text \<open>
  C32. An executable that the updater accepts is, byte for byte, the one the release's address served, and its
  SHA-256 is the first word of the checksum file the release published, whatever fails on the way.
\<close>
theorem accepted_update_is_published:
  assumes "alone w" "download_and_verify sha256 web release dir w = (Inr p, w')"
  shows "p = staged_exe dir release \<and> (\<exists>bs. published sha256 web release bs \<and> file_holds p bs (ts_data w'))"
  using tripleD [OF triple_download_and_verify assms(1) _ assms(2)] by auto

text \<open>
  C33. The comment on the download says that a failed attempt never leaves an unverified executable: when the
  checksum file is not valid UTF-8, the download fails and the unverified executable stays.
\<close>
theorem unverified_executable_stays:
  assumes "smooth w" "served web (ra_url (ri_exe release)) bs"
    and "served web (ra_url (ri_checksum release)) sum_bytes" "utf8_text sum_bytes = None"
  shows "\<exists>e w'. download_and_verify sha256 web release dir w = (Inl e, w') \<and>
     file_holds (staged_exe dir release) bs (ts_data w')"
proof -
  have got: "get_body f (web (ra_url (ri_exe release))) = Inr bs" "get_body f (web (ra_url (ri_checksum release))) = Inr sum_bytes" for f
    using assms(2,3) by (simp_all add: get_body_Inr)
  show ?thesis
    unfolding download_and_verify_def Let_def download_to_file_def create_stage_def write_all_def read_to_string_def file_at_def act_def
    using staged_paths [of dir release]
    by (simp add: t_then_def t_bind_def t_lift_def t_map_err_def t_catch_def t_return_def got smooth_step smooth_update assms(1,4)
        put_data_file_def append_bytes_def file_holds_def outcome_simps)
qed


subsection \<open>Examples\<close>

definition example_release :: release_info where
  "example_release = \<lparr>ri_version = ''0.2'', ri_exe = \<lparr>ra_name = exe_asset_name, ra_url = ''e'', ra_size = None\<rparr>,
     ri_checksum = \<lparr>ra_name = checksum_asset_name, ra_url = ''c'', ra_size = None\<rparr>\<rparr>"

definition example_web :: "byte list \<Rightarrow> string \<Rightarrow> web_answer" where
  "example_web checksum_bytes url = Answer 200 ''200 OK'' (Inr (if url = ''e'' then [1, 2] else checksum_bytes))"

definition update_state :: task_state where
  "update_state =
     \<lparr>ts_data = \<lparr>d_installed = [], d_operations = [], d_settings = Map.empty, d_files = Map.empty, d_loaded = None\<rparr>,
      ts_script = (\<lambda>_. quiet), ts_step = 0, ts_own = [], ts_stage = []\<rparr>"

lemma update_state_smooth: "smooth update_state" "alone update_state"
  by (simp_all add: smooth_def alone_def update_state_def quiet_def)

theorem accepted_update_is_published_witness:
  "\<exists>w'. download_and_verify (\<lambda>b. ''AB'') (example_web [97, 98, 32, 120]) example_release ''u'' update_state =
       (Inr ''u/stt-server-0.2.exe'', w') \<and>
     (\<exists>bs. published (\<lambda>b. ''AB'') (example_web [97, 98, 32, 120]) example_release bs \<and> file_holds ''u/stt-server-0.2.exe'' bs (ts_data w'))"
proof -
  let ?run = "download_and_verify (\<lambda>b. ''AB'') (example_web [97, 98, 32, 120]) example_release ''u'' update_state"
  have "fst ?run = Inr ''u/stt-server-0.2.exe''" by code_simp
  then obtain w' where run: "?run = (Inr ''u/stt-server-0.2.exe'', w')" by (metis prod.collapse)
  from accepted_update_is_published [OF update_state_smooth(2) run] run show ?thesis by blast
qed

theorem unverified_executable_stays_witness:
  "\<exists>e w'. download_and_verify (\<lambda>b. ''AB'') (example_web [255]) example_release ''u'' update_state = (Inl e, w') \<and>
     file_holds ''u/stt-server-0.2.exe'' [1, 2] (ts_data w')"
proof -
  have "served (example_web [255]) (ra_url (ri_exe example_release)) [1, 2]"
    "served (example_web [255]) (ra_url (ri_checksum example_release)) [255]"
    by (simp_all add: served_def example_web_def example_release_def)
  moreover have "utf8_text [255] = None" by code_simp
  moreover have "staged_exe ''u'' example_release = ''u/stt-server-0.2.exe''" by code_simp
  ultimately show ?thesis using unverified_executable_stays [OF update_state_smooth(1), of "example_web [255]" example_release "[1, 2]" "[255]" "\<lambda>b. ''AB''" "''u''"]
    by metis
qed

end
