(* ===== verification/Spec2Isabelle.thy ===== *)
theory Spec2Isabelle
  imports Import Verify Vad Gguf_Probe Update_Properties Update_Prepare Auth Inference_Queue Response_Format
    Command_Line Startup Import_User Audio Api_Gates Realtime_Properties Dropin_Safety Server_Control Self_Update
begin

text \<open>
  A verification development for the speech-to-text server of this repository, a Rust program that serves
  transcription, translation and speech detection over HTTP and WebSocket, keeps models in a data folder and
  updates itself. The models are translations of \<open>src/src/*.rs\<close>; the engine that runs a model, the voice
  detector's network and the operating system are parameters or come from a script over which the theorems
  quantify.

  \<^bold>\<open>The program and how its parts meet.\<close> A request passes the update gate and the network gate of the router,
  then its handler checks the bearer token. Transcriptions plan their run from the loaded model's capabilities,
  wait for the one inference slot, bind the model they name (loading it if another is loaded), run the engine
  and format the answer. A live connection holds the slot for a stream or for one turn at a time. Model
  management starts durable operations: downloads, uploads, verifications, refreshes of the drop-in folder and
  imports from another installation all change the tables of \<open>state.db\<close> and the files of the data folder, and
  meet there. An opening server reconciles both before it serves. The updater stops the server, replaces its
  executable under a journal and restarts or rolls back; the command line starts and stops servers through the
  lock and the discovery file of the data folder.

  \<^bold>\<open>Foundations.\<close> \<open>Prelude\<close> has Rust's results as sums, checked integers, text and paths; \<open>Json\<close> the JSON values;
  \<open>Floats\<close> single-precision numbers with rounding; \<open>Errors\<close> (\<open>errors.rs\<close>) the errors of handlers and the mapping of
  engine errors; \<open>Auth\<close> (\<open>auth.rs\<close>) the two access levels.

  \<^bold>\<open>Models, settings, network.\<close> \<open>Catalog\<close> (\<open>catalog.rs\<close>) and \<open>Capabilities\<close> (\<open>capabilities.rs\<close>) are the catalog and
  what a model can do, as claimed and as loaded. \<open>Network\<close> (\<open>network.rs\<close>, the listener of \<open>api.rs\<close>) is the reach of
  the server; \<open>Config\<close> its settings and the configuration routes; \<open>Startup\<close> (\<open>app.rs\<close>) the opening of a data folder;
  \<open>Model_Views\<close> and \<open>Model_Selection\<close> (\<open>api.rs\<close>, \<open>engine.rs\<close>) the reports on models and the selection, loading,
  unloading and removal of them. Other requests and workers act between the steps of a removal, so the model shows
  that an operation may start after the removal has looked for one.

  \<^bold>\<open>Running a model.\<close> \<open>Audio\<close> (\<open>audio.rs\<close>) decodes WAV files and live audio, \<open>Vad\<close> (\<open>vad.rs\<close>) finds speech, \<open>Run_Plan\<close>
  (\<open>run_plan.rs\<close>) plans a run, \<open>Response_Format\<close> (\<open>format.rs\<close>) formats its result, \<open>Inference_Queue\<close> (\<open>queue.rs\<close>) is the
  slot with its two waiting lists, \<open>Transcription\<close> the audio routes of \<open>api.rs\<close>, \<open>Api_Gates\<close> the route table with both
  gates (HEAD falls back to a route's GET handler, OPTIONS is answered before any route). \<open>Realtime_Session\<close> and \<open>Realtime\<close> (\<open>realtime.rs\<close>) are the live session and its connection as a transition
  system of a task and a worker thread over two channels; \<open>Realtime_Texts\<close>, \<open>Realtime_Settle\<close> and
  \<open>Realtime_Properties\<close> hold its invariants and properties.

  \<^bold>\<open>Files and operations.\<close> \<open>Store\<close> (\<open>store.rs\<close>) has the rows, \<open>Operations\<close> every statement on them as an action,
  \<open>Tasks\<close> the handlers and workers as programs of such steps, \<open>Operation_Routes\<close> (\<open>operations.rs\<close>) views and
  cancellation. \<open>Download\<close> (\<open>download.rs\<close>), \<open>Import\<close> (\<open>import.rs\<close>), \<open>Verify\<close> (\<open>verify.rs\<close>), \<open>Dropin\<close> (\<open>dropin.rs\<close>, with the
  header probe \<open>Gguf_Probe\<close> of \<open>gguf_probe.rs\<close>) and \<open>Import_User\<close> (\<open>import_user.rs\<close>) are the operations. Between the
  steps of a download or upload other tasks act: anything that leaves its operation (cancelling it
  apart) and its staged file alone. (The staged file of a download is named by its hash, so a cancelled worker that
  still waits for the network shares it with its successor; that overlap is not covered.) Every step may fail, and a failing one may leave a part of its effect.
  \<open>Download_Safety\<close> has weakest preconditions and frames for that setting. Verifications, refreshes, imports from another
  installation and the download of an executable are proved for tasks that run alone, with the triples of
  \<open>Task_Triples\<close>; \<open>Dropin_Safety\<close> has the invariant of a refresh.

  \<^bold>\<open>Updates and control.\<close> \<open>Self_Update\<close> (\<open>selfupdate.rs\<close>) finds and verifies a release. \<open>Update_Paths\<close>,
  \<open>Update_Transaction\<close> and \<open>Update_Prepare\<close> (\<open>update_transaction.rs\<close>) are the text handling, the journalled worker with its
  startup guard (which reads the journal twice, compares the transaction named by the environment and the resolved
  paths of the executables, and takes the lock), and the preparation, over effects that can fail or stop the machine at every step;
  \<open>Update_Safety\<close> and \<open>Update_Properties\<close> have the invariants and properties. \<open>Command_Line\<close> (\<open>cli.rs\<close>) parses the
  command line, \<open>Server_Control\<close> (\<open>bin/server.rs\<close>, \<open>discovery.rs\<close>) starts and stops servers.

  \<^bold>\<open>What the lemmas show.\<close> Completed operations have registered exactly catalog content (downloads, uploads,
  imports), what is found damaged never counts as verified and is marked or unregistered, a cancelled operation stays
  so and promotes nothing under its id, a removal itself touches nothing else, and a completed refresh of an
  existing folder leaves no verified drop-in row whose file is another. The slot is held by at most one request under every
  interleaving, and a waiter gets it once those ahead of it have been served or have left; a live client's deltas
  compose to the final text, its slot is free before it reads the end, and a committed item ends if the engine
  returns and the last conversion succeeds. Plans ask only for what the loaded model reports of itself, the
  capability report agrees with them control by control (its exceptions are stated), and a transcription runs the
  model it names. Access over the network and by token, and who may start during an update, are characterised
  exactly. An update never loses the installed executable, whatever is interrupted, and what it
  installs is what the release published. Parsers and printers of headers and of command lines are inverse, the
  probe reads enough, decoding ends for any resampler that yields something every so many flushes. Some theorems state how the code departs from its intent: a failed commit
  of live audio wedges its connection, a drop-in model selected as default is reported as missing, a refresh takes
  over imported models and keeps a replaced file under the old id, a bind host with colons never starts, a
  failed write of the journal can hide an interrupted rollback, a removal can miss an operation that starts while
  it runs, \<open>status\<close> can hide a living server, and an
  unverified executable can stay behind.

  \<^bold>\<open>Interfaces.\<close> \<open>incremental_parser\<close> (a parser whose result on a prefix is final), interpreted by the header parser,
  is why the growing prefix of the probe is enough; \<open>permit_queue\<close>, interpreted by the waiting lists, is what
  admission relies on.

  \<^bold>\<open>Bounds and fuel.\<close> The flushing of the resampler takes fuel: where \<open>p\<close> flushes in a row always give a
  sample, \<open>p\<close> times the 9600000 samples of ten minutes at 16 kHz plus the resampler's delay is proved to be enough.
  (An FFT resampler gives nothing until it has a whole block, so \<open>p\<close> is not taken to be 1; that such a \<open>p\<close> exists is
  what is asked of the library.) The binding of a requested model takes as many rounds as its
  deadline allows at 50 ms each, and three more. The updater polls a stopping server at most 301 times and a starting one five
  times a second up to its timeout. \<open>stop\<close> waits 75 rounds of 200 ms and \<open>start\<close> 100 of 300 ms; both loops are total
  functions, and so are all others but those over the engine's channels, which are step relations.

  \<^bold>\<open>Not modelled.\<close> WebSocket framing, base64, multipart decoding, the JSON parser and SQLite's own behaviour are
  libraries: their results are inputs. The engine, the neural scorer and the resampler are parameters with the
  laws the source relies on as hypotheses. A panic of the engine while a requested model is loaded, the priority a
  request is queued with and the limit on waiting requests (both in the queue's model, but only outcomes in that of
  the audio routes), and the steps of an opening before its models (token files are modelled on their own; the
  database and failing statements are not) are left out. Process spawning, the registry, the Windows service, access control
  lists, system information (\<open>sysinfo.rs\<close>, \<open>service.rs\<close>, \<open>service_names.rs\<close>, \<open>autostart.rs\<close>) and the serving loop are
  operating system and runtime. The commands that only call a running server and print its answers
  (\<open>model_cli.rs\<close> and the rest of \<open>bin/server.rs\<close>) keep no state. Schema migrations, and the routes that only format
  data (system information, recommendations, client tokens), are left out. Text is taken as bytes where the
  code's case folding and trimming go beyond ASCII. Two spellings of one path are two paths.
\<close>

end
